(* ===== verification/SO_Prelude.thy ===== *)
theory SO_Prelude
  imports Main "HOL-Library.Char_ord" "HOL-Library.List_Lexorder" "HOL-Library.Sublist"
    "HOL-Library.Word"
begin

text \<open>
  Shared vocabulary of the SuperOps development.

  Go's \<open>(value, error)\<close> pairs are values of a sum type, \<open>Inl\<close> for the error; \<open>bindR\<close> is the
  \<open>if err != nil { return err }\<close> between two calls. Strings are byte strings (\<open>char list\<close>),
  compared bytewise as Go's \<open><\<close> and Postgres' \<open>COLLATE "C"\<close> do. The section on strings models the
  functions of Go's \<open>strings\<close> package that the modelled code calls: \<open>Trim\<close> with a one-byte cutset,
  \<open>Split\<close> with a one-byte separator, and \<open>TrimSpace\<close> and \<open>ToLower\<close> on ASCII text.
\<close>

section \<open>Results\<close>

named_theorems result_simps \<open>rewriting of result pipelines\<close>
named_theorems path_simps \<open>rewriting of materialized paths\<close>

definition bindR :: "'e + 'a \<Rightarrow> ('a \<Rightarrow> 'e + 'b) \<Rightarrow> 'e + 'b" where
  "bindR m f = (case m of Inl e \<Rightarrow> Inl e | Inr x \<Rightarrow> f x)"

lemma bindR_simps [simp]:
  "bindR (Inl e) f = Inl e"
  "bindR (Inr x) f = f x"
  by (simp_all add: bindR_def)

lemma bindR_Inr_iff [result_simps]:
  "bindR m f = Inr y \<longleftrightarrow> (\<exists>x. m = Inr x \<and> f x = Inr y)"
  by (cases m) simp_all

lemma bindR_Inl_iff [result_simps]:
  "bindR m f = Inl e \<longleftrightarrow> m = Inl e \<or> (\<exists>x. m = Inr x \<and> f x = Inl e)"
  by (cases m) simp_all

lemma if_Inl_eq_Inr [result_simps]:
  "(if b then Inl e else m) = Inr y \<longleftrightarrow> \<not> b \<and> m = Inr y"
  "(if b then m else Inl e) = Inr y \<longleftrightarrow> b \<and> m = Inr y"
  by auto

lemma bindR_cong [fundef_cong]:
  "m = m' \<Longrightarrow> (\<And>x. m' = Inr x \<Longrightarrow> f x = f' x) \<Longrightarrow> bindR m f = bindR m' f'"
  by (cases m') simp_all

section \<open>Strings\<close>

fun split_on :: "'a \<Rightarrow> 'a list \<Rightarrow> 'a list list" where
  "split_on c [] = [[]]"
| "split_on c (x # xs) =
     (if x = c then [] # split_on c xs
      else case split_on c xs of [] \<Rightarrow> [[x]] | y # ys \<Rightarrow> (x # y) # ys)"

definition trim_char :: "'a \<Rightarrow> 'a list \<Rightarrow> 'a list" where
  "trim_char c s = rev (dropWhile ((=) c) (rev (dropWhile ((=) c) s)))"

definition is_space :: "char \<Rightarrow> bool" where
  "is_space c \<longleftrightarrow> c = CHR '' '' \<or> (CHR 0x09 \<le> c \<and> c \<le> CHR 0x0D)"

definition trim_space :: "string \<Rightarrow> string" where
  "trim_space s = rev (dropWhile is_space (rev (dropWhile is_space s)))"

definition is_digit :: "char \<Rightarrow> bool" where
  "is_digit c \<longleftrightarrow> CHR ''0'' \<le> c \<and> c \<le> CHR ''9''"

definition is_lower :: "char \<Rightarrow> bool" where
  "is_lower c \<longleftrightarrow> CHR ''a'' \<le> c \<and> c \<le> CHR ''z''"

definition is_upper :: "char \<Rightarrow> bool" where
  "is_upper c \<longleftrightarrow> CHR ''A'' \<le> c \<and> c \<le> CHR ''Z''"

definition is_hex :: "char \<Rightarrow> bool" where
  "is_hex c \<longleftrightarrow> is_digit c \<or> (CHR ''a'' \<le> c \<and> c \<le> CHR ''f'')"

definition to_lower_char :: "char \<Rightarrow> char" where
  "to_lower_char c = (if is_upper c then char_of (of_char c + 32 :: nat) else c)"

definition to_lower :: "string \<Rightarrow> string" where
  "to_lower s = map to_lower_char s"

lemma split_on_nonempty [simp]: "split_on c xs \<noteq> []"
  by (induction xs) (auto split: list.splits)

lemma split_on_no_sep [simp]: "c \<notin> set xs \<Longrightarrow> split_on c xs = [xs]"
  by (induction xs) auto

lemma split_on_append_sep [simp]:
  "c \<notin> set xs \<Longrightarrow> split_on c (xs @ c # ys) = xs # split_on c ys"
  by (induction xs) auto

lemma split_on_pieces: "y \<in> set (split_on c xs) \<Longrightarrow> c \<notin> set y"
  by (induction xs arbitrary: y) (auto split: if_splits list.splits)

lemma concat_split_on:
  "concat (map (\<lambda>y. y @ [c]) (butlast (split_on c xs))) @ last (split_on c xs) = xs"
  by (induction xs) (auto split: list.splits)

lemma split_on_eq_two:
  "split_on c xs = [a, b] \<longleftrightarrow> xs = a @ c # b \<and> c \<notin> set a \<and> c \<notin> set b"
proof
  assume l: "split_on c xs = [a, b]"
  then have "a @ c # b = xs"
    using concat_split_on [of c xs] by simp
  moreover have "c \<notin> set a" "c \<notin> set b"
    using l split_on_pieces [of _ c xs] by simp_all
  ultimately show "xs = a @ c # b \<and> c \<notin> set a \<and> c \<notin> set b" by simp
next
  assume "xs = a @ c # b \<and> c \<notin> set a \<and> c \<notin> set b"
  then show "split_on c xs = [a, b]" by simp
qed

section \<open>Lists and sorting\<close>

text \<open>Go's \<open>sort.Strings\<close> over a deduplicated slice, and the frame facts of keyed row updates.\<close>

definition opt_list :: "'a option \<Rightarrow> 'a list" where
  "opt_list x = (case x of None \<Rightarrow> [] | Some y \<Rightarrow> [y])"

lemma mem_opt_list [simp]: "y \<in> set (opt_list x) \<longleftrightarrow> x = Some y"
  by (auto simp: opt_list_def split: option.splits)

lemma bex_opt_list [simp]: "(\<exists>y \<in> set (opt_list x). P y) \<longleftrightarrow> (\<exists>y. x = Some y \<and> P y)"
  by auto

lemma find_SomeD: "find P xs = Some x \<Longrightarrow> x \<in> set xs \<and> P x"
  by (induction xs) (auto split: if_splits)

lemma find_unique:
  assumes "x \<in> set xs" "P x" "\<And>y. y \<in> set xs \<Longrightarrow> P y \<Longrightarrow> y = x"
  shows "find P xs = Some x"
proof (cases "find P xs")
  case None
  with assms(1,2) show ?thesis by (auto simp: find_None_iff)
next
  case (Some y)
  then have "y \<in> set xs" "P y" by (auto dest: find_SomeD)
  with Some assms(3) show ?thesis by simp
qed

section \<open>Guarded machines\<close>

text \<open>
  A component whose operations are total functions of its state, each with a guard its callers establish, and an
  invariant every guarded operation keeps. What a history of operations leads to satisfies the invariant; the
  components interpret the locale on their own operations.
\<close>

fun guarded_run :: "('op \<Rightarrow> 's \<Rightarrow> 's) \<Rightarrow> ('op \<Rightarrow> 's \<Rightarrow> bool) \<Rightarrow> 'op list \<Rightarrow> 's \<Rightarrow> 's option" where
  "guarded_run step ok [] s = Some s"
| "guarded_run step ok (op # ops) s = (if ok op s then guarded_run step ok ops (step op s) else None)"

lemma guarded_run_append:
  "guarded_run step ok (ops @ ops') s = Option.bind (guarded_run step ok ops s) (guarded_run step ok ops')"
  by (induction ops arbitrary: s) auto

locale guarded_machine =
  fixes step :: "'op \<Rightarrow> 's \<Rightarrow> 's" and ok :: "'op \<Rightarrow> 's \<Rightarrow> bool" and inv :: "'s \<Rightarrow> bool"
  assumes step_inv: "inv s \<Longrightarrow> ok op s \<Longrightarrow> inv (step op s)"
begin

lemma run_inv:
  "inv s \<Longrightarrow> guarded_run step ok ops s = Some s' \<Longrightarrow> inv s'"
  by (induction ops arbitrary: s) (auto split: if_splits intro: step_inv)

lemma run_inv_prefix:
  assumes "inv s" "guarded_run step ok (ops @ ops') s = Some s'"
  obtains m where "guarded_run step ok ops s = Some m" "inv m"
  using assms run_inv [of s ops] by (auto simp: guarded_run_append bind_eq_Some_conv)

end

end
