(* ===== verification/Authz_Object.thy ===== *)
theory Authz_Object
  imports SO_Prelude
begin

text \<open>
  Object and subject references, the capability ladder, access keys and materialized paths:
  \<open>backend/internal/authz/object.go\<close>. The uuid library (\<open>github.com/google/uuid\<close>) is a parameter:
  \<open>uuid_parse\<close> of the environment is \<open>uuid.Parse\<close> followed by \<open>String\<close>, \<open>None\<close> for a parse error.
  The second half of the theory is the algebra of paths: a stored path is the rendering of its list of
  segments, a string prefix of a stored path is a prefix of that list, and so the ancestors that
  \<open>ancestorPaths\<close> (\<open>checker.go\<close>) enumerates are exactly the stored paths whose subtree predicate matches.
\<close>

section \<open>Capabilities\<close>

type_synonym capability = "8 word"

definition CapNone :: capability where "CapNone = 0"
definition CapRead :: capability where "CapRead = 1"
definition CapComment :: capability where "CapComment = 2"
definition CapWrite :: capability where "CapWrite = 3"
definition CapShare :: capability where "CapShare = 4"
definition CapAdmin :: capability where "CapAdmin = 5"

lemmas cap_defs = CapNone_def CapRead_def CapComment_def CapWrite_def CapShare_def CapAdmin_def

definition capabilityNames :: "capability \<Rightarrow> string option" where
  "capabilityNames = map_of
     [(CapNone, ''none''), (CapRead, ''read''), (CapComment, ''comment''),
      (CapWrite, ''write''), (CapShare, ''share''), (CapAdmin, ''admin'')]"

definition capabilityValues :: "string \<Rightarrow> capability option" where
  "capabilityValues = map_of
     [(''read'', CapRead), (''comment'', CapComment), (''write'', CapWrite),
      (''share'', CapShare), (''admin'', CapAdmin)]"

definition Implies :: "capability \<Rightarrow> capability \<Rightarrow> bool" where
  "Implies c want = (if c = CapNone \<or> want = CapNone then False else want \<le> c)"

definition ParseCapability :: "string \<Rightarrow> capability option" where
  "ParseCapability s = capabilityValues (to_lower (trim_space s))"

datatype authz_error =
    InvalidObjectType string
  | InvalidSubjectType string
  | UnsupportedSubjectType string
  | CannotBeGranted capability
  | InvalidObjectId
  | InvalidSubjectId
  | InvalidParentId
  | OwnParent
  | PathTooDeep
  | ErrNotRegistered
  | ErrDerivedType
  | ErrNativeType
  | ErrMoveCycle
  | ErrMoveTooDeep
  | ErrCrossWorkspaceMove
  | DbError string

definition storable :: "capability \<Rightarrow> authz_error + string" where
  "storable c = (case capabilityNames c of
       None \<Rightarrow> Inl (CannotBeGranted c)
     | Some name \<Rightarrow> if c = CapNone then Inl (CannotBeGranted c) else Inr name)"

section \<open>References\<close>

definition TypeWorkspace :: string where "TypeWorkspace = ''workspace''"
definition TypeChannel :: string where "TypeChannel = ''channel''"
definition TypeFile :: string where "TypeFile = ''file''"
definition TypeFolder :: string where "TypeFolder = ''folder''"
definition TypeDoc :: string where "TypeDoc = ''doc''"
definition TypeProject :: string where "TypeProject = ''project''"
definition TypeIssue :: string where "TypeIssue = ''issue''"

lemmas type_defs = TypeWorkspace_def TypeChannel_def TypeFile_def TypeFolder_def TypeDoc_def
  TypeProject_def TypeIssue_def

definition liveTypes :: "string list" where
  "liveTypes = [TypeChannel, TypeDoc]"

definition derivedTypes :: "string \<Rightarrow> bool" where
  "derivedTypes t \<longleftrightarrow> t = TypeWorkspace \<or> t = TypeChannel \<or> t = TypeFile"

definition containerKeyPrefix :: "string \<Rightarrow> string option" where
  "containerKeyPrefix = map_of [(TypeChannel, ''c-''), (TypeFolder, ''f-'')]"

definition SubjectUser :: string where "SubjectUser = ''user''"
definition SubjectGroup :: string where "SubjectGroup = ''group''"
definition SubjectWorkspace :: string where "SubjectWorkspace = ''workspace''"
definition SubjectLink :: string where "SubjectLink = ''link''"

lemmas subject_defs = SubjectUser_def SubjectGroup_def SubjectWorkspace_def SubjectLink_def

definition subjectKeyPrefix :: "string \<Rightarrow> string option" where
  "subjectKeyPrefix = map_of
     [(SubjectUser, ''u-''), (SubjectGroup, ''g-''), (SubjectWorkspace, ''w-''), (SubjectLink, ''g-'')]"

record ObjectRef =
  obj_type :: string
  obj_id :: string

record SubjectRef =
  sub_type :: string
  sub_id :: string

definition UserSubject :: "string \<Rightarrow> SubjectRef" where
  "UserSubject i = \<lparr>sub_type = SubjectUser, sub_id = i\<rparr>"

definition WorkspaceSubject :: "string \<Rightarrow> SubjectRef" where
  "WorkspaceSubject i = \<lparr>sub_type = SubjectWorkspace, sub_id = i\<rparr>"

definition LinkSubject :: "string \<Rightarrow> SubjectRef" where
  "LinkSubject i = \<lparr>sub_type = SubjectLink, sub_id = i\<rparr>"

definition WorkspaceObject :: "string \<Rightarrow> ObjectRef" where
  "WorkspaceObject i = \<lparr>obj_type = TypeWorkspace, obj_id = i\<rparr>"

definition ChannelObject :: "string \<Rightarrow> ObjectRef" where
  "ChannelObject i = \<lparr>obj_type = TypeChannel, obj_id = i\<rparr>"

definition FileObject :: "string \<Rightarrow> ObjectRef" where
  "FileObject i = \<lparr>obj_type = TypeFile, obj_id = i\<rparr>"

definition FolderObject :: "string \<Rightarrow> ObjectRef" where
  "FolderObject i = \<lparr>obj_type = TypeFolder, obj_id = i\<rparr>"

definition ProjectObject :: "string \<Rightarrow> ObjectRef" where
  "ProjectObject i = \<lparr>obj_type = TypeProject, obj_id = i\<rparr>"

definition IssueObject :: "string \<Rightarrow> ObjectRef" where
  "IssueObject i = \<lparr>obj_type = TypeIssue, obj_id = i\<rparr>"

definition ObjectRef_String :: "ObjectRef \<Rightarrow> string" where
  "ObjectRef_String r = obj_type r @ '':'' @ obj_id r"

section \<open>Validation\<close>

definition MaxPathDepth :: nat where "MaxPathDepth = 32"

definition typePattern :: "string \<Rightarrow> bool" where
  "typePattern t \<longleftrightarrow> (case t of [] \<Rightarrow> False
     | c # cs \<Rightarrow> is_lower c \<and> length cs \<le> 31 \<and> list_all (\<lambda>x. is_lower x \<or> is_digit x) cs)"

definition validObjectType :: "string \<Rightarrow> authz_error + unit" where
  "validObjectType t = (if typePattern t then Inr () else Inl (InvalidObjectType t))"

definition validSubjectType :: "string \<Rightarrow> authz_error + unit" where
  "validSubjectType t =
     (if subjectKeyPrefix t = None then Inl (InvalidSubjectType t) else Inr ())"

text \<open>
  The environment of a call: the uuid library, the driver's conversion of a text parameter to a uuid
  column (\<open>None\<close>: Postgres refuses the value and the statement fails), which statements fail (by the
  label the code wraps the error with), the clock, and whether a live surface and an audit sink are wired.
\<close>

record env =
  uuid_parse :: "string \<Rightarrow> string option"
  pg_uuid :: "string \<Rightarrow> string option"
  db_fault :: "string \<Rightarrow> bool"
  now :: int
  has_revoker :: bool
  has_auditor :: bool

definition canonicalUUID :: "env \<Rightarrow> string \<Rightarrow> string option" where
  "canonicalUUID E s = uuid_parse E s"

definition normalize_object :: "env \<Rightarrow> ObjectRef \<Rightarrow> authz_error + ObjectRef option" where
  "normalize_object E o1 =
     bindR (validObjectType (obj_type o1)) (\<lambda>_.
       case canonicalUUID E (obj_id o1) of
         None \<Rightarrow> Inr None
       | Some i \<Rightarrow> Inr (Some \<lparr>obj_type = obj_type o1, obj_id = i\<rparr>))"

definition normalize_subject :: "env \<Rightarrow> SubjectRef \<Rightarrow> authz_error + SubjectRef option" where
  "normalize_subject E s =
     bindR (validSubjectType (sub_type s)) (\<lambda>_.
       case canonicalUUID E (sub_id s) of
         None \<Rightarrow> Inr None
       | Some i \<Rightarrow> Inr (Some \<lparr>sub_type = sub_type s, sub_id = i\<rparr>))"

definition SubjectKey :: "env \<Rightarrow> SubjectRef \<Rightarrow> string" where
  "SubjectKey E s = (case subjectKeyPrefix (sub_type s) of
       None \<Rightarrow> ''''
     | Some pre \<Rightarrow> (case canonicalUUID E (sub_id s) of None \<Rightarrow> '''' | Some i \<Rightarrow> pre @ i))"

definition ContainerKey :: "env \<Rightarrow> ObjectRef \<Rightarrow> string" where
  "ContainerKey E o1 = (case containerKeyPrefix (obj_type o1) of
       None \<Rightarrow> ''''
     | Some pre \<Rightarrow> (case canonicalUUID E (obj_id o1) of None \<Rightarrow> '''' | Some i \<Rightarrow> pre @ i))"

definition WorkspaceKey :: "env \<Rightarrow> string \<Rightarrow> string" where
  "WorkspaceKey E w = (case canonicalUUID E w of None \<Rightarrow> '''' | Some i \<Rightarrow> ''w-'' @ i)"

section \<open>Materialized paths\<close>

definition pathSegment :: "ObjectRef \<Rightarrow> string" where
  "pathSegment o1 = obj_type o1 @ '':'' @ obj_id o1"

definition buildPath :: "string \<Rightarrow> ObjectRef \<Rightarrow> string" where
  "buildPath parentPath o1 = parentPath @ pathSegment o1 @ ''/''"

definition pathSegments :: "string \<Rightarrow> string list" where
  "pathSegments path =
     (let trimmed = trim_char CHR ''/'' path
      in if trimmed = '''' then [] else split_on CHR ''/'' trimmed)"

definition pathDepth :: "string \<Rightarrow> nat" where
  "pathDepth path = length (pathSegments path)"

definition hasPrefixPath :: "string \<Rightarrow> string \<Rightarrow> bool" where
  "hasPrefixPath child parent = prefix parent child"

primrec ancestor_loop :: "string \<Rightarrow> string list \<Rightarrow> string list" where
  "ancestor_loop pre [] = []"
| "ancestor_loop pre (seg # segs) =
     (let pre' = pre @ seg @ ''/'' in pre' # ancestor_loop pre' segs)"

definition ancestorPaths :: "string \<Rightarrow> string list" where
  "ancestorPaths path =
     (let segs = pathSegments path
      in if length segs = 0 \<or> length segs > MaxPathDepth then []
         else ancestor_loop ''/'' segs)"

section \<open>Shapes\<close>

text \<open>
  The shapes the schema's CHECK constraints state (\<open>acl_object_path_shape\<close>, \<open>acl_key_shape\<close>): a
  canonical uuid is five groups of lowercase hex digits, a segment is \<open>type:uuid\<close>, a path is \<open>/\<close> and one
  or more segments each followed by \<open>/\<close>.
\<close>

definition uuid_shape :: "string \<Rightarrow> bool" where
  "uuid_shape u \<longleftrightarrow> map length (split_on CHR ''-'' u) = [8, 4, 4, 4, 12] \<and>
     list_all (list_all is_hex) (split_on CHR ''-'' u)"

definition seg_shape :: "string \<Rightarrow> bool" where
  "seg_shape s \<longleftrightarrow> (case split_on CHR '':'' s of
       [t, u] \<Rightarrow> typePattern t \<and> uuid_shape u | _ \<Rightarrow> False)"

definition path_shape :: "string \<Rightarrow> bool" where
  "path_shape p \<longleftrightarrow> (let parts = split_on CHR ''/'' p
     in 3 \<le> length parts \<and> hd parts = '''' \<and> last parts = '''' \<and>
        list_all seg_shape (butlast (tl parts)))"

definition render_path :: "string list \<Rightarrow> string" where
  "render_path segs = CHR ''/'' # concat (map (\<lambda>s. s @ ''/'') segs)"

lemma in_set_split_on_concat:
  "x \<in> set xs \<Longrightarrow> x = c \<or> (\<exists>y \<in> set (split_on c xs). x \<in> set y)"
  by (induction xs) (auto split: list.splits)

lemma uuid_shape_chars: "uuid_shape u \<Longrightarrow> x \<in> set u \<Longrightarrow> is_hex x \<or> x = CHR ''-''"
  using in_set_split_on_concat [of x u "CHR ''-''"]
  by (auto simp: uuid_shape_def list_all_iff)

lemma uuid_shape_no_sep:
  assumes "uuid_shape u"
  shows "CHR ''/'' \<notin> set u" "CHR '':'' \<notin> set u"
  using uuid_shape_chars [OF assms, of "CHR ''/''"] uuid_shape_chars [OF assms, of "CHR '':''"]
  by (auto simp: is_hex_def is_digit_def)

lemma uuid_shape_nonempty [simp]: "\<not> uuid_shape ''''"
  by (simp add: uuid_shape_def)

lemma typePattern_chars: "typePattern t \<Longrightarrow> x \<in> set t \<Longrightarrow> is_lower x \<or> is_digit x"
  by (cases t) (auto simp: typePattern_def list_all_iff)

lemma typePattern_no_sep:
  assumes "typePattern t"
  shows "CHR ''/'' \<notin> set t" "CHR '':'' \<notin> set t"
  using typePattern_chars [OF assms, of "CHR ''/''"] typePattern_chars [OF assms, of "CHR '':''"]
  by (auto simp: is_lower_def is_digit_def)

lemma seg_shape_iff:
  "seg_shape s \<longleftrightarrow> (\<exists>t u. s = t @ '':'' @ u \<and> typePattern t \<and> uuid_shape u)"
proof
  assume "seg_shape s"
  then obtain t u where "split_on CHR '':'' s = [t, u]" "typePattern t" "uuid_shape u"
    by (auto simp: seg_shape_def split: list.splits)
  then show "\<exists>t u. s = t @ '':'' @ u \<and> typePattern t \<and> uuid_shape u"
    by (auto simp: split_on_eq_two)
next
  assume "\<exists>t u. s = t @ '':'' @ u \<and> typePattern t \<and> uuid_shape u"
  then show "seg_shape s"
    by (auto simp: seg_shape_def typePattern_no_sep uuid_shape_no_sep)
qed

lemma seg_shape_pathSegment [simp]:
  "typePattern (obj_type r) \<Longrightarrow> uuid_shape (obj_id r) \<Longrightarrow> seg_shape (pathSegment r)"
  by (auto simp: seg_shape_iff pathSegment_def)

lemma seg_shape_no_slash: "seg_shape s \<Longrightarrow> CHR ''/'' \<notin> set s"
  by (auto simp: seg_shape_iff typePattern_no_sep uuid_shape_no_sep)

lemma seg_shape_nonempty: "seg_shape s \<Longrightarrow> s \<noteq> ''''"
  by (auto simp: seg_shape_iff)

lemma append_sep_inject:
  assumes "c \<notin> set a" "c \<notin> set b"
  shows "a @ c # u = b @ c # v \<longleftrightarrow> a = b \<and> u = v"
  using assms
proof (induction a arbitrary: b)
  case Nil
  then show ?case by (cases b) auto
next
  case (Cons x a)
  then show ?case by (cases b) auto
qed

lemma pathSegment_inject:
  assumes "typePattern (obj_type r)" "typePattern (obj_type r')"
  shows "pathSegment r = pathSegment r' \<longleftrightarrow> obj_type r = obj_type r' \<and> obj_id r = obj_id r'"
  using append_sep_inject [of "CHR '':''" "obj_type r" "obj_type r'"] typePattern_no_sep [OF assms(1)]
    typePattern_no_sep [OF assms(2)]
  by (simp add: pathSegment_def)

section \<open>The algebra of paths\<close>

lemma render_path_append_seg: "render_path segs @ s @ ''/'' = render_path (segs @ [s])"
  by (simp add: render_path_def)

lemma split_render_path:
  assumes "\<forall>s \<in> set segs. CHR ''/'' \<notin> set s"
  shows "split_on CHR ''/'' (render_path segs) = '''' # segs @ ['''']"
proof -
  have "split_on CHR ''/'' (concat (map (\<lambda>s. s @ ''/'') segs)) = segs @ ['''']"
    using assms by (induction segs) simp_all
  then show ?thesis by (simp add: render_path_def)
qed

lemma path_shape_iff:
  "path_shape p \<longleftrightarrow> (\<exists>segs. segs \<noteq> [] \<and> list_all seg_shape segs \<and> p = render_path segs)"
proof
  assume sh: "path_shape p"
  define parts where "parts = split_on CHR ''/'' p"
  from sh have l: "3 \<le> length parts" "hd parts = ''''" "last parts = ''''"
    and ok: "list_all seg_shape (butlast (tl parts))"
    by (simp_all add: path_shape_def Let_def parts_def)
  from l obtain a as where parts: "parts = a # as" "as \<noteq> []"
    by (cases parts; cases "tl parts") auto
  have "concat (map (\<lambda>y. y @ ''/'') (butlast parts)) @ last parts = p"
    unfolding parts_def by (rule concat_split_on)
  then have "p = render_path (butlast (tl parts))"
    using l parts by (simp add: render_path_def)
  moreover have "butlast (tl parts) \<noteq> []"
    using l(1) parts by (cases as) auto
  ultimately show "\<exists>segs. segs \<noteq> [] \<and> list_all seg_shape segs \<and> p = render_path segs"
    using ok by blast
next
  assume "\<exists>segs. segs \<noteq> [] \<and> list_all seg_shape segs \<and> p = render_path segs"
  then obtain segs where s: "segs \<noteq> []" "list_all seg_shape segs" "p = render_path segs" by blast
  then have "split_on CHR ''/'' p = '''' # segs @ ['''']"
    by (auto simp: list_all_iff seg_shape_no_slash intro: split_render_path)
  then show "path_shape p"
    using s by (cases segs) (simp_all add: path_shape_def)
qed

lemma trim_render_path:
  assumes "segs \<noteq> []" "list_all seg_shape segs"
  shows "trim_char CHR ''/'' (render_path segs) = butlast (tl (render_path segs))"
proof -
  define body where "body = concat (map (\<lambda>s. s @ ''/'') segs)"
  obtain s ss where segs: "segs = s # ss" using assms(1) by (cases segs) auto
  then have "s \<noteq> []" "CHR ''/'' \<notin> set s"
    using assms(2) seg_shape_nonempty seg_shape_no_slash by auto
  then obtain c cs where "s = c # cs" "c \<noteq> CHR ''/''" by (cases s) auto
  then have 1: "dropWhile ((=) CHR ''/'') (render_path segs) = body"
    by (simp add: render_path_def body_def segs)
  obtain ts t where segs': "segs = ts @ [t]" using assms(1) by (cases segs rule: rev_cases) auto
  then have "t \<noteq> []" "CHR ''/'' \<notin> set t"
    using assms(2) seg_shape_nonempty seg_shape_no_slash by auto
  then obtain d ds where t: "t = ds @ [d]" "d \<noteq> CHR ''/''" by (cases t rule: rev_cases) auto
  define core where "core = concat (map (\<lambda>s. s @ ''/'') ts) @ t"
  have 2: "body = core @ ''/''" by (simp add: body_def core_def segs')
  have "dropWhile ((=) CHR ''/'') (rev body) = rev core"
    using t by (simp add: 2) (simp add: core_def)
  with 1 2 show ?thesis
    by (simp add: trim_char_def render_path_def body_def [symmetric])
qed

lemma pathSegments_render [path_simps]:
  assumes "segs \<noteq> []" "list_all seg_shape segs"
  shows "pathSegments (render_path segs) = segs"
proof -
  obtain ts t where segs': "segs = ts @ [t]" using assms(1) by (cases segs rule: rev_cases) auto
  have ns: "\<forall>s \<in> set segs. CHR ''/'' \<notin> set s"
    using assms(2) by (auto simp: list_all_iff seg_shape_no_slash)
  have body: "butlast (tl (render_path segs)) = concat (map (\<lambda>s. s @ ''/'') ts) @ t"
    by (simp add: render_path_def segs' butlast_append)
  have "split_on CHR ''/'' (concat (map (\<lambda>s. s @ ''/'') ts) @ t) = segs"
    using ns unfolding segs' by (induction ts) simp_all
  moreover have "t \<noteq> ''''" using assms(2) segs' seg_shape_nonempty by auto
  ultimately show ?thesis
    using assms by (simp add: pathSegments_def Let_def trim_render_path body)
qed

lemma pathDepth_render [path_simps]:
  "segs \<noteq> [] \<Longrightarrow> list_all seg_shape segs \<Longrightarrow> pathDepth (render_path segs) = length segs"
  by (simp add: pathDepth_def pathSegments_render)

lemma buildPath_render [path_simps]:
  "buildPath (render_path segs) r = render_path (segs @ [pathSegment r])"
  by (simp add: buildPath_def render_path_append_seg)

lemma prefix_sep_iff:
  assumes "c \<notin> set a" "c \<notin> set b"
  shows "prefix (a @ c # u) (b @ c # v) \<longleftrightarrow> a = b \<and> prefix u v"
  using append_sep_inject [OF assms(2,1)] unfolding prefix_def by fastforce

lemma prefix_concat_segs:
  assumes "\<forall>s \<in> set xs. CHR ''/'' \<notin> set s" "\<forall>s \<in> set ys. CHR ''/'' \<notin> set s"
  shows "prefix (concat (map (\<lambda>s. s @ ''/'') xs)) (concat (map (\<lambda>s. s @ ''/'') ys)) \<longleftrightarrow> prefix xs ys"
  using assms
proof (induction xs arbitrary: ys)
  case Nil
  then show ?case by simp
next
  case (Cons x xs)
  show ?case
  proof (cases ys)
    case Nil
    then show ?thesis by simp
  next
    case (Cons y zs)
    then show ?thesis
      using Cons.IH [of zs] Cons.prems by (simp add: prefix_sep_iff)
  qed
qed

lemma prefix_render_path [path_simps]:
  assumes "list_all seg_shape xs" "list_all seg_shape ys"
  shows "prefix (render_path xs) (render_path ys) \<longleftrightarrow> prefix xs ys"
  using assms prefix_concat_segs [of xs ys]
  by (simp add: render_path_def list_all_iff seg_shape_no_slash)

lemma render_path_inject:
  assumes "list_all seg_shape xs" "list_all seg_shape ys"
  shows "render_path xs = render_path ys \<longleftrightarrow> xs = ys"
  using prefix_render_path [OF assms] prefix_render_path [OF assms(2,1)]
  by (metis prefix_order.antisym prefix_order.order_refl)

lemma set_ancestor_loop:
  "set (ancestor_loop (render_path pre) segs) =
     {render_path (pre @ ts) | ts. ts \<noteq> [] \<and> prefix ts segs}"
proof (induction segs arbitrary: pre)
  case Nil
  then show ?case by simp
next
  case (Cons s segs)
  have "set (ancestor_loop (render_path pre) (s # segs)) =
      insert (render_path (pre @ [s])) {render_path ((pre @ [s]) @ ts) | ts. ts \<noteq> [] \<and> prefix ts segs}"
    by (simp add: Let_def render_path_append_seg Cons.IH)
  also have "\<dots> = {render_path (pre @ s # ts) | ts. prefix ts segs}"
    by auto
  also have "\<dots> = {render_path (pre @ ts) | ts. ts \<noteq> [] \<and> prefix ts (s # segs)}"
    by (auto simp: prefix_Cons)
  finally show ?case .
qed

lemma length_ancestor_loop [simp]: "length (ancestor_loop pre segs) = length segs"
  by (induction segs arbitrary: pre) (simp_all add: Let_def)

lemma set_ancestorPaths_render:
  assumes "segs \<noteq> []" "list_all seg_shape segs" "length segs \<le> MaxPathDepth"
  shows "set (ancestorPaths (render_path segs)) = {render_path ts | ts. ts \<noteq> [] \<and> prefix ts segs}"
proof -
  have "ancestorPaths (render_path segs) = ancestor_loop (render_path []) segs"
    using assms by (simp add: ancestorPaths_def pathSegments_render Let_def) (simp add: render_path_def)
  then show ?thesis
    using set_ancestor_loop [of "[]" segs] by simp
qed

text \<open>The ancestors of a stored path are exactly the stored paths that are string prefixes of it.\<close>

lemma ancestorPaths_iff_prefix:
  assumes "path_shape p" "pathDepth p \<le> MaxPathDepth" "path_shape q"
  shows "q \<in> set (ancestorPaths p) \<longleftrightarrow> prefix q p"
proof -
  from assms(1) obtain ps where ps: "ps \<noteq> []" "list_all seg_shape ps" "p = render_path ps"
    by (auto simp: path_shape_iff)
  from assms(3) obtain qs where qs: "qs \<noteq> []" "list_all seg_shape qs" "q = render_path qs"
    by (auto simp: path_shape_iff)
  have sub: "list_all seg_shape ts" if "prefix ts ps" for ts
    using that ps(2) by (auto simp: prefix_def)
  have "q \<in> set (ancestorPaths p) \<longleftrightarrow> (\<exists>ts. q = render_path ts \<and> ts \<noteq> [] \<and> prefix ts ps)"
    using assms(2) ps by (auto simp: set_ancestorPaths_render pathDepth_render)
  also have "\<dots> \<longleftrightarrow> prefix qs ps"
    using qs render_path_inject sub by metis
  finally show ?thesis
    using ps qs by (simp add: prefix_render_path)
qed

lemma path_shape_buildPath:
  assumes "path_shape p" "typePattern (obj_type r)" "uuid_shape (obj_id r)"
  shows "path_shape (buildPath p r)" "pathDepth (buildPath p r) = Suc (pathDepth p)"
    "prefix p (buildPath p r)"
proof -
  from assms(1) obtain ps where ps: "ps \<noteq> []" "list_all seg_shape ps" "p = render_path ps"
    by (auto simp: path_shape_iff)
  have ok: "list_all seg_shape (ps @ [pathSegment r])" using ps assms by simp
  show "path_shape (buildPath p r)"
    unfolding path_shape_iff ps buildPath_render using ok by blast
  show "pathDepth (buildPath p r) = Suc (pathDepth p)"
    unfolding ps buildPath_render using ok ps(1,2) by (simp add: pathDepth_render)
  show "prefix p (buildPath p r)" by (simp add: buildPath_def)
qed

end
