(* ===== verification/Authz_Schema.thy ===== *)
theory Authz_Schema
  imports Authz_Object
begin

text \<open>
  The tables the authorization layer reads and writes, as lists of rows, and the two views that define
  what \<open>acl_object\<close> and \<open>acl_key\<close> must contain (\<open>backend/migrations/016, 025, 028, 055\<close>; the definitions
  are those of migration 055, the last to recreate the views). A uuid column holds canonical text. The
  \<open>updated_at\<close> columns, which nothing here reads, are left out. A \<open>LEFT JOIN\<close> on a primary key matches at most
  one row, so it is \<open>find\<close>; \<open>UNION\<close> removes duplicates.
\<close>

section \<open>Rows and tables\<close>

record workspace_member =
  wm_workspace :: string
  wm_user :: string
  wm_role :: string

record channel_row =
  ch_id :: string
  ch_workspace :: string
  ch_type :: string
  ch_archived :: bool

record channel_member =
  cm_channel :: string
  cm_user :: string
  cm_role :: string

record message_row =
  msg_id :: string
  msg_channel :: string

record mail_message_row =
  mm_id :: string
  mm_conversation :: string

record mail_conversation_row =
  mc_id :: string
  mc_workspace :: string

record file_row =
  f_id :: string
  f_workspace :: string
  f_user :: string
  f_folder :: "string option"
  f_message :: "string option"
  f_mail_message :: "string option"

record acl_object_row =
  ao_type :: string
  ao_id :: string
  ao_workspace :: string
  ao_path :: string

record acl_grant_row =
  ag_otype :: string
  ag_oid :: string
  ag_stype :: string
  ag_sid :: string
  ag_capability :: string
  ag_granted_by :: "string option"
  ag_created_at :: int

record acl_key_row =
  ak_type :: string
  ak_id :: string
  ak_key :: string

record sso_provider_row =
  sp_workspace :: string
  sp_enabled :: bool
  sp_enforced :: bool
  sp_allow_owner_password :: bool

record user_block_row =
  ub_blocker :: string
  ub_blocked :: string

record database =
  users :: "string list"
  workspaces :: "string list"
  workspace_members :: "workspace_member list"
  channels :: "channel_row list"
  channel_members :: "channel_member list"
  messages :: "message_row list"
  files :: "file_row list"
  mail_messages :: "mail_message_row list"
  mail_conversations :: "mail_conversation_row list"
  sso_providers :: "sso_provider_row list"
  user_blocks :: "user_block_row list"
  acl_object :: "acl_object_row list"
  acl_grant :: "acl_grant_row list"
  acl_key :: "acl_key_row list"

section \<open>LIKE and the subtree predicate\<close>

text \<open>Postgres \<open>LIKE\<close>: \<open>%\<close> any string, \<open>_\<close> any character, backslash escapes the next character.\<close>

fun like_match :: "string \<Rightarrow> string \<Rightarrow> bool" where
  "like_match [] s = (s = [])"
| "like_match (p # ps) s =
     (if p = CHR ''%'' then
        (case s of [] \<Rightarrow> like_match ps [] | c # cs \<Rightarrow> like_match ps s \<or> like_match (p # ps) cs)
      else if p = CHR 0x5C then
        (case ps of [] \<Rightarrow> False
         | q # ps' \<Rightarrow> (case s of [] \<Rightarrow> False | c # cs \<Rightarrow> c = q \<and> like_match ps' cs))
      else (case s of [] \<Rightarrow> False | c # cs \<Rightarrow> (p = CHR ''_'' \<or> c = p) \<and> like_match ps cs))"

declare like_match.simps [simp del]

definition like_plain :: "string \<Rightarrow> bool" where
  "like_plain p \<longleftrightarrow> CHR ''%'' \<notin> set p \<and> CHR ''_'' \<notin> set p \<and> CHR 0x5C \<notin> set p"

definition in_subtree :: "string \<Rightarrow> string \<Rightarrow> bool" where
  "in_subtree pre p = like_match (pre @ ''%'') p"

section \<open>Constraints of acl\_object\<close>

definition acl_object_check :: "database \<Rightarrow> acl_object_row \<Rightarrow> bool" where
  "acl_object_check db r \<longleftrightarrow>
     typePattern (ao_type r) \<and> path_shape (ao_path r) \<and>
     length (filter ((=) CHR ''/'') (ao_path r)) \<le> 33 \<and>
     like_match (''/workspace:'' @ ao_workspace r @ ''/%'') (ao_path r) \<and>
     ao_workspace r \<in> set (workspaces db)"

section \<open>The path helpers of the schema\<close>

definition acl_parent_segment :: "string \<Rightarrow> string option" where
  "acl_parent_segment p = (case rev (split_on CHR ''/'' p) of
       e # s # par # _ # _ \<Rightarrow> if e = '''' \<and> seg_shape s \<and> seg_shape par then Some par else None
     | _ \<Rightarrow> None)"

definition split_part :: "string \<Rightarrow> char \<Rightarrow> nat \<Rightarrow> string" where
  "split_part s c n = (let parts = split_on c s in if n < length parts then parts ! n else '''')"

definition acl_container_key :: "string option \<Rightarrow> string option" where
  "acl_container_key seg = (case seg of None \<Rightarrow> None
     | Some s \<Rightarrow>
         if split_part s CHR '':'' 0 = ''channel'' then Some (''c-'' @ split_part s CHR '':'' 1)
         else if split_part s CHR '':'' 0 = ''folder'' then Some (''f-'' @ split_part s CHR '':'' 1)
         else None)"

section \<open>The joins of a file with its homes\<close>

definition file_folder :: "database \<Rightarrow> file_row \<Rightarrow> acl_object_row option" where
  "file_folder db f = find (\<lambda>fo. ao_type fo = ''folder'' \<and> Some (ao_id fo) = f_folder f \<and>
     ao_workspace fo = f_workspace f) (acl_object db)"

definition file_conversation :: "database \<Rightarrow> file_row \<Rightarrow> acl_object_row option" where
  "file_conversation db f =
     Option.bind (find (\<lambda>mm. Some (mm_id mm) = f_mail_message f) (mail_messages db)) (\<lambda>mm.
     Option.bind (find (\<lambda>mc. mc_id mc = mm_conversation mm \<and> mc_workspace mc = f_workspace f)
       (mail_conversations db)) (\<lambda>mc.
     find (\<lambda>co. ao_type co = ''conversation'' \<and> ao_id co = mc_id mc \<and> ao_workspace co = f_workspace f)
       (acl_object db)))"

definition file_channel :: "database \<Rightarrow> file_row \<Rightarrow> channel_row option" where
  "file_channel db f =
     Option.bind (find (\<lambda>m. Some (msg_id m) = f_message f) (messages db)) (\<lambda>m.
     find (\<lambda>ch. ch_id ch = msg_channel m \<and> ch_workspace ch = f_workspace f) (channels db))"

section \<open>The expected state\<close>

definition workspace_path :: "string \<Rightarrow> string" where
  "workspace_path w = ''/workspace:'' @ w @ ''/''"

definition expected_file_path :: "database \<Rightarrow> file_row \<Rightarrow> string" where
  "expected_file_path db f = (case file_folder db f of
       Some fo \<Rightarrow> ao_path fo @ ''file:'' @ f_id f @ ''/''
     | None \<Rightarrow> (case file_conversation db f of
           Some co \<Rightarrow> ao_path co @ ''file:'' @ f_id f @ ''/''
         | None \<Rightarrow> (case file_channel db f of
               Some ch \<Rightarrow> ''/workspace:'' @ f_workspace f @ ''/channel:'' @ ch_id ch @
                          ''/file:'' @ f_id f @ ''/''
             | None \<Rightarrow> ''/workspace:'' @ f_workspace f @ ''/file:'' @ f_id f @ ''/'')))"

definition acl_object_expected :: "database \<Rightarrow> acl_object_row list" where
  "acl_object_expected db =
     map (\<lambda>w. \<lparr>ao_type = ''workspace'', ao_id = w, ao_workspace = w,
               ao_path = ''/workspace:'' @ w @ ''/''\<rparr>) (workspaces db) @
     map (\<lambda>c. \<lparr>ao_type = ''channel'', ao_id = ch_id c, ao_workspace = ch_workspace c,
               ao_path = ''/workspace:'' @ ch_workspace c @ ''/channel:'' @ ch_id c @ ''/''\<rparr>) (channels db) @
     map (\<lambda>f. \<lparr>ao_type = ''file'', ao_id = f_id f, ao_workspace = f_workspace f,
               ao_path = expected_file_path db f\<rparr>) (files db)"

definition mk_key :: "acl_object_row \<Rightarrow> string \<Rightarrow> acl_key_row" where
  "mk_key r k = \<lparr>ak_type = ao_type r, ak_id = ao_id r, ak_key = k\<rparr>"

definition key_arm_workspace :: "database \<Rightarrow> acl_key_row list" where
  "key_arm_workspace db =
     [mk_key r (''w-'' @ ao_workspace r). r \<leftarrow> acl_object db, ao_type r = ''workspace'']"

definition key_arm_channel_member :: "database \<Rightarrow> acl_key_row list" where
  "key_arm_channel_member db =
     [mk_key r (''u-'' @ cm_user cm). r \<leftarrow> acl_object db, cm \<leftarrow> channel_members db,
        cm_channel cm = ao_id r \<and> ao_type r = ''channel'']"

definition key_arm_public_channel :: "database \<Rightarrow> acl_key_row list" where
  "key_arm_public_channel db =
     [mk_key r (''w-'' @ ao_workspace r). r \<leftarrow> acl_object db, c \<leftarrow> channels db,
        ch_id c = ao_id r \<and> ao_type r = ''channel'' \<and> ch_type c = ''public'']"

definition key_arm_container :: "database \<Rightarrow> acl_key_row list" where
  "key_arm_container db =
     [mk_key r k. r \<leftarrow> acl_object db,
        k \<leftarrow> opt_list (acl_container_key (acl_parent_segment (ao_path r)))]"

definition key_arm_uploader :: "database \<Rightarrow> acl_key_row list" where
  "key_arm_uploader db =
     [mk_key r (''u-'' @ f_user f). r \<leftarrow> acl_object db, f \<leftarrow> files db,
        f_id f = ao_id r \<and> ao_type r = ''file'' \<and>
        split_part (case acl_parent_segment (ao_path r) of None \<Rightarrow> '''' | Some s \<Rightarrow> s) CHR '':'' 0 = ''workspace'']"

definition grant_key_prefix :: "string \<Rightarrow> string option" where
  "grant_key_prefix st =
     (if st = ''user'' then Some ''u-'' else if st = ''group'' then Some ''g-''
      else if st = ''workspace'' then Some ''w-'' else if st = ''link'' then Some ''g-'' else None)"

definition key_arm_grant :: "database \<Rightarrow> acl_key_row list" where
  "key_arm_grant db =
     [mk_key d (pre @ ag_sid g). g \<leftarrow> acl_grant db, go \<leftarrow> acl_object db, d \<leftarrow> acl_object db,
        pre \<leftarrow> opt_list (grant_key_prefix (ag_stype g)),
        ao_type go = ag_otype g \<and> ao_id go = ag_oid g \<and> in_subtree (ao_path go) (ao_path d)]"

definition key_arm_attachment :: "database \<Rightarrow> acl_key_row list" where
  "key_arm_attachment db =
     [\<lparr>ak_type = ''file'', ak_id = f_id f, ak_key = ''c-'' @ ch_id ch\<rparr>.
        f \<leftarrow> files db, ch \<leftarrow> opt_list (file_channel db f)]"

definition acl_key_expected :: "database \<Rightarrow> acl_key_row list" where
  "acl_key_expected db = remdups (key_arm_workspace db @ key_arm_channel_member db @
     key_arm_public_channel db @ key_arm_container db @ key_arm_uploader db @ key_arm_grant db @
     key_arm_attachment db)"

section \<open>Statements\<close>

definition upsert_object :: "acl_object_row \<Rightarrow> acl_object_row list \<Rightarrow> acl_object_row list" where
  "upsert_object r rows =
     (if \<exists>x \<in> set rows. ao_type x = ao_type r \<and> ao_id x = ao_id r
      then map (\<lambda>x. if ao_type x = ao_type r \<and> ao_id x = ao_id r then r else x) rows
      else rows @ [r])"

definition upsert_grant :: "acl_grant_row \<Rightarrow> acl_grant_row list \<Rightarrow> acl_grant_row list" where
  "upsert_grant g rows =
     (let same = (\<lambda>x. ag_otype x = ag_otype g \<and> ag_oid x = ag_oid g \<and>
                      ag_stype x = ag_stype g \<and> ag_sid x = ag_sid g)
      in if \<exists>x \<in> set rows. same x
         then map (\<lambda>x. if same x then x\<lparr>ag_capability := ag_capability g,
                                        ag_granted_by := ag_granted_by g\<rparr> else x) rows
         else rows @ [g])"

definition insert_keys :: "acl_key_row list \<Rightarrow> acl_key_row list \<Rightarrow> acl_key_row list" where
  \<comment> \<open>INSERT ... ON CONFLICT DO NOTHING\<close>
  "insert_keys new rows = rows @ filter (\<lambda>k. k \<notin> set rows) (remdups new)"

lemma set_insert_keys [simp]: "set (insert_keys new rows) = set rows \<union> set new"
  by (auto simp: insert_keys_def)

lemma distinct_insert_keys: "distinct rows \<Longrightarrow> distinct (insert_keys new rows)"
  by (auto simp: insert_keys_def)

section \<open>The subtree predicate is the prefix relation\<close>

lemma like_match_percent [simp]: "like_match ''%'' s"
  by (induction s) (simp_all add: like_match.simps)

lemma like_match_plain_prefix:
  "like_plain p \<Longrightarrow> like_match (p @ ''%'') s \<longleftrightarrow> prefix p s"
proof (induction p arbitrary: s)
  case Nil
  then show ?case by simp
next
  case (Cons c p)
  then have "like_plain p" "c \<noteq> CHR ''%''" "c \<noteq> CHR ''_''" "c \<noteq> CHR 0x5C"
    by (auto simp: like_plain_def)
  with Cons.IH show ?case
    by (cases s) (auto simp: like_match.simps)
qed

lemma like_plain_append [simp]: "like_plain (p @ q) \<longleftrightarrow> like_plain p \<and> like_plain q"
  by (auto simp: like_plain_def)

lemma like_plain_Cons [simp]:
  "like_plain (c # q) \<longleftrightarrow> c \<noteq> CHR ''%'' \<and> c \<noteq> CHR ''_'' \<and> c \<noteq> CHR 0x5C \<and> like_plain q"
  by (auto simp: like_plain_def)

lemma like_plain_Nil [simp]: "like_plain []"
  by (simp add: like_plain_def)

lemma like_plain_typePattern: "typePattern t \<Longrightarrow> like_plain t"
  using typePattern_chars [of t "CHR ''%''"] typePattern_chars [of t "CHR ''_''"]
    typePattern_chars [of t "CHR 0x5C"]
  by (auto simp: like_plain_def is_lower_def is_digit_def)

lemma like_plain_uuid: "uuid_shape u \<Longrightarrow> like_plain u"
  using uuid_shape_chars [of u "CHR ''%''"] uuid_shape_chars [of u "CHR ''_''"]
    uuid_shape_chars [of u "CHR 0x5C"]
  by (auto simp: like_plain_def is_hex_def is_digit_def)

lemma like_plain_seg: "seg_shape s \<Longrightarrow> like_plain s"
  by (auto simp: seg_shape_iff like_plain_typePattern like_plain_uuid)

lemma like_plain_path: "path_shape p \<Longrightarrow> like_plain p"
proof -
  assume "path_shape p"
  then obtain segs where "list_all seg_shape segs" "p = render_path segs"
    by (auto simp: path_shape_iff)
  then show ?thesis
    unfolding render_path_def by (induction segs arbitrary: p) (auto simp: like_plain_seg)
qed

lemma in_subtree_iff_prefix [path_simps]: "path_shape pre \<Longrightarrow> in_subtree pre p \<longleftrightarrow> prefix pre p"
  by (simp add: in_subtree_def like_match_plain_prefix like_plain_path)

lemma slash_count_render:
  "list_all seg_shape segs \<Longrightarrow>
     length (filter ((=) CHR ''/'') (render_path segs)) = Suc (length segs)"
proof (induction segs)
  case Nil
  then show ?case by (simp add: render_path_def)
next
  case (Cons s segs)
  then have "filter ((=) CHR ''/'') s = []"
    by (auto simp: filter_empty_conv dest: seg_shape_no_slash)
  with Cons show ?case by (simp add: render_path_def)
qed

lemma slash_count_depth:
  "path_shape p \<Longrightarrow> length (filter ((=) CHR ''/'') p) = Suc (pathDepth p)"
  by (auto simp: path_shape_iff slash_count_render pathDepth_render)

lemma workspace_path_render: "workspace_path w = render_path [pathSegment (WorkspaceObject w)]"
  by (simp add: render_path_def workspace_path_def pathSegment_def WorkspaceObject_def TypeWorkspace_def)

lemma seg_shape_workspace: "uuid_shape w \<Longrightarrow> seg_shape (pathSegment (WorkspaceObject w))"
  by (rule seg_shape_pathSegment)
    (simp_all add: WorkspaceObject_def TypeWorkspace_def typePattern_def is_lower_def)

lemma workspace_path_shape: "uuid_shape w \<Longrightarrow> path_shape (workspace_path w)"
  unfolding path_shape_iff workspace_path_render
  by (rule exI [of _ "[pathSegment (WorkspaceObject w)]"]) (simp add: seg_shape_workspace)

lemma acl_object_check_iff:
  assumes "uuid_shape (ao_workspace r)"
  shows "acl_object_check db r \<longleftrightarrow>
     typePattern (ao_type r) \<and> path_shape (ao_path r) \<and> pathDepth (ao_path r) \<le> MaxPathDepth \<and>
     prefix (workspace_path (ao_workspace r)) (ao_path r) \<and> ao_workspace r \<in> set (workspaces db)"
proof -
  have "like_match (''/workspace:'' @ ao_workspace r @ ''/%'') (ao_path r) \<longleftrightarrow>
      prefix (workspace_path (ao_workspace r)) (ao_path r)"
    using like_match_plain_prefix [of "workspace_path (ao_workspace r)" "ao_path r"]
      like_plain_uuid [OF assms]
    by (simp add: workspace_path_def)
  then show ?thesis
    by (auto simp: acl_object_check_def slash_count_depth MaxPathDepth_def)
qed

lemma acl_parent_segment_render:
  assumes "list_all seg_shape segs" "length segs \<ge> 2"
  shows "acl_parent_segment (render_path segs) = Some (segs ! (length segs - 2))"
proof -
  obtain ts b where "segs = ts @ [b]" using assms(2) by (cases segs rule: rev_cases) auto
  moreover obtain us a where "ts = us @ [a]" using assms(2) calculation by (cases ts rule: rev_cases) auto
  ultimately have segs: "segs = us @ [a, b]" by simp
  have "split_on CHR ''/'' (render_path segs) = '''' # us @ [a, b, '''']"
    using assms(1) segs split_render_path [of segs] by (auto simp: list_all_iff seg_shape_no_slash)
  then show ?thesis
    using assms(1) segs
    by (auto simp: acl_parent_segment_def nth_append split: list.split)
qed

lemma acl_parent_segment_root:
  assumes "seg_shape s"
  shows "acl_parent_segment (render_path [s]) = None"
proof -
  have "split_on CHR ''/'' (render_path [s]) = ['''', s, '''']"
    using assms split_render_path [of "[s]"] by (auto simp: seg_shape_no_slash)
  then show ?thesis by (simp add: acl_parent_segment_def)
qed

lemma split_part_seg:
  assumes "typePattern t" "uuid_shape u"
  shows "split_part (t @ CHR '':'' # u) CHR '':'' 0 = t" "split_part (t @ CHR '':'' # u) CHR '':'' 1 = u"
  using assms by (simp_all add: split_part_def typePattern_no_sep uuid_shape_no_sep)

section \<open>Invariants of the tables\<close>

text \<open>
  What the schema enforces: primary keys, foreign keys, CHECK constraints and uuid-typed columns.
\<close>

definition objects_ok :: "database \<Rightarrow> bool" where
  "objects_ok db \<longleftrightarrow> distinct (map (\<lambda>r. (ao_type r, ao_id r)) (acl_object db)) \<and>
     (\<forall>r \<in> set (acl_object db). uuid_shape (ao_id r) \<and> uuid_shape (ao_workspace r) \<and> acl_object_check db r)"

definition grants_ok :: "database \<Rightarrow> bool" where
  "grants_ok db \<longleftrightarrow>
     distinct (map (\<lambda>g. (ag_otype g, ag_oid g, ag_stype g, ag_sid g)) (acl_grant db)) \<and>
     (\<forall>g \<in> set (acl_grant db). uuid_shape (ag_sid g) \<and>
        grant_key_prefix (ag_stype g) \<noteq> None \<and> capabilityValues (ag_capability g) \<noteq> None \<and>
        (\<exists>r \<in> set (acl_object db). ao_type r = ag_otype g \<and> ao_id r = ag_oid g))"

definition keys_ok :: "database \<Rightarrow> bool" where
  "keys_ok db \<longleftrightarrow> distinct (acl_key db) \<and>
     (\<forall>k \<in> set (acl_key db). \<exists>r \<in> set (acl_object db). ao_type r = ak_type k \<and> ao_id r = ak_id k)"

definition members_ok :: "database \<Rightarrow> bool" where
  "members_ok db \<longleftrightarrow>
     distinct (map (\<lambda>m. (wm_workspace m, wm_user m)) (workspace_members db)) \<and>
     distinct (map (\<lambda>m. (cm_channel m, cm_user m)) (channel_members db)) \<and>
     distinct (map ch_id (channels db)) \<and> distinct (map f_id (files db)) \<and> distinct (workspaces db) \<and>
     (\<forall>m \<in> set (workspace_members db). wm_role m \<in> {''owner'', ''admin'', ''member'', ''guest''}) \<and>
     (\<forall>m \<in> set (channel_members db). cm_role m \<in> {''admin'', ''member''}) \<and>
     (\<forall>c \<in> set (channels db). uuid_shape (ch_id c) \<and> ch_workspace c \<in> set (workspaces db)) \<and>
     (\<forall>f \<in> set (files db). uuid_shape (f_id f) \<and> uuid_shape (f_user f) \<and> f_workspace f \<in> set (workspaces db)) \<and>
     (\<forall>w \<in> set (workspaces db). uuid_shape w)"

definition schema_ok :: "database \<Rightarrow> bool" where
  "schema_ok db \<longleftrightarrow> objects_ok db \<and> grants_ok db \<and> keys_ok db \<and> members_ok db"

text \<open>The materialization agrees with its definition: the drift verifier has nothing to report on keys.\<close>

definition keys_exact :: "database \<Rightarrow> bool" where
  "keys_exact db \<longleftrightarrow> set (acl_key db) = set (acl_key_expected db)"

lemma objects_okD:
  assumes "objects_ok db" "r \<in> set (acl_object db)"
  shows "uuid_shape (ao_id r)" "uuid_shape (ao_workspace r)" "typePattern (ao_type r)"
    "path_shape (ao_path r)" "pathDepth (ao_path r) \<le> MaxPathDepth"
    "prefix (workspace_path (ao_workspace r)) (ao_path r)"
  using assms acl_object_check_iff [of r db] by (auto simp: objects_ok_def)

lemma objects_ok_unique:
  assumes "objects_ok db" "r \<in> set (acl_object db)" "r' \<in> set (acl_object db)"
    "ao_type r = ao_type r'" "ao_id r = ao_id r'"
  shows "r = r'"
  using assms by (auto simp: objects_ok_def distinct_map inj_on_def)

lemma in_subtree_objects:
  assumes "objects_ok db" "r \<in> set (acl_object db)"
  shows "in_subtree (ao_path r) p \<longleftrightarrow> prefix (ao_path r) p"
  using assms by (simp add: in_subtree_iff_prefix objects_okD)

lemma mem_key_arm_grant:
  "k \<in> set (key_arm_grant db) \<longleftrightarrow> (\<exists>g \<in> set (acl_grant db). \<exists>go \<in> set (acl_object db).
     \<exists>d \<in> set (acl_object db). \<exists>pre. grant_key_prefix (ag_stype g) = Some pre \<and>
       ao_type go = ag_otype g \<and> ao_id go = ag_oid g \<and> in_subtree (ao_path go) (ao_path d) \<and>
       k = mk_key d (pre @ ag_sid g))"
  by (simp add: key_arm_grant_def image_iff) (intro bex_cong refl iffI; blast)

lemma mem_key_arm_container:
  "k \<in> set (key_arm_container db) \<longleftrightarrow> (\<exists>r \<in> set (acl_object db). \<exists>c.
     acl_container_key (acl_parent_segment (ao_path r)) = Some c \<and> k = mk_key r c)"
  by (simp add: key_arm_container_def image_iff)

lemma mk_key_sel [simp]:
  "ak_type (mk_key r k) = ao_type r" "ak_id (mk_key r k) = ao_id r" "ak_key (mk_key r k) = k"
  by (simp_all add: mk_key_def)

lemma mk_key_inject [simp]:
  "mk_key r k = mk_key r' k' \<longleftrightarrow> ao_type r = ao_type r' \<and> ao_id r = ao_id r' \<and> k = k'"
  by (simp add: mk_key_def)

end
