(* ===== verification/Authz_Lookup.thy ===== *)
theory Authz_Lookup
  imports Authz_Schema
begin

text \<open>
  The membership and role lookups that the object-level checker is composed from, single sign-on
  enforcement and user blocks: \<open>backend/internal/authz/authz.go\<close>. A query fails when the environment says the
  statement with its error label fails, or when Postgres cannot read a text parameter as a uuid; a failure
  is an \<open>Inl\<close>, never an answer.
\<close>

definition db_query :: "env \<Rightarrow> string \<Rightarrow> 'a \<Rightarrow> authz_error + 'a" where
  "db_query E label v = (if db_fault E label then Inl (DbError label) else Inr v)"

definition with_uuid :: "env \<Rightarrow> string \<Rightarrow> string \<Rightarrow> (string \<Rightarrow> authz_error + 'a) \<Rightarrow> authz_error + 'a" where
  "with_uuid E label s k = (case pg_uuid E s of None \<Rightarrow> Inl (DbError label) | Some u \<Rightarrow> k u)"

section \<open>Workspace\<close>

definition WorkspaceRole :: "env \<Rightarrow> database \<Rightarrow> string \<Rightarrow> string \<Rightarrow> authz_error + string" where
  "WorkspaceRole E db workspaceID userID =
     (if workspaceID = '''' \<or> userID = '''' then Inr ''''
      else with_uuid E ''get workspace role'' workspaceID (\<lambda>w.
           with_uuid E ''get workspace role'' userID (\<lambda>u.
             db_query E ''get workspace role''
               (case find (\<lambda>m. wm_workspace m = w \<and> wm_user m = u) (workspace_members db) of
                  None \<Rightarrow> '''' | Some m \<Rightarrow> wm_role m))))"

definition isWorkspaceMember :: "env \<Rightarrow> database \<Rightarrow> string \<Rightarrow> string \<Rightarrow> authz_error + bool" where
  "isWorkspaceMember E db workspaceID userID =
     bindR (WorkspaceRole E db workspaceID userID) (\<lambda>role. Inr (role \<noteq> ''''))"

definition IsWorkspaceOwner :: "env \<Rightarrow> database \<Rightarrow> string \<Rightarrow> string \<Rightarrow> authz_error + bool" where
  "IsWorkspaceOwner E db workspaceID userID =
     bindR (WorkspaceRole E db workspaceID userID) (\<lambda>role. Inr (role = ''owner''))"

definition AdminWorkspaceIDs :: "env \<Rightarrow> database \<Rightarrow> string \<Rightarrow> authz_error + string list" where
  "AdminWorkspaceIDs E db userID =
     with_uuid E ''list admin workspaces'' userID (\<lambda>u.
       db_query E ''list admin workspaces''
         (sort (map wm_workspace
           (filter (\<lambda>m. wm_user m = u \<and> wm_role m \<in> {''owner'', ''admin''}) (workspace_members db)))))"

definition SharesWorkspace :: "env \<Rightarrow> database \<Rightarrow> string \<Rightarrow> string \<Rightarrow> authz_error + bool" where
  "SharesWorkspace E db actorID targetID =
     with_uuid E ''check shared workspace'' actorID (\<lambda>a.
     with_uuid E ''check shared workspace'' targetID (\<lambda>t.
       db_query E ''check shared workspace''
         (\<exists>x \<in> set (workspace_members db). \<exists>y \<in> set (workspace_members db).
            wm_workspace y = wm_workspace x \<and> wm_user x = a \<and> wm_role x \<in> {''owner'', ''admin''} \<and>
            wm_user y = t)))"

section \<open>Channel\<close>

record ChannelInfo =
  ci_id :: string
  ci_workspace :: string
  ci_type :: string
  ci_archived :: bool

definition channel_info :: "channel_row \<Rightarrow> ChannelInfo" where
  "channel_info c = \<lparr>ci_id = ch_id c, ci_workspace = ch_workspace c, ci_type = ch_type c,
     ci_archived = ch_archived c\<rparr>"

definition Channel :: "env \<Rightarrow> database \<Rightarrow> string \<Rightarrow> authz_error + ChannelInfo option" where
  "Channel E db channelID =
     with_uuid E ''get channel'' channelID (\<lambda>c.
       db_query E ''get channel'' (map_option channel_info (find (\<lambda>r. ch_id r = c) (channels db))))"

definition ChannelRole :: "env \<Rightarrow> database \<Rightarrow> string \<Rightarrow> string \<Rightarrow> authz_error + string" where
  "ChannelRole E db channelID userID =
     (if channelID = '''' \<or> userID = '''' then Inr ''''
      else with_uuid E ''get channel role'' channelID (\<lambda>c.
           with_uuid E ''get channel role'' userID (\<lambda>u.
             db_query E ''get channel role''
               (case find (\<lambda>m. cm_channel m = c \<and> cm_user m = u) (channel_members db) of
                  None \<Rightarrow> '''' | Some m \<Rightarrow> cm_role m))))"

definition isChannelMember :: "env \<Rightarrow> database \<Rightarrow> string \<Rightarrow> string \<Rightarrow> authz_error + bool" where
  "isChannelMember E db channelID userID =
     bindR (ChannelRole E db channelID userID) (\<lambda>role. Inr (role \<noteq> ''''))"

definition canReadChannel :: "env \<Rightarrow> database \<Rightarrow> ChannelInfo option \<Rightarrow> string \<Rightarrow> authz_error + bool" where
  "canReadChannel E db ch userID = (case ch of None \<Rightarrow> Inr False
     | Some c \<Rightarrow> bindR (isChannelMember E db (ci_id c) userID) (\<lambda>member.
         if member then Inr True
         else if ci_type c \<noteq> ''public'' then Inr False
         else isWorkspaceMember E db (ci_workspace c) userID))"

definition MessageChannel :: "env \<Rightarrow> database \<Rightarrow> string \<Rightarrow> authz_error + ChannelInfo option" where
  "MessageChannel E db messageID =
     with_uuid E ''get message channel'' messageID (\<lambda>i.
       db_query E ''get message channel''
         (Option.bind (find (\<lambda>m. msg_id m = i) (messages db)) (\<lambda>m.
            map_option channel_info (find (\<lambda>c. ch_id c = msg_channel m) (channels db)))))"

definition readableChannelIDs :: "env \<Rightarrow> database \<Rightarrow> string \<Rightarrow> string \<Rightarrow> authz_error + string list" where
  "readableChannelIDs E db workspaceID userID =
     bindR (isWorkspaceMember E db workspaceID userID) (\<lambda>member.
       if \<not> member then Inr []
       else with_uuid E ''list readable channels'' workspaceID (\<lambda>w.
            with_uuid E ''list readable channels'' userID (\<lambda>u.
              db_query E ''list readable channels''
                (map ch_id (filter (\<lambda>c. ch_workspace c = w \<and>
                   (ch_type c = ''public'' \<or>
                    (\<exists>m \<in> set (channel_members db). cm_channel m = ch_id c \<and> cm_user m = u)))
                  (channels db))))))"

section \<open>Single sign-on enforcement\<close>

definition PasswordLoginAllowed :: "env \<Rightarrow> database \<Rightarrow> string \<Rightarrow> authz_error + bool" where
  "PasswordLoginAllowed E db userID =
     (if userID = '''' then Inr False
      else with_uuid E ''check sso enforcement'' userID (\<lambda>u.
        bindR (db_query E ''check sso enforcement''
          (\<exists>m \<in> set (workspace_members db). \<exists>p \<in> set (sso_providers db).
             sp_workspace p = wm_workspace m \<and> wm_user m = u \<and> sp_enabled p \<and> sp_enforced p \<and>
             \<not> (sp_allow_owner_password p \<and> wm_role m = ''owner''))) (\<lambda>blocked. Inr (\<not> blocked))))"

definition SSOEnforced :: "env \<Rightarrow> database \<Rightarrow> string \<Rightarrow> authz_error + bool" where
  "SSOEnforced E db workspaceID =
     (if workspaceID = '''' then Inr False
      else with_uuid E ''check workspace sso enforcement'' workspaceID (\<lambda>w.
        db_query E ''check workspace sso enforcement''
          (\<exists>p \<in> set (sso_providers db). sp_workspace p = w \<and> sp_enabled p \<and> sp_enforced p)))"

section \<open>Blocks\<close>

definition IsBlocked :: "env \<Rightarrow> database \<Rightarrow> string \<Rightarrow> string \<Rightarrow> authz_error + bool" where
  "IsBlocked E db a b =
     (if a = '''' \<or> b = '''' \<or> a = b then Inr False
      else with_uuid E ''check block'' a (\<lambda>x. with_uuid E ''check block'' b (\<lambda>y.
        db_query E ''check block''
          (\<exists>r \<in> set (user_blocks db). (ub_blocker r = x \<and> ub_blocked r = y) \<or>
             (ub_blocker r = y \<and> ub_blocked r = x)))))"

definition BlockedUserIDs :: "env \<Rightarrow> database \<Rightarrow> string \<Rightarrow> authz_error + string list" where
  "BlockedUserIDs E db userID =
     with_uuid E ''list blocks'' userID (\<lambda>u.
       db_query E ''list blocks''
         (remdups (map ub_blocked (filter (\<lambda>r. ub_blocker r = u) (user_blocks db)) @
                   map ub_blocker (filter (\<lambda>r. ub_blocked r = u) (user_blocks db)))))"

section \<open>The environment a call relies on\<close>

text \<open>
  What the code relies on of the uuid library and of the driver: parsing returns canonical text, canonical
  text parses to itself, and Postgres reads canonical text as the value it prints.
\<close>

definition env_ok :: "env \<Rightarrow> bool" where
  "env_ok E \<longleftrightarrow> (\<forall>s u. uuid_parse E s = Some u \<longrightarrow> uuid_shape u) \<and>
     (\<forall>u. uuid_shape u \<longrightarrow> uuid_parse E u = Some u \<and> pg_uuid E u = Some u)"

definition no_faults :: "env \<Rightarrow> bool" where
  "no_faults E \<longleftrightarrow> (\<forall>l. \<not> db_fault E l)"

text \<open>A concrete environment: only canonical text parses, no statement fails.\<close>

definition sample_env :: env where
  "sample_env = \<lparr>uuid_parse = (\<lambda>s. if uuid_shape s then Some s else None),
     pg_uuid = (\<lambda>s. if uuid_shape s then Some s else None), db_fault = (\<lambda>_. False), now = 0,
     has_revoker = True, has_auditor = True\<rparr>"

lemma sample_env_ok [simp]: "env_ok sample_env" "no_faults sample_env"
  by (simp_all add: env_ok_def no_faults_def sample_env_def)

lemma env_ok_parse: "env_ok E \<Longrightarrow> uuid_parse E s = Some u \<Longrightarrow> uuid_shape u"
  by (auto simp: env_ok_def)

lemma env_ok_canonical [simp]:
  assumes "env_ok E" "uuid_shape u"
  shows "uuid_parse E u = Some u" "pg_uuid E u = Some u" "canonicalUUID E u = Some u"
  using assms by (simp_all add: env_ok_def canonicalUUID_def)

lemma with_uuid_canonical [simp]: "env_ok E \<Longrightarrow> uuid_shape u \<Longrightarrow> with_uuid E l u k = k u"
  by (simp add: with_uuid_def)

lemma db_query_no_faults [simp]: "no_faults E \<Longrightarrow> db_query E l v = Inr v"
  by (simp add: db_query_def no_faults_def)

section \<open>Roles and memberships\<close>

definition role_of :: "database \<Rightarrow> string \<Rightarrow> string \<Rightarrow> string" where
  "role_of db w u = (case find (\<lambda>m. wm_workspace m = w \<and> wm_user m = u) (workspace_members db) of
     None \<Rightarrow> '''' | Some m \<Rightarrow> wm_role m)"

definition channel_role_of :: "database \<Rightarrow> string \<Rightarrow> string \<Rightarrow> string" where
  "channel_role_of db c u = (case find (\<lambda>m. cm_channel m = c \<and> cm_user m = u) (channel_members db) of
     None \<Rightarrow> '''' | Some m \<Rightarrow> cm_role m)"

definition is_member :: "database \<Rightarrow> string \<Rightarrow> string \<Rightarrow> bool" where
  "is_member db w u \<longleftrightarrow> (\<exists>m \<in> set (workspace_members db). wm_workspace m = w \<and> wm_user m = u)"

definition is_channel_member :: "database \<Rightarrow> string \<Rightarrow> string \<Rightarrow> bool" where
  "is_channel_member db c u \<longleftrightarrow> (\<exists>m \<in> set (channel_members db). cm_channel m = c \<and> cm_user m = u)"

lemma WorkspaceRole_canonical:
  assumes "env_ok E" "uuid_shape w" "uuid_shape u"
  shows "WorkspaceRole E db w u = db_query E ''get workspace role'' (role_of db w u)"
proof -
  have "w \<noteq> ''''" "u \<noteq> ''''" using assms by auto
  then show ?thesis using assms by (simp add: WorkspaceRole_def role_of_def)
qed

lemma ChannelRole_canonical:
  assumes "env_ok E" "uuid_shape c" "uuid_shape u"
  shows "ChannelRole E db c u = db_query E ''get channel role'' (channel_role_of db c u)"
proof -
  have "c \<noteq> ''''" "u \<noteq> ''''" using assms by auto
  then show ?thesis using assms by (simp add: ChannelRole_def channel_role_of_def)
qed

lemma role_of_cases:
  assumes "members_ok db"
  shows "role_of db w u = '''' \<and> \<not> is_member db w u \<or>
    role_of db w u \<in> {''owner'', ''admin'', ''member'', ''guest''} \<and> is_member db w u"
proof (cases "find (\<lambda>m. wm_workspace m = w \<and> wm_user m = u) (workspace_members db)")
  case None
  then have "role_of db w u = ''''" by (simp add: role_of_def)
  moreover have "\<not> is_member db w u" using None by (auto simp: is_member_def find_None_iff)
  ultimately show ?thesis by simp
next
  case (Some m)
  then have "m \<in> set (workspace_members db)" "wm_workspace m = w" "wm_user m = u"
    by (auto dest: find_SomeD)
  moreover from this(1) assms have "wm_role m \<in> {''owner'', ''admin'', ''member'', ''guest''}"
    by (auto simp: members_ok_def)
  ultimately show ?thesis using Some by (auto simp: role_of_def is_member_def)
qed

lemma channel_role_of_cases:
  assumes "members_ok db"
  shows "channel_role_of db c u = '''' \<and> \<not> is_channel_member db c u \<or>
    channel_role_of db c u \<in> {''admin'', ''member''} \<and> is_channel_member db c u"
proof (cases "find (\<lambda>m. cm_channel m = c \<and> cm_user m = u) (channel_members db)")
  case None
  then have "channel_role_of db c u = ''''" by (simp add: channel_role_of_def)
  moreover have "\<not> is_channel_member db c u" using None by (auto simp: is_channel_member_def find_None_iff)
  ultimately show ?thesis by simp
next
  case (Some m)
  then have "m \<in> set (channel_members db)" "cm_channel m = c" "cm_user m = u"
    by (auto dest: find_SomeD)
  moreover from this(1) assms have "cm_role m \<in> {''admin'', ''member''}"
    by (auto simp: members_ok_def)
  ultimately show ?thesis using Some by (auto simp: channel_role_of_def is_channel_member_def)
qed

end
