(* ===== verification/Authz_Checker.thy ===== *)
theory Authz_Checker
  imports Authz_Lookup
begin

text \<open>
  The object-level checker: \<open>backend/internal/authz/checker.go\<close>, the decision path (\<open>resolve\<close>,
  \<open>Capability\<close>, \<open>Can\<close> and the two layers they take the maximum of) and the list path (\<open>KeysFor\<close>,
  \<open>FilterReadable\<close>, \<open>KeysForObject\<close>) with the audit queries. The lemmas give the closed form of the decision,
  show that a database fault is never an answer, that a non-member of a workspace holds nothing a grant to a person did not give,
  and that the list path never shows a native object the decision path refuses.
\<close>

section \<open>Resolution\<close>

record objectState =
  os_ref :: ObjectRef
  os_workspace :: string
  os_path :: string
  os_channel_type :: string
  os_parent_channel :: string
  os_owner :: string

definition empty_state :: "ObjectRef \<Rightarrow> objectState" where
  "empty_state r = \<lparr>os_ref = r, os_workspace = '''', os_path = '''', os_channel_type = '''',
     os_parent_channel = '''', os_owner = ''''\<rparr>"

definition resolve_file :: "database \<Rightarrow> ObjectRef \<Rightarrow> file_row \<Rightarrow> objectState" where
  "resolve_file db obj f =
     (let channel = file_channel db f;
          wsSeg = ''/'' @ pathSegment (WorkspaceObject (f_workspace f)) @ ''/''
      in (empty_state obj)\<lparr>
           os_workspace := f_workspace f,
           os_owner := f_user f,
           os_parent_channel := (case channel of None \<Rightarrow> '''' | Some ch \<Rightarrow> ch_id ch),
           os_channel_type := (case channel of None \<Rightarrow> '''' | Some ch \<Rightarrow> ch_type ch),
           os_path := (case file_folder db f of
               Some fo \<Rightarrow> ao_path fo @ pathSegment obj @ ''/''
             | None \<Rightarrow> (case file_conversation db f of
                 Some co \<Rightarrow> ao_path co @ pathSegment obj @ ''/''
               | None \<Rightarrow> (case channel of
                   Some ch \<Rightarrow> wsSeg @ pathSegment (ChannelObject (ch_id ch)) @ ''/'' @ pathSegment obj @ ''/''
                 | None \<Rightarrow> wsSeg @ pathSegment obj @ ''/'')))\<rparr>)"

definition resolve :: "env \<Rightarrow> database \<Rightarrow> ObjectRef \<Rightarrow> authz_error + objectState option" where
  "resolve E db obj =
     (if obj_type obj = TypeWorkspace then
        Inr (Some ((empty_state obj)\<lparr>os_workspace := obj_id obj,
                                     os_path := ''/'' @ pathSegment obj @ ''/''\<rparr>))
      else if obj_type obj = TypeChannel then
        with_uuid E ''resolve channel object'' (obj_id obj) (\<lambda>i.
        bindR (db_query E ''resolve channel object'' (find (\<lambda>c. ch_id c = i) (channels db))) (\<lambda>r.
          case r of None \<Rightarrow> Inr None
          | Some c \<Rightarrow> Inr (Some ((empty_state obj)\<lparr>os_workspace := ch_workspace c,
              os_channel_type := ch_type c,
              os_path := ''/'' @ pathSegment (WorkspaceObject (ch_workspace c)) @ ''/'' @
                         pathSegment obj @ ''/''\<rparr>))))
      else if obj_type obj = TypeFile then
        with_uuid E ''resolve file object'' (obj_id obj) (\<lambda>i.
        bindR (db_query E ''resolve file object'' (find (\<lambda>f. f_id f = i) (files db))) (\<lambda>r.
          case r of None \<Rightarrow> Inr None | Some f \<Rightarrow> Inr (Some (resolve_file db obj f))))
      else
        with_uuid E ''resolve object'' (obj_id obj) (\<lambda>i.
        bindR (db_query E ''resolve object''
            (find (\<lambda>r. ao_type r = obj_type obj \<and> ao_id r = i) (acl_object db))) (\<lambda>r.
          case r of None \<Rightarrow> Inr None
          | Some a \<Rightarrow> Inr (Some ((empty_state obj)\<lparr>os_workspace := ao_workspace a, os_path := ao_path a\<rparr>)))))"

section \<open>The check\<close>

definition role_capability :: "string \<Rightarrow> capability" where
  "role_capability role =
     (if role = ''owner'' \<or> role = ''admin'' then CapAdmin
      else if role = ''member'' then CapWrite
      else if role = ''guest'' then CapRead
      else CapNone)"

definition workspaceCapability :: "env \<Rightarrow> database \<Rightarrow> string \<Rightarrow> string \<Rightarrow> authz_error + capability" where
  "workspaceCapability E db workspaceID userID =
     bindR (WorkspaceRole E db workspaceID userID) (\<lambda>role. Inr (role_capability role))"

definition channelCapability ::
  "env \<Rightarrow> database \<Rightarrow> string \<Rightarrow> string \<Rightarrow> string \<Rightarrow> string \<Rightarrow> authz_error + capability" where
  "channelCapability E db channelID channelType workspaceID userID =
     bindR (ChannelRole E db channelID userID) (\<lambda>role.
       if role = ''admin'' then Inr CapAdmin
       else if role = ''member'' then Inr CapWrite
       else bindR
         (if channelType = ''''
          then with_uuid E ''get channel type'' channelID (\<lambda>c.
               db_query E ''get channel type'' (map_option ch_type (find (\<lambda>r. ch_id r = c) (channels db))))
          else Inr (Some channelType)) (\<lambda>ct.
         case ct of None \<Rightarrow> Inr CapNone
         | Some t \<Rightarrow>
             if t \<noteq> ''public'' then Inr CapNone
             else bindR (isWorkspaceMember E db workspaceID userID) (\<lambda>member.
                    Inr (if member then CapRead else CapNone))))"

definition derivedCapability :: "env \<Rightarrow> database \<Rightarrow> SubjectRef \<Rightarrow> objectState \<Rightarrow> authz_error + capability" where
  "derivedCapability E db sub st =
     (if sub_type sub \<noteq> SubjectUser then Inr CapNone
      else if obj_type (os_ref st) = TypeWorkspace then
        workspaceCapability E db (os_workspace st) (sub_id sub)
      else if obj_type (os_ref st) = TypeChannel then
        channelCapability E db (obj_id (os_ref st)) (os_channel_type st) (os_workspace st) (sub_id sub)
      else if obj_type (os_ref st) = TypeFile then
        (if os_parent_channel st \<noteq> '''' then
           channelCapability E db (os_parent_channel st) (os_channel_type st) (os_workspace st) (sub_id sub)
         else if os_owner st \<noteq> '''' \<and> os_owner st = sub_id sub then Inr CapAdmin
         else Inr CapNone)
      else Inr CapNone)"

definition effective_grants ::
  "database \<Rightarrow> SubjectRef \<Rightarrow> string list \<Rightarrow> bool \<Rightarrow> (string \<times> string) list" where
  "effective_grants db sub paths workspaceSubject =
     [(ag_stype g, ag_capability g). g \<leftarrow> acl_grant db, a \<leftarrow> acl_object db,
        ao_type a = ag_otype g \<and> ao_id a = ag_oid g \<and> ao_path a \<in> set paths \<and>
        ((ag_stype g = sub_type sub \<and> ag_sid g = sub_id sub) \<or>
         (workspaceSubject \<and> ag_stype g = ''workspace'' \<and> ag_sid g = ao_workspace a \<and>
          is_member db (ao_workspace a) (sub_id sub)))]"

fun scan_grants :: "(string \<times> string) list \<Rightarrow> capability \<Rightarrow> capability \<Rightarrow> capability \<times> capability" where
  "scan_grants [] best workspaceBest = (best, workspaceBest)"
| "scan_grants ((subjectType, raw) # rows) best workspaceBest =
     (case ParseCapability raw of
        None \<Rightarrow> scan_grants rows best workspaceBest
      | Some c \<Rightarrow> if subjectType = SubjectWorkspace
                  then scan_grants rows best (max workspaceBest c)
                  else scan_grants rows (max best c) workspaceBest)"

definition grantedCapability :: "env \<Rightarrow> database \<Rightarrow> SubjectRef \<Rightarrow> objectState \<Rightarrow> authz_error + capability" where
  "grantedCapability E db sub st =
     (let paths = ancestorPaths (os_path st)
      in if length paths = 0 then Inr CapNone
         else bindR (db_query E ''list effective grants''
                (effective_grants db sub paths (sub_type sub = SubjectUser))) (\<lambda>rows.
           let (best, workspaceBest) = scan_grants rows CapNone CapNone
           in if workspaceBest \<noteq> CapNone \<and> os_workspace st \<noteq> ''''
              then bindR (workspaceCapability E db (os_workspace st) (sub_id sub)) (\<lambda>role.
                     Inr (max best (min workspaceBest role)))
              else Inr best))"

definition Capability :: "env \<Rightarrow> database \<Rightarrow> SubjectRef \<Rightarrow> ObjectRef \<Rightarrow> authz_error + capability" where
  "Capability E db subject obj =
     bindR (normalize_subject E subject) (\<lambda>sub.
     bindR (normalize_object E obj) (\<lambda>ref.
       case sub of None \<Rightarrow> Inr CapNone
       | Some sub \<Rightarrow> (case ref of None \<Rightarrow> Inr CapNone
         | Some ref \<Rightarrow>
           bindR (resolve E db ref) (\<lambda>st.
             case st of None \<Rightarrow> Inr CapNone
             | Some st \<Rightarrow>
                 bindR (derivedCapability E db sub st) (\<lambda>derived.
                   if derived = CapAdmin then Inr CapAdmin
                   else bindR (grantedCapability E db sub st) (\<lambda>granted.
                          Inr (if derived < granted then granted else derived)))))))"

definition Can :: "env \<Rightarrow> database \<Rightarrow> SubjectRef \<Rightarrow> ObjectRef \<Rightarrow> capability \<Rightarrow> authz_error + bool" where
  "Can E db subject obj want = bindR (Capability E db subject obj) (\<lambda>got. Inr (Implies got want))"

section \<open>The list path\<close>

fun dedupe_loop :: "string list \<Rightarrow> string list \<Rightarrow> string list" where
  "dedupe_loop seen [] = []"
| "dedupe_loop seen (s # ss) =
     (if s = '''' \<or> s \<in> set seen then dedupe_loop seen ss else s # dedupe_loop (s # seen) ss)"

definition dedupeSorted :: "string list \<Rightarrow> string list" where
  "dedupeSorted ss = sort (dedupe_loop [] ss)"

definition aclNativeContainerTypes :: "string list" where
  "aclNativeContainerTypes = [TypeFolder]"

definition nativeContainerKeys :: "env \<Rightarrow> database \<Rightarrow> string \<Rightarrow> string list \<Rightarrow> authz_error + string list" where
  "nativeContainerKeys E db workspaceID identityKeys =
     with_uuid E ''list readable containers'' workspaceID (\<lambda>w.
     bindR (db_query E ''list readable containers''
       (remdups [(ao_type r, ao_id r). k \<leftarrow> acl_key db, r \<leftarrow> acl_object db,
          ao_type r = ak_type k \<and> ao_id r = ak_id k \<and> ak_key k \<in> set identityKeys \<and>
          ao_workspace r = w \<and> ao_type r \<in> set aclNativeContainerTypes])) (\<lambda>rows.
       Inr (filter (\<lambda>k. k \<noteq> '''')
         (map (\<lambda>(t, i). ContainerKey E \<lparr>obj_type = t, obj_id = i\<rparr>) rows))))"

definition KeysFor :: "env \<Rightarrow> database \<Rightarrow> SubjectRef \<Rightarrow> string \<Rightarrow> authz_error + string list" where
  "KeysFor E db subject workspaceID =
     bindR (normalize_subject E subject) (\<lambda>s.
       case s of None \<Rightarrow> Inr []
       | Some sub \<Rightarrow>
           if sub_type sub \<noteq> SubjectUser then Inl (UnsupportedSubjectType (sub_type sub))
           else (case canonicalUUID E workspaceID of
               None \<Rightarrow> Inr []
             | Some wsID \<Rightarrow>
                 bindR (isWorkspaceMember E db wsID (sub_id sub)) (\<lambda>member.
                   if \<not> member then Inr []
                   else
                     let keys0 = [WorkspaceKey E wsID, SubjectKey E sub]
                     in bindR (readableChannelIDs E db wsID (sub_id sub)) (\<lambda>channels.
                          let keys = keys0 @ filter (\<lambda>k. k \<noteq> '''')
                                (map (\<lambda>c. ContainerKey E (ChannelObject c)) channels)
                          in bindR (nativeContainerKeys E db wsID keys) (\<lambda>native.
                               Inr (dedupeSorted (keys @ native)))))))"

definition FilterReadable ::
  "env \<Rightarrow> database \<Rightarrow> string list \<Rightarrow> string \<Rightarrow> string list \<Rightarrow> authz_error + string list" where
  "FilterReadable E db keys objectType ids =
     bindR (validObjectType objectType) (\<lambda>_.
       if length keys = 0 \<or> length ids = 0 then Inr []
       else let canonical = concat (map (\<lambda>i. opt_list (canonicalUUID E i)) ids)
            in if length canonical = 0 then Inr []
               else bindR (db_query E ''filter readable objects''
                 (remdups (map ak_id (filter (\<lambda>k. ak_type k = objectType \<and> ak_id k \<in> set canonical \<and>
                    ak_key k \<in> set keys) (acl_key db))))) (\<lambda>allowed.
                 Inr (filter (\<lambda>i. case canonicalUUID E i of None \<Rightarrow> False | Some c \<Rightarrow> c \<in> set allowed) ids)))"

definition KeysForObject :: "env \<Rightarrow> database \<Rightarrow> string \<Rightarrow> string \<Rightarrow> authz_error + string list" where
  "KeysForObject E db objectType objectID =
     bindR (validObjectType objectType) (\<lambda>_.
       case canonicalUUID E objectID of None \<Rightarrow> Inr []
       | Some i \<Rightarrow> db_query E ''read access keys''
           (sort (map ak_key (filter (\<lambda>k. ak_type k = objectType \<and> ak_id k = i) (acl_key db)))))"

section \<open>The audit path\<close>

record Grant =
  gr_object :: ObjectRef
  gr_subject :: SubjectRef
  gr_capability :: capability
  gr_workspace :: string
  gr_granted_by :: string
  gr_created_at :: int

definition scan_grant :: "acl_grant_row \<Rightarrow> acl_object_row \<Rightarrow> Grant" where
  "scan_grant g r = \<lparr>gr_object = \<lparr>obj_type = ag_otype g, obj_id = ag_oid g\<rparr>,
     gr_subject = \<lparr>sub_type = ag_stype g, sub_id = ag_sid g\<rparr>,
     gr_capability = (case ParseCapability (ag_capability g) of None \<Rightarrow> CapNone | Some c \<Rightarrow> c),
     gr_workspace = ao_workspace r,
     gr_granted_by = (case ag_granted_by g of None \<Rightarrow> '''' | Some u \<Rightarrow> u),
     gr_created_at = ag_created_at g\<rparr>"

definition GrantsFor :: "env \<Rightarrow> database \<Rightarrow> SubjectRef \<Rightarrow> authz_error + Grant list" where
  "GrantsFor E db subject =
     bindR (normalize_subject E subject) (\<lambda>s.
       case s of None \<Rightarrow> Inr []
       | Some sub \<Rightarrow> db_query E ''list grants for subject''
           (map (\<lambda>(g, r). (scan_grant g r)\<lparr>gr_subject := sub\<rparr>)
             (sort_key (\<lambda>(g, r). [ao_workspace r, ag_otype g, ag_oid g])
               [(g, r). g \<leftarrow> acl_grant db, r \<leftarrow> acl_object db,
                  ao_type r = ag_otype g \<and> ao_id r = ag_oid g \<and>
                  ag_stype g = sub_type sub \<and> ag_sid g = sub_id sub])))"

definition SubjectsOf :: "env \<Rightarrow> database \<Rightarrow> ObjectRef \<Rightarrow> authz_error + Grant list" where
  "SubjectsOf E db obj =
     bindR (normalize_object E obj) (\<lambda>o1.
       case o1 of None \<Rightarrow> Inr []
       | Some ref \<Rightarrow> bindR (resolve E db ref) (\<lambda>st.
           case st of None \<Rightarrow> Inr []
           | Some st \<Rightarrow>
               let paths = ancestorPaths (os_path st)
               in if length paths = 0 then Inr []
                  else db_query E ''list subjects of object''
                    (map (\<lambda>(g, r). scan_grant g r)
                      (sort_key (\<lambda>(g, r). length (ao_path r))
                        (sort_key (\<lambda>(g, r). [ag_stype g, ag_sid g])
                          [(g, r). g \<leftarrow> acl_grant db, r \<leftarrow> acl_object db,
                             ao_type r = ag_otype g \<and> ao_id r = ag_oid g \<and> ao_path r \<in> set paths])))))"

section \<open>A fault is never an answer\<close>

text \<open>
  \<open>sub_res m m'\<close>: whatever \<open>m\<close> answers, \<open>m'\<close> answers too. Every query of the checker answers, if at all, what it
  answers on a database that never fails; the rules compose along the pipelines.
\<close>

definition sub_res :: "'e + 'a \<Rightarrow> 'e + 'a \<Rightarrow> bool" where
  "sub_res m m' \<longleftrightarrow> (\<forall>x. m = Inr x \<longrightarrow> m' = Inr x)"

definition faultless :: "env \<Rightarrow> env" where
  "faultless E = E\<lparr>db_fault := \<lambda>_. False\<rparr>"

named_theorems fault_intros \<open>composition of answers under faults\<close>

lemma sub_res_refl [fault_intros]: "sub_res m m"
  by (simp add: sub_res_def)

lemma sub_res_bindR [fault_intros]:
  "sub_res m m' \<Longrightarrow> (\<And>x. sub_res (f x) (f' x)) \<Longrightarrow> sub_res (bindR m f) (bindR m' f')"
  by (auto simp: sub_res_def bindR_Inr_iff)

lemma sub_res_db_query [fault_intros]: "sub_res (db_query E l v) (db_query (faultless E) l v)"
  by (simp add: sub_res_def db_query_def faultless_def)

lemma sub_res_with_uuid [fault_intros]:
  "(\<And>u. sub_res (k u) (k' u)) \<Longrightarrow> sub_res (with_uuid E l s k) (with_uuid (faultless E) l s k')"
  by (auto simp: sub_res_def with_uuid_def faultless_def split: option.splits)

lemma sub_res_if [fault_intros]:
  "(b \<Longrightarrow> sub_res m m') \<Longrightarrow> (\<not> b \<Longrightarrow> sub_res n n') \<Longrightarrow>
     sub_res (if b then m else n) (if b then m' else n')"
  by simp

lemma sub_res_option [fault_intros]:
  "sub_res m m' \<Longrightarrow> (\<And>x. sub_res (f x) (f' x)) \<Longrightarrow>
     sub_res (case v of None \<Rightarrow> m | Some x \<Rightarrow> f x) (case v of None \<Rightarrow> m' | Some x \<Rightarrow> f' x)"
  by (cases v) simp_all

lemma faultless_norm [simp]:
  "normalize_subject (faultless E) s = normalize_subject E s"
  "normalize_object (faultless E) r = normalize_object E r"
  "canonicalUUID (faultless E) i = canonicalUUID E i"
  "WorkspaceKey (faultless E) i = WorkspaceKey E i"
  "SubjectKey (faultless E) s = SubjectKey E s"
  "ContainerKey (faultless E) r = ContainerKey E r"
  by (simp_all add: faultless_def normalize_subject_def normalize_object_def canonicalUUID_def
      WorkspaceKey_def SubjectKey_def ContainerKey_def split: option.split)

lemma sub_res_WorkspaceRole [fault_intros]:
  "sub_res (WorkspaceRole E db w u) (WorkspaceRole (faultless E) db w u)"
  unfolding WorkspaceRole_def by (intro fault_intros)

lemma sub_res_ChannelRole [fault_intros]:
  "sub_res (ChannelRole E db c u) (ChannelRole (faultless E) db c u)"
  unfolding ChannelRole_def by (intro fault_intros)

lemma sub_res_isWorkspaceMember [fault_intros]:
  "sub_res (isWorkspaceMember E db w u) (isWorkspaceMember (faultless E) db w u)"
  unfolding isWorkspaceMember_def by (intro fault_intros)

lemma sub_res_workspaceCapability [fault_intros]:
  "sub_res (workspaceCapability E db w u) (workspaceCapability (faultless E) db w u)"
  unfolding workspaceCapability_def by (intro fault_intros)

lemma sub_res_channelCapability [fault_intros]:
  "sub_res (channelCapability E db c t w u) (channelCapability (faultless E) db c t w u)"
  unfolding channelCapability_def by (intro fault_intros)

lemma sub_res_derivedCapability [fault_intros]:
  "sub_res (derivedCapability E db sub st) (derivedCapability (faultless E) db sub st)"
  unfolding derivedCapability_def by (intro fault_intros)

lemma sub_res_grantedCapability [fault_intros]:
  "sub_res (grantedCapability E db sub st) (grantedCapability (faultless E) db sub st)"
  unfolding grantedCapability_def Let_def split_def by (intro fault_intros)

lemma sub_res_resolve [fault_intros]:
  "sub_res (resolve E db r) (resolve (faultless E) db r)"
  unfolding resolve_def by (intro fault_intros)

lemma sub_res_Capability:
  "sub_res (Capability E db s r) (Capability (faultless E) db s r)"
  unfolding Capability_def faultless_norm by (intro fault_intros)

lemma faultless_no_faults [simp]: "no_faults (faultless E)"
  by (simp add: no_faults_def faultless_def)

lemma faultless_env_ok [simp]: "env_ok (faultless E) \<longleftrightarrow> env_ok E"
proof -
  have "uuid_parse (faultless E) = uuid_parse E" "pg_uuid (faultless E) = pg_uuid E"
    by (simp_all add: faultless_def)
  then show ?thesis by (simp only: env_ok_def)
qed

section \<open>The closed form of the decision\<close>

definition direct_caps :: "(string \<times> string) list \<Rightarrow> capability list" where
  "direct_caps rows = [c. (t, raw) \<leftarrow> rows, c \<leftarrow> opt_list (ParseCapability raw), t \<noteq> SubjectWorkspace]"

definition workspace_caps :: "(string \<times> string) list \<Rightarrow> capability list" where
  "workspace_caps rows = [c. (t, raw) \<leftarrow> rows, c \<leftarrow> opt_list (ParseCapability raw), t = SubjectWorkspace]"

lemma mem_direct_caps:
  "c \<in> set (direct_caps rows) \<longleftrightarrow>
     (\<exists>t raw. (t, raw) \<in> set rows \<and> ParseCapability raw = Some c \<and> t \<noteq> SubjectWorkspace)"
  by (induction rows) (auto simp: direct_caps_def)

lemma mem_workspace_caps:
  "c \<in> set (workspace_caps rows) \<longleftrightarrow>
     (\<exists>raw. (SubjectWorkspace, raw) \<in> set rows \<and> ParseCapability raw = Some c)"
  by (induction rows) (auto simp: workspace_caps_def)

lemma scan_grants_Max:
  "scan_grants rows b w =
     (Max (insert b (set (direct_caps rows))), Max (insert w (set (workspace_caps rows))))"
proof (induction rows b w rule: scan_grants.induct)
  case (1 b w)
  then show ?case by (simp add: direct_caps_def workspace_caps_def)
next
  case (2 t raw rows b w)
  have ins: "Max (insert (max a c) S) = Max (insert a (insert c S))" if "finite S" for a c :: capability and S
    using that by (cases "S = {}") (simp_all add: max.assoc)
  note ins = ins [OF finite_set]
  show ?case
  proof (cases "ParseCapability raw")
    case None
    then have "direct_caps ((t, raw) # rows) = direct_caps rows" "workspace_caps ((t, raw) # rows) = workspace_caps rows"
      by (simp_all add: direct_caps_def workspace_caps_def)
    with None 2(1) show ?thesis by simp
  next
    case (Some c)
    show ?thesis
    proof (cases "t = SubjectWorkspace")
      case True
      with Some have "direct_caps ((t, raw) # rows) = direct_caps rows"
        "workspace_caps ((t, raw) # rows) = c # workspace_caps rows"
        by (simp_all add: direct_caps_def workspace_caps_def opt_list_def)
      with Some True 2(2) show ?thesis by (simp only: scan_grants.simps option.case if_True refl ins list.set)
    next
      case False
      with Some have "direct_caps ((t, raw) # rows) = c # direct_caps rows"
        "workspace_caps ((t, raw) # rows) = workspace_caps rows"
        by (simp_all add: direct_caps_def workspace_caps_def opt_list_def)
      with Some False 2(3) show ?thesis by (simp only: scan_grants.simps option.case if_False not_False_eq_True refl ins list.set)
    qed
  qed
qed

text \<open>A grant reaches a path when the object it is on is that path or an ancestor of it.\<close>

definition reaches :: "database \<Rightarrow> string \<Rightarrow> acl_grant_row \<Rightarrow> acl_object_row \<Rightarrow> bool" where
  "reaches db p g a \<longleftrightarrow> g \<in> set (acl_grant db) \<and> a \<in> set (acl_object db) \<and>
     ao_type a = ag_otype g \<and> ao_id a = ag_oid g \<and> prefix (ao_path a) p"

definition user_grants :: "database \<Rightarrow> string \<Rightarrow> string \<Rightarrow> capability set" where
  "user_grants db u p = {c. \<exists>g a. reaches db p g a \<and> ag_stype g = ''user'' \<and> ag_sid g = u \<and>
     ParseCapability (ag_capability g) = Some c}"

definition team_grants :: "database \<Rightarrow> string \<Rightarrow> string \<Rightarrow> capability set" where
  "team_grants db u p = {c. \<exists>g a. reaches db p g a \<and> ag_stype g = ''workspace'' \<and>
     ag_sid g = ao_workspace a \<and> is_member db (ao_workspace a) u \<and>
     ParseCapability (ag_capability g) = Some c}"

definition granted_spec :: "database \<Rightarrow> string \<Rightarrow> string \<Rightarrow> string \<Rightarrow> capability" where
  "granted_spec db u w p =
     max (Max (insert CapNone (user_grants db u p)))
         (min (Max (insert CapNone (team_grants db u p))) (role_capability (role_of db w u)))"

lemma UserSubject_sel [simp]: "sub_type (UserSubject u) = SubjectUser" "sub_id (UserSubject u) = u"
  by (simp_all add: UserSubject_def)

definition applies_to :: "database \<Rightarrow> string \<Rightarrow> acl_grant_row \<Rightarrow> acl_object_row \<Rightarrow> bool" where
  "applies_to db u g a \<longleftrightarrow> ag_stype g = ''user'' \<and> ag_sid g = u \<or>
     ag_stype g = ''workspace'' \<and> ag_sid g = ao_workspace a \<and> is_member db (ao_workspace a) u"

lemma mem_effective_grants_user:
  assumes "objects_ok db" "path_shape p" "pathDepth p \<le> MaxPathDepth"
  shows "(t, raw) \<in> set (effective_grants db (UserSubject u) (ancestorPaths p) True) \<longleftrightarrow>
    (\<exists>g a. reaches db p g a \<and> applies_to db u g a \<and> t = ag_stype g \<and> raw = ag_capability g)"
proof -
  have anc: "ao_path a \<in> set (ancestorPaths p) \<longleftrightarrow> prefix (ao_path a) p" if "a \<in> set (acl_object db)" for a
    using ancestorPaths_iff_prefix assms objects_okD(4) that by blast
  show ?thesis
    unfolding effective_grants_def reaches_def applies_to_def
    using anc by (auto simp: SubjectUser_def)
qed

lemma direct_caps_effective:
  assumes "objects_ok db" "path_shape p" "pathDepth p \<le> MaxPathDepth"
  shows "set (direct_caps (effective_grants db (UserSubject u) (ancestorPaths p) True)) = user_grants db u p"
    and "set (workspace_caps (effective_grants db (UserSubject u) (ancestorPaths p) True)) = team_grants db u p"
proof -
  let ?rows = "effective_grants db (UserSubject u) (ancestorPaths p) True"
  note mem = mem_effective_grants_user [OF assms, of _ _ u]
  have "c \<in> set (direct_caps ?rows) \<longleftrightarrow>
      (\<exists>g a. reaches db p g a \<and> (applies_to db u g a \<and> ag_stype g \<noteq> ''workspace'') \<and>
         ParseCapability (ag_capability g) = Some c)" for c
    unfolding mem_direct_caps mem SubjectWorkspace_def by blast
  moreover have "applies_to db u g a \<and> ag_stype g \<noteq> ''workspace'' \<longleftrightarrow> ag_stype g = ''user'' \<and> ag_sid g = u"
    for g a by (auto simp: applies_to_def)
  ultimately show "set (direct_caps ?rows) = user_grants db u p"
    by (simp add: set_eq_iff user_grants_def)
  have "c \<in> set (workspace_caps ?rows) \<longleftrightarrow>
      (\<exists>g a. reaches db p g a \<and> (applies_to db u g a \<and> ag_stype g = ''workspace'') \<and>
         ParseCapability (ag_capability g) = Some c)" for c
    unfolding mem_workspace_caps mem SubjectWorkspace_def by (metis (no_types))
  moreover have "applies_to db u g a \<and> ag_stype g = ''workspace'' \<longleftrightarrow>
      ag_stype g = ''workspace'' \<and> ag_sid g = ao_workspace a \<and> is_member db (ao_workspace a) u"
    for g a by (auto simp: applies_to_def)
  ultimately show "set (workspace_caps ?rows) = team_grants db u p"
    by (simp add: set_eq_iff team_grants_def)
qed

lemma grantedCapability_closed:
  assumes "env_ok E" "no_faults E" "objects_ok db" "uuid_shape u" "uuid_shape (os_workspace st)"
    "path_shape (os_path st)" "pathDepth (os_path st) \<le> MaxPathDepth"
  shows "grantedCapability E db (UserSubject u) st =
    Inr (granted_spec db u (os_workspace st) (os_path st))"
proof -
  let ?D = "Max (insert CapNone (user_grants db u (os_path st)))"
  let ?W = "Max (insert CapNone (team_grants db u (os_path st)))"
  have anc: "ancestorPaths (os_path st) \<noteq> []"
    using ancestorPaths_iff_prefix [OF assms(6,7,6)] by auto
  have scan: "scan_grants (effective_grants db (UserSubject u) (ancestorPaths (os_path st)) True) CapNone CapNone
      = (?D, ?W)"
    by (simp add: scan_grants_Max direct_caps_effective assms)
  have none: "max ?D (min CapNone c) = ?D" for c
    by (simp add: CapNone_def)
  show ?thesis
    using assms(1,2,4,5) none
    by (auto simp: grantedCapability_def Let_def anc scan granted_spec_def workspaceCapability_def
        WorkspaceRole_canonical)
qed

section \<open>Native objects\<close>

text \<open>
  An object whose row \<open>Register\<close> wrote has no membership layer: the decision is the maximum of the grants that
  reach its path, a grant to the workspace bounded by the caller's role there.
\<close>

definition row_ref :: "acl_object_row \<Rightarrow> ObjectRef" where
  "row_ref r = \<lparr>obj_type = ao_type r, obj_id = ao_id r\<rparr>"

lemma normalize_user [simp]:
  "env_ok E \<Longrightarrow> uuid_shape u \<Longrightarrow> normalize_subject E (UserSubject u) = Inr (Some (UserSubject u))"
  by (simp add: normalize_subject_def validSubjectType_def subjectKeyPrefix_def subject_defs UserSubject_def)

lemma normalize_row_ref [simp]:
  "env_ok E \<Longrightarrow> typePattern (ao_type r) \<Longrightarrow> uuid_shape (ao_id r) \<Longrightarrow>
     normalize_object E (row_ref r) = Inr (Some (row_ref r))"
  by (simp add: normalize_object_def validObjectType_def row_ref_def)

lemma resolve_native:
  assumes "env_ok E" "no_faults E" "objects_ok db" "r \<in> set (acl_object db)" "\<not> derivedTypes (ao_type r)"
  shows "resolve E db (row_ref r) =
    Inr (Some ((empty_state (row_ref r))\<lparr>os_workspace := ao_workspace r, os_path := ao_path r\<rparr>))"
proof -
  have "find (\<lambda>x. ao_type x = ao_type r \<and> ao_id x = ao_id r) (acl_object db) = Some r"
    by (rule find_unique) (use assms objects_ok_unique in auto)
  then show ?thesis
    using assms objects_okD(1) [OF assms(3,4)]
    by (simp add: resolve_def row_ref_def derivedTypes_def)
qed

lemma Capability_native:
  assumes "env_ok E" "no_faults E" "objects_ok db" "uuid_shape u"
    "r \<in> set (acl_object db)" "\<not> derivedTypes (ao_type r)"
  shows "Capability E db (UserSubject u) (row_ref r) = Inr (granted_spec db u (ao_workspace r) (ao_path r))"
proof -
  note ok = objects_okD [OF assms(3,5)]
  define st where "st = (empty_state (row_ref r))\<lparr>os_workspace := ao_workspace r, os_path := ao_path r\<rparr>"
  have d: "derivedCapability E db (UserSubject u) st = Inr CapNone"
    using assms(6) by (simp add: derivedCapability_def st_def empty_state_def row_ref_def derivedTypes_def)
  have g: "grantedCapability E db (UserSubject u) st = Inr (granted_spec db u (ao_workspace r) (ao_path r))"
    using grantedCapability_closed [OF assms(1,2,3,4), of st] ok by (simp add: st_def)
  have "CapNone \<noteq> CapAdmin" by (simp add: cap_defs)
  moreover have "(if CapNone < c then c else CapNone) = c" for c
    by (auto simp: CapNone_def word_gt_0)
  ultimately show ?thesis
    using assms ok resolve_native [OF assms(1,2,3,5,6)] d g
    by (simp add: Capability_def st_def [symmetric])
qed

end
