(* ===== verification/Authz_ListPath.thy ===== *)
theory Authz_ListPath
  imports Authz_Checker
begin

text \<open>
  The list path (\<open>KeysFor\<close> then \<open>FilterReadable\<close>, over the materialized \<open>acl_key\<close>) against the decision path
  (\<open>Can\<close>, over grants and paths): on the objects of a workspace the ACL layer owns, a member is shown exactly what
  \<open>Can\<close> lets them read. The hierarchy invariant \<open>tree_ok\<close> says that a stored path names the current path of every
  registered object it passes through.
\<close>

section \<open>Hierarchy invariants\<close>

lemma two_last: "2 \<le> length xs \<Longrightarrow> \<exists>us a b. xs = us @ [a, b]"
  by (cases xs rule: rev_cases; cases "butlast xs" rule: rev_cases) auto

definition seg_of :: "acl_object_row \<Rightarrow> string" where
  "seg_of r = pathSegment (row_ref r)"

definition tree_ok :: "database \<Rightarrow> bool" where
  "tree_ok db \<longleftrightarrow> (\<forall>r \<in> set (acl_object db). last (pathSegments (ao_path r)) = seg_of r \<and>
     (\<forall>x \<in> set (acl_object db). \<forall>ts \<in> set (prefixes (pathSegments (ao_path r))).
        ts \<noteq> [] \<and> last ts = seg_of x \<longrightarrow> ao_path x = render_path ts))"

definition native_home :: "database \<Rightarrow> bool" where
  \<comment> \<open>no object the ACL layer owns is registered directly under a channel\<close>
  "native_home db \<longleftrightarrow> (\<forall>r \<in> set (acl_object db). \<not> derivedTypes (ao_type r) \<longrightarrow>
     (case acl_parent_segment (ao_path r) of None \<Rightarrow> True
      | Some s \<Rightarrow> split_part s CHR '':'' 0 \<noteq> ''channel''))"

lemma root_segment:
  assumes "objects_ok db" "r \<in> set (acl_object db)"
  shows "\<exists>segs. segs \<noteq> [] \<and> list_all seg_shape segs \<and> ao_path r = render_path segs \<and>
    hd segs = pathSegment (WorkspaceObject (ao_workspace r))"
proof -
  note ok = objects_okD [OF assms]
  from ok(4) obtain segs where s: "segs \<noteq> []" "list_all seg_shape segs" "ao_path r = render_path segs"
    by (auto simp: path_shape_iff)
  have "prefix [pathSegment (WorkspaceObject (ao_workspace r))] segs"
    using ok(2,6) s(2,3) prefix_render_path [of "[pathSegment (WorkspaceObject (ao_workspace r))]" segs]
    by (simp add: workspace_path_render seg_shape_workspace)
  with s show ?thesis by (cases segs) auto
qed

lemma same_workspace:
  assumes "objects_ok db" "a \<in> set (acl_object db)" "d \<in> set (acl_object db)" "prefix (ao_path a) (ao_path d)"
  shows "ao_workspace a = ao_workspace d"
proof -
  obtain as where a: "as \<noteq> []" "list_all seg_shape as" "ao_path a = render_path as"
      "hd as = pathSegment (WorkspaceObject (ao_workspace a))"
    using root_segment [OF assms(1,2)] by blast
  obtain ds where d: "ds \<noteq> []" "list_all seg_shape ds" "ao_path d = render_path ds"
      "hd ds = pathSegment (WorkspaceObject (ao_workspace d))"
    using root_segment [OF assms(1,3)] by blast
  have "prefix as ds" using assms(4) a d by (simp add: prefix_render_path)
  then have "hd as = hd ds" using a(1) by (auto simp: prefix_def)
  then show ?thesis using a(4) d(4) by (simp add: pathSegment_def WorkspaceObject_def)
qed

section \<open>Keys of native objects\<close>

lemma native_key_iff:
  assumes "objects_ok db" "d \<in> set (acl_object db)" "\<not> derivedTypes (ao_type d)"
  shows "mk_key d k \<in> set (acl_key_expected db) \<longleftrightarrow>
    acl_container_key (acl_parent_segment (ao_path d)) = Some k \<or>
    (\<exists>g a pre. reaches db (ao_path d) g a \<and> grant_key_prefix (ag_stype g) = Some pre \<and> k = pre @ ag_sid g)"
proof -
  have uniq: "x = d" if "x \<in> set (acl_object db)" "ao_type x = ao_type d" "ao_id x = ao_id d" for x
    using objects_ok_unique assms(1,2) that by blast
  have nt: "ao_type d \<noteq> ''workspace''" "ao_type d \<noteq> ''channel''" "ao_type d \<noteq> ''file''"
    using assms(3) by (auto simp: derivedTypes_def type_defs)
  have legacy: "mk_key d k \<notin> set (key_arm_workspace db)" "mk_key d k \<notin> set (key_arm_channel_member db)"
    "mk_key d k \<notin> set (key_arm_public_channel db)" "mk_key d k \<notin> set (key_arm_uploader db)"
    "mk_key d k \<notin> set (key_arm_attachment db)"
    using nt by (auto simp: key_arm_workspace_def key_arm_channel_member_def key_arm_public_channel_def
        key_arm_uploader_def key_arm_attachment_def mk_key_def)
  have c: "mk_key d k \<in> set (key_arm_container db) \<longleftrightarrow>
      acl_container_key (acl_parent_segment (ao_path d)) = Some k"
    unfolding mem_key_arm_container mk_key_inject using assms(2) uniq by metis
  have g: "mk_key d k \<in> set (key_arm_grant db) \<longleftrightarrow>
      (\<exists>g a pre. reaches db (ao_path d) g a \<and> grant_key_prefix (ag_stype g) = Some pre \<and> k = pre @ ag_sid g)"
      (is "?l \<longleftrightarrow> ?r")
  proof
    assume ?l
    then obtain g go da pre where x: "g \<in> set (acl_grant db)" "go \<in> set (acl_object db)"
        "da \<in> set (acl_object db)" "grant_key_prefix (ag_stype g) = Some pre" "ao_type go = ag_otype g"
        "ao_id go = ag_oid g" "in_subtree (ao_path go) (ao_path da)" "ao_type d = ao_type da"
        "ao_id d = ao_id da" "k = pre @ ag_sid g"
      unfolding mem_key_arm_grant mk_key_inject by blast
    then have "da = d" using uniq by simp
    with x have "reaches db (ao_path d) g go"
      using in_subtree_objects [OF assms(1) x(2)] by (simp add: reaches_def)
    with x show ?r by blast
  next
    assume ?r
    then obtain g a pre where x: "reaches db (ao_path d) g a" "grant_key_prefix (ag_stype g) = Some pre"
        "k = pre @ ag_sid g" by blast
    then have "in_subtree (ao_path a) (ao_path d)"
      using in_subtree_objects [OF assms(1), of a] by (simp add: reaches_def)
    with x assms(2) show ?l
      unfolding mem_key_arm_grant mk_key_inject reaches_def by blast
  qed
  show ?thesis using legacy c g by (simp add: acl_key_expected_def)
qed

lemma container_key_cases:
  assumes "objects_ok db" "d \<in> set (acl_object db)" "acl_container_key (acl_parent_segment (ao_path d)) = Some k"
  obtains (channel) i where "split_part (the (acl_parent_segment (ao_path d))) CHR '':'' 0 = ''channel''"
      "k = ''c-'' @ i" "acl_parent_segment (ao_path d) \<noteq> None"
  | (folder) i where "acl_parent_segment (ao_path d) = Some (pathSegment \<lparr>obj_type = ''folder'', obj_id = i\<rparr>)"
      "k = ''f-'' @ i" "uuid_shape i"
proof -
  obtain s where s: "acl_parent_segment (ao_path d) = Some s" using assms(3)
    by (cases "acl_parent_segment (ao_path d)") (auto simp: acl_container_key_def)
  then have "seg_shape s"
    by (auto simp: acl_parent_segment_def split: list.splits if_splits)
  then obtain t u where tu: "s = t @ CHR '':'' # u" "typePattern t" "uuid_shape u" by (auto simp: seg_shape_iff)
  have "t = ''channel'' \<and> k = ''c-'' @ u \<or> t = ''folder'' \<and> k = ''f-'' @ u"
    using assms(3) s tu split_part_seg [of t u] by (auto simp: acl_container_key_def split: if_splits)
  then show thesis
  proof
    assume "t = ''channel'' \<and> k = ''c-'' @ u"
    with s tu split_part_seg [of t u] show thesis by (intro channel [of u]) auto
  next
    assume "t = ''folder'' \<and> k = ''f-'' @ u"
    with s tu show thesis by (intro folder [of u]) (auto simp: pathSegment_def)
  qed
qed

text \<open>The row of the folder an object sits in carries the path the object's own path passes through.\<close>

lemma folder_prefix:
  assumes "objects_ok db" "tree_ok db" "d \<in> set (acl_object db)" "fo \<in> set (acl_object db)"
    "acl_parent_segment (ao_path d) = Some (seg_of fo)"
  shows "prefix (ao_path fo) (ao_path d)"
proof -
  obtain segs where s: "segs \<noteq> []" "list_all seg_shape segs" "ao_path d = render_path segs"
    using objects_okD(4) [OF assms(1,3)] by (auto simp: path_shape_iff)
  have two: "2 \<le> length segs"
  proof (rule ccontr)
    assume "\<not> 2 \<le> length segs"
    with s(1) obtain x where "segs = [x]" by (cases segs; cases "tl segs") auto
    with s assms(5) acl_parent_segment_root [of x] show False by simp
  qed
  then obtain us a b where segs: "segs = us @ [a, b]"
    using two_last by blast
  have "a = seg_of fo"
    using acl_parent_segment_render [OF s(2) two] assms(5) s(3) by (simp add: segs nth_append)
  moreover have "us @ [a] \<in> set (prefixes (pathSegments (ao_path d)))"
    using s by (simp add: pathSegments_render segs)
  moreover have "\<forall>ts \<in> set (prefixes (pathSegments (ao_path d))).
      ts \<noteq> [] \<and> last ts = seg_of fo \<longrightarrow> ao_path fo = render_path ts"
    using assms(2-4) unfolding tree_ok_def by blast
  ultimately have "ao_path fo = render_path (us @ [a])"
    by fastforce
  then show ?thesis
    using s prefix_render_path [of "us @ [a]" segs] by (simp add: segs)
qed

section \<open>The key set of a member\<close>

lemma set_dedupe_loop: "set (dedupe_loop seen ss) = {s \<in> set ss. s \<noteq> '''' \<and> s \<notin> set seen}"
  by (induction seen ss rule: dedupe_loop.induct) auto

lemma distinct_dedupe_loop: "distinct (dedupe_loop seen ss)"
  by (induction seen ss rule: dedupe_loop.induct) (auto simp: set_dedupe_loop)

lemma dedupeSorted_props:
  "sorted (dedupeSorted ss)" "distinct (dedupeSorted ss)" "set (dedupeSorted ss) = set ss - {''''}"
  by (auto simp: dedupeSorted_def distinct_dedupe_loop set_dedupe_loop)

definition readable_channels :: "database \<Rightarrow> string \<Rightarrow> string \<Rightarrow> channel_row list" where
  "readable_channels db w u = filter (\<lambda>c. ch_workspace c = w \<and>
     (ch_type c = ''public'' \<or> is_channel_member db (ch_id c) u)) (channels db)"

definition identity_keys :: "database \<Rightarrow> string \<Rightarrow> string \<Rightarrow> string set" where
  "identity_keys db w u =
     {''w-'' @ w, ''u-'' @ u} \<union> {''c-'' @ ch_id c | c. c \<in> set (readable_channels db w u)}"

definition folder_keys :: "database \<Rightarrow> string \<Rightarrow> string set \<Rightarrow> string set" where
  "folder_keys db w ks = {''f-'' @ ao_id r | r. r \<in> set (acl_object db) \<and> ao_type r = ''folder'' \<and>
     ao_workspace r = w \<and> (\<exists>k \<in> ks. mk_key r k \<in> set (acl_key db))}"

lemma isWorkspaceMember_canonical:
  assumes "env_ok E" "no_faults E" "members_ok db" "uuid_shape w" "uuid_shape u"
  shows "isWorkspaceMember E db w u = Inr (is_member db w u)"
  using assms role_of_cases [OF assms(3), of w u]
  by (auto simp: isWorkspaceMember_def WorkspaceRole_canonical)

lemma readableChannelIDs_canonical:
  assumes "env_ok E" "no_faults E" "members_ok db" "uuid_shape w" "uuid_shape u"
  shows "readableChannelIDs E db w u =
    Inr (if is_member db w u then map ch_id (readable_channels db w u) else [])"
  using assms by (simp add: readableChannelIDs_def isWorkspaceMember_canonical readable_channels_def
      is_channel_member_def)

lemma key_row_eq: "ao_type r = ak_type k \<Longrightarrow> ao_id r = ak_id k \<Longrightarrow> k = mk_key r (ak_key k)"
  by (cases k) (simp add: mk_key_def)

lemma nativeContainerKeys_canonical:
  assumes "env_ok E" "no_faults E" "objects_ok db" "uuid_shape w"
  obtains ks where "nativeContainerKeys E db w identity = Inr ks"
    "set ks = folder_keys db w (set identity)"
proof -
  let ?rows = "remdups [(ao_type r, ao_id r). k \<leftarrow> acl_key db, r \<leftarrow> acl_object db,
          ao_type r = ak_type k \<and> ao_id r = ak_id k \<and> ak_key k \<in> set identity \<and>
          ao_workspace r = w \<and> ao_type r \<in> set aclNativeContainerTypes]"
  let ?ks = "filter (\<lambda>k. k \<noteq> '''') (map (\<lambda>(t, i). ContainerKey E \<lparr>obj_type = t, obj_id = i\<rparr>) ?rows)"
  have ck: "ContainerKey E \<lparr>obj_type = ''folder'', obj_id = ao_id r\<rparr> = ''f-'' @ ao_id r"
    if "r \<in> set (acl_object db)" for r
    using assms(1) objects_okD(1) [OF assms(3) that]
    by (simp add: ContainerKey_def containerKeyPrefix_def type_defs)
  have key: "(\<exists>k \<in> set (acl_key db). ao_type r = ak_type k \<and> ao_id r = ak_id k \<and> ak_key k \<in> S) \<longleftrightarrow>
      (\<exists>k \<in> S. mk_key r k \<in> set (acl_key db))" for r S
    by (metis key_row_eq mk_key_sel)
  let ?F = "{r \<in> set (acl_object db). ao_type r = ''folder'' \<and> ao_workspace r = w \<and>
    (\<exists>k \<in> set identity. mk_key r k \<in> set (acl_key db))}"
  have rows: "set ?rows = (\<lambda>r. (''folder'', ao_id r)) ` ?F"
    unfolding key [symmetric] by (auto simp: aclNativeContainerTypes_def TypeFolder_def image_iff) metis
  have "(\<lambda>(t, i). ContainerKey E \<lparr>obj_type = t, obj_id = i\<rparr>) ` set ?rows = (\<lambda>r. ''f-'' @ ao_id r) ` ?F"
    unfolding rows image_image by (rule image_cong) (use ck in auto)
  then have "set ?ks = folder_keys db w (set identity)"
    unfolding set_filter set_map folder_keys_def by auto
  moreover have "nativeContainerKeys E db w identity = Inr ?ks"
    using assms by (simp add: nativeContainerKeys_def)
  ultimately show thesis by (rule that [rotated])
qed

lemma KeysFor_canonical:
  assumes "env_ok E" "no_faults E" "objects_ok db" "members_ok db" "uuid_shape w" "uuid_shape u"
    "is_member db w u"
  obtains keys where "KeysFor E db (UserSubject u) w = Inr keys"
    "set keys = identity_keys db w u \<union> folder_keys db w (identity_keys db w u)" "sorted keys" "distinct keys"
proof -
  let ?cs = "filter (\<lambda>k. k \<noteq> '''')
    (map (\<lambda>c. ContainerKey E (ChannelObject c)) (map ch_id (readable_channels db w u)))"
  let ?identity = "[WorkspaceKey E w, SubjectKey E (UserSubject u)] @ ?cs"
  have wk: "WorkspaceKey E w = ''w-'' @ w" using assms by (simp add: WorkspaceKey_def)
  have sk: "SubjectKey E (UserSubject u) = ''u-'' @ u"
    using assms by (simp add: SubjectKey_def subjectKeyPrefix_def subject_defs UserSubject_def)
  have "ContainerKey E (ChannelObject (ch_id c)) = ''c-'' @ ch_id c" if "c \<in> set (readable_channels db w u)" for c
    using assms that by (auto simp: ContainerKey_def containerKeyPrefix_def type_defs ChannelObject_def
        readable_channels_def members_ok_def)
  then have identity: "set ?identity = identity_keys db w u"
    unfolding identity_keys_def set_append set_filter set_map image_image list.set wk sk by auto
  obtain ks where ks: "nativeContainerKeys E db w ?identity = Inr ks"
      "set ks = folder_keys db w (identity_keys db w u)"
    using nativeContainerKeys_canonical [OF assms(1,2,3,5), of ?identity] identity by metis
  have "KeysFor E db (UserSubject u) w = Inr (dedupeSorted (?identity @ ks))"
    using assms ks(1)
    by (simp add: KeysFor_def isWorkspaceMember_canonical readableChannelIDs_canonical Let_def)
  moreover have "'''' \<notin> identity_keys db w u \<union> folder_keys db w (identity_keys db w u)"
    by (auto simp: identity_keys_def folder_keys_def)
  then have "set (dedupeSorted (?identity @ ks)) =
      identity_keys db w u \<union> folder_keys db w (identity_keys db w u)"
    using dedupeSorted_props(3) [of "?identity @ ks"] identity ks(2) by auto
  ultimately show thesis
    using that dedupeSorted_props(1,2) [of "?identity @ ks"] by blast
qed

section \<open>Holding a key is holding read\<close>

lemma stored_capability:
  assumes "capabilityValues raw \<noteq> None"
  shows "\<exists>c. ParseCapability raw = Some c \<and> c \<noteq> CapNone"
proof -
  have "raw \<in> {''read'', ''comment'', ''write'', ''share'', ''admin''}"
    using assms by (auto simp: capabilityValues_def split: if_splits)
  then show ?thesis
    by (auto simp: ParseCapability_def to_lower_def to_lower_char_def trim_space_def is_space_def is_upper_def
        capabilityValues_def cap_defs)
qed

lemma Max_insert_none_iff:
  "finite S \<Longrightarrow> Max (insert CapNone S) \<noteq> CapNone \<longleftrightarrow> (\<exists>c \<in> S. c \<noteq> CapNone)"
  by (auto simp: CapNone_def Max_eq_iff)

lemma finite_grants [simp]: "finite (user_grants db u p)" "finite (team_grants db u p)"
proof -
  let ?all = "(\<lambda>g. the (ParseCapability (ag_capability g))) ` set (acl_grant db)"
  have "user_grants db u p \<subseteq> ?all" "team_grants db u p \<subseteq> ?all"
    by (force simp: user_grants_def team_grants_def reaches_def image_iff)+
  then show "finite (user_grants db u p)" "finite (team_grants db u p)"
    by (auto intro: finite_subset)
qed

lemma granted_spec_iff:
  assumes "objects_ok db" "grants_ok db" "members_ok db" "d \<in> set (acl_object db)"
  shows "granted_spec db u (ao_workspace d) (ao_path d) \<noteq> CapNone \<longleftrightarrow>
    (\<exists>g a. reaches db (ao_path d) g a \<and> applies_to db u g a)"
proof -
  let ?p = "ao_path d" and ?w = "ao_workspace d"
  have cap: "\<exists>c. ParseCapability (ag_capability g) = Some c \<and> c \<noteq> CapNone" if "reaches db ?p g a" for g a
    using that assms(2) stored_capability [of "ag_capability g"] by (auto simp: reaches_def grants_ok_def)
  have ws: "ao_workspace a = ?w" if "reaches db ?p g a" for g a
    using that same_workspace [OF assms(1) _ assms(4)] by (auto simp: reaches_def)
  have role: "role_capability (role_of db ?w u) \<noteq> CapNone \<longleftrightarrow> is_member db ?w u"
    using role_of_cases [OF assms(3), of ?w u] by (auto simp: role_capability_def cap_defs)
  have user: "(\<exists>c \<in> user_grants db u ?p. c \<noteq> CapNone) \<longleftrightarrow>
      (\<exists>g a. reaches db ?p g a \<and> ag_stype g = ''user'' \<and> ag_sid g = u)"
    unfolding user_grants_def using cap by blast
  have team: "(\<exists>c \<in> team_grants db u ?p. c \<noteq> CapNone) \<longleftrightarrow>
      (\<exists>g a. reaches db ?p g a \<and> ag_stype g = ''workspace'' \<and> ag_sid g = ao_workspace a \<and>
         is_member db (ao_workspace a) u)"
    unfolding team_grants_def using cap by blast
  have minmax: "max a b \<noteq> CapNone \<longleftrightarrow> a \<noteq> CapNone \<or> b \<noteq> CapNone"
    "min a b \<noteq> CapNone \<longleftrightarrow> a \<noteq> CapNone \<and> b \<noteq> CapNone" for a b :: capability
    by (auto simp: CapNone_def max_def min_def word_gt_0 [symmetric] not_le)
  have "granted_spec db u ?w ?p \<noteq> CapNone \<longleftrightarrow>
      (\<exists>g a. reaches db ?p g a \<and> ag_stype g = ''user'' \<and> ag_sid g = u) \<or>
      (\<exists>g a. reaches db ?p g a \<and> ag_stype g = ''workspace'' \<and> ag_sid g = ao_workspace a \<and>
         is_member db (ao_workspace a) u) \<and> is_member db ?w u"
    unfolding granted_spec_def minmax role Max_insert_none_iff [OF finite_grants(1)]
      Max_insert_none_iff [OF finite_grants(2)] user team ..
  moreover have "is_member db (ao_workspace a) u \<longleftrightarrow> is_member db ?w u" if "reaches db ?p g a" for g a
    using ws [OF that] by simp
  ultimately show ?thesis unfolding applies_to_def by blast
qed

lemma prefix_key_cases:
  assumes "grant_key_prefix st = Some pre"
  shows "pre @ i = ''u-'' @ u \<longleftrightarrow> st = ''user'' \<and> i = u"
    "pre @ i = ''w-'' @ u \<longleftrightarrow> st = ''workspace'' \<and> i = u"
    "pre @ i \<noteq> ''c-'' @ u" "pre @ i \<noteq> ''f-'' @ u"
  using assms by (auto simp: grant_key_prefix_def split: if_splits)

lemma identity_key_applies:
  assumes "objects_ok db" "d \<in> set (acl_object db)" "is_member db (ao_workspace d) u"
    "reaches db (ao_path d) g a" "grant_key_prefix (ag_stype g) = Some pre"
    "pre @ ag_sid g \<in> identity_keys db (ao_workspace d) u"
  shows "applies_to db u g a"
proof -
  have "ao_workspace a = ao_workspace d"
    using assms(4) same_workspace [OF assms(1) _ assms(2)] by (auto simp: reaches_def)
  then show ?thesis
    using assms(3,6) prefix_key_cases [OF assms(5)] by (auto simp: identity_keys_def applies_to_def)
qed

lemma native_identity_key:
  assumes "objects_ok db" "keys_exact db" "native_home db" "d \<in> set (acl_object db)"
    "\<not> derivedTypes (ao_type d)" "k \<in> identity_keys db w u" "mk_key d k \<in> set (acl_key db)"
  obtains g a pre where "reaches db (ao_path d) g a" "grant_key_prefix (ag_stype g) = Some pre"
    "k = pre @ ag_sid g"
proof -
  have "mk_key d k \<in> set (acl_key_expected db)" using assms(2,7) by (simp add: keys_exact_def)
  then consider "acl_container_key (acl_parent_segment (ao_path d)) = Some k"
    | g a pre where "reaches db (ao_path d) g a" "grant_key_prefix (ag_stype g) = Some pre" "k = pre @ ag_sid g"
    unfolding native_key_iff [OF assms(1,4,5)] by blast
  then show thesis
  proof cases
    case 1
    then show thesis
    proof (cases rule: container_key_cases [OF assms(1,4) 1])
      case (1 i)
      then show thesis using assms(3-5) by (auto simp: native_home_def split: option.splits)
    next
      case (2 i)
      then show thesis using assms(6) by (auto simp: identity_keys_def)
    qed
  next
    case 2
    then show thesis by (rule that)
  qed
qed

text \<open>A member holds a key of a native object of the workspace exactly when a grant that applies reaches it.\<close>

lemma key_held_iff:
  assumes "schema_ok db" "keys_exact db" "tree_ok db" "native_home db" "d \<in> set (acl_object db)"
    "\<not> derivedTypes (ao_type d)" "w = ao_workspace d" "is_member db w u"
  shows "(\<exists>k \<in> identity_keys db w u \<union> folder_keys db w (identity_keys db w u). mk_key d k \<in> set (acl_key db)) \<longleftrightarrow>
    (\<exists>g a. reaches db (ao_path d) g a \<and> applies_to db u g a)"
proof
  have oo: "objects_ok db" using assms(1) by (simp add: schema_ok_def)
  assume "\<exists>k \<in> identity_keys db w u \<union> folder_keys db w (identity_keys db w u). mk_key d k \<in> set (acl_key db)"
  then obtain k where k: "k \<in> identity_keys db w u \<union> folder_keys db w (identity_keys db w u)"
    "mk_key d k \<in> set (acl_key db)" by blast
  show "\<exists>g a. reaches db (ao_path d) g a \<and> applies_to db u g a"
  proof (cases "k \<in> identity_keys db w u")
    case True
    then show ?thesis
      using native_identity_key [OF oo assms(2,4,5,6) _ k(2)] identity_key_applies [OF oo assms(5)] assms(7,8)
      by metis
  next
    case False
    with k(1) obtain fo k0 where fo: "fo \<in> set (acl_object db)" "ao_type fo = ''folder''" "ao_workspace fo = w"
      "k0 \<in> identity_keys db w u" "mk_key fo k0 \<in> set (acl_key db)" "k = ''f-'' @ ao_id fo"
      by (auto simp: folder_keys_def)
    have nat: "\<not> derivedTypes (ao_type fo)" using fo(2) by (simp add: derivedTypes_def type_defs)
    obtain g a pre where g: "reaches db (ao_path fo) g a" "grant_key_prefix (ag_stype g) = Some pre"
        "k0 = pre @ ag_sid g"
      using native_identity_key [OF oo assms(2,4) fo(1) nat fo(4,5)] by blast
    have ap: "applies_to db u g a"
      using identity_key_applies [OF oo fo(1) _ g(1,2)] fo(3,4) g(3) assms(8) by simp
    have "mk_key d k \<in> set (acl_key_expected db)" using assms(2) k(2) by (simp add: keys_exact_def)
    then consider "acl_container_key (acl_parent_segment (ao_path d)) = Some k"
      | g' :: acl_grant_row and pre' where "grant_key_prefix (ag_stype g') = Some pre'" "k = pre' @ ag_sid g'"
      unfolding native_key_iff [OF oo assms(5,6)] by auto
    then have "acl_parent_segment (ao_path d) = Some (seg_of fo)"
    proof cases
      case 1
      show ?thesis
        using container_key_cases [OF oo assms(5) 1]
        by cases (use fo in \<open>auto simp: seg_of_def row_ref_def\<close>)
    next
      case 2
      then show ?thesis using prefix_key_cases(4) fo(6) by metis
    qed
    then have "prefix (ao_path fo) (ao_path d)" by (rule folder_prefix [OF oo assms(3,5) fo(1)])
    then have "reaches db (ao_path d) g a"
      using g(1) by (auto simp: reaches_def dest: prefix_order.trans)
    with ap show ?thesis by blast
  qed
next
  have oo: "objects_ok db" using assms(1) by (simp add: schema_ok_def)
  assume "\<exists>g a. reaches db (ao_path d) g a \<and> applies_to db u g a"
  then obtain g a where g: "reaches db (ao_path d) g a" "applies_to db u g a" by blast
  have ws: "ao_workspace a = w"
    using g(1) same_workspace [OF oo _ assms(5)] assms(7) by (auto simp: reaches_def)
  obtain pre where pre: "grant_key_prefix (ag_stype g) = Some pre"
    using g(1) assms(1) by (auto simp: schema_ok_def grants_ok_def reaches_def)
  have "pre @ ag_sid g \<in> identity_keys db w u"
    using g(2) ws pre by (auto simp: applies_to_def identity_keys_def grant_key_prefix_def)
  moreover have "mk_key d (pre @ ag_sid g) \<in> set (acl_key_expected db)"
    unfolding native_key_iff [OF oo assms(5,6)] using g(1) pre by blast
  ultimately show "\<exists>k \<in> identity_keys db w u \<union> folder_keys db w (identity_keys db w u). mk_key d k \<in> set (acl_key db)"
    using assms(2) by (auto simp: keys_exact_def)
qed

section \<open>The two paths agree\<close>

lemma Implies_read [simp]: "Implies c CapRead \<longleftrightarrow> c \<noteq> CapNone"
proof -
  have "c \<noteq> 0 \<Longrightarrow> 1 \<le> c" for c :: capability
    by (simp add: word_neq_0_conv unat_arith_simps)
  then show ?thesis by (auto simp: Implies_def cap_defs)
qed

lemma Capability_canonical_id:
  assumes "env_ok E" "uuid_parse E i = Some c"
  shows "Capability E db s \<lparr>obj_type = t, obj_id = i\<rparr> = Capability E db s \<lparr>obj_type = t, obj_id = c\<rparr>"
  using assms env_ok_parse [OF assms]
  by (simp add: Capability_def normalize_object_def canonicalUUID_def)

lemma Can_read_native:
  assumes "env_ok E" "no_faults E" "objects_ok db" "uuid_shape u" "d \<in> set (acl_object db)"
    "\<not> derivedTypes (ao_type d)" "uuid_parse E i = Some (ao_id d)"
  shows "Can E db (UserSubject u) \<lparr>obj_type = ao_type d, obj_id = i\<rparr> CapRead =
    Inr (granted_spec db u (ao_workspace d) (ao_path d) \<noteq> CapNone)"
  using Capability_native [OF assms(1-6)] Capability_canonical_id [OF assms(1,7)]
  by (simp add: Can_def row_ref_def)

lemma Can_unregistered:
  assumes "env_ok E" "no_faults E" "uuid_shape u" "typePattern t" "\<not> derivedTypes t"
    "\<forall>r \<in> set (acl_object db). \<not> (ao_type r = t \<and> uuid_parse E i = Some (ao_id r))"
  shows "Can E db (UserSubject u) \<lparr>obj_type = t, obj_id = i\<rparr> want = Inr False"
proof (cases "uuid_parse E i")
  case None
  then show ?thesis
    using assms by (simp add: Can_def Capability_def normalize_object_def canonicalUUID_def
        validObjectType_def Implies_def)
next
  case (Some c)
  then have "uuid_shape c" using assms(1) env_ok_parse by blast
  moreover have "find (\<lambda>r. ao_type r = t \<and> ao_id r = c) (acl_object db) = None"
    using assms(6) Some by (auto simp: find_None_iff)
  ultimately show ?thesis
    using assms(1-5) Some
    by (simp add: Can_def Capability_def normalize_object_def canonicalUUID_def
        validObjectType_def Implies_def resolve_def derivedTypes_def)
qed

lemma FilterReadable_eq:
  assumes "no_faults E" "typePattern t"
  shows "FilterReadable E db keys t ids =
    Inr (filter (\<lambda>i. \<exists>k \<in> set (acl_key db). ak_type k = t \<and> uuid_parse E i = Some (ak_id k) \<and>
      ak_key k \<in> set keys) ids)"
proof -
  have "keys = [] \<Longrightarrow> ?thesis" "ids = [] \<Longrightarrow> ?thesis"
    using assms by (auto simp: FilterReadable_def validObjectType_def)
  moreover have ?thesis if ne: "keys \<noteq> []" "ids \<noteq> []"
  proof (cases "concat (map (\<lambda>i. opt_list (canonicalUUID E i)) ids) = []")
    case True
    then have none: "\<forall>i \<in> set ids. uuid_parse E i = None"
      by (auto simp: canonicalUUID_def opt_list_def split: option.splits)
    then have empty: "filter (\<lambda>i. \<exists>k \<in> set (acl_key db). ak_type k = t \<and> uuid_parse E i = Some (ak_id k) \<and>
        ak_key k \<in> set keys) ids = []"
      by (auto simp: filter_empty_conv)
    show ?thesis
      unfolding empty using True assms ne
      by (simp add: FilterReadable_def validObjectType_def Let_def)
  next
    case False
    have mem: "c \<in> set (concat (map (\<lambda>i. opt_list (canonicalUUID E i)) ids)) \<longleftrightarrow>
        (\<exists>i \<in> set ids. uuid_parse E i = Some c)" for c
      by (auto simp: canonicalUUID_def)
    define canon where "canon = concat (map (\<lambda>i. opt_list (canonicalUUID E i)) ids)"
    have "filter (\<lambda>i. case canonicalUUID E i of None \<Rightarrow> False | Some c \<Rightarrow>
          c \<in> set (remdups (map ak_id (filter (\<lambda>k. ak_type k = t \<and> ak_id k \<in> set canon \<and>
            ak_key k \<in> set keys) (acl_key db))))) ids =
        filter (\<lambda>i. \<exists>k \<in> set (acl_key db). ak_type k = t \<and> uuid_parse E i = Some (ak_id k) \<and>
          ak_key k \<in> set keys) ids"
      by (intro filter_cong refl)
        (auto simp: mem [folded canon_def] canonicalUUID_def image_iff split: option.splits)
    then show ?thesis
      using False assms ne unfolding FilterReadable_def canon_def [symmetric]
      by (simp add: validObjectType_def Let_def)
  qed
  ultimately show ?thesis by blast
qed


end
