(* ===== verification/Authz_Mutation.thy ===== *)
theory Authz_Mutation
  imports Authz_ListPath
begin

text \<open>
  The mutations of the permission tables: \<open>backend/internal/authz/checker.go\<close> (\<open>Register\<close>, \<open>Grant\<close>, \<open>Revoke\<close>,
  \<open>Move\<close>, their \<open>Tx\<close> forms, \<open>MaterializeTx\<close>, \<open>UnregisterTx\<close> and the key rewrite they share), the audit hook of
  \<open>authz.go\<close> and \<open>database.WithTx\<close>. A function inside a transaction takes the tables and returns the new tables or
  the error that rolls the transaction back; an operation also returns what it does after the commit, as a list of
  effects. A failed commit is taken to have changed nothing.
\<close>

section \<open>Transactions and effects\<close>

record audit_entry =
  ae_workspace :: string
  ae_actor :: string
  ae_action :: string
  ae_rtype :: string
  ae_rid :: string
  ae_meta :: "(string \<times> string) list"

datatype effect =
    RevokeObjectForSubject SubjectRef ObjectRef
  | RevokeObjectForAll ObjectRef
  | WarnTruncated
  | AuditTry audit_entry

type_synonym outcome = "(authz_error + unit) \<times> database \<times> effect list"

definition WithTx ::
  "env \<Rightarrow> (string \<Rightarrow> 'e) \<Rightarrow> 's \<Rightarrow> ('s \<Rightarrow> 'e + 's \<times> 'a) \<Rightarrow> ('e + 'a) \<times> 's" where
  "WithTx E failed db f =
     (if db_fault E ''begin transaction'' then (Inl (failed ''begin transaction''), db)
      else case f db of
        Inl e \<Rightarrow> (Inl e, db)
      | Inr (db', x) \<Rightarrow>
          if db_fault E ''commit transaction'' then (Inl (failed ''commit transaction''), db)
          else (Inr x, db'))"

definition objectWorkspace :: "env \<Rightarrow> database \<Rightarrow> ObjectRef \<Rightarrow> authz_error + string" where
  "objectWorkspace E db obj =
     with_uuid E ''object workspace'' (obj_id obj) (\<lambda>i.
       db_query E ''object workspace''
         (case find (\<lambda>r. ao_type r = obj_type obj \<and> ao_id r = i) (acl_object db) of
            None \<Rightarrow> '''' | Some r \<Rightarrow> ao_workspace r))"

definition audit ::
  "env \<Rightarrow> database \<Rightarrow> SubjectRef \<Rightarrow> string \<Rightarrow> ObjectRef \<Rightarrow> SubjectRef option \<Rightarrow> (string \<times> string) list \<Rightarrow> effect list" where
  "audit E db actor action obj subject meta =
     (if \<not> has_auditor E then []
      else
        [AuditTry \<lparr>
           ae_workspace = (if obj_type obj = TypeWorkspace then obj_id obj
             else case objectWorkspace E db obj of Inl _ \<Rightarrow> '''' | Inr ws \<Rightarrow> ws),
           ae_actor = (if sub_type actor = SubjectUser
             then (case canonicalUUID E (sub_id actor) of None \<Rightarrow> '''' | Some i \<Rightarrow> i) else ''''),
           ae_action = action,
           ae_rtype = obj_type obj,
           ae_rid = obj_id obj,
           ae_meta = meta @ (case subject of None \<Rightarrow> []
             | Some s \<Rightarrow> [(''subject_type'', sub_type s), (''subject_id'', sub_id s)])\<rparr>])"

section \<open>Live revocation\<close>

definition maxLiveRevocations :: nat where "maxLiveRevocations = 512"

definition liveDescendants :: "env \<Rightarrow> database \<Rightarrow> string \<Rightarrow> authz_error + ObjectRef list \<times> bool" where
  "liveDescendants E db pre =
     bindR (db_query E ''list live descendants''
       (take (maxLiveRevocations + 1) (sort_key ao_path
         (filter (\<lambda>r. in_subtree pre (ao_path r) \<and> ao_type r \<in> set liveTypes) (acl_object db))))) (\<lambda>rows.
       let out = map row_ref rows
       in Inr (if length out > maxLiveRevocations then (take maxLiveRevocations out, True) else (out, False)))"

definition revokeLive :: "env \<Rightarrow> SubjectRef option \<Rightarrow> ObjectRef list \<Rightarrow> bool \<Rightarrow> effect list" where
  "revokeLive E subject refs truncated =
     (if \<not> has_revoker E \<or> length refs = 0 then []
      else (if truncated then [WarnTruncated] else []) @
        map (\<lambda>ref. case subject of None \<Rightarrow> RevokeObjectForAll ref
                   | Some s \<Rightarrow> RevokeObjectForSubject s ref) refs)"

section \<open>Locks and key rewrites\<close>

definition lockObject :: "env \<Rightarrow> database \<Rightarrow> ObjectRef \<Rightarrow> authz_error + objectState option" where
  "lockObject E db ref =
     with_uuid E ''lock object'' (obj_id ref) (\<lambda>i.
     bindR (db_query E ''lock object''
       (find (\<lambda>r. ao_type r = obj_type ref \<and> ao_id r = i) (acl_object db))) (\<lambda>row.
       Inr (map_option (\<lambda>a. (empty_state ref)\<lparr>os_workspace := ao_workspace a, os_path := ao_path a\<rparr>) row)))"

definition key_in_subtree :: "database \<Rightarrow> string \<Rightarrow> acl_key_row \<Rightarrow> bool" where
  "key_in_subtree db pre k \<longleftrightarrow> (\<exists>r \<in> set (acl_object db). ao_type r = ak_type k \<and> ao_id r = ak_id k \<and>
     in_subtree pre (ao_path r))"

definition rewriteSubtreeKeys :: "env \<Rightarrow> database \<Rightarrow> string \<Rightarrow> authz_error + database" where
  "rewriteSubtreeKeys E db pre =
     bindR (db_query E ''clear subtree keys''
       (db\<lparr>acl_key := filter (\<lambda>k. \<not> key_in_subtree db pre k) (acl_key db)\<rparr>)) (\<lambda>db1.
     db_query E ''materialize subtree keys''
       (db1\<lparr>acl_key := insert_keys (filter (key_in_subtree db1 pre) (acl_key_expected db1)) (acl_key db1)\<rparr>))"

definition materializeDerived :: "env \<Rightarrow> database \<Rightarrow> ObjectRef \<Rightarrow> authz_error + database" where
  "materializeDerived E db ref =
     with_uuid E ''materialize'' (obj_id ref) (\<lambda>i.
       let rows = filter (\<lambda>r. ao_type r = obj_type ref \<and> ao_id r = i) (acl_object_expected db);
           mine = (\<lambda>k. ak_type k = obj_type ref \<and> ak_id k = i)
       in if \<not> list_all (acl_object_check db) rows then Inl (DbError ''materialize'')
          else bindR (db_query E ''materialize'' (db\<lparr>acl_object := fold upsert_object rows (acl_object db)\<rparr>)) (\<lambda>db1.
               bindR (db_query E ''prune stale keys''
                 (db1\<lparr>acl_key := filter (\<lambda>k. \<not> (mine k \<and> k \<notin> set (acl_key_expected db1))) (acl_key db1)\<rparr>)) (\<lambda>db2.
               db_query E ''materialize keys''
                 (db2\<lparr>acl_key := insert_keys (filter mine (acl_key_expected db2)) (acl_key db2)\<rparr>))))"

definition MaterializeTx :: "env \<Rightarrow> database \<Rightarrow> ObjectRef \<Rightarrow> authz_error + database" where
  "MaterializeTx E db obj =
     bindR (normalize_object E obj) (\<lambda>r.
       case r of None \<Rightarrow> Inl InvalidObjectId
       | Some ref \<Rightarrow> if \<not> derivedTypes (obj_type ref) then Inl ErrNativeType
                     else materializeDerived E db ref)"

section \<open>Register\<close>

definition normalizeRegister :: "env \<Rightarrow> ObjectRef \<Rightarrow> ObjectRef \<Rightarrow> authz_error + ObjectRef \<times> ObjectRef" where
  "normalizeRegister E obj parent =
     bindR (normalize_object E obj) (\<lambda>r.
       case r of None \<Rightarrow> Inl InvalidObjectId
       | Some ref \<Rightarrow>
           if derivedTypes (obj_type ref) then Inl ErrDerivedType
           else bindR (normalize_object E parent) (\<lambda>p.
             case p of None \<Rightarrow> Inl InvalidParentId
             | Some parentRef \<Rightarrow> if parentRef = ref then Inl OwnParent else Inr (ref, parentRef)))"

definition registerIn :: "env \<Rightarrow> database \<Rightarrow> ObjectRef \<Rightarrow> ObjectRef \<Rightarrow> authz_error + database" where
  "registerIn E db ref parentRef =
     bindR (lockObject E db parentRef) (\<lambda>ps0.
     bindR (if ps0 = None \<and> derivedTypes (obj_type parentRef)
            then bindR (materializeDerived E db parentRef) (\<lambda>db1.
                 bindR (lockObject E db1 parentRef) (\<lambda>ps1. Inr (db1, ps1)))
            else Inr (db, ps0)) (\<lambda>(db1, ps).
       case ps of None \<Rightarrow> Inl ErrNotRegistered
       | Some parentState \<Rightarrow>
           let path = buildPath (os_path parentState) ref;
               row = \<lparr>ao_type = obj_type ref, ao_id = obj_id ref,
                      ao_workspace = os_workspace parentState, ao_path = path\<rparr>
           in if pathDepth path > MaxPathDepth then Inl PathTooDeep
              else if \<not> acl_object_check db1 row then Inl (DbError ''register object'')
              else bindR (db_query E ''register object''
                     (db1\<lparr>acl_object := upsert_object row (acl_object db1)\<rparr>)) (\<lambda>db2.
                   rewriteSubtreeKeys E db2 path)))"

definition RegisterTx :: "env \<Rightarrow> database \<Rightarrow> ObjectRef \<Rightarrow> ObjectRef \<Rightarrow> authz_error + database" where
  "RegisterTx E db obj parent =
     bindR (normalizeRegister E obj parent) (\<lambda>(ref, parentRef). registerIn E db ref parentRef)"

definition Register :: "env \<Rightarrow> database \<Rightarrow> ObjectRef \<Rightarrow> ObjectRef \<Rightarrow> outcome" where
  "Register E db obj parent =
     (case normalizeRegister E obj parent of
        Inl e \<Rightarrow> (Inl e, db, [])
      | Inr (ref, parentRef) \<Rightarrow>
          (let (r, db') = WithTx E DbError db (\<lambda>t. bindR (registerIn E t ref parentRef) (\<lambda>t'. Inr (t', ())))
           in (r, db', [])))"

section \<open>Grant and Revoke\<close>

definition normalizeGrant :: "env \<Rightarrow> SubjectRef \<Rightarrow> SubjectRef \<Rightarrow> ObjectRef \<Rightarrow> capability \<Rightarrow>
    authz_error + SubjectRef \<times> ObjectRef \<times> string \<times> string option" where
  "normalizeGrant E actor subject obj capability =
     bindR (normalize_subject E subject) (\<lambda>s.
       case s of None \<Rightarrow> Inl InvalidSubjectId
       | Some sub \<Rightarrow> bindR (normalize_object E obj) (\<lambda>r.
           case r of None \<Rightarrow> Inl InvalidObjectId
           | Some ref \<Rightarrow> bindR (storable capability) (\<lambda>stored.
               Inr (sub, ref, stored,
                    if sub_type actor = SubjectUser then canonicalUUID E (sub_id actor) else None))))"

definition grantIn :: "env \<Rightarrow> database \<Rightarrow> ObjectRef \<Rightarrow> SubjectRef \<Rightarrow> string \<Rightarrow> string option \<Rightarrow> authz_error + database" where
  "grantIn E db ref sub stored grantedBy =
     bindR (lockObject E db ref) (\<lambda>st0.
       case st0 of None \<Rightarrow> Inl ErrNotRegistered
       | Some st \<Rightarrow>
           if (case grantedBy of None \<Rightarrow> False | Some u \<Rightarrow> u \<notin> set (users db)) then Inl (DbError ''write grant'')
           else bindR (db_query E ''write grant''
             (db\<lparr>acl_grant := upsert_grant \<lparr>ag_otype = obj_type ref, ag_oid = obj_id ref,
                ag_stype = sub_type sub, ag_sid = sub_id sub, ag_capability = stored,
                ag_granted_by = grantedBy, ag_created_at = now E\<rparr> (acl_grant db)\<rparr>)) (\<lambda>db1.
             rewriteSubtreeKeys E db1 (os_path st)))"

definition GrantTx :: "env \<Rightarrow> database \<Rightarrow> SubjectRef \<Rightarrow> SubjectRef \<Rightarrow> ObjectRef \<Rightarrow> capability \<Rightarrow> authz_error + database" where
  "GrantTx E db actor subject obj capability =
     bindR (normalizeGrant E actor subject obj capability) (\<lambda>(sub, ref, stored, grantedBy).
       grantIn E db ref sub stored grantedBy)"

definition Grant_op :: "env \<Rightarrow> database \<Rightarrow> SubjectRef \<Rightarrow> SubjectRef \<Rightarrow> ObjectRef \<Rightarrow> capability \<Rightarrow> outcome" where
  "Grant_op E db actor subject obj capability =
     (case normalizeGrant E actor subject obj capability of
        Inl e \<Rightarrow> (Inl e, db, [])
      | Inr (sub, ref, stored, grantedBy) \<Rightarrow>
          (case WithTx E DbError db (\<lambda>t. bindR (grantIn E t ref sub stored grantedBy) (\<lambda>t'. Inr (t', ()))) of
             (Inl e, db') \<Rightarrow> (Inl e, db', [])
           | (Inr _, db') \<Rightarrow> (Inr (), db', audit E db' actor ''acl.granted'' ref (Some sub)
                [(''capability'', [char_of (unat capability)])])))"

definition revokeIn :: "env \<Rightarrow> database \<Rightarrow> ObjectRef \<Rightarrow> SubjectRef \<Rightarrow> authz_error + database \<times> objectState option" where
  "revokeIn E db ref sub =
     bindR (lockObject E db ref) (\<lambda>st0.
       case st0 of None \<Rightarrow> Inr (db, None)
       | Some st \<Rightarrow> bindR (db_query E ''delete grant''
           (db\<lparr>acl_grant := filter (\<lambda>g. \<not> (ag_otype g = obj_type ref \<and> ag_oid g = obj_id ref \<and>
              ag_stype g = sub_type sub \<and> ag_sid g = sub_id sub)) (acl_grant db)\<rparr>)) (\<lambda>db1.
         bindR (rewriteSubtreeKeys E db1 (os_path st)) (\<lambda>db2. Inr (db2, Some st))))"

definition normalizeRevoke :: "env \<Rightarrow> SubjectRef \<Rightarrow> ObjectRef \<Rightarrow> authz_error + SubjectRef \<times> ObjectRef" where
  "normalizeRevoke E subject obj =
     bindR (normalize_subject E subject) (\<lambda>s.
       case s of None \<Rightarrow> Inl InvalidSubjectId
       | Some sub \<Rightarrow> bindR (normalize_object E obj) (\<lambda>r.
           case r of None \<Rightarrow> Inl InvalidObjectId | Some ref \<Rightarrow> Inr (sub, ref)))"

definition RevokeTx :: "env \<Rightarrow> database \<Rightarrow> SubjectRef \<Rightarrow> ObjectRef \<Rightarrow> authz_error + database" where
  "RevokeTx E db subject obj =
     bindR (normalizeRevoke E subject obj) (\<lambda>(sub, ref).
       bindR (revokeIn E db ref sub) (\<lambda>(db', st). Inr db'))"

definition Revoke :: "env \<Rightarrow> database \<Rightarrow> SubjectRef \<Rightarrow> SubjectRef \<Rightarrow> ObjectRef \<Rightarrow> outcome" where
  "Revoke E db actor subject obj =
     (case normalizeRevoke E subject obj of
        Inl e \<Rightarrow> (Inl e, db, [])
      | Inr (sub, ref) \<Rightarrow>
          (case WithTx E DbError db (\<lambda>t. bindR (revokeIn E t ref sub) (\<lambda>(t', st).
               case st of None \<Rightarrow> Inr (t', ([], False))
               | Some s \<Rightarrow> bindR (liveDescendants E t' (os_path s)) (\<lambda>lv. Inr (t', lv)))) of
             (Inl e, db') \<Rightarrow> (Inl e, db', [])
           | (Inr (live, truncated), db') \<Rightarrow> (Inr (), db',
               revokeLive E (Some sub) live truncated @ audit E db' actor ''acl.revoked'' ref (Some sub) [])))"

section \<open>Move\<close>

definition subtree_depth :: "database \<Rightarrow> string \<Rightarrow> int" where
  "subtree_depth db pre =
     (let counts = map (\<lambda>r. length (filter ((=) CHR ''/'') (ao_path r)))
            (filter (\<lambda>r. in_subtree pre (ao_path r)) (acl_object db))
      in int (foldr max counts 0) - 1)"

definition move_row :: "string \<Rightarrow> string \<Rightarrow> acl_object_row \<Rightarrow> acl_object_row" where
  "move_row src new r =
     (if in_subtree src (ao_path r) then r\<lparr>ao_path := new @ drop (length src) (ao_path r)\<rparr> else r)"

definition move_locked :: "env \<Rightarrow> database \<Rightarrow> ObjectRef \<Rightarrow> ObjectRef \<Rightarrow> objectState \<Rightarrow> objectState \<Rightarrow>
    authz_error + database \<times> ObjectRef list \<times> bool" where
  "move_locked E db ref parentRef src dst =
     (if os_workspace src \<noteq> os_workspace dst then Inl ErrCrossWorkspaceMove
      else if hasPrefixPath (os_path dst) (os_path src) then Inl ErrMoveCycle
      else let newPath = buildPath (os_path dst) ref
        in bindR (db_query E ''measure subtree depth'' (subtree_depth db (os_path src))) (\<lambda>deepest.
           if deepest - int (pathDepth (os_path src)) + int (pathDepth newPath) > int MaxPathDepth
           then Inl ErrMoveTooDeep
           else
             let db1 = db\<lparr>acl_object := map (move_row (os_path src) newPath) (acl_object db)\<rparr>
             in if \<not> list_all (acl_object_check db1)
                    (map (move_row (os_path src) newPath)
                      (filter (\<lambda>r. in_subtree (os_path src) (ao_path r)) (acl_object db)))
                then Inl (DbError ''move subtree'')
                else bindR (db_query E ''move subtree'' db1) (\<lambda>db2.
                     bindR (rewriteSubtreeKeys E db2 newPath) (\<lambda>db3.
                     bindR (liveDescendants E db3 newPath) (\<lambda>(live, truncated).
                       Inr (db3, live, truncated))))))"

definition MoveInTx :: "env \<Rightarrow> database \<Rightarrow> ObjectRef \<Rightarrow> ObjectRef \<Rightarrow>
    authz_error + database \<times> ObjectRef \<times> ObjectRef \<times> ObjectRef list \<times> bool" where
  "MoveInTx E db obj newParent =
     bindR (normalize_object E obj) (\<lambda>r.
       case r of None \<Rightarrow> Inl InvalidObjectId
       | Some ref \<Rightarrow> bindR (normalize_object E newParent) (\<lambda>p.
           case p of None \<Rightarrow> Inl InvalidParentId
           | Some parentRef \<Rightarrow>
               if derivedTypes (obj_type ref) then Inl ErrDerivedType
               else if ref = parentRef then Inl ErrMoveCycle
               else
                 let (first, second) = (if ObjectRef_String ref > ObjectRef_String parentRef
                                        then (parentRef, ref) else (ref, parentRef))
                 in bindR (lockObject E db first) (\<lambda>s1.
                      case s1 of None \<Rightarrow> Inl ErrNotRegistered
                      | Some st1 \<Rightarrow> bindR (lockObject E db second) (\<lambda>s2.
                          case s2 of None \<Rightarrow> Inl ErrNotRegistered
                          | Some st2 \<Rightarrow>
                              let (src, dst) = (if first = ref then (st1, st2) else (st2, st1))
                              in bindR (move_locked E db ref parentRef src dst) (\<lambda>(db', live, truncated).
                                   Inr (db', ref, parentRef, live, truncated))))))"

definition Move :: "env \<Rightarrow> database \<Rightarrow> SubjectRef \<Rightarrow> ObjectRef \<Rightarrow> ObjectRef \<Rightarrow> outcome" where
  "Move E db actor obj newParent =
     (case WithTx E DbError db (\<lambda>t. MoveInTx E t obj newParent) of
        (Inl e, db') \<Rightarrow> (Inl e, db', [])
      | (Inr (ref, parentRef, live, truncated), db') \<Rightarrow> (Inr (), db',
          revokeLive E None live truncated @
          audit E db' actor ''acl.moved'' ref None
            [(''new_parent_type'', obj_type parentRef), (''new_parent_id'', obj_id parentRef)]))"

definition MoveTx :: "env \<Rightarrow> database \<Rightarrow> ObjectRef \<Rightarrow> ObjectRef \<Rightarrow> authz_error + database" where
  "MoveTx E db obj newParent =
     bindR (normalize_object E obj) (\<lambda>r.
       case r of None \<Rightarrow> Inl InvalidObjectId
       | Some ref \<Rightarrow>
           if derivedTypes (obj_type ref) then Inl ErrDerivedType
           else bindR (normalize_object E newParent) (\<lambda>p.
             case p of None \<Rightarrow> Inl InvalidParentId
             | Some parentRef \<Rightarrow> registerIn E db ref parentRef))"

section \<open>Unregister\<close>

definition UnregisterTx :: "env \<Rightarrow> database \<Rightarrow> ObjectRef \<Rightarrow> authz_error + database" where
  "UnregisterTx E db obj =
     bindR (normalize_object E obj) (\<lambda>r.
       case r of None \<Rightarrow> Inl InvalidObjectId
       | Some ref \<Rightarrow>
           if derivedTypes (obj_type ref) then Inl ErrDerivedType
           else db_query E ''unregister''
             (db\<lparr>acl_object := filter (\<lambda>x. \<not> (ao_type x = obj_type ref \<and> ao_id x = obj_id ref)) (acl_object db),
                 acl_grant := filter (\<lambda>g. \<not> (ag_otype g = obj_type ref \<and> ag_oid g = obj_id ref)) (acl_grant db),
                 acl_key := filter (\<lambda>k. \<not> (ak_type k = obj_type ref \<and> ak_id k = obj_id ref)) (acl_key db)\<rparr>))"

end
