(* ===== verification/Authz_Invariant.thy ===== *)
theory Authz_Invariant
  imports Authz_Mutation
begin

text \<open>
  The invariant of the permission tables and its preservation. \<open>rewriteSubtreeKeys\<close> recomputes the keys under one
  path; it is enough because a mutation changes expected keys only under that path. \<open>expected_iff\<close> splits the expected
  keys of a row into what the row itself decides, what reaching grants add, and the attachment keys, and the
  preservation lemmas follow the split.
\<close>

section \<open>The expected keys of one row\<close>

definition own_key :: "database \<Rightarrow> acl_object_row \<Rightarrow> string \<Rightarrow> bool" where
  "own_key db d x \<longleftrightarrow>
     ao_type d = ''workspace'' \<and> x = ''w-'' @ ao_workspace d \<or>
     ao_type d = ''channel'' \<and> (\<exists>cm \<in> set (channel_members db). cm_channel cm = ao_id d \<and> x = ''u-'' @ cm_user cm) \<or>
     ao_type d = ''channel'' \<and> x = ''w-'' @ ao_workspace d \<and>
       (\<exists>c \<in> set (channels db). ch_id c = ao_id d \<and> ch_type c = ''public'') \<or>
     acl_container_key (acl_parent_segment (ao_path d)) = Some x \<or>
     ao_type d = ''file'' \<and> (\<exists>f \<in> set (files db). f_id f = ao_id d \<and> x = ''u-'' @ f_user f) \<and>
       split_part (case acl_parent_segment (ao_path d) of None \<Rightarrow> '''' | Some s \<Rightarrow> s) CHR '':'' 0 = ''workspace''"

definition grant_key :: "database \<Rightarrow> acl_object_row \<Rightarrow> string \<Rightarrow> bool" where
  "grant_key db d x \<longleftrightarrow> (\<exists>g a pre. reaches db (ao_path d) g a \<and> grant_key_prefix (ag_stype g) = Some pre \<and>
     x = pre @ ag_sid g)"

lemma mem_legacy_arms:
  "k \<in> set (key_arm_workspace db) \<longleftrightarrow> (\<exists>d \<in> set (acl_object db). ao_type d = ''workspace'' \<and>
     k = mk_key d (''w-'' @ ao_workspace d))"
  "k \<in> set (key_arm_channel_member db) \<longleftrightarrow> (\<exists>d \<in> set (acl_object db). ao_type d = ''channel'' \<and>
     (\<exists>cm \<in> set (channel_members db). cm_channel cm = ao_id d \<and> k = mk_key d (''u-'' @ cm_user cm)))"
  "k \<in> set (key_arm_public_channel db) \<longleftrightarrow> (\<exists>d \<in> set (acl_object db). ao_type d = ''channel'' \<and>
     k = mk_key d (''w-'' @ ao_workspace d) \<and> (\<exists>c \<in> set (channels db). ch_id c = ao_id d \<and> ch_type c = ''public''))"
  "k \<in> set (key_arm_uploader db) \<longleftrightarrow> (\<exists>d \<in> set (acl_object db). ao_type d = ''file'' \<and>
     (\<exists>f \<in> set (files db). f_id f = ao_id d \<and> k = mk_key d (''u-'' @ f_user f)) \<and>
     split_part (case acl_parent_segment (ao_path d) of None \<Rightarrow> '''' | Some s \<Rightarrow> s) CHR '':'' 0 = ''workspace'')"
  by (auto simp: key_arm_workspace_def key_arm_channel_member_def key_arm_public_channel_def
      key_arm_uploader_def)

lemma expected_iff:
  assumes "objects_ok db"
  shows "k \<in> set (acl_key_expected db) \<longleftrightarrow> k \<in> set (key_arm_attachment db) \<or>
    (\<exists>d \<in> set (acl_object db). \<exists>x. k = mk_key d x \<and> (own_key db d x \<or> grant_key db d x))"
proof -
  have "k \<in> set (key_arm_grant db) \<longleftrightarrow> (\<exists>d \<in> set (acl_object db). \<exists>x. k = mk_key d x \<and> grant_key db d x)"
    unfolding mem_key_arm_grant grant_key_def reaches_def
    using in_subtree_objects [OF assms] by blast
  moreover have "k \<in> set (key_arm_workspace db) \<or> k \<in> set (key_arm_channel_member db) \<or>
      k \<in> set (key_arm_public_channel db) \<or> k \<in> set (key_arm_container db) \<or> k \<in> set (key_arm_uploader db) \<longleftrightarrow>
      (\<exists>d \<in> set (acl_object db). \<exists>x. k = mk_key d x \<and> own_key db d x)"
    unfolding own_key_def mem_legacy_arms mem_key_arm_container by blast
  ultimately show ?thesis unfolding acl_key_expected_def by auto
qed

lemma expected_upd_key [simp]:
  "acl_key_expected (db\<lparr>acl_key := ks\<rparr>) = acl_key_expected db"
  "key_in_subtree (db\<lparr>acl_key := ks\<rparr>) pre = key_in_subtree db pre"
  "acl_object_check (db\<lparr>acl_key := ks\<rparr>) = acl_object_check db"
  by (simp_all add: acl_key_expected_def key_arm_workspace_def key_arm_channel_member_def
      key_arm_public_channel_def key_arm_container_def key_arm_uploader_def key_arm_grant_def
      key_arm_attachment_def file_channel_def key_in_subtree_def acl_object_check_def fun_eq_iff)

lemma legacy_upd [simp]:
  "own_key (db\<lparr>acl_object := os\<rparr>) = own_key db" "own_key (db\<lparr>acl_grant := gs\<rparr>) = own_key db"
  "key_arm_attachment (db\<lparr>acl_object := os\<rparr>) = key_arm_attachment db"
  "key_arm_attachment (db\<lparr>acl_grant := gs\<rparr>) = key_arm_attachment db"
  "acl_object_check (db\<lparr>acl_object := os\<rparr>) = acl_object_check db"
  "acl_object_check (db\<lparr>acl_grant := gs\<rparr>) = acl_object_check db"
  by (simp_all add: own_key_def key_arm_attachment_def file_channel_def acl_object_check_def fun_eq_iff)

section \<open>The key rewrite\<close>

lemma rewriteSubtreeKeys_result:
  assumes "rewriteSubtreeKeys E db pre = Inr db2"
  obtains ks where "db2 = db\<lparr>acl_key := ks\<rparr>"
    "\<And>k. k \<in> set ks \<longleftrightarrow> (if key_in_subtree db pre k then k \<in> set (acl_key_expected db) else k \<in> set (acl_key db))"
    "distinct (acl_key db) \<Longrightarrow> distinct ks"
proof -
  let ?old = "filter (\<lambda>k. \<not> key_in_subtree db pre k) (acl_key db)"
  let ?ks = "insert_keys (filter (key_in_subtree db pre) (acl_key_expected db)) ?old"
  have "db2 = db\<lparr>acl_key := ?ks\<rparr>"
    using assms by (auto simp: rewriteSubtreeKeys_def db_query_def result_simps split: if_splits)
  moreover have "distinct (acl_key db) \<Longrightarrow> distinct ?ks"
    by (intro distinct_insert_keys distinct_filter)
  moreover have "k \<in> set ?ks \<longleftrightarrow> (if key_in_subtree db pre k then k \<in> set (acl_key_expected db)
      else k \<in> set (acl_key db))" for k by auto
  ultimately show thesis using that by blast
qed

lemma rewriteSubtreeKeys_total:
  "no_faults E \<Longrightarrow> \<exists>db2. rewriteSubtreeKeys E db pre = Inr db2"
  by (simp add: rewriteSubtreeKeys_def)

definition exact_outside :: "database \<Rightarrow> string \<Rightarrow> bool" where
  "exact_outside db pre \<longleftrightarrow>
     (\<forall>k. \<not> key_in_subtree db pre k \<longrightarrow> (k \<in> set (acl_key db) \<longleftrightarrow> k \<in> set (acl_key_expected db)))"

text \<open>Rewriting one subtree makes the whole materialization exact when it was exact elsewhere.\<close>

lemma rewriteSubtreeKeys_exact:
  assumes "rewriteSubtreeKeys E db pre = Inr db2" "exact_outside db pre"
  shows "keys_exact db2"
  using assms(1)
proof (rule rewriteSubtreeKeys_result)
  fix ks
  assume ks: "db2 = db\<lparr>acl_key := ks\<rparr>"
    "\<And>k. k \<in> set ks \<longleftrightarrow> (if key_in_subtree db pre k then k \<in> set (acl_key_expected db) else k \<in> set (acl_key db))"
  then show "keys_exact db2"
    using assms(2) by (auto simp: keys_exact_def exact_outside_def split: if_splits)
qed

lemma expected_row_exists:
  assumes "objects_ok db" "k \<in> set (acl_key_expected db)" "k \<notin> set (key_arm_attachment db)"
  shows "\<exists>d \<in> set (acl_object db). ao_type d = ak_type k \<and> ao_id d = ak_id k"
  using assms(2,3) unfolding expected_iff [OF assms(1)] by auto

lemma rewriteSubtreeKeys_schema:
  assumes "rewriteSubtreeKeys E db pre = Inr db2" "objects_ok db" "grants_ok db" "keys_ok db" "members_ok db"
  shows "schema_ok db2"
  using assms(1)
proof (rule rewriteSubtreeKeys_result)
  fix ks
  assume ks: "db2 = db\<lparr>acl_key := ks\<rparr>"
    "\<And>k. k \<in> set ks \<longleftrightarrow> (if key_in_subtree db pre k then k \<in> set (acl_key_expected db) else k \<in> set (acl_key db))"
    "distinct (acl_key db) \<Longrightarrow> distinct ks"
  have fk: "\<exists>r \<in> set (acl_object db). ao_type r = ak_type k \<and> ao_id r = ak_id k" if "k \<in> set ks" for k
  proof (cases "key_in_subtree db pre k")
    case True
    then show ?thesis by (auto simp: key_in_subtree_def)
  next
    case False
    with that ks(2) assms(4) show ?thesis by (auto simp: keys_ok_def)
  qed
  have "keys_ok db2" using ks(1,3) assms(4) fk by (simp add: keys_ok_def)
  moreover have "objects_ok db2" using ks(1) assms(2) by (simp add: objects_ok_def)
  moreover have "grants_ok db2" using ks(1) assms(3) by (simp add: grants_ok_def)
  moreover have "members_ok db2" using ks(1) assms(5) by (simp add: members_ok_def)
  ultimately show "schema_ok db2" by (simp add: schema_ok_def)
qed

lemma key_in_subtree_row:
  assumes "objects_ok db" "d \<in> set (acl_object db)"
  shows "key_in_subtree db pre (mk_key d x) \<longleftrightarrow> in_subtree pre (ao_path d)"
  using assms objects_ok_unique [OF assms(1) _ assms(2)] unfolding key_in_subtree_def mk_key_sel by blast

section \<open>Changing grants\<close>

lemma exact_outside_grants:
  assumes "objects_ok db" "keys_exact db" "r \<in> set (acl_object db)"
    "\<And>g. (g \<in> set gs) \<noteq> (g \<in> set (acl_grant db)) \<Longrightarrow> ag_otype g = ao_type r \<and> ag_oid g = ao_id r"
  shows "exact_outside (db\<lparr>acl_grant := gs\<rparr>) (ao_path r)"
  unfolding exact_outside_def
proof (intro allI impI)
  let ?db = "db\<lparr>acl_grant := gs\<rparr>"
  fix k
  assume out: "\<not> key_in_subtree ?db (ao_path r) k"
  have oo: "objects_ok ?db" using assms(1) by (simp add: objects_ok_def)
  have "grant_key ?db d x \<longleftrightarrow> grant_key db d x" if "d \<in> set (acl_object db)" "k = mk_key d x" for d x
  proof -
    have np: "\<not> prefix (ao_path r) (ao_path d)"
      using out that key_in_subtree_row [OF oo, of d] in_subtree_objects [OF assms(1,3)] by simp
    have "reaches ?db (ao_path d) g a \<longleftrightarrow> reaches db (ao_path d) g a" for g a
      using assms(4) [of g] np objects_ok_unique [OF assms(1,3), of a] unfolding reaches_def by fastforce
    then show ?thesis by (simp add: grant_key_def)
  qed
  then have "k \<in> set (acl_key_expected ?db) \<longleftrightarrow> k \<in> set (acl_key_expected db)"
    unfolding expected_iff [OF oo] expected_iff [OF assms(1)] by auto
  then show "k \<in> set (acl_key ?db) \<longleftrightarrow> k \<in> set (acl_key_expected ?db)"
    using assms(2) by (simp add: keys_exact_def)
qed

section \<open>The invariant\<close>

definition acl_inv :: "database \<Rightarrow> bool" where
  "acl_inv db \<longleftrightarrow> schema_ok db \<and> keys_exact db \<and> tree_ok db"

lemma acl_invD:
  assumes "acl_inv db"
  shows "objects_ok db" "grants_ok db" "keys_ok db" "members_ok db" "keys_exact db" "tree_ok db"
  using assms by (simp_all add: acl_inv_def schema_ok_def)

lemma tree_ok_upd [simp]:
  "tree_ok (db\<lparr>acl_key := ks\<rparr>) = tree_ok db" "tree_ok (db\<lparr>acl_grant := gs\<rparr>) = tree_ok db"
  by (simp_all add: tree_ok_def)

lemma acl_inv_rewrite:
  assumes "rewriteSubtreeKeys E db pre = Inr db2" "objects_ok db" "grants_ok db" "keys_ok db" "members_ok db"
    "tree_ok db" "exact_outside db pre"
  shows "acl_inv db2"
proof -
  have "tree_ok db2"
    by (rule rewriteSubtreeKeys_result [OF assms(1)]) (use assms(6) in simp)
  then show ?thesis
    using rewriteSubtreeKeys_exact [OF assms(1,7)] rewriteSubtreeKeys_schema [OF assms(1-5)]
    by (simp add: acl_inv_def)
qed

lemma lockObject_Some:
  assumes "lockObject E db ref = Inr (Some st)" "env_ok E" "uuid_shape (obj_id ref)"
  obtains r where "r \<in> set (acl_object db)" "ao_type r = obj_type ref" "ao_id r = obj_id ref"
    "os_path st = ao_path r" "os_workspace st = ao_workspace r"
proof -
  obtain r where r: "find (\<lambda>r. ao_type r = obj_type ref \<and> ao_id r = obj_id ref) (acl_object db) = Some r"
    "os_path st = ao_path r" "os_workspace st = ao_workspace r"
    using assms by (auto simp: lockObject_def db_query_def result_simps split: if_splits)
  then have "r \<in> set (acl_object db)" "ao_type r = obj_type ref" "ao_id r = obj_id ref"
    by (auto dest: find_SomeD)
  then show thesis using r that by blast
qed

lemma lockObject_None:
  assumes "lockObject E db ref = Inr None" "env_ok E" "uuid_shape (obj_id ref)" "r \<in> set (acl_object db)"
  shows "\<not> (ao_type r = obj_type ref \<and> ao_id r = obj_id ref)"
  using assms by (auto simp: lockObject_def db_query_def result_simps find_None_iff split: if_splits)

lemma subject_prefix_agrees: "subjectKeyPrefix t = grant_key_prefix t"
  by (simp add: subjectKeyPrefix_def grant_key_prefix_def subject_defs)

lemma normalize_subject_Some:
  assumes "normalize_subject E s = Inr (Some sub)" "env_ok E"
  shows "grant_key_prefix (sub_type sub) \<noteq> None" "uuid_shape (sub_id sub)" "sub_type sub = sub_type s"
  using assms(1) env_ok_parse [OF assms(2)]
  by (auto simp: normalize_subject_def validSubjectType_def result_simps subject_prefix_agrees canonicalUUID_def
      split: if_splits option.splits)

lemma normalize_object_Some:
  assumes "normalize_object E r = Inr (Some ref)" "env_ok E"
  shows "typePattern (obj_type ref)" "uuid_shape (obj_id ref)" "obj_type ref = obj_type r"
  using assms(1) env_ok_parse [OF assms(2)]
  by (auto simp: normalize_object_def validObjectType_def result_simps canonicalUUID_def
      split: if_splits option.splits)

lemma storable_valid: "storable c = Inr s \<Longrightarrow> capabilityValues s \<noteq> None"
  by (auto simp: storable_def capabilityNames_def capabilityValues_def split: option.splits if_splits)

section \<open>Grant and Revoke keep it\<close>

lemma upsert_grant_other:
  "ag_otype g \<noteq> ag_otype x \<or> ag_oid g \<noteq> ag_oid x \<Longrightarrow> g \<in> set (upsert_grant x rows) \<longleftrightarrow> g \<in> set rows"
  unfolding upsert_grant_def Let_def by (auto simp: image_iff simp del: not_None_eq)

lemma upsert_grant_keys:
  "map (\<lambda>g. (ag_otype g, ag_oid g, ag_stype g, ag_sid g)) (upsert_grant x rows) =
     (let k = map (\<lambda>g. (ag_otype g, ag_oid g, ag_stype g, ag_sid g)) rows;
          y = (ag_otype x, ag_oid x, ag_stype x, ag_sid x)
      in if y \<in> set k then k else k @ [y])"
  by (auto simp: upsert_grant_def Let_def image_iff) metis

lemma upsert_grant_rows:
  "g \<in> set (upsert_grant x rows) \<Longrightarrow> g \<in> set rows \<or>
     (ag_otype g = ag_otype x \<and> ag_oid g = ag_oid x \<and> ag_stype g = ag_stype x \<and> ag_sid g = ag_sid x \<and>
      ag_capability g = ag_capability x \<and> ag_granted_by g = ag_granted_by x)"
  by (auto simp: upsert_grant_def Let_def image_iff split: if_splits)

lemma grants_ok_upsert:
  assumes "grants_ok db" "uuid_shape (ag_sid x)" "grant_key_prefix (ag_stype x) \<noteq> None"
    "capabilityValues (ag_capability x) \<noteq> None" "r \<in> set (acl_object db)" "ao_type r = ag_otype x" "ao_id r = ag_oid x"
  shows "grants_ok (db\<lparr>acl_grant := upsert_grant x (acl_grant db)\<rparr>)"
proof -
  have "distinct (map (\<lambda>g. (ag_otype g, ag_oid g, ag_stype g, ag_sid g)) (upsert_grant x (acl_grant db)))"
    using assms(1) by (simp add: upsert_grant_keys Let_def grants_ok_def)
  moreover have "uuid_shape (ag_sid g) \<and> grant_key_prefix (ag_stype g) \<noteq> None \<and>
      capabilityValues (ag_capability g) \<noteq> None \<and>
      (\<exists>r \<in> set (acl_object db). ao_type r = ag_otype g \<and> ao_id r = ag_oid g)"
    if "g \<in> set (upsert_grant x (acl_grant db))" for g
  proof (cases "g \<in> set (acl_grant db)")
    case True
    with assms(1) show ?thesis unfolding grants_ok_def by blast
  next
    case False
    with upsert_grant_rows [OF that] have "ag_otype g = ag_otype x" "ag_oid g = ag_oid x" "ag_stype g = ag_stype x"
      "ag_sid g = ag_sid x" "ag_capability g = ag_capability x" by blast+
    with assms(2-7) show ?thesis by simp blast
  qed
  ultimately show ?thesis by (simp add: grants_ok_def)
qed

lemma grantIn_inv:
  assumes "grantIn E db ref sub stored by1 = Inr db'" "acl_inv db" "env_ok E" "uuid_shape (obj_id ref)"
    "grant_key_prefix (sub_type sub) \<noteq> None" "uuid_shape (sub_id sub)" "capabilityValues stored \<noteq> None"
  shows "acl_inv db'"
proof -
  note inv = acl_invD [OF assms(2)]
  let ?x = "\<lparr>ag_otype = obj_type ref, ag_oid = obj_id ref, ag_stype = sub_type sub, ag_sid = sub_id sub,
    ag_capability = stored, ag_granted_by = by1, ag_created_at = now E\<rparr>"
  let ?db = "db\<lparr>acl_grant := upsert_grant ?x (acl_grant db)\<rparr>"
  obtain st where st: "lockObject E db ref = Inr (Some st)" "rewriteSubtreeKeys E ?db (os_path st) = Inr db'"
    using assms(1) by (auto simp: grantIn_def db_query_def result_simps split: option.splits if_splits)
  obtain r where r: "r \<in> set (acl_object db)" "ao_type r = obj_type ref" "ao_id r = obj_id ref"
      "os_path st = ao_path r"
    using lockObject_Some [OF st(1) assms(3,4)] by blast
  have "exact_outside ?db (ao_path r)"
    by (rule exact_outside_grants [OF inv(1,5) r(1)])
      (use r upsert_grant_other [of _ ?x "acl_grant db"] in auto)
  moreover have "grants_ok ?db" by (rule grants_ok_upsert [OF inv(2)]) (use assms r in auto)
  moreover have "objects_ok ?db" "keys_ok ?db" "members_ok ?db"
    using inv by (simp_all add: objects_ok_def keys_ok_def members_ok_def)
  ultimately show ?thesis
    using acl_inv_rewrite [OF st(2)] inv(6) r(4) by simp
qed

lemma revokeIn_inv:
  assumes "revokeIn E db ref sub = Inr (db', st0)" "acl_inv db" "env_ok E" "uuid_shape (obj_id ref)"
  shows "acl_inv db'"
proof (cases "lockObject E db ref = Inr None")
  case True
  then show ?thesis using assms(1,2) by (simp add: revokeIn_def)
next
  case False
  note inv = acl_invD [OF assms(2)]
  let ?gs = "filter (\<lambda>g. \<not> (ag_otype g = obj_type ref \<and> ag_oid g = obj_id ref \<and>
     ag_stype g = sub_type sub \<and> ag_sid g = sub_id sub)) (acl_grant db)"
  let ?db = "db\<lparr>acl_grant := ?gs\<rparr>"
  obtain st where st: "lockObject E db ref = Inr (Some st)" "rewriteSubtreeKeys E ?db (os_path st) = Inr db'"
    using assms(1) False by (auto simp: revokeIn_def db_query_def result_simps split: option.splits if_splits)
  obtain r where r: "r \<in> set (acl_object db)" "ao_type r = obj_type ref" "ao_id r = obj_id ref"
      "os_path st = ao_path r"
    using lockObject_Some [OF st(1) assms(3,4)] by blast
  have "exact_outside ?db (ao_path r)"
    by (rule exact_outside_grants [OF inv(1,5) r(1)]) (use r in auto)
  moreover have "grants_ok ?db" using inv(2) by (auto simp: grants_ok_def distinct_map_filter)
  moreover have "objects_ok ?db" "keys_ok ?db" "members_ok ?db"
    using inv by (simp_all add: objects_ok_def keys_ok_def members_ok_def)
  ultimately show ?thesis
    using acl_inv_rewrite [OF st(2)] inv(6) r(4) by simp
qed

section \<open>Register keeps it\<close>

text \<open>
  A reference can be placed when no stored path but its own passes through its segment: the id of an object created a moment ago
  (\<open>fresh_ref\<close>), or a registered object without descendants that is put under another parent. Repositioning an object that has
  descendants is what \<open>Move\<close> is for.
\<close>

definition fresh_ref :: "database \<Rightarrow> ObjectRef \<Rightarrow> bool" where
  "fresh_ref db ref \<longleftrightarrow> (\<forall>r \<in> set (acl_object db). pathSegment ref \<notin> set (pathSegments (ao_path r)))"

definition leaf_ref :: "database \<Rightarrow> ObjectRef \<Rightarrow> bool" where
  "leaf_ref db ref \<longleftrightarrow> (\<forall>r \<in> set (acl_object db). pathSegment ref \<in> set (pathSegments (ao_path r)) \<longrightarrow>
     ao_type r = obj_type ref \<and> ao_id r = obj_id ref)"

lemma fresh_leaf: "fresh_ref db ref \<Longrightarrow> leaf_ref db ref"
  by (simp add: fresh_ref_def leaf_ref_def)

lemma set_upsert_object:
  "set (upsert_object r rows) = insert r {x \<in> set rows. \<not> (ao_type x = ao_type r \<and> ao_id x = ao_id r)}"
  by (auto simp: upsert_object_def image_iff)

lemma upsert_object_ids:
  "map (\<lambda>x. (ao_type x, ao_id x)) (upsert_object r rows) =
     (let k = map (\<lambda>x. (ao_type x, ao_id x)) rows in if (ao_type r, ao_id r) \<in> set k then k else k @ [(ao_type r, ao_id r)])"
  by (auto simp: upsert_object_def Let_def image_iff) metis

lemma tree_okI:
  assumes "\<And>r. r \<in> set (acl_object db) \<Longrightarrow> last (pathSegments (ao_path r)) = seg_of r"
    "\<And>r x ts. r \<in> set (acl_object db) \<Longrightarrow> x \<in> set (acl_object db) \<Longrightarrow> prefix ts (pathSegments (ao_path r)) \<Longrightarrow>
       ts \<noteq> [] \<Longrightarrow> last ts = seg_of x \<Longrightarrow> ao_path x = render_path ts"
  shows "tree_ok db"
  unfolding tree_ok_def set_prefixes_eq
proof (intro ballI conjI impI)
  fix r x ts
  assume "r \<in> set (acl_object db)" "x \<in> set (acl_object db)" "ts \<in> {ts. prefix ts (pathSegments (ao_path r))}"
    "ts \<noteq> [] \<and> last ts = seg_of x"
  then show "ao_path x = render_path ts" using assms(2) by blast
qed (rule assms(1))

lemma tree_okD:
  assumes "tree_ok db" "r \<in> set (acl_object db)"
  shows "last (pathSegments (ao_path r)) = seg_of r"
    "x \<in> set (acl_object db) \<Longrightarrow> prefix ts (pathSegments (ao_path r)) \<Longrightarrow> ts \<noteq> [] \<Longrightarrow> last ts = seg_of x \<Longrightarrow>
       ao_path x = render_path ts"
proof -
  note t = bspec [OF assms(1) [unfolded tree_ok_def set_prefixes_eq] assms(2)]
  from t show "last (pathSegments (ao_path r)) = seg_of r" by (rule conjunct1)
  assume "x \<in> set (acl_object db)" "prefix ts (pathSegments (ao_path r))" "ts \<noteq> []" "last ts = seg_of x"
  with bspec [OF conjunct2 [OF t]] show "ao_path x = render_path ts" by blast
qed

lemma tree_ok_place:
  assumes "tree_ok db" "objects_ok db" "par \<in> set (acl_object db)" "leaf_ref db ref"
    "\<not> (ao_type par = obj_type ref \<and> ao_id par = obj_id ref)" "typePattern (obj_type ref)" "uuid_shape (obj_id ref)"
    "row = \<lparr>ao_type = obj_type ref, ao_id = obj_id ref, ao_workspace = w, ao_path = buildPath (ao_path par) ref\<rparr>"
  shows "tree_ok (db\<lparr>acl_object := upsert_object row (acl_object db)\<rparr>)"
proof -
  let ?others = "{x \<in> set (acl_object db). \<not> (ao_type x = obj_type ref \<and> ao_id x = obj_id ref)}"
  let ?db = "db\<lparr>acl_object := upsert_object row (acl_object db)\<rparr>"
  have rows: "set (acl_object ?db) = insert row ?others" by (simp add: set_upsert_object assms(8))
  obtain ps where ps: "ps \<noteq> []" "list_all seg_shape ps" "ao_path par = render_path ps"
    using objects_okD(4) [OF assms(2,3)] by (auto simp: path_shape_iff)
  have seg: "seg_of row = pathSegment ref" by (simp add: assms(8) seg_of_def row_ref_def pathSegment_def)
  have ok: "list_all seg_shape (ps @ [pathSegment ref])" using ps assms(6,7) by simp
  have path: "ao_path row = render_path (ps @ [pathSegment ref])"
    by (simp add: assms(8) ps(3) buildPath_render)
  have segs: "pathSegments (ao_path row) = ps @ [pathSegment ref]"
    unfolding path using ok by (simp add: pathSegments_render)
  have other: "seg_of x \<noteq> pathSegment ref" if "x \<in> ?others" for x
    using that objects_okD(3) [OF assms(2), of x] assms(6)
    by (auto simp: seg_of_def pathSegment_inject row_ref_def)
  have pseg: "pathSegments (ao_path par) = ps" using ps by (simp add: pathSegments_render)
  have fresh: "last ts \<noteq> pathSegment ref"
    if "r \<in> ?others" "prefix ts (pathSegments (ao_path r))" "ts \<noteq> []" for r ts
  proof -
    have "last ts \<in> set (pathSegments (ao_path r))"
      using that(2,3) set_mono_prefix last_in_set by blast
    with assms(4) that(1) show ?thesis by (auto simp: leaf_ref_def)
  qed
  show ?thesis
  proof (rule tree_okI, unfold rows)
    fix r assume "r \<in> insert row ?others"
    then show "last (pathSegments (ao_path r)) = seg_of r"
      using tree_okD(1) [OF assms(1)] segs seg by auto
  next
    fix r x ts
    assume r: "r \<in> insert row ?others" and x: "x \<in> insert row ?others"
      and ts: "prefix ts (pathSegments (ao_path r))" "ts \<noteq> []" "last ts = seg_of x"
    show "ao_path x = render_path ts"
    proof (cases "r = row \<and> ts = ps @ [pathSegment ref]")
      case True
      with ts(3) x other have "x = row" by auto
      with True path show ?thesis by simp
    next
      case False
      have "\<exists>r' \<in> ?others. prefix ts (pathSegments (ao_path r'))"
      proof (cases "r = row")
        case True
        with False ts(1) have "prefix ts ps" by (simp add: segs prefix_snoc)
        then show ?thesis using assms(3,5) pseg by auto
      next
        case False
        then show ?thesis using r ts(1) by auto
      qed
      then obtain r' where r': "r' \<in> ?others" "prefix ts (pathSegments (ao_path r'))" by blast
      have "x \<noteq> row" using fresh [OF r' ts(2)] ts(3) seg by auto
      with x r'(1) have "x \<in> set (acl_object db)" "r' \<in> set (acl_object db)" by simp_all
      then show ?thesis using tree_okD(2) [OF assms(1) _ _ r'(2) ts(2,3)] by blast
    qed
  qed
qed

lemma leaf_ref_reach:
  assumes "objects_ok db" "leaf_ref db ref" "d \<in> set (acl_object db)" "segs \<noteq> []" "list_all seg_shape segs" "last segs = pathSegment ref"
    "prefix (render_path segs) (ao_path d)"
  shows "ao_type d = obj_type ref \<and> ao_id d = obj_id ref"
proof -
  obtain ds where ds: "list_all seg_shape ds" "ds \<noteq> []" "ao_path d = render_path ds"
    using objects_okD(4) [OF assms(1,3)] by (auto simp: path_shape_iff)
  then have "prefix segs ds" using assms(5,7) by (simp add: prefix_render_path)
  then have "pathSegment ref \<in> set (pathSegments (ao_path d))"
    using assms(4,6) ds set_mono_prefix [of segs ds] last_in_set [of segs] by (auto simp: pathSegments_render)
  with assms(2,3) show ?thesis by (simp add: leaf_ref_def)
qed

lemma row_segments:
  assumes "tree_ok db" "objects_ok db" "r \<in> set (acl_object db)" "ao_type r = obj_type ref" "ao_id r = obj_id ref"
  obtains segs where "segs \<noteq> []" "list_all seg_shape segs" "last segs = pathSegment ref" "ao_path r = render_path segs"
proof -
  obtain segs where s: "segs \<noteq> []" "list_all seg_shape segs" "ao_path r = render_path segs"
    using objects_okD(4) [OF assms(2,3)] by (auto simp: path_shape_iff)
  moreover have "last segs = pathSegment ref"
    using tree_okD(1) [OF assms(1,3)] s assms(4,5) by (simp add: pathSegments_render seg_of_def row_ref_def pathSegment_def)
  ultimately show thesis using that by blast
qed

lemma exact_outside_register:
  assumes "objects_ok db" "tree_ok db" "keys_exact db" "leaf_ref db ref"
    "objects_ok (db\<lparr>acl_object := upsert_object row (acl_object db)\<rparr>)" "tree_ok (db\<lparr>acl_object := upsert_object row (acl_object db)\<rparr>)"
    "ao_type row = obj_type ref" "ao_id row = obj_id ref"
  shows "exact_outside (db\<lparr>acl_object := upsert_object row (acl_object db)\<rparr>) (ao_path row)"
  unfolding exact_outside_def
proof (intro allI impI)
  let ?db = "db\<lparr>acl_object := upsert_object row (acl_object db)\<rparr>"
  let ?others = "{x \<in> set (acl_object db). \<not> (ao_type x = obj_type ref \<and> ao_id x = obj_id ref)}"
  have rows: "set (acl_object ?db) = insert row ?others" by (simp add: set_upsert_object assms(7,8))
  fix k
  assume out: "\<not> key_in_subtree ?db (ao_path row) k"
  have row: "row \<in> set (acl_object ?db)" unfolding rows by simp
  have mine: "k \<noteq> mk_key d x" if "ao_type d = obj_type ref" "ao_id d = obj_id ref" for d x
  proof
    assume "k = mk_key d x"
    then have "key_in_subtree ?db (ao_path row) k"
      using row that assms(7,8) in_subtree_objects [OF assms(5) row, of "ao_path row"] by (auto simp: key_in_subtree_def mk_key_sel)
    with out show False ..
  qed
  have reach: "reaches ?db (ao_path d) g a \<longleftrightarrow> reaches db (ao_path d) g a" if d: "d \<in> ?others" for d g a
  proof (cases "ao_type a = obj_type ref \<and> ao_id a = obj_id ref")
    case True
    have "\<not> prefix (ao_path a) (ao_path d)" if a: "a \<in> set (acl_object db) \<or> a \<in> set (acl_object ?db)"
    proof
      assume pre: "prefix (ao_path a) (ao_path d)"
      obtain segs where "segs \<noteq> []" "list_all seg_shape segs" "last segs = pathSegment ref" "ao_path a = render_path segs"
        using a row_segments [OF assms(2,1)] row_segments [OF assms(6,5)] True by metis
      with leaf_ref_reach [OF assms(1,4)] pre d show False by auto
    qed
    then show ?thesis by (auto simp: reaches_def)
  next
    case False
    then have "a \<in> set (acl_object ?db) \<longleftrightarrow> a \<in> set (acl_object db)" unfolding rows using assms(7,8) by auto
    then show ?thesis by (simp add: reaches_def)
  qed
  have arms: "(\<exists>d \<in> set (acl_object ?db). \<exists>x. k = mk_key d x \<and> (own_key ?db d x \<or> grant_key ?db d x)) \<longleftrightarrow>
      (\<exists>d \<in> set (acl_object db). \<exists>x. k = mk_key d x \<and> (own_key db d x \<or> grant_key db d x))" (is "?L = ?R")
  proof -
    have "?L \<longleftrightarrow> (\<exists>d \<in> ?others. \<exists>x. k = mk_key d x \<and> (own_key ?db d x \<or> grant_key ?db d x))"
      unfolding rows using mine assms(7,8) by blast
    also have "\<dots> \<longleftrightarrow> (\<exists>d \<in> ?others. \<exists>x. k = mk_key d x \<and> (own_key db d x \<or> grant_key db d x))"
      by (rule bex_cong [OF refl]) (simp add: grant_key_def reach)
    also have "\<dots> \<longleftrightarrow> ?R" using mine by blast
    finally show ?thesis .
  qed
  then have "k \<in> set (acl_key_expected ?db) \<longleftrightarrow> k \<in> set (acl_key_expected db)"
    unfolding expected_iff [OF assms(1)] expected_iff [OF assms(5)] by simp
  then show "k \<in> set (acl_key ?db) \<longleftrightarrow> k \<in> set (acl_key_expected ?db)"
    using assms(3) by (simp add: keys_exact_def)
qed

lemma register_under_inv:
  assumes "acl_inv db" "par \<in> set (acl_object db)" "leaf_ref db ref" "\<not> (ao_type par = obj_type ref \<and> ao_id par = obj_id ref)"
    "typePattern (obj_type ref)" "uuid_shape (obj_id ref)"
    "row = \<lparr>ao_type = obj_type ref, ao_id = obj_id ref, ao_workspace = ao_workspace par,
            ao_path = buildPath (ao_path par) ref\<rparr>"
    "acl_object_check db row"
    "rewriteSubtreeKeys E (db\<lparr>acl_object := upsert_object row (acl_object db)\<rparr>) (ao_path row) = Inr db'"
  shows "acl_inv db'"
proof -
  note inv = acl_invD [OF assms(1)]
  let ?db = "db\<lparr>acl_object := upsert_object row (acl_object db)\<rparr>"
  have row: "ao_type row = obj_type ref" "ao_id row = obj_id ref" "uuid_shape (ao_id row)" "uuid_shape (ao_workspace row)"
    using assms(6) objects_okD(2) [OF inv(1) assms(2)] by (simp_all add: assms(7))
  have keep: "\<exists>x \<in> set (acl_object ?db). ao_type x = t \<and> ao_id x = i" if "\<exists>x \<in> set (acl_object db). ao_type x = t \<and> ao_id x = i" for t i
    using that by (auto simp: set_upsert_object)
  have oo: "objects_ok ?db"
    using inv(1) assms(8) row(3,4) unfolding objects_ok_def by (auto simp: upsert_object_ids Let_def set_upsert_object)
  have "grants_ok ?db" "keys_ok ?db" "members_ok ?db"
    using inv(2-4) keep by (auto simp: grants_ok_def keys_ok_def members_ok_def)
  then show ?thesis
    using acl_inv_rewrite [of E ?db "ao_path row" db'] assms(9) oo tree_ok_place [OF inv(6,1) assms(2-7)]
      exact_outside_register [OF inv(1,6,5) assms(3) oo tree_ok_place [OF inv(6,1) assms(2-7)] row(1,2)]
    by simp
qed

lemma lockObject_row:
  assumes "lockObject E db ref = Inr st" "env_ok E" "uuid_shape (obj_id ref)" "objects_ok db"
    "r \<in> set (acl_object db)" "ao_type r = obj_type ref" "ao_id r = obj_id ref"
  shows "\<exists>s. st = Some s \<and> os_path s = ao_path r \<and> os_workspace s = ao_workspace r"
proof (cases st)
  case None
  with lockObject_None [OF _ assms(2,3,5)] assms(1,6,7) show ?thesis by blast
next
  case (Some s)
  with assms(1) have "lockObject E db ref = Inr (Some s)" by simp
  then obtain r' where r': "r' \<in> set (acl_object db)" "ao_type r' = obj_type ref" "ao_id r' = obj_id ref"
      "os_path s = ao_path r'" "os_workspace s = ao_workspace r'"
    using lockObject_Some [OF _ assms(2,3)] by blast
  then have "r' = r" using objects_ok_unique [OF assms(4)] assms(5-7) by simp
  with r' Some show ?thesis by simp
qed

lemma registerIn_inv:
  assumes "registerIn E db ref parentRef = Inr db'" "acl_inv db" "env_ok E" "typePattern (obj_type ref)"
    "uuid_shape (obj_id ref)" "uuid_shape (obj_id parentRef)" "leaf_ref db ref" "parentRef \<noteq> ref"
    "par \<in> set (acl_object db)" "ao_type par = obj_type parentRef" "ao_id par = obj_id parentRef"
  shows "acl_inv db'"
proof -
  note inv = acl_invD [OF assms(2)]
  obtain st where st: "lockObject E db parentRef = Inr st"
    using assms(1) by (auto simp: registerIn_def bindR_Inr_iff)
  then obtain s where s: "st = Some s" "os_path s = ao_path par" "os_workspace s = ao_workspace par"
    using lockObject_row [OF st assms(3,6) inv(1) assms(9-11)] by blast
  define row where "row = \<lparr>ao_type = obj_type ref, ao_id = obj_id ref, ao_workspace = ao_workspace par,
            ao_path = buildPath (ao_path par) ref\<rparr>"
  have "acl_object_check db row \<and>
    rewriteSubtreeKeys E (db\<lparr>acl_object := upsert_object row (acl_object db)\<rparr>) (ao_path row) = Inr db'"
    using assms(1) st s unfolding row_def
    by (auto simp: registerIn_def bindR_Inr_iff db_query_def Let_def split: if_splits)
  moreover have "\<not> (ao_type par = obj_type ref \<and> ao_id par = obj_id ref)" using assms(8,10,11) by (auto simp: ObjectRef.equality)
  ultimately show ?thesis using register_under_inv [OF assms(2,9,7) _ assms(4,5) row_def] by blast
qed

end
