(* ===== verification/Authz_Move.thy ===== *)
theory Authz_Move
  imports Authz_Invariant
begin

text \<open>
  Moving a subtree keeps the invariant of the permission tables. Paths are handled as lists of segments: the moved
  rows are those whose segments start with \<open>ps\<close>, the segments of the object, and each becomes \<open>qs @ [sg] @ rs\<close>,
  where \<open>qs\<close> are the segments of the new parent and \<open>rs\<close> what the row has below the object.
\<close>

lemma row_segs:
  assumes "objects_ok db" "r \<in> set (acl_object db)"
  shows "pathSegments (ao_path r) \<noteq> []" "list_all seg_shape (pathSegments (ao_path r))"
    "render_path (pathSegments (ao_path r)) = ao_path r"
proof -
  obtain segs where "segs \<noteq> []" "list_all seg_shape segs" "ao_path r = render_path segs"
    using objects_okD(4) [OF assms] by (auto simp: path_shape_iff)
  then show "pathSegments (ao_path r) \<noteq> []" "list_all seg_shape (pathSegments (ao_path r))"
    "render_path (pathSegments (ao_path r)) = ao_path r"
    by (simp_all add: pathSegments_render)
qed

lemma move_row_keeps [simp]:
  "ao_type (move_row s n r) = ao_type r" "ao_id (move_row s n r) = ao_id r"
  "ao_workspace (move_row s n r) = ao_workspace r" "seg_of (move_row s n r) = seg_of r"
  by (simp_all add: move_row_def seg_of_def row_ref_def)

lemma drop_render_prefix:
  assumes "prefix ps segs"
  shows "render_path (qs @ [sg]) @ drop (length (render_path ps)) (render_path segs) =
    render_path (qs @ [sg] @ drop (length ps) segs)"
  using assms by (auto simp: prefix_def render_path_def)

text \<open>
  One move: the object of row \<open>r0\<close> goes below the row \<open>d\<close>. \<open>move_ok\<close> is what \<open>move_locked\<close> has checked by the time
  it writes.
\<close>

definition segs :: "acl_object_row \<Rightarrow> string list" where "segs r = pathSegments (ao_path r)"

definition moved :: "acl_object_row \<Rightarrow> acl_object_row \<Rightarrow> acl_object_row \<Rightarrow> acl_object_row" where
  "moved r0 d = move_row (ao_path r0) (buildPath (ao_path d) (row_ref r0))"

definition move_ok :: "database \<Rightarrow> acl_object_row \<Rightarrow> acl_object_row \<Rightarrow> bool" where
  "move_ok db r0 d \<longleftrightarrow> acl_inv db \<and> r0 \<in> set (acl_object db) \<and> d \<in> set (acl_object db) \<and>
     \<not> hasPrefixPath (ao_path d) (ao_path r0) \<and>
     (\<forall>r \<in> set (acl_object db). in_subtree (ao_path r0) (ao_path r) \<longrightarrow> acl_object_check db (moved r0 d r))"

lemma move_okD:
  assumes "move_ok db r0 d"
  shows "acl_inv db" "r0 \<in> set (acl_object db)" "d \<in> set (acl_object db)"
    "\<not> hasPrefixPath (ao_path d) (ao_path r0)"
    "r \<in> set (acl_object db) \<Longrightarrow> in_subtree (ao_path r0) (ao_path r) \<Longrightarrow> acl_object_check db (moved r0 d r)"
  using assms by (simp_all add: move_ok_def)

lemma segs_row:
  assumes "acl_inv db" "r \<in> set (acl_object db)"
  shows "segs r \<noteq> []" "list_all seg_shape (segs r)" "render_path (segs r) = ao_path r" "last (segs r) = seg_of r"
  using row_segs [OF acl_invD(1) [OF assms(1)] assms(2)] tree_okD(1) [OF acl_invD(6) [OF assms(1)] assms(2)]
  by (simp_all add: segs_def)

lemma prefix_segs:
  assumes "acl_inv db" "a \<in> set (acl_object db)" "r \<in> set (acl_object db)"
  shows "prefix (ao_path a) (ao_path r) \<longleftrightarrow> prefix (segs a) (segs r)"
  using prefix_render_path [OF segs_row(2) [OF assms(1,2)] segs_row(2) [OF assms(1,3)]]
    segs_row(3) [OF assms(1,2)] segs_row(3) [OF assms(1,3)] by simp

lemma in_subtree_segs:
  assumes "acl_inv db" "a \<in> set (acl_object db)" "r \<in> set (acl_object db)"
  shows "in_subtree (ao_path a) (ao_path r) \<longleftrightarrow> prefix (segs a) (segs r)"
  using in_subtree_objects [OF acl_invD(1) [OF assms(1)] assms(2)] prefix_segs [OF assms] by simp

lemma new_path_segs:
  assumes "move_ok db r0 d"
  shows "buildPath (ao_path d) (row_ref r0) = render_path (segs d @ [seg_of r0])"
    "list_all seg_shape (segs d @ [seg_of r0])" "\<not> prefix (segs r0) (segs d)"
proof -
  note ok = move_okD [OF assms]
  note d = segs_row [OF ok(1,3)] and r0 = segs_row [OF ok(1,2)]
  show "buildPath (ao_path d) (row_ref r0) = render_path (segs d @ [seg_of r0])"
    using d(3) buildPath_render [of "segs d" "row_ref r0"] by (simp add: seg_of_def)
  have "seg_of r0 \<in> set (segs r0)" using last_in_set [OF r0(1)] r0(4) by simp
  then show "list_all seg_shape (segs d @ [seg_of r0])" using d(2) r0(2) by (auto simp: list_all_iff)
  show "\<not> prefix (segs r0) (segs d)" using ok(4) prefix_segs [OF ok(1-3)] by (simp add: hasPrefixPath_def)
qed

lemma unmoved:
  assumes "move_ok db r0 d" "r \<in> set (acl_object db)" "\<not> prefix (segs r0) (segs r)"
  shows "moved r0 d r = r"
  using assms in_subtree_segs [OF move_okD(1,2) [OF assms(1)] assms(2)] by (simp add: moved_def move_row_def)

lemma segs_moved:
  assumes "move_ok db r0 d" "r \<in> set (acl_object db)" "prefix (segs r0) (segs r)"
  shows "segs (moved r0 d r) = segs d @ [seg_of r0] @ drop (length (segs r0)) (segs r)"
    "ao_path (moved r0 d r) = render_path (segs d @ [seg_of r0] @ drop (length (segs r0)) (segs r))"
proof -
  note ok = move_okD [OF assms(1)] and new = new_path_segs [OF assms(1)]
  note r = segs_row [OF ok(1) assms(2)]
  show path: "ao_path (moved r0 d r) = render_path (segs d @ [seg_of r0] @ drop (length (segs r0)) (segs r))"
    using assms(3) drop_render_prefix [OF assms(3), of "segs d" "seg_of r0"] segs_row(3) [OF ok(1,2)] r(3) new(1)
      in_subtree_segs [OF ok(1,2) assms(2)]
    by (simp add: moved_def move_row_def)
  have "list_all seg_shape (drop (length (segs r0)) (segs r))"
    using r(2) by (auto simp: list_all_iff dest: in_set_dropD)
  then show "segs (moved r0 d r) = segs d @ [seg_of r0] @ drop (length (segs r0)) (segs r)"
    using new(2) unfolding segs_def [of "moved r0 d r"] path by (intro pathSegments_render) auto
qed

lemma objects_ok_move:
  assumes "move_ok db r0 d"
  shows "objects_ok (db\<lparr>acl_object := map (moved r0 d) (acl_object db)\<rparr>)"
proof -
  note ok = move_okD [OF assms] and oo = acl_invD(1) [OF move_okD(1) [OF assms]]
  have "acl_object_check db (moved r0 d r)" if "r \<in> set (acl_object db)" for r
  proof (cases "in_subtree (ao_path r0) (ao_path r)")
    case True
    then show ?thesis using ok(5) [OF that] by simp
  next
    case False
    then show ?thesis using oo that by (simp add: moved_def move_row_def objects_ok_def)
  qed
  moreover have "map (\<lambda>r. (ao_type r, ao_id r)) (map (moved r0 d) (acl_object db)) =
      map (\<lambda>r. (ao_type r, ao_id r)) (acl_object db)" by (simp add: moved_def)
  ultimately show ?thesis
    using oo unfolding objects_ok_def by (simp add: moved_def del: map_map)
qed

text \<open>Every prefix of a row's new path that ends in the segment of a row is that row's new path.\<close>

lemma moved_prefix:
  assumes "move_ok db r0 d" "r \<in> set (acl_object db)" "x \<in> set (acl_object db)"
    "prefix ts (segs (moved r0 d r))" "ts \<noteq> []" "last ts = seg_of x"
  shows "ao_path (moved r0 d x) = render_path ts"
proof -
  note ok = move_okD [OF assms(1)]
  note tree = tree_okD(2) [OF acl_invD(6) [OF ok(1)] _ assms(3), folded segs_def]
  note new = new_path_segs [OF assms(1)]
  have stay: ?thesis if "y \<in> set (acl_object db)" "prefix ts (segs y)" "\<not> prefix (segs r0) ts" for y
  proof -
    have path: "ao_path x = render_path ts" using tree [OF that(1,2) assms(5,6)] .
    have "list_all seg_shape ts"
      using that(2) segs_row(2) [OF ok(1) that(1)] by (auto simp: prefix_def)
    then have "segs x = ts" using path assms(5) by (simp add: segs_def pathSegments_render)
    with that(3) path unmoved [OF assms(1,3)] show ?thesis by simp
  qed
  show ?thesis
  proof (cases "prefix (segs r0) (segs r)")
    case False
    then have "prefix ts (segs r)" using assms(4) unmoved [OF assms(1,2)] by simp
    moreover have "\<not> prefix (segs r0) ts" using False calculation prefix_order.trans by blast
    ultimately show ?thesis using stay [OF assms(2)] by blast
  next
    case True
    then obtain rs where rs: "segs r = segs r0 @ rs" by (auto simp: prefix_def)
    then have "prefix ts (segs d @ seg_of r0 # rs)" using assms(4) segs_moved(1) [OF assms(1,2) True] by simp
    then consider (above) "prefix ts (segs d)" | (below) us where "ts = segs d @ seg_of r0 # us" "prefix us rs"
      by (auto simp: prefix_append prefix_Cons)
    then show ?thesis
    proof cases
      case above
      then have "\<not> prefix (segs r0) ts" using new(3) prefix_order.trans by blast
      with stay [OF ok(3) above] show ?thesis .
    next
      case below
      have r0: "segs r0 \<noteq> []" "last (segs r0) = seg_of r0" using segs_row(1,4) [OF ok(1,2)] by simp_all
      have last: "last (segs r0 @ us) = seg_of x" using assms(6) r0 by (simp add: below(1) split: if_splits)
      have pre: "prefix (segs r0 @ us) (segs r)" using below(2) by (simp add: rs)
      have path: "ao_path x = render_path (segs r0 @ us)" using tree [OF assms(2) pre _ last] r0(1) by simp
      have "list_all seg_shape (segs r0 @ us)"
        using pre segs_row(2) [OF ok(1) assms(2)] by (auto simp: prefix_def)
      then have "segs x = segs r0 @ us" using path r0(1) by (simp add: segs_def pathSegments_render)
      then show ?thesis using segs_moved(2) [OF assms(1,3)] below(1) by simp
    qed
  qed
qed

lemma last_moved:
  assumes "move_ok db r0 d" "r \<in> set (acl_object db)"
  shows "last (segs (moved r0 d r)) = seg_of r"
proof (cases "prefix (segs r0) (segs r)")
  case True
  then obtain rs where rs: "segs r = segs r0 @ rs" by (auto simp: prefix_def)
  have "last (segs r) = seg_of r" "last (segs r0) = seg_of r0"
    using segs_row(4) move_okD [OF assms(1)] assms(2) by blast+
  then show ?thesis using segs_moved(1) [OF assms True] rs by (auto split: if_splits)
next
  case False
  then show ?thesis using unmoved [OF assms] segs_row(4) [OF move_okD(1) [OF assms(1)] assms(2)] by simp
qed

lemma tree_ok_move:
  assumes "move_ok db r0 d"
  shows "tree_ok (db\<lparr>acl_object := map (moved r0 d) (acl_object db)\<rparr>)"
proof (rule tree_okI)
  have seg [simp]: "seg_of (moved r0 d x) = seg_of x" for x by (simp add: moved_def)
  fix r assume "r \<in> set (acl_object (db\<lparr>acl_object := map (moved r0 d) (acl_object db)\<rparr>))"
  then obtain r1 where r1: "r1 \<in> set (acl_object db)" "r = moved r0 d r1" by auto
  with last_moved [OF assms r1(1)] show "last (pathSegments (ao_path r)) = seg_of r" by (simp add: segs_def)
  fix x ts assume "x \<in> set (acl_object (db\<lparr>acl_object := map (moved r0 d) (acl_object db)\<rparr>))"
  then obtain x1 where x1: "x1 \<in> set (acl_object db)" "x = moved r0 d x1" by auto
  assume "prefix ts (pathSegments (ao_path r))" "ts \<noteq> []" "last ts = seg_of x"
  then show "ao_path x = render_path ts"
    using moved_prefix [OF assms r1(1) x1(1)] r1(2) x1(2) by (simp add: segs_def)
qed

lemma in_new_subtree:
  assumes "move_ok db r0 d"
  shows "in_subtree (buildPath (ao_path d) (row_ref r0)) p \<longleftrightarrow> prefix (buildPath (ao_path d) (row_ref r0)) p"
  by (rule in_subtree_iff_prefix) (use new_path_segs [OF assms] in \<open>metis path_shape_iff snoc_eq_iff_butlast\<close>)

lemma moved_in_new_subtree:
  assumes "move_ok db r0 d" "r \<in> set (acl_object db)" "prefix (segs r0) (segs r)"
  shows "prefix (buildPath (ao_path d) (row_ref r0)) (ao_path (moved r0 d r))"
proof -
  let ?rest = "drop (length (segs r0)) (segs r)"
  note new = new_path_segs [OF assms(1)]
  have "list_all seg_shape ?rest"
    using segs_row(2) [OF move_okD(1) [OF assms(1)] assms(2)] by (auto simp: list_all_iff dest: in_set_dropD)
  then show ?thesis
    unfolding segs_moved(2) [OF assms] new(1) using new(2)
    by (subst prefix_render_path) auto
qed

lemma grant_key_unmoved:
  assumes "move_ok db r0 d" "x \<in> set (acl_object db)"
    "\<not> prefix (buildPath (ao_path d) (row_ref r0)) (ao_path (moved r0 d x))"
  shows "grant_key (db\<lparr>acl_object := map (moved r0 d) (acl_object db)\<rparr>) (moved r0 d x) y \<longleftrightarrow> grant_key db x y"
proof -
  let ?db = "db\<lparr>acl_object := map (moved r0 d) (acl_object db)\<rparr>"
  note ok = move_okD [OF assms(1)]
  have out: "\<not> prefix (segs r0) (segs x)" using assms moved_in_new_subtree by blast
  have x: "moved r0 d x = x" using unmoved [OF assms(1,2) out] .
  have sub: "moved r0 d a = a" if "a \<in> set (acl_object db)" "prefix (ao_path a) (ao_path x)" for a
  proof (rule unmoved [OF assms(1) that(1)])
    show "\<not> prefix (segs r0) (segs a)"
      using that prefix_segs [OF ok(1) that(1) assms(2)] out prefix_order.trans by blast
  qed
  have sub': "moved r0 d a = a" if "a \<in> set (acl_object db)" "prefix (ao_path (moved r0 d a)) (ao_path x)" for a
    using that assms(3) x moved_in_new_subtree [OF assms(1) that(1)] unmoved [OF assms(1) that(1)]
      prefix_order.trans by metis
  have "reaches db (ao_path x) g a \<longleftrightarrow> reaches ?db (ao_path x) g a" for g a
    unfolding reaches_def using sub sub' by (auto simp: image_iff) metis+
  then show ?thesis by (simp add: grant_key_def x)
qed

lemma exact_outside_move:
  assumes "move_ok db r0 d"
  shows "exact_outside (db\<lparr>acl_object := map (moved r0 d) (acl_object db)\<rparr>) (buildPath (ao_path d) (row_ref r0))"
  unfolding exact_outside_def
proof (intro allI impI)
  let ?db = "db\<lparr>acl_object := map (moved r0 d) (acl_object db)\<rparr>"
  note inv = acl_invD [OF move_okD(1) [OF assms]]
  fix k
  assume out: "\<not> key_in_subtree ?db (buildPath (ao_path d) (row_ref r0)) k"
  have eq: "(own_key ?db (moved r0 d x) y \<or> grant_key ?db (moved r0 d x) y) \<longleftrightarrow> (own_key db x y \<or> grant_key db x y)"
    "mk_key (moved r0 d x) y = mk_key x y"
    if "x \<in> set (acl_object db)" "k = mk_key x y" for x y
  proof -
    show mk: "mk_key (moved r0 d x) y = mk_key x y" by (simp add: moved_def)
    have "\<not> prefix (buildPath (ao_path d) (row_ref r0)) (ao_path (moved r0 d x))"
      using out [unfolded that(2)] key_in_subtree_row [OF objects_ok_move [OF assms], of "moved r0 d x" _ y, unfolded mk]
        that(1) in_new_subtree [OF assms] by simp
    then show "(own_key ?db (moved r0 d x) y \<or> grant_key ?db (moved r0 d x) y) \<longleftrightarrow> (own_key db x y \<or> grant_key db x y)"
      using grant_key_unmoved [OF assms that(1)] unmoved [OF assms that(1)] moved_in_new_subtree [OF assms that(1)]
      by (metis legacy_upd(1))
  qed
  have mk: "mk_key (moved r0 d x) y = mk_key x y" for x y by (simp add: moved_def)
  have rows: "set (acl_object ?db) = moved r0 d ` set (acl_object db)" by simp
  have "(\<exists>d1 \<in> set (acl_object ?db). \<exists>y. k = mk_key d1 y \<and> (own_key ?db d1 y \<or> grant_key ?db d1 y)) \<longleftrightarrow>
      (\<exists>d1 \<in> set (acl_object db). \<exists>y. k = mk_key d1 y \<and> (own_key db d1 y \<or> grant_key db d1 y))"
    unfolding rows bex_simps(7) mk using eq(1) by blast
  then have "k \<in> set (acl_key_expected ?db) \<longleftrightarrow> k \<in> set (acl_key_expected db)"
    unfolding expected_iff [OF inv(1)] expected_iff [OF objects_ok_move [OF assms]] legacy_upd(3) by blast
  then show "k \<in> set (acl_key ?db) \<longleftrightarrow> k \<in> set (acl_key_expected ?db)"
    using inv(5) by (simp add: keys_exact_def)
qed

lemma move_inv:
  assumes "move_ok db r0 d"
    "rewriteSubtreeKeys E (db\<lparr>acl_object := map (moved r0 d) (acl_object db)\<rparr>)
       (buildPath (ao_path d) (row_ref r0)) = Inr db'"
  shows "acl_inv db'"
proof -
  let ?db = "db\<lparr>acl_object := map (moved r0 d) (acl_object db)\<rparr>"
  note inv = acl_invD [OF move_okD(1) [OF assms(1)]]
  have "grants_ok ?db" "keys_ok ?db" "members_ok ?db"
    using inv(2-4) by (auto simp: grants_ok_def keys_ok_def members_ok_def moved_def)
  then show ?thesis
    using acl_inv_rewrite [OF assms(2) objects_ok_move [OF assms(1)]] tree_ok_move [OF assms(1)]
      exact_outside_move [OF assms(1)] by blast
qed

lemma move_locked_inv:
  assumes "move_locked E db ref parentRef src dst = Inr (db', live)" "acl_inv db"
    "r0 \<in> set (acl_object db)" "row_ref r0 = ref" "os_path src = ao_path r0"
    "d \<in> set (acl_object db)" "os_path dst = ao_path d"
  shows "acl_inv db'"
proof -
  let ?new = "buildPath (ao_path d) (row_ref r0)"
  let ?db = "db\<lparr>acl_object := map (moved r0 d) (acl_object db)\<rparr>"
  have guards: "\<not> hasPrefixPath (ao_path d) (ao_path r0)"
    "list_all (acl_object_check ?db) (map (moved r0 d) (filter (\<lambda>r. in_subtree (ao_path r0) (ao_path r)) (acl_object db)))"
    "rewriteSubtreeKeys E ?db ?new = Inr db'"
    using assms by (auto simp: move_locked_def bindR_Inr_iff db_query_def Let_def moved_def split: if_splits)
  then have "move_ok db r0 d"
    using assms(2,3,6) by (auto simp: move_ok_def list_all_iff)
  then show ?thesis using move_inv guards(3) by blast
qed

lemma MoveInTx_inv:
  assumes "MoveInTx E db obj newParent = Inr (db', x)" "acl_inv db" "env_ok E"
  shows "acl_inv db'"
proof -
  obtain ref parentRef where n: "normalize_object E obj = Inr (Some ref)" "normalize_object E newParent = Inr (Some parentRef)"
    using assms(1) by (auto simp: MoveInTx_def bindR_Inr_iff split: option.splits)
  obtain src dst live where l: "lockObject E db ref = Inr (Some src)" "lockObject E db parentRef = Inr (Some dst)"
      "move_locked E db ref parentRef src dst = Inr (db', live)"
    using assms(1) n by (auto simp: MoveInTx_def bindR_Inr_iff Let_def split: option.splits if_splits prod.splits)
  note u = normalize_object_Some(2) [OF n(1) assms(3)] normalize_object_Some(2) [OF n(2) assms(3)]
  obtain r0 where r0: "r0 \<in> set (acl_object db)" "ao_type r0 = obj_type ref" "ao_id r0 = obj_id ref"
      "os_path src = ao_path r0" using lockObject_Some [OF l(1) assms(3) u(1)] by blast
  obtain d where d: "d \<in> set (acl_object db)" "os_path dst = ao_path d"
    using lockObject_Some [OF l(2) assms(3) u(2)] by blast
  have "row_ref r0 = ref" using r0 by (simp add: row_ref_def)
  then show ?thesis using move_locked_inv [OF l(3) assms(2) r0(1) _ r0(4) d] by blast
qed

end
