(* ===== verification/Authz_Machine.thy ===== *)
theory Authz_Machine
  imports Authz_Move
begin

text \<open>
  The permission tables as a machine. Each public mutation is a step that also returns an error or the effects that
  follow its commit; a step that fails changes nothing, a step that succeeds keeps the invariant, and so does every
  history of steps, each under its own environment (its own faults, clock and wiring).
\<close>

section \<open>Histories of operations\<close>

datatype acl_op =
    OpRegister ObjectRef ObjectRef
  | OpGrant SubjectRef SubjectRef ObjectRef capability
  | OpRevoke SubjectRef SubjectRef ObjectRef
  | OpMove SubjectRef ObjectRef ObjectRef

fun acl_exec :: "env \<times> acl_op \<Rightarrow> database \<Rightarrow> outcome" where
  "acl_exec (E, OpRegister obj parent) db = Register E db obj parent"
| "acl_exec (E, OpGrant actor subject obj capability) db = Grant_op E db actor subject obj capability"
| "acl_exec (E, OpRevoke actor subject obj) db = Revoke E db actor subject obj"
| "acl_exec (E, OpMove actor obj newParent) db = Move E db actor obj newParent"

definition acl_step :: "env \<times> acl_op \<Rightarrow> database \<Rightarrow> database" where
  "acl_step op db = fst (snd (acl_exec op db))"

text \<open>
  The guard of a step: the uuid library and the driver behave. \<open>Register\<close> is called for a new reference, or for a registered one
  that has no descendants and is placed elsewhere, and its parent is registered or of a native type (then \<open>Register\<close> answers
  \<open>ErrNotRegistered\<close>). Left out are the reposition of an object with descendants, which \<open>MoveTx_leaves_descendants\<close> shows to
  break the paths, and a parent of a derived type that has no row yet, which \<open>registerIn\<close> materializes first. The other operations
  have no guard: their errors are part of the model.
\<close>

definition registered :: "database \<Rightarrow> ObjectRef \<Rightarrow> bool" where
  "registered db ref \<longleftrightarrow> (\<exists>r \<in> set (acl_object db). ao_type r = obj_type ref \<and> ao_id r = obj_id ref)"

fun acl_guard :: "env \<times> acl_op \<Rightarrow> database \<Rightarrow> bool" where
  "acl_guard (E, OpRegister obj parent) db \<longleftrightarrow> env_ok E \<and>
     (\<forall>ref p. normalizeRegister E obj parent = Inr (ref, p) \<longrightarrow> leaf_ref db ref \<and> (registered db p \<or> \<not> derivedTypes (obj_type p)))"
| "acl_guard (E, _) db \<longleftrightarrow> env_ok E"

section \<open>Transactions\<close>

lemma WithTx_Inl: "WithTx E failed db f = (Inl e, db') \<Longrightarrow> db' = db"
  by (auto simp: WithTx_def split: if_splits sum.splits)

lemma WithTx_Inr: "WithTx E failed db f = (Inr x, db') \<Longrightarrow> f db = Inr (db', x)"
  by (auto simp: WithTx_def split: if_splits sum.splits)

lemma WithTx_keeps:
  assumes "WithTx E failed db f = (r, db')" "P db" "\<And>db1 x. f db = Inr (db1, x) \<Longrightarrow> P db1"
  shows "P db'"
  using assms WithTx_Inl [of E failed db f _ db'] WithTx_Inr [of E failed db f _ db'] by (cases r) auto

lemma normalizeRegister_Inr:
  assumes "normalizeRegister E obj parent = Inr (ref, p)"
  shows "normalize_object E obj = Inr (Some ref)" "normalize_object E parent = Inr (Some p)" "\<not> derivedTypes (obj_type ref)"
  using assms by (auto simp: normalizeRegister_def bindR_Inr_iff split: option.splits if_splits)

lemma normalizeGrant_Inr:
  assumes "normalizeGrant E actor subject obj c = Inr (sub, ref, stored, by1)"
  shows "normalize_subject E subject = Inr (Some sub)" "normalize_object E obj = Inr (Some ref)" "storable c = Inr stored"
  using assms by (auto simp: normalizeGrant_def bindR_Inr_iff split: option.splits)

lemma normalizeRevoke_Inr:
  assumes "normalizeRevoke E subject obj = Inr (sub, ref)"
  shows "normalize_subject E subject = Inr (Some sub)" "normalize_object E obj = Inr (Some ref)"
  using assms by (auto simp: normalizeRevoke_def bindR_Inr_iff split: option.splits)

section \<open>Every step keeps the invariant\<close>

lemma Register_inv:
  assumes "Register E db obj parent = (r, db', fx)" "acl_inv db" "acl_guard (E, OpRegister obj parent) db"
  shows "acl_inv db'"
proof (cases "normalizeRegister E obj parent")
  case (Inl e)
  then show ?thesis using assms by (simp add: Register_def)
next
  case (Inr rp)
  obtain ref p where n: "normalizeRegister E obj parent = Inr (ref, p)" using Inr by (cases rp) simp
  have E: "env_ok E" and g: "leaf_ref db ref" "registered db p \<or> \<not> derivedTypes (obj_type p)" "p \<noteq> ref"
    using assms(3) n by (auto simp: normalizeRegister_def bindR_Inr_iff split: option.splits if_splits)
  note o1 = normalize_object_Some [OF normalizeRegister_Inr(1) [OF n] E]
    and p1 = normalize_object_Some [OF normalizeRegister_Inr(2) [OF n] E]
  have tx: "WithTx E DbError db (\<lambda>t. bindR (registerIn E t ref p) (\<lambda>t'. Inr (t', ()))) = (r, db')"
    using assms(1) n by (auto simp: Register_def Let_def split: prod.splits)
  show ?thesis
  proof (rule WithTx_keeps [where P = acl_inv, OF tx assms(2)])
    fix db1 :: database and x
    assume "bindR (registerIn E db ref p) (\<lambda>t'. Inr (t', ())) = Inr (db1, x)"
    then have reg: "registerIn E db ref p = Inr db1" by (auto simp: bindR_Inr_iff)
    have "registered db p"
    proof (cases "registered db p")
      case False
      then obtain st where "lockObject E db p = Inr (Some st)"
        using reg g(2) by (auto simp: registerIn_def bindR_Inr_iff split: option.splits)
      then show ?thesis by (rule lockObject_Some [OF _ E p1(2)]) (auto simp: registered_def)
    qed
    then obtain par where "par \<in> set (acl_object db)" "ao_type par = obj_type p" "ao_id par = obj_id p"
      by (auto simp: registered_def)
    with reg show "acl_inv db1" using registerIn_inv [OF _ assms(2) E o1(1,2) p1(2) g(1,3)] by blast
  qed
qed

lemma Grant_inv:
  assumes "Grant_op E db actor subject obj c = (r, db', fx)" "acl_inv db" "env_ok E"
  shows "acl_inv db'"
proof (cases "normalizeGrant E actor subject obj c")
  case (Inl e)
  then show ?thesis using assms by (simp add: Grant_op_def)
next
  case (Inr q)
  obtain sub ref stored by1 where n: "normalizeGrant E actor subject obj c = Inr (sub, ref, stored, by1)"
    using Inr by (cases q) auto
  obtain r1 where tx: "WithTx E DbError db (\<lambda>t. bindR (grantIn E t ref sub stored by1) (\<lambda>t'. Inr (t', ()))) = (r1, db')"
    using assms(1) n by (auto simp: Grant_op_def split: prod.splits sum.splits)
  note s1 = normalize_subject_Some [OF normalizeGrant_Inr(1) [OF n] assms(3)]
    and o1 = normalize_object_Some [OF normalizeGrant_Inr(2) [OF n] assms(3)]
    and c1 = storable_valid [OF normalizeGrant_Inr(3) [OF n]]
  show ?thesis
  proof (rule WithTx_keeps [where P = acl_inv, OF tx assms(2)])
    fix db1 :: database and x
    assume "bindR (grantIn E db ref sub stored by1) (\<lambda>t'. Inr (t', ())) = Inr (db1, x)"
    then have "grantIn E db ref sub stored by1 = Inr db1" by (auto simp: bindR_Inr_iff)
    then show "acl_inv db1" using grantIn_inv [OF _ assms(2,3) o1(2) s1(1,2) c1] by blast
  qed
qed

lemma Revoke_inv:
  assumes "Revoke E db actor subject obj = (r, db', fx)" "acl_inv db" "env_ok E"
  shows "acl_inv db'"
proof (cases "normalizeRevoke E subject obj")
  case (Inl e)
  then show ?thesis using assms by (simp add: Revoke_def)
next
  case (Inr q)
  obtain sub ref where n: "normalizeRevoke E subject obj = Inr (sub, ref)" using Inr by (cases q) auto
  obtain r1 where tx: "WithTx E DbError db (\<lambda>t. bindR (revokeIn E t ref sub) (\<lambda>(t', st).
      case st of None \<Rightarrow> Inr (t', ([], False))
      | Some s \<Rightarrow> bindR (liveDescendants E t' (os_path s)) (\<lambda>lv. Inr (t', lv)))) = (r1, db')"
    using assms(1) n by (auto simp: Revoke_def split: prod.splits sum.splits)
  note o1 = normalize_object_Some [OF normalizeRevoke_Inr(2) [OF n] assms(3)]
  show ?thesis
  proof (rule WithTx_keeps [where P = acl_inv, OF tx assms(2)])
    fix db1 :: database and x
    assume "bindR (revokeIn E db ref sub) (\<lambda>(t', st). case st of None \<Rightarrow> Inr (t', ([], False))
      | Some s \<Rightarrow> bindR (liveDescendants E t' (os_path s)) (\<lambda>lv. Inr (t', lv))) = Inr (db1, x)"
    then obtain st where "revokeIn E db ref sub = Inr (db1, st)"
      by (auto simp: bindR_Inr_iff split: option.splits)
    then show "acl_inv db1" using revokeIn_inv [OF _ assms(2,3) o1(2)] by blast
  qed
qed

lemma Move_inv:
  assumes "Move E db actor obj newParent = (r, db', fx)" "acl_inv db" "env_ok E"
  shows "acl_inv db'"
proof -
  obtain r1 where tx: "WithTx E DbError db (\<lambda>t. MoveInTx E t obj newParent) = (r1, db')"
    using assms(1) by (auto simp: Move_def split: prod.splits sum.splits)
  show ?thesis
    by (rule WithTx_keeps [where P = acl_inv, OF tx assms(2)]) (use MoveInTx_inv [OF _ assms(2,3)] in blast)
qed

lemma acl_step_inv:
  assumes "acl_inv db" "acl_guard op db"
  shows "acl_inv (acl_step op db)"
proof (cases op)
  case (Pair E o1)
  then show ?thesis
    using assms by (cases o1; cases "acl_exec op db")
      (auto simp: acl_step_def dest: Register_inv Grant_inv Revoke_inv Move_inv simp del: acl_guard.simps(1))
qed

interpretation acl: guarded_machine acl_step acl_guard acl_inv
  by unfold_locales (rule acl_step_inv)

section \<open>A failed step changes nothing\<close>

lemma acl_exec_error:
  assumes "acl_exec op db = (Inl e, db', fx)"
  shows "db' = db \<and> fx = []"
proof (cases op)
  case (Pair E o1)
  then show ?thesis
    using assms
    by (cases o1)
      (auto simp: Register_def Grant_op_def Revoke_def Move_def Let_def dest: WithTx_Inl
        split: sum.splits prod.splits)
qed

end
