(* ===== verification/Authz_Effects.thy ===== *)
theory Authz_Effects
  imports Authz_Machine
begin

text \<open>
  What each mutation does to a decision: a grant is in force when it returns, a revocation removes one row and tells
  every live object below, a move relocates exactly one subtree, a materialization makes one object's rows exact.
\<close>

section \<open>Reading the result of a transaction\<close>

lemma rewriteSubtreeKeys_frame:
  assumes "rewriteSubtreeKeys E db pre = Inr db2"
  shows "acl_object db2 = acl_object db" "acl_grant db2 = acl_grant db" "workspace_members db2 = workspace_members db"
proof -
  obtain ks where "db2 = db\<lparr>acl_key := ks\<rparr>" using rewriteSubtreeKeys_result [OF assms] by blast
  then show "acl_object db2 = acl_object db" "acl_grant db2 = acl_grant db"
    "workspace_members db2 = workspace_members db" by simp_all
qed

lemma grantIn_frame:
  assumes "grantIn E db ref sub stored by1 = Inr db'"
  shows "acl_object db' = acl_object db" "workspace_members db' = workspace_members db"
    "\<exists>g. g \<in> set (acl_grant db') \<and> ag_otype g = obj_type ref \<and> ag_oid g = obj_id ref \<and>
       ag_stype g = sub_type sub \<and> ag_sid g = sub_id sub \<and> ag_capability g = stored"
proof -
  let ?x = "\<lparr>ag_otype = obj_type ref, ag_oid = obj_id ref, ag_stype = sub_type sub, ag_sid = sub_id sub,
    ag_capability = stored, ag_granted_by = by1, ag_created_at = now E\<rparr>"
  let ?db = "db\<lparr>acl_grant := upsert_grant ?x (acl_grant db)\<rparr>"
  obtain st where "lockObject E db ref = Inr (Some st)" and st: "rewriteSubtreeKeys E ?db (os_path st) = Inr db'"
    using assms by (auto simp: grantIn_def db_query_def result_simps split: option.splits if_splits)
  note fr = rewriteSubtreeKeys_frame [OF st]
  show "acl_object db' = acl_object db" "workspace_members db' = workspace_members db"
    using fr by simp_all
  show "\<exists>g. g \<in> set (acl_grant db') \<and> ag_otype g = obj_type ref \<and> ag_oid g = obj_id ref \<and>
       ag_stype g = sub_type sub \<and> ag_sid g = sub_id sub \<and> ag_capability g = stored"
  proof (cases "\<exists>x \<in> set (acl_grant db). ag_otype x = obj_type ref \<and> ag_oid x = obj_id ref \<and>
      ag_stype x = sub_type sub \<and> ag_sid x = sub_id sub")
    case True
    then obtain x where x: "x \<in> set (acl_grant db)" "ag_otype x = obj_type ref" "ag_oid x = obj_id ref"
      "ag_stype x = sub_type sub" "ag_sid x = sub_id sub" by blast
    then have "x\<lparr>ag_capability := stored, ag_granted_by := by1\<rparr> \<in> set (acl_grant db')"
      using True fr(2) by (simp add: upsert_grant_def image_iff) (rule bexI [of _ x]; simp)
    with x show ?thesis by (intro exI [of _ "x\<lparr>ag_capability := stored, ag_granted_by := by1\<rparr>"]) simp
  next
    case False
    then have "?x \<in> set (acl_grant db')" using fr(2) by (auto simp: upsert_grant_def)
    then show ?thesis by (intro exI [of _ ?x]) simp
  qed
qed

lemma Grant_op_Inr:
  assumes "Grant_op E db actor subject obj c = (Inr (), db', fx)"
  obtains sub ref stored by1 where "normalizeGrant E actor subject obj c = Inr (sub, ref, stored, by1)"
    "grantIn E db ref sub stored by1 = Inr db'"
    "fx = audit E db' actor ''acl.granted'' ref (Some sub) [(''capability'', [char_of (unat c)])]"
proof -
  obtain sub ref stored by1 where n: "normalizeGrant E actor subject obj c = Inr (sub, ref, stored, by1)"
    using assms by (auto simp: Grant_op_def split: sum.splits)
  moreover have "WithTx E DbError db (\<lambda>t. bindR (grantIn E t ref sub stored by1) (\<lambda>t'. Inr (t', ()))) = (Inr (), db')"
    "fx = audit E db' actor ''acl.granted'' ref (Some sub) [(''capability'', [char_of (unat c)])]"
    using assms n by (auto simp: Grant_op_def split: prod.splits sum.splits)
  moreover from this(1) have "grantIn E db ref sub stored by1 = Inr db'"
    by (auto dest!: WithTx_Inr simp: bindR_Inr_iff)
  ultimately show thesis using that by blast
qed

section \<open>Grant\<close>

lemma parse_names:
  "ParseCapability ''read'' = Some CapRead" "ParseCapability ''comment'' = Some CapComment"
  "ParseCapability ''write'' = Some CapWrite" "ParseCapability ''share'' = Some CapShare"
  "ParseCapability ''admin'' = Some CapAdmin"
  by code_simp+

lemma storable_cases:
  assumes "storable c = Inr s"
  shows "(c, s) \<in> {(CapRead, ''read''), (CapComment, ''comment''), (CapWrite, ''write''), (CapShare, ''share''),
    (CapAdmin, ''admin'')}"
  using assms by (auto simp: storable_def capabilityNames_def split: option.splits if_splits)

lemma storable_parse: "storable c = Inr s \<Longrightarrow> ParseCapability s = Some c"
  using storable_cases [of c s] parse_names by auto

lemma finite_caps: "finite (S :: capability set)"
  by simp

lemma granted_spec_ge:
  assumes "reaches db p g a" "ag_stype g = ''user''" "ag_sid g = u" "ParseCapability (ag_capability g) = Some c"
  shows "c \<le> granted_spec db u w p"
proof -
  have "c \<in> user_grants db u p" using assms by (auto simp: user_grants_def)
  then have "c \<le> Max (insert CapNone (user_grants db u p))" by (intro Max_ge finite_caps) simp
  then show ?thesis by (simp add: granted_spec_def le_max_iff_disj)
qed

lemma normalize_canonical:
  assumes "env_ok E"
  shows "uuid_shape u \<Longrightarrow> normalize_subject E (UserSubject u) = Inr (Some (UserSubject u))"
    "typePattern (ao_type r) \<Longrightarrow> uuid_shape (ao_id r) \<Longrightarrow> normalize_object E (row_ref r) = Inr (Some (row_ref r))"
  by (simp_all add: assms normalize_subject_def normalize_object_def validSubjectType_def validObjectType_def
      subjectKeyPrefix_def UserSubject_def row_ref_def)

lemma Grant_in_force:
  assumes "env_ok E" "no_faults E" "acl_inv db" "uuid_shape u"
    "Grant_op E db actor (UserSubject u) (row_ref r) c = (Inr (), db', fx)" "r \<in> set (acl_object db)"
    "d \<in> set (acl_object db)" "prefix (ao_path r) (ao_path d)" "\<not> derivedTypes (ao_type d)"
  shows "Can E db' (UserSubject u) (row_ref d) c = Inr True"
proof -
  obtain sub ref stored by1 where n: "normalizeGrant E actor (UserSubject u) (row_ref r) c = Inr (sub, ref, stored, by1)"
      "grantIn E db ref sub stored by1 = Inr db'" by (rule Grant_op_Inr [OF assms(5)]) (rule that; assumption)
  note inv = acl_invD [OF assms(3)]
  have ref: "ref = row_ref r"
    using normalizeGrant_Inr(2) [OF n(1)] normalize_canonical(2) [OF assms(1)] objects_okD(1,3) [OF inv(1) assms(6)]
    by simp
  have sub: "sub = UserSubject u"
    using normalizeGrant_Inr(1) [OF n(1)] normalize_canonical(1) [OF assms(1,4)] by simp
  note fr = grantIn_frame [OF n(2)]
  obtain g where g: "g \<in> set (acl_grant db')" "ag_otype g = ao_type r" "ag_oid g = ao_id r"
      "ag_stype g = ''user''" "ag_sid g = u" "ag_capability g = stored"
    using fr(3) by (auto simp: ref sub row_ref_def subject_defs)
  have "reaches db' (ao_path d) g r" using g assms(6,8) fr(1) by (simp add: reaches_def)
  then have "c \<le> granted_spec db' u (ao_workspace d) (ao_path d)"
    using granted_spec_ge g storable_parse [OF normalizeGrant_Inr(3) [OF n(1)]] by simp
  moreover have "Capability E db' (UserSubject u) (row_ref d) =
      Inr (granted_spec db' u (ao_workspace d) (ao_path d))"
    using Capability_native [OF assms(1,2) _ assms(4)] acl_invD(1) [OF Grant_inv [OF assms(5,3,1)]] assms(7,9) fr(1) by simp
  moreover have "c \<noteq> CapNone"
    using normalizeGrant_Inr(3) [OF n(1)] by (auto simp: cap_defs dest!: storable_cases)
  ultimately show ?thesis by (auto simp: cap_defs Can_def Implies_def)
qed

section \<open>Revoke\<close>

lemma lockObject_row_ref:
  assumes "lockObject E db (row_ref r) = Inr l" "env_ok E" "objects_ok db" "r \<in> set (acl_object db)"
  shows "\<exists>s. l = Some s \<and> os_path s = ao_path r \<and> os_workspace s = ao_workspace r"
proof (rule lockObject_row [OF assms(1,2) _ assms(3,4)])
  show "uuid_shape (obj_id (row_ref r))" using objects_okD(1) [OF assms(3,4)] by (simp add: row_ref_def)
qed (simp_all add: row_ref_def)

lemma Revoke_Inr:
  assumes "Revoke E db actor subject obj = (Inr (), db', fx)"
  obtains sub ref st live trunc where "normalizeRevoke E subject obj = Inr (sub, ref)"
    "revokeIn E db ref sub = Inr (db', st)"
    "case st of None \<Rightarrow> live = [] \<and> \<not> trunc | Some s \<Rightarrow> liveDescendants E db' (os_path s) = Inr (live, trunc)"
    "fx = revokeLive E (Some sub) live trunc @ audit E db' actor ''acl.revoked'' ref (Some sub) []"
proof -
  obtain sub ref where n: "normalizeRevoke E subject obj = Inr (sub, ref)"
    using assms by (auto simp: Revoke_def split: sum.splits)
  let ?f = "\<lambda>t. bindR (revokeIn E t ref sub) (\<lambda>(t', st).
      case st of None \<Rightarrow> Inr (t', ([], False))
      | Some s \<Rightarrow> bindR (liveDescendants E t' (os_path s)) (\<lambda>lv. Inr (t', lv)))"
  obtain live trunc where tx: "WithTx E DbError db ?f = (Inr (live, trunc), db')"
      and fx: "fx = revokeLive E (Some sub) live trunc @ audit E db' actor ''acl.revoked'' ref (Some sub) []"
    using assms n by (auto simp: Revoke_def split: prod.splits sum.splits)
  from WithTx_Inr [OF tx] obtain st where st: "revokeIn E db ref sub = Inr (db', st)"
    "case st of None \<Rightarrow> live = [] \<and> \<not> trunc | Some s \<Rightarrow> liveDescendants E db' (os_path s) = Inr (live, trunc)"
    by (auto simp: bindR_Inr_iff split: option.splits)
  show thesis by (rule that [OF n st fx])
qed

lemma revokeIn_grants:
  assumes "revokeIn E db ref sub = Inr (db', Some st)"
  shows "acl_object db' = acl_object db"
    "acl_grant db' = filter (\<lambda>g. \<not> (ag_otype g = obj_type ref \<and> ag_oid g = obj_id ref \<and>
       ag_stype g = sub_type sub \<and> ag_sid g = sub_id sub)) (acl_grant db)"
    "lockObject E db ref = Inr (Some st)"
proof -
  let ?db = "db\<lparr>acl_grant := filter (\<lambda>g. \<not> (ag_otype g = obj_type ref \<and> ag_oid g = obj_id ref \<and>
       ag_stype g = sub_type sub \<and> ag_sid g = sub_id sub)) (acl_grant db)\<rparr>"
  have l: "lockObject E db ref = Inr (Some st)" and rw: "rewriteSubtreeKeys E ?db (os_path st) = Inr db'"
    using assms by (auto simp: revokeIn_def db_query_def result_simps split: option.splits if_splits)
  show "lockObject E db ref = Inr (Some st)" by (rule l)
  show "acl_object db' = acl_object db"
    "acl_grant db' = filter (\<lambda>g. \<not> (ag_otype g = obj_type ref \<and> ag_oid g = obj_id ref \<and>
       ag_stype g = sub_type sub \<and> ag_sid g = sub_id sub)) (acl_grant db)"
    using rewriteSubtreeKeys_frame [OF rw] by simp_all
qed

lemma liveDescendants_complete:
  assumes "liveDescendants E db pre = Inr (live, trunc)" "\<not> trunc" "d \<in> set (acl_object db)"
    "in_subtree pre (ao_path d)" "ao_type d \<in> set liveTypes"
  shows "row_ref d \<in> set live"
proof -
  let ?rows = "filter (\<lambda>r. in_subtree pre (ao_path r) \<and> ao_type r \<in> set liveTypes) (acl_object db)"
  let ?out = "map row_ref (take (maxLiveRevocations + 1) (sort_key ao_path ?rows))"
  have "live = ?out \<and> length ?out \<le> maxLiveRevocations"
    using assms(1,2) by (auto simp: liveDescendants_def db_query_def result_simps Let_def split: if_splits)
  then have "live = map row_ref (sort_key ao_path ?rows)"
    by (auto simp: min_def not_less_eq_eq split: if_splits)
  then show ?thesis using assms(3-5) by simp
qed

lemma revokeLive_covers:
  assumes "has_revoker E" "ref \<in> set live"
  shows "RevokeObjectForSubject sub ref \<in> set (revokeLive E (Some sub) live trunc)"
    "RevokeObjectForAll ref \<in> set (revokeLive E None live trunc)"
    "trunc \<Longrightarrow> WarnTruncated \<in> set (revokeLive E s live trunc)"
  using assms by (auto simp: revokeLive_def)

lemma liveDescendants_trunc:
  "liveDescendants E db pre = Inr (live, True) \<Longrightarrow> length live = maxLiveRevocations"
  by (auto simp: liveDescendants_def db_query_def result_simps Let_def maxLiveRevocations_def split: if_splits)

text \<open>Every live object below is told, or the log says that the list was cut.\<close>

lemma live_told:
  assumes "liveDescendants E db pre = Inr (live, trunc)" "has_revoker E" "d \<in> set (acl_object db)"
    "in_subtree pre (ao_path d)" "ao_type d \<in> set liveTypes"
  shows "RevokeObjectForSubject sub (row_ref d) \<in> set (revokeLive E (Some sub) live trunc) \<or>
      WarnTruncated \<in> set (revokeLive E (Some sub) live trunc)"
    "RevokeObjectForAll (row_ref d) \<in> set (revokeLive E None live trunc) \<or>
      WarnTruncated \<in> set (revokeLive E None live trunc)"
proof -
  have "row_ref d \<in> set live \<or> trunc \<and> live \<noteq> []"
    using liveDescendants_complete [OF assms(1) _ assms(3-5)] liveDescendants_trunc [of E db pre live] assms(1)
    by (cases trunc) (auto simp: maxLiveRevocations_def)
  then show "RevokeObjectForSubject sub (row_ref d) \<in> set (revokeLive E (Some sub) live trunc) \<or>
      WarnTruncated \<in> set (revokeLive E (Some sub) live trunc)"
    "RevokeObjectForAll (row_ref d) \<in> set (revokeLive E None live trunc) \<or>
      WarnTruncated \<in> set (revokeLive E None live trunc)"
    using assms(2) by (auto simp: revokeLive_def)
qed

lemma Revoke_effect:
  assumes "env_ok E" "acl_inv db" "uuid_shape u" "has_revoker E" "r \<in> set (acl_object db)"
    "Revoke E db actor (UserSubject u) (row_ref r) = (Inr (), db', fx)"
  shows "acl_grant db' = filter (\<lambda>g. \<not> (ag_otype g = ao_type r \<and> ag_oid g = ao_id r \<and>
       ag_stype g = ''user'' \<and> ag_sid g = u)) (acl_grant db)"
    "d \<in> set (acl_object db) \<Longrightarrow> prefix (ao_path r) (ao_path d) \<Longrightarrow> ao_type d \<in> set liveTypes \<Longrightarrow>
       RevokeObjectForSubject (UserSubject u) (row_ref d) \<in> set fx \<or> WarnTruncated \<in> set fx"
proof -
  note inv = acl_invD [OF assms(2)]
  obtain sub ref st live trunc where n: "normalizeRevoke E (UserSubject u) (row_ref r) = Inr (sub, ref)"
    and rv: "revokeIn E db ref sub = Inr (db', st)"
    and lv: "case st of None \<Rightarrow> live = [] \<and> \<not> trunc | Some s \<Rightarrow> liveDescendants E db' (os_path s) = Inr (live, trunc)"
    and fx: "fx = revokeLive E (Some sub) live trunc @ audit E db' actor ''acl.revoked'' ref (Some sub) []"
    by (rule Revoke_Inr [OF assms(6)])
  have ref: "ref = row_ref r"
    using normalizeRevoke_Inr(2) [OF n] normalize_canonical(2) [OF assms(1)] objects_okD(1,3) [OF inv(1) assms(5)]
    by simp
  have sub: "sub = UserSubject u"
    using normalizeRevoke_Inr(1) [OF n] normalize_canonical(1) [OF assms(1,3)] by simp
  obtain l where l: "lockObject E db ref = Inr l"
    using rv by (auto simp: revokeIn_def bindR_Inr_iff)
  obtain s where s: "l = Some s" "os_path s = ao_path r"
    using lockObject_row_ref [OF l [unfolded ref] assms(1) inv(1) assms(5)] by blast
  have st: "st = Some s"
    using rv l s by (auto simp: revokeIn_def bindR_Inr_iff)
  note gr = revokeIn_grants [OF rv [unfolded st]]
  show "acl_grant db' = filter (\<lambda>g. \<not> (ag_otype g = ao_type r \<and> ag_oid g = ao_id r \<and>
       ag_stype g = ''user'' \<and> ag_sid g = u)) (acl_grant db)"
    using gr(2) by (simp add: ref sub row_ref_def subject_defs)
  assume d: "d \<in> set (acl_object db)" "prefix (ao_path r) (ao_path d)" "ao_type d \<in> set liveTypes"
  have "in_subtree (ao_path r) (ao_path d)" using in_subtree_objects [OF inv(1) assms(5)] d(2) by simp
  then have "RevokeObjectForSubject sub (row_ref d) \<in> set (revokeLive E (Some sub) live trunc) \<or>
      WarnTruncated \<in> set (revokeLive E (Some sub) live trunc)"
    using live_told(1) [of E db' "ao_path r" live trunc d] lv st s(2) assms(4) d(1,3) gr(1) by simp
  then show "RevokeObjectForSubject (UserSubject u) (row_ref d) \<in> set fx \<or> WarnTruncated \<in> set fx"
    by (auto simp: fx sub)
qed

section \<open>Move\<close>

lemma MoveInTx_rows:
  assumes "MoveInTx E db (row_ref r0) (row_ref d) = Inr (db', out)" "env_ok E" "objects_ok db"
    "r0 \<in> set (acl_object db)" "d \<in> set (acl_object db)"
  obtains src dst live trunc where "move_locked E db (row_ref r0) (row_ref d) src dst = Inr (db', live, trunc)"
    "out = (row_ref r0, row_ref d, live, trunc)" "os_path src = ao_path r0" "os_workspace src = ao_workspace r0"
    "os_path dst = ao_path d" "os_workspace dst = ao_workspace d"
proof -
  have n: "normalize_object E (row_ref r0) = Inr (Some (row_ref r0))" "normalize_object E (row_ref d) = Inr (Some (row_ref d))"
    using normalize_canonical(2) [OF assms(2)] objects_okD(1,3) [OF assms(3)] assms(4,5) by simp_all
  obtain src dst live trunc where l: "lockObject E db (row_ref r0) = Inr (Some src)"
      "lockObject E db (row_ref d) = Inr (Some dst)"
      "move_locked E db (row_ref r0) (row_ref d) src dst = Inr (db', live, trunc)"
      "out = (row_ref r0, row_ref d, live, trunc)"
    using assms(1) n by (auto simp: MoveInTx_def bindR_Inr_iff Let_def split: option.splits if_splits prod.splits)
  have s: "os_path src = ao_path r0" "os_workspace src = ao_workspace r0"
    using lockObject_row_ref [OF l(1) assms(2-4)] by blast+
  have t: "os_path dst = ao_path d" "os_workspace dst = ao_workspace d"
    using lockObject_row_ref [OF l(2) assms(2,3,5)] by blast+
  show thesis by (rule that [OF l(3,4) s t])
qed

lemma move_locked_rows:
  assumes "move_locked E db (row_ref r0) parentRef src dst = Inr (db', live, trunc)" "os_path src = ao_path r0"
    "os_workspace src = ao_workspace r0" "os_path dst = ao_path d" "os_workspace dst = ao_workspace d"
  shows "acl_object db' = map (moved r0 d) (acl_object db)" "acl_grant db' = acl_grant db"
    "ao_workspace r0 = ao_workspace d" "\<not> prefix (ao_path r0) (ao_path d)"
    "liveDescendants E db' (buildPath (ao_path d) (row_ref r0)) = Inr (live, trunc)"
proof -
  let ?new = "buildPath (ao_path d) (row_ref r0)"
  let ?db = "db\<lparr>acl_object := map (moved r0 d) (acl_object db)\<rparr>"
  have g: "ao_workspace r0 = ao_workspace d" "\<not> hasPrefixPath (ao_path d) (ao_path r0)"
    "rewriteSubtreeKeys E ?db ?new = Inr db'" "liveDescendants E db' ?new = Inr (live, trunc)"
    using assms by (auto simp: move_locked_def bindR_Inr_iff db_query_def Let_def moved_def split: if_splits)
  then show "acl_object db' = map (moved r0 d) (acl_object db)" "acl_grant db' = acl_grant db"
    "ao_workspace r0 = ao_workspace d" "\<not> prefix (ao_path r0) (ao_path d)"
    "liveDescendants E db' ?new = Inr (live, trunc)"
    using rewriteSubtreeKeys_frame [OF g(3)] by (simp_all add: hasPrefixPath_def)
qed

lemma Move_Inr:
  assumes "Move E db actor obj newParent = (Inr (), db', fx)"
  obtains ref parentRef live trunc where "MoveInTx E db obj newParent = Inr (db', ref, parentRef, live, trunc)"
    "fx = revokeLive E None live trunc @ audit E db' actor ''acl.moved'' ref None
       [(''new_parent_type'', obj_type parentRef), (''new_parent_id'', obj_id parentRef)]"
proof -
  obtain ref parentRef live trunc where tx: "WithTx E DbError db (\<lambda>t. MoveInTx E t obj newParent) =
      (Inr (ref, parentRef, live, trunc), db')"
    and fx: "fx = revokeLive E None live trunc @ audit E db' actor ''acl.moved'' ref None
       [(''new_parent_type'', obj_type parentRef), (''new_parent_id'', obj_id parentRef)]"
    using assms by (auto simp: Move_def split: prod.splits sum.splits)
  show thesis by (rule that [OF WithTx_Inr [OF tx] fx])
qed

lemma Move_effect:
  assumes "env_ok E" "acl_inv db" "r0 \<in> set (acl_object db)" "d \<in> set (acl_object db)"
    "Move E db actor (row_ref r0) (row_ref d) = (Inr (), db', fx)"
  shows "acl_object db' = map (moved r0 d) (acl_object db)" "acl_grant db' = acl_grant db"
    "ao_workspace r0 = ao_workspace d" "\<not> prefix (ao_path r0) (ao_path d)"
    "has_revoker E \<Longrightarrow> x \<in> set (acl_object db') \<Longrightarrow> in_subtree (buildPath (ao_path d) (row_ref r0)) (ao_path x) \<Longrightarrow>
       ao_type x \<in> set liveTypes \<Longrightarrow> RevokeObjectForAll (row_ref x) \<in> set fx \<or> WarnTruncated \<in> set fx"
proof -
  obtain ref parentRef live trunc where m: "MoveInTx E db (row_ref r0) (row_ref d) = Inr (db', ref, parentRef, live, trunc)"
    and fx: "fx = revokeLive E None live trunc @ audit E db' actor ''acl.moved'' ref None
       [(''new_parent_type'', obj_type parentRef), (''new_parent_id'', obj_id parentRef)]"
    by (rule Move_Inr [OF assms(5)])
  obtain src dst live' trunc' where l: "move_locked E db (row_ref r0) (row_ref d) src dst = Inr (db', live', trunc')"
    "(ref, parentRef, live, trunc) = (row_ref r0, row_ref d, live', trunc')" "os_path src = ao_path r0"
    "os_workspace src = ao_workspace r0" "os_path dst = ao_path d" "os_workspace dst = ao_workspace d"
    by (rule MoveInTx_rows [OF m assms(1) acl_invD(1) [OF assms(2)] assms(3,4)])
  note mv = move_locked_rows [OF l(1,3-6)]
  show "acl_object db' = map (moved r0 d) (acl_object db)" "acl_grant db' = acl_grant db"
    "ao_workspace r0 = ao_workspace d" "\<not> prefix (ao_path r0) (ao_path d)"
    by (rule mv(1) mv(2) mv(3) mv(4))+
  assume "has_revoker E" "x \<in> set (acl_object db')" "in_subtree (buildPath (ao_path d) (row_ref r0)) (ao_path x)"
    "ao_type x \<in> set liveTypes"
  from live_told(2) [OF mv(5) this] l(2) fx
  show "RevokeObjectForAll (row_ref x) \<in> set fx \<or> WarnTruncated \<in> set fx" by auto
qed

lemma lockObject_registered:
  assumes "env_ok E" "no_faults E" "objects_ok db" "r \<in> set (acl_object db)"
  shows "\<exists>s. lockObject E db (row_ref r) = Inr (Some s) \<and> os_path s = ao_path r \<and> os_workspace s = ao_workspace r"
proof -
  obtain l where l: "lockObject E db (row_ref r) = Inr l"
    using assms(1,2) objects_okD(1) [OF assms(3,4)] by (simp add: lockObject_def row_ref_def)
  show ?thesis
    using lockObject_row_ref [OF l assms(1,3,4)] l by blast
qed

lemma row_ref_eq:
  "objects_ok db \<Longrightarrow> r \<in> set (acl_object db) \<Longrightarrow> d \<in> set (acl_object db) \<Longrightarrow> row_ref r = row_ref d \<longleftrightarrow> r = d"
  using objects_ok_unique [of db r d] by (auto simp: row_ref_def)

lemma MoveInTx_refused:
  assumes "env_ok E" "no_faults E" "objects_ok db" "r0 \<in> set (acl_object db)" "d \<in> set (acl_object db)"
    "\<not> derivedTypes (ao_type r0)" "r0 \<noteq> d"
    "ao_workspace r0 \<noteq> ao_workspace d \<and> e = ErrCrossWorkspaceMove \<or>
     ao_workspace r0 = ao_workspace d \<and> prefix (ao_path r0) (ao_path d) \<and> e = ErrMoveCycle"
  shows "MoveInTx E db (row_ref r0) (row_ref d) = Inl e"
proof -
  have n: "normalize_object E (row_ref r0) = Inr (Some (row_ref r0))" "normalize_object E (row_ref d) = Inr (Some (row_ref d))"
    using normalize_canonical(2) [OF assms(1)] objects_okD(1,3) [OF assms(3)] assms(4,5) by simp_all
  obtain src where src: "lockObject E db (row_ref r0) = Inr (Some src)" "os_path src = ao_path r0"
      "os_workspace src = ao_workspace r0" using lockObject_registered [OF assms(1-4)] by blast
  obtain dst where dst: "lockObject E db (row_ref d) = Inr (Some dst)" "os_path dst = ao_path d"
      "os_workspace dst = ao_workspace d" using lockObject_registered [OF assms(1-3,5)] by blast
  have ne: "row_ref r0 \<noteq> row_ref d" using row_ref_eq [OF assms(3-5)] assms(7) by simp
  have t: "obj_type (row_ref r0) = ao_type r0" by (simp add: row_ref_def)
  have ml: "move_locked E db (row_ref r0) (row_ref d) src dst = Inl e"
    using assms(8) src(2,3) dst(2,3) by (auto simp: move_locked_def hasPrefixPath_def)
  show ?thesis
    using n src(1) dst(1) ne t assms(6) ml by (simp add: MoveInTx_def Let_def)
qed

section \<open>Materialization of a derived object\<close>

lemma upsert_mem:
  "x \<in> set (upsert_object x rows)"
  "r \<in> set rows \<Longrightarrow> (ao_type r, ao_id r) \<noteq> (ao_type x, ao_id x) \<Longrightarrow> r \<in> set (upsert_object x rows)"
  by (auto simp: upsert_object_def image_iff)

lemma fold_upsert_mem:
  assumes "r \<in> set new" "distinct (map (\<lambda>x. (ao_type x, ao_id x)) new)"
  shows "r \<in> set (fold upsert_object new rows)"
  using assms
proof (induction new arbitrary: rows rule: rev_induct)
  case (snoc x new)
  show ?case
  proof (cases "r = x")
    case True
    then show ?thesis by (simp add: upsert_mem(1))
  next
    case False
    with snoc.prems(1) have r: "r \<in> set new" by simp
    have ne: "(ao_type r, ao_id r) \<noteq> (ao_type x, ao_id x)"
      using snoc.prems(2) r unfolding map_append distinct_append by (auto simp: image_iff)
    have "r \<in> set (fold upsert_object new rows)" using snoc.IH [OF r] snoc.prems(2) by simp
    with ne show ?thesis by (simp add: upsert_mem(2))
  qed
qed simp

lemma materializeDerived_result:
  assumes "materializeDerived E db ref = Inr db'" "env_ok E" "uuid_shape (obj_id ref)"
  shows "acl_object db' = fold upsert_object (filter (\<lambda>r. ao_type r = obj_type ref \<and> ao_id r = obj_id ref)
      (acl_object_expected db)) (acl_object db)"
    "\<And>k. k \<in> set (acl_key db') \<longleftrightarrow> (if ak_type k = obj_type ref \<and> ak_id k = obj_id ref
      then k \<in> set (acl_key_expected db') else k \<in> set (acl_key db))"
proof -
  let ?rows = "filter (\<lambda>r. ao_type r = obj_type ref \<and> ao_id r = obj_id ref) (acl_object_expected db)"
  let ?mine = "\<lambda>k. ak_type k = obj_type ref \<and> ak_id k = obj_id ref"
  let ?db1 = "db\<lparr>acl_object := fold upsert_object ?rows (acl_object db)\<rparr>"
  let ?db2 = "?db1\<lparr>acl_key := filter (\<lambda>k. \<not> (?mine k \<and> k \<notin> set (acl_key_expected ?db1))) (acl_key ?db1)\<rparr>"
  have db': "db' = ?db2\<lparr>acl_key := insert_keys (filter ?mine (acl_key_expected ?db2)) (acl_key ?db2)\<rparr>"
    using assms by (auto simp: materializeDerived_def db_query_def bindR_Inr_iff Let_def split: if_splits)
  show "acl_object db' = fold upsert_object ?rows (acl_object db)" unfolding db' by simp
  show "k \<in> set (acl_key db') \<longleftrightarrow> (if ?mine k then k \<in> set (acl_key_expected db') else k \<in> set (acl_key db))" for k
    unfolding db' expected_upd_key by auto
qed

lemma materialize_row:
  assumes "materializeDerived E db ref = Inr db'" "env_ok E" "uuid_shape (obj_id ref)" "members_ok db"
    "r \<in> set (acl_object_expected db)" "ao_type r = obj_type ref" "ao_id r = obj_id ref"
  shows "r \<in> set (acl_object db')"
proof -
  let ?P = "\<lambda>r. ao_type r = obj_type ref \<and> ao_id r = obj_id ref"
  have "distinct (map (\<lambda>x. (ao_type x, ao_id x)) (acl_object_expected db))"
    using assms(4) by (auto simp: acl_object_expected_def members_ok_def distinct_map comp_def inj_on_def)
  then have "distinct (map (\<lambda>x. (ao_type x, ao_id x)) (filter ?P (acl_object_expected db)))"
    by (rule distinct_map_filter)
  then show ?thesis
    unfolding materializeDerived_result(1) [OF assms(1-3)] using assms(5-7) by (intro fold_upsert_mem) simp_all
qed

section \<open>The decision on a channel\<close>

definition channel_base :: "database \<Rightarrow> string \<Rightarrow> channel_row \<Rightarrow> capability" where
  "channel_base db u c =
     (if channel_role_of db (ch_id c) u = ''admin'' then CapAdmin
      else if channel_role_of db (ch_id c) u = ''member'' then CapWrite
      else if ch_type c = ''public'' \<and> is_member db (ch_workspace c) u then CapRead else CapNone)"

definition channel_path :: "channel_row \<Rightarrow> string" where
  "channel_path c = ''/workspace:'' @ ch_workspace c @ ''/channel:'' @ ch_id c @ ''/''"

lemma channel_path_shape:
  assumes "uuid_shape (ch_workspace c)" "uuid_shape (ch_id c)"
  shows "path_shape (channel_path c)" "pathDepth (channel_path c) \<le> MaxPathDepth"
proof -
  let ?segs = "[pathSegment (WorkspaceObject (ch_workspace c)), pathSegment (ChannelObject (ch_id c))]"
  have r: "channel_path c = render_path ?segs"
    by (simp add: channel_path_def render_path_def pathSegment_def WorkspaceObject_def ChannelObject_def type_defs)
  have tp: "typePattern (obj_type (ChannelObject (ch_id c)))" by (simp add: ChannelObject_def) code_simp
  have "seg_shape (pathSegment (ChannelObject (ch_id c)))"
    by (rule seg_shape_pathSegment [OF tp]) (simp add: ChannelObject_def assms(2))
  then have ok: "list_all seg_shape ?segs" using seg_shape_workspace [OF assms(1)] by simp
  then show "path_shape (channel_path c)" unfolding r path_shape_iff by blast
  show "pathDepth (channel_path c) \<le> MaxPathDepth" unfolding r using ok by (simp add: pathDepth_render MaxPathDepth_def)
qed

lemma parse_le_admin: "ParseCapability s = Some c \<Longrightarrow> c \<le> CapAdmin"
  by (auto simp: ParseCapability_def capabilityValues_def cap_defs split: if_splits)

lemma granted_spec_le_admin: "granted_spec db u w p \<le> CapAdmin"
proof -
  have "Max (insert CapNone (user_grants db u p)) \<le> CapAdmin" "Max (insert CapNone (team_grants db u p)) \<le> CapAdmin"
    using finite_caps by (auto simp: user_grants_def team_grants_def cap_defs dest: parse_le_admin [unfolded cap_defs])
  then show ?thesis by (auto simp: granted_spec_def min_le_iff_disj)
qed

lemma Capability_channel:
  assumes "env_ok E" "no_faults E" "objects_ok db" "members_ok db" "uuid_shape u" "c \<in> set (channels db)"
    "ch_type c \<noteq> ''''"
  shows "Capability E db (UserSubject u) (ChannelObject (ch_id c)) =
    Inr (max (channel_base db u c) (granted_spec db u (ch_workspace c) (channel_path c)))"
proof -
  have u: "uuid_shape (ch_id c)" "uuid_shape (ch_workspace c)" using assms(4,6) by (auto simp: members_ok_def)
  define st where "st = (empty_state (ChannelObject (ch_id c)))\<lparr>os_workspace := ch_workspace c,
    os_channel_type := ch_type c, os_path := channel_path c\<rparr>"
  have find: "find (\<lambda>x. ch_id x = ch_id c) (channels db) = Some c"
    using assms(4,6) by (intro find_unique) (auto simp: members_ok_def distinct_map inj_on_def)
  have n: "normalize_object E (ChannelObject (ch_id c)) = Inr (Some (ChannelObject (ch_id c)))"
    using normalize_canonical(2) [OF assms(1), of "\<lparr>ao_type = ''channel'', ao_id = ch_id c, ao_workspace = '''', ao_path = ''''\<rparr>"]
      u(1) by (simp add: ChannelObject_def row_ref_def type_defs typePattern_def is_lower_def)
  have res: "resolve E db (ChannelObject (ch_id c)) = Inr (Some st)"
    using assms(1,2) u find
    by (simp add: resolve_def ChannelObject_def type_defs st_def channel_path_def pathSegment_def WorkspaceObject_def)
  have base: "derivedCapability E db (UserSubject u) st = Inr (channel_base db u c)"
    using assms(1,2,5,7) u isWorkspaceMember_canonical [OF assms(1,2,4) u(2) assms(5)] ChannelRole_canonical [OF assms(1) u(1) assms(5)]
    by (simp add: derivedCapability_def channelCapability_def st_def empty_state_def ChannelObject_def type_defs channel_base_def)
  have g: "grantedCapability E db (UserSubject u) st = Inr (granted_spec db u (ch_workspace c) (channel_path c))"
    using grantedCapability_closed [OF assms(1-3,5), of st] channel_path_shape u by (simp add: st_def)
  have le: "granted_spec db u (ch_workspace c) (channel_path c) \<le> CapAdmin" by (rule granted_spec_le_admin)
  show ?thesis
    using normalize_canonical(1) [OF assms(1,5)] n res base g le
    by (auto simp: Capability_def max_def less_le_not_le)
qed

section \<open>When a mutation succeeds\<close>

definition actor_known :: "env \<Rightarrow> database \<Rightarrow> SubjectRef \<Rightarrow> bool" where
  \<comment> \<open>the acting user, if any, is a row of users (the foreign key of acl\_grant.granted\_by)\<close>
  "actor_known E db actor \<longleftrightarrow> (sub_type actor = SubjectUser \<longrightarrow>
     (case uuid_parse E (sub_id actor) of None \<Rightarrow> True | Some a \<Rightarrow> a \<in> set (users db)))"

lemma Grant_succeeds:
  assumes "env_ok E" "no_faults E" "objects_ok db" "uuid_shape u" "r \<in> set (acl_object db)" "storable c = Inr s"
    "actor_known E db actor"
  shows "\<exists>db' fx. Grant_op E db actor (UserSubject u) (row_ref r) c = (Inr (), db', fx)"
proof -
  have n: "normalize_object E (row_ref r) = Inr (Some (row_ref r))"
    using normalize_canonical(2) [OF assms(1)] objects_okD(1,3) [OF assms(3,5)] by simp
  note s = normalize_canonical(1) [OF assms(1,4)]
  obtain st where st: "lockObject E db (row_ref r) = Inr (Some st)" using lockObject_registered [OF assms(1-3,5)] by blast
  define by1 where "by1 = (if sub_type actor = SubjectUser then canonicalUUID E (sub_id actor) else None)"
  have by1: "(case by1 of None \<Rightarrow> False | Some x \<Rightarrow> x \<notin> set (users db)) = False"
    using assms(7) by (auto simp: by1_def actor_known_def canonicalUUID_def split: option.splits)
  have g: "\<exists>db'. grantIn E db (row_ref r) (UserSubject u) s by1 = Inr db'"
    using assms(2) st by1 by (simp add: grantIn_def rewriteSubtreeKeys_total)
  have ng: "normalizeGrant E actor (UserSubject u) (row_ref r) c = Inr (UserSubject u, row_ref r, s, by1)"
    by (simp add: normalizeGrant_def s n assms(6) by1_def)
  show ?thesis
    using g assms(2) unfolding Grant_op_def ng by (auto simp: WithTx_def no_faults_def)
qed

lemma liveDescendants_total: "no_faults E \<Longrightarrow> \<exists>live trunc. liveDescendants E db pre = Inr (live, trunc)"
  by (auto simp: liveDescendants_def Let_def)

lemma Revoke_succeeds:
  assumes "env_ok E" "no_faults E" "objects_ok db" "uuid_shape u" "r \<in> set (acl_object db)"
  shows "\<exists>db' fx. Revoke E db actor (UserSubject u) (row_ref r) = (Inr (), db', fx)"
proof -
  have n: "normalize_object E (row_ref r) = Inr (Some (row_ref r))"
    using normalize_canonical(2) [OF assms(1)] objects_okD(1,3) [OF assms(3,5)] by simp
  note s = normalize_canonical(1) [OF assms(1,4)]
  obtain st where st: "lockObject E db (row_ref r) = Inr (Some st)" using lockObject_registered [OF assms(1-3,5)] by blast
  have "\<exists>db'. revokeIn E db (row_ref r) (UserSubject u) = Inr (db', Some st)"
    using st assms(2) rewriteSubtreeKeys_total [OF assms(2)] by (auto simp: revokeIn_def bindR_Inr_iff)
  then obtain db' where rv: "revokeIn E db (row_ref r) (UserSubject u) = Inr (db', Some st)" ..
  obtain live trunc where lv: "liveDescendants E db' (os_path st) = Inr (live, trunc)"
    using liveDescendants_total [OF assms(2)] by blast
  have nr: "normalizeRevoke E (UserSubject u) (row_ref r) = Inr (UserSubject u, row_ref r)"
    by (simp add: normalizeRevoke_def s n)
  show ?thesis
    using assms(2) rv lv unfolding Revoke_def nr by (simp add: WithTx_def no_faults_def)
qed

text \<open>The depth guard of \<open>Move\<close> is enough for the CHECK constraints of every row it rewrites.\<close>

lemma foldr_max_ge: "x \<in> set xs \<Longrightarrow> x \<le> foldr max xs (0 :: nat)"
  by (induction xs) auto

lemma subtree_depth_ge:
  assumes "objects_ok db" "r \<in> set (acl_object db)" "in_subtree pre (ao_path r)"
  shows "int (pathDepth (ao_path r)) \<le> subtree_depth db pre"
proof -
  have "length (filter ((=) CHR ''/'') (ao_path r)) \<le> foldr max (map (\<lambda>r. length (filter ((=) CHR ''/'') (ao_path r)))
      (filter (\<lambda>r. in_subtree pre (ao_path r)) (acl_object db))) 0"
    using assms(2,3) by (intro foldr_max_ge) simp
  then show ?thesis
    using slash_count_depth [OF objects_okD(4) [OF assms(1,2)]] by (simp add: subtree_depth_def Let_def)
qed

lemma moved_check:
  assumes "acl_inv db" "r0 \<in> set (acl_object db)" "d \<in> set (acl_object db)" "r \<in> set (acl_object db)"
    "in_subtree (ao_path r0) (ao_path r)" "ao_workspace r0 = ao_workspace d"
    "subtree_depth db (ao_path r0) - int (pathDepth (ao_path r0)) +
       int (pathDepth (buildPath (ao_path d) (row_ref r0))) \<le> int MaxPathDepth"
  shows "acl_object_check db (moved r0 d r)"
proof -
  note oo = acl_invD(1) [OF assms(1)]
  note sr = segs_row [OF assms(1,4)] and s0 = segs_row [OF assms(1,2)] and sd = segs_row [OF assms(1,3)]
  have pre: "prefix (segs r0) (segs r)" using in_subtree_segs [OF assms(1,2,4)] assms(5) by simp
  let ?new = "segs d @ [seg_of r0]" and ?rest = "drop (length (segs r0)) (segs r)"
  have new: "buildPath (ao_path d) (row_ref r0) = render_path ?new"
    using sd(3) buildPath_render [of "segs d" "row_ref r0"] by (simp add: seg_of_def)
  have "seg_of r0 \<in> set (segs r0)" using last_in_set [OF s0(1)] s0(4) by simp
  then have shn: "list_all seg_shape ?new" using sd(2) s0(2) by (auto simp: list_all_iff)
  have shr: "list_all seg_shape ?rest" using sr(2) by (auto simp: list_all_iff dest: in_set_dropD)
  have path: "ao_path (moved r0 d r) = render_path (?new @ ?rest)"
    using assms(5) drop_render_prefix [OF pre, of "segs d" "seg_of r0"] s0(3) sr(3) new
    by (simp add: moved_def move_row_def)
  have ws: "ao_workspace r = ao_workspace d"
    using same_workspace [OF oo assms(2,4)] in_subtree_objects [OF oo assms(2)] assms(5,6) by simp
  have u: "uuid_shape (ao_workspace (moved r0 d r))" using objects_okD(2) [OF oo assms(4)] by (simp add: moved_def)
  have depth: "pathDepth (ao_path (moved r0 d r)) \<le> MaxPathDepth"
  proof -
    have "pathDepth (ao_path (moved r0 d r)) = length ?new + length ?rest"
      unfolding path using shn shr by (simp add: pathDepth_render)
    moreover have "length (segs r) = length (segs r0) + length ?rest" using pre by (auto simp: prefix_def)
    moreover have "pathDepth (ao_path r) = length (segs r)" "pathDepth (ao_path r0) = length (segs r0)"
      using sr s0 pathDepth_render by metis+
    moreover have "pathDepth (buildPath (ao_path d) (row_ref r0)) = length ?new"
      unfolding new using shn by (simp add: pathDepth_render)
    ultimately show ?thesis using subtree_depth_ge [OF oo assms(4,5)] assms(7) by linarith
  qed
  have "path_shape (ao_path (moved r0 d r))"
    unfolding path path_shape_iff using shn shr by (intro exI [of _ "?new @ ?rest"]) simp
  moreover have "prefix (workspace_path (ao_workspace d)) (ao_path (moved r0 d r))"
  proof -
    have "prefix (workspace_path (ao_workspace d)) (ao_path d)" using objects_okD(6) [OF oo assms(3)] .
    moreover have "prefix (ao_path d) (ao_path (moved r0 d r))"
      using prefix_render_path [of "segs d" "?new @ ?rest"] sd(2,3) shn shr unfolding path by simp
    ultimately show ?thesis using prefix_order.trans by blast
  qed
  moreover have "ao_workspace r \<in> set (workspaces db)" "typePattern (ao_type r)"
    using oo assms(4) by (auto simp: objects_ok_def acl_object_check_def)
  ultimately show ?thesis
    using acl_object_check_iff [OF u] depth ws by (simp add: moved_def)
qed

lemma Move_succeeds:
  assumes "env_ok E" "no_faults E" "acl_inv db" "r0 \<in> set (acl_object db)" "d \<in> set (acl_object db)"
    "\<not> derivedTypes (ao_type r0)" "ao_workspace r0 = ao_workspace d" "\<not> prefix (ao_path r0) (ao_path d)"
    "subtree_depth db (ao_path r0) - int (pathDepth (ao_path r0)) +
       int (pathDepth (buildPath (ao_path d) (row_ref r0))) \<le> int MaxPathDepth"
  shows "\<exists>db' fx. Move E db actor (row_ref r0) (row_ref d) = (Inr (), db', fx)"
proof -
  note oo = acl_invD(1) [OF assms(3)]
  have n: "normalize_object E (row_ref r0) = Inr (Some (row_ref r0))" "normalize_object E (row_ref d) = Inr (Some (row_ref d))"
    using normalize_canonical(2) [OF assms(1)] objects_okD(1,3) [OF oo] assms(4,5) by simp_all
  obtain src where src: "lockObject E db (row_ref r0) = Inr (Some src)" "os_path src = ao_path r0"
      "os_workspace src = ao_workspace r0" using lockObject_registered [OF assms(1,2) oo assms(4)] by blast
  obtain dst where dst: "lockObject E db (row_ref d) = Inr (Some dst)" "os_path dst = ao_path d"
      "os_workspace dst = ao_workspace d" using lockObject_registered [OF assms(1,2) oo assms(5)] by blast
  have ne: "row_ref r0 \<noteq> row_ref d" using row_ref_eq [OF oo assms(4,5)] assms(8) by auto
  have t: "obj_type (row_ref r0) = ao_type r0" by (simp add: row_ref_def)
  have chk: "list_all (acl_object_check (db\<lparr>acl_object := map (moved r0 d) (acl_object db)\<rparr>))
      (map (moved r0 d) (filter (\<lambda>r. in_subtree (ao_path r0) (ao_path r)) (acl_object db)))"
    using moved_check [OF assms(3-5) _ _ assms(7,9)] by (auto simp: list_all_iff)
  obtain db3 where rw: "rewriteSubtreeKeys E (db\<lparr>acl_object := map (moved r0 d) (acl_object db)\<rparr>)
      (buildPath (ao_path d) (row_ref r0)) = Inr db3" using rewriteSubtreeKeys_total [OF assms(2)] by blast
  obtain live trunc where lv: "liveDescendants E db3 (buildPath (ao_path d) (row_ref r0)) = Inr (live, trunc)"
    using liveDescendants_total [OF assms(2)] by blast
  have "move_locked E db (row_ref r0) (row_ref d) src dst = Inr (db3, live, trunc)"
    using assms(2,7-9) src(2,3) dst(2,3) chk rw lv
    by (simp add: move_locked_def hasPrefixPath_def Let_def moved_def not_less)
  then have "MoveInTx E db (row_ref r0) (row_ref d) = Inr (db3, row_ref r0, row_ref d, live, trunc)"
    using n src(1) dst(1) ne t assms(6) by (simp add: MoveInTx_def Let_def)
  then show ?thesis using assms(2) by (simp add: Move_def WithTx_def no_faults_def)
qed

end
