(* ===== verification/Authz_Properties.thy ===== *)
theory Authz_Properties
  imports Authz_Effects
begin

text \<open>
  What the authorization component promises, stated over its operations, with concrete tables on which each statement
  is exercised.
\<close>

section \<open>Concrete tables\<close>

definition uid :: "char \<Rightarrow> string" where
  "uid c = replicate 8 c @ ''-'' @ replicate 4 c @ ''-'' @ replicate 4 c @ ''-'' @ replicate 4 c @ ''-'' @ replicate 12 c"

definition sample_db :: database where
  "sample_db =
     (let w = uid CHR ''a''; root = ''/workspace:'' @ w @ ''/''; b = root @ ''folder:'' @ uid CHR ''b'' @ ''/'' in
     \<lparr>users = [uid CHR ''1'', uid CHR ''2''], workspaces = [w],
      workspace_members = [\<lparr>wm_workspace = w, wm_user = uid CHR ''1'', wm_role = ''member''\<rparr>,
                           \<lparr>wm_workspace = w, wm_user = uid CHR ''2'', wm_role = ''owner''\<rparr>],
      channels = [\<lparr>ch_id = uid CHR ''e'', ch_workspace = w, ch_type = ''public'', ch_archived = False\<rparr>],
      channel_members = [], messages = [], files = [], mail_messages = [], mail_conversations = [],
      sso_providers = [], user_blocks = [],
      acl_object =
        [\<lparr>ao_type = ''workspace'', ao_id = w, ao_workspace = w, ao_path = root\<rparr>,
         \<lparr>ao_type = ''folder'', ao_id = uid CHR ''b'', ao_workspace = w, ao_path = b\<rparr>,
         \<lparr>ao_type = ''folder'', ao_id = uid CHR ''c'', ao_workspace = w,
           ao_path = root @ ''folder:'' @ uid CHR ''c'' @ ''/''\<rparr>,
         \<lparr>ao_type = ''doc'', ao_id = uid CHR ''d'', ao_workspace = w, ao_path = b @ ''doc:'' @ uid CHR ''d'' @ ''/''\<rparr>],
      acl_grant =
        [\<lparr>ag_otype = ''folder'', ag_oid = uid CHR ''b'', ag_stype = ''user'', ag_sid = uid CHR ''1'',
          ag_capability = ''write'', ag_granted_by = Some (uid CHR ''2''), ag_created_at = 0\<rparr>],
      acl_key =
        [\<lparr>ak_type = ''workspace'', ak_id = w, ak_key = ''w-'' @ w\<rparr>,
         \<lparr>ak_type = ''folder'', ak_id = uid CHR ''b'', ak_key = ''u-'' @ uid CHR ''1''\<rparr>,
         \<lparr>ak_type = ''doc'', ak_id = uid CHR ''d'', ak_key = ''f-'' @ uid CHR ''b''\<rparr>,
         \<lparr>ak_type = ''doc'', ak_id = uid CHR ''d'', ak_key = ''u-'' @ uid CHR ''1''\<rparr>]\<rparr>)"

lemma sample_schema: "schema_ok sample_db" by code_simp
lemma sample_exact: "keys_exact sample_db" by code_simp
lemma sample_tree: "tree_ok sample_db" by code_simp
lemma sample_home: "native_home sample_db" by code_simp

lemma sample_inv: "acl_inv sample_db"
  by (simp add: acl_inv_def sample_schema sample_exact sample_tree)

section \<open>Listing and deciding\<close>


text \<open>
  C2. Every history of registrations, grants, revocations and moves keeps the permission tables consistent: the schema
  constraints, the key materialization equal to its definition, and every stored path through the current path of each
  object on it. Every step may run under its own environment, so any statement of any step may fail. Grants, revocations and moves
  are unrestricted; a registration is of a new object or of one without descendants (which it may put elsewhere), under a parent that
  has a row or is of a native type (\<open>acl_guard\<close>). Registering an object that has descendants, and a parent of a derived type that
  still has to be materialized, are outside.
\<close>

theorem acl_history_invariant:
  assumes "acl_inv db" "guarded_run acl_step acl_guard ops db = Some db'"
  shows "schema_ok db' \<and> keys_exact db' \<and> tree_ok db'"
  using acl.run_inv [OF assms] by (simp add: acl_inv_def)

definition sample_history :: "(env \<times> acl_op) list" where
  "sample_history =
     [(sample_env, OpRegister \<lparr>obj_type = ''doc'', obj_id = uid CHR ''d''\<rparr> (FolderObject (uid CHR ''c''))),
      (sample_env, OpGrant (UserSubject (uid CHR ''2'')) (UserSubject (uid CHR ''1'')) (FolderObject (uid CHR ''c'')) CapRead),
      (sample_env, OpMove (UserSubject (uid CHR ''2'')) (FolderObject (uid CHR ''b'')) (FolderObject (uid CHR ''c''))),
      (sample_env, OpRevoke (UserSubject (uid CHR ''2'')) (UserSubject (uid CHR ''1'')) (FolderObject (uid CHR ''b'')))]"

theorem acl_history_invariant_witness:
  "\<exists>db'. guarded_run acl_step acl_guard sample_history sample_db = Some db' \<and>
     schema_ok db' \<and> keys_exact db' \<and> tree_ok db'"
proof -
  have "normalizeRegister sample_env \<lparr>obj_type = ''doc'', obj_id = uid CHR ''d''\<rparr> (FolderObject (uid CHR ''c'')) =
      Inr (\<lparr>obj_type = ''doc'', obj_id = uid CHR ''d''\<rparr>, FolderObject (uid CHR ''c''))"
    "leaf_ref sample_db \<lparr>obj_type = ''doc'', obj_id = uid CHR ''d''\<rparr>" "registered sample_db (FolderObject (uid CHR ''c''))"
    by code_simp+
  then have "\<exists>db'. guarded_run acl_step acl_guard sample_history sample_db = Some db'"
    by (simp add: sample_history_def)
  then show ?thesis using acl_history_invariant [OF sample_inv] by blast
qed

text \<open>
  C3. An operation that returns an error has changed no table and performed no effect: no live revocation is sent and
  no audit entry is written for a mutation that did not happen, whichever guard, statement or commit failed.
\<close>

theorem failed_operation_changes_nothing:
  assumes "acl_exec op db = (Inl e, db', fx)"
  shows "db' = db \<and> fx = []"
  using assms by (rule acl_exec_error)

theorem failed_operation_changes_nothing_witness:
  "acl_exec (sample_env, OpMove (UserSubject (uid CHR ''2'')) (FolderObject (uid CHR ''b'')) (FolderObject (uid CHR ''b''))) sample_db =
     (Inl ErrMoveCycle, sample_db, [])"
proof -
  let ?op = "(sample_env, OpMove (UserSubject (uid CHR ''2'')) (FolderObject (uid CHR ''b'')) (FolderObject (uid CHR ''b'')))"
  obtain r db' fx where x: "acl_exec ?op sample_db = (r, db', fx)" by (cases "acl_exec ?op sample_db") auto
  have e: "fst (acl_exec ?op sample_db) = Inl ErrMoveCycle" by code_simp
  with x have "acl_exec ?op sample_db = (Inl ErrMoveCycle, db', fx)" by simp
  with failed_operation_changes_nothing [OF this] show ?thesis by simp
qed

text \<open>
  C4. A database fault is never an answer: when \<open>Can\<close> answers at all, under any pattern of failing statements, it
  gives the answer it gives on a database that does not fail. A fault can neither allow nor refuse.
\<close>

theorem fault_is_never_an_answer:
  assumes "Can E db subject obj want = Inr answer"
  shows "Can (E\<lparr>db_fault := \<lambda>_. False\<rparr>) db subject obj want = Inr answer"
proof -
  have "sub_res (Can E db subject obj want) (Can (faultless E) db subject obj want)"
    unfolding Can_def by (intro fault_intros sub_res_Capability)
  with assms show ?thesis by (simp add: sub_res_def faultless_def)
qed

theorem fault_is_never_an_answer_witness:
  "Can (sample_env\<lparr>db_fault := \<lambda>l. l = ''lock object''\<rparr>) sample_db (UserSubject (uid CHR ''1''))
     \<lparr>obj_type = ''doc'', obj_id = uid CHR ''d''\<rparr> CapWrite = Inr True \<and>
   Can (sample_env\<lparr>db_fault := \<lambda>l. l = ''lock object''\<rparr>\<lparr>db_fault := \<lambda>_. False\<rparr>) sample_db
     (UserSubject (uid CHR ''1'')) \<lparr>obj_type = ''doc'', obj_id = uid CHR ''d''\<rparr> CapWrite = Inr True"
proof -
  have "Can (sample_env\<lparr>db_fault := \<lambda>l. l = ''lock object''\<rparr>) sample_db (UserSubject (uid CHR ''1''))
     \<lparr>obj_type = ''doc'', obj_id = uid CHR ''d''\<rparr> CapWrite = Inr True" by code_simp
  with fault_is_never_an_answer [OF this] show ?thesis by simp
qed

section \<open>What a decision is made of\<close>

text \<open>
  C5. On an object the ACL layer owns, the capability of a user is the larger of the best grant to that user on the
  object or an ancestor of it, and the best grant to the workspace cut down to what the user's workspace role carries.
  Every spelling of the object's id the uuid library accepts gets the same answer.
\<close>

theorem native_capability:
  assumes "env_ok E" "no_faults E" "objects_ok db" "uuid_shape u" "r \<in> set (acl_object db)"
    "\<not> derivedTypes (ao_type r)" "uuid_parse E i = Some (ao_id r)"
  shows "Capability E db (UserSubject u) \<lparr>obj_type = ao_type r, obj_id = i\<rparr> =
    Inr (max (Max (insert CapNone (user_grants db u (ao_path r))))
             (min (Max (insert CapNone (team_grants db u (ao_path r))))
                  (role_capability (role_of db (ao_workspace r) u))))"
  using Capability_native [OF assms(1-6)] Capability_canonical_id [OF assms(1,7)]
  by (simp add: row_ref_def granted_spec_def)

lemma sample_doc: "\<lparr>ao_type = ''doc'', ao_id = uid CHR ''d'', ao_workspace = uid CHR ''a'',
    ao_path = ''/workspace:'' @ uid CHR ''a'' @ ''/folder:'' @ uid CHR ''b'' @ ''/doc:'' @ uid CHR ''d'' @ ''/''\<rparr>
  \<in> set (acl_object sample_db)"
  by code_simp

lemma sample_uids:
  "uuid_shape (uid CHR ''1'')" "uuid_shape (uid CHR ''2'')" "uuid_shape (uid CHR ''a'')" "uuid_shape (uid CHR ''b'')"
  "uuid_shape (uid CHR ''c'')" "uuid_shape (uid CHR ''d'')" "uuid_shape (uid CHR ''e'')"
  by code_simp+

lemma sample_parse: "uuid_shape s \<Longrightarrow> uuid_parse sample_env s = Some s"
  by (simp add: sample_env_def)

theorem native_capability_witness:
  "Capability sample_env sample_db (UserSubject (uid CHR ''1'')) \<lparr>obj_type = ''doc'', obj_id = uid CHR ''d''\<rparr> =
     Inr (max (Max (insert CapNone (user_grants sample_db (uid CHR ''1'') (''/workspace:'' @ uid CHR ''a'' @ ''/folder:'' @
                uid CHR ''b'' @ ''/doc:'' @ uid CHR ''d'' @ ''/''))))
              (min (Max (insert CapNone (team_grants sample_db (uid CHR ''1'') (''/workspace:'' @ uid CHR ''a'' @ ''/folder:'' @
                uid CHR ''b'' @ ''/doc:'' @ uid CHR ''d'' @ ''/''))))
                   (role_capability (role_of sample_db (uid CHR ''a'') (uid CHR ''1'')))))"
proof -
  have "\<not> derivedTypes ''doc''" by code_simp
  then show ?thesis
    using native_capability [OF sample_env_ok acl_invD(1) [OF sample_inv] sample_uids(1) sample_doc _ , of "uid CHR ''d''"]
      sample_parse [OF sample_uids(6)] by simp
qed

text \<open>
  C6. On a channel, the capability of a user is the larger of what membership gives (administration to a channel admin,
  writing to a member, reading of a public channel to a workspace member, otherwise nothing) and of the grants that
  reach the channel. A private channel is closed to every non-member, whatever their workspace role.
\<close>

theorem channel_capability:
  assumes "env_ok E" "no_faults E" "objects_ok db" "members_ok db" "uuid_shape u" "c \<in> set (channels db)"
    "ch_type c \<noteq> ''''"
  shows "Capability E db (UserSubject u) (ChannelObject (ch_id c)) =
    Inr (max (if channel_role_of db (ch_id c) u = ''admin'' then CapAdmin
              else if channel_role_of db (ch_id c) u = ''member'' then CapWrite
              else if ch_type c = ''public'' \<and> is_member db (ch_workspace c) u then CapRead else CapNone)
             (granted_spec db u (ch_workspace c)
                (''/workspace:'' @ ch_workspace c @ ''/channel:'' @ ch_id c @ ''/'')))"
  using Capability_channel [OF assms] by (simp only: channel_base_def channel_path_def)

theorem channel_capability_witness:
  "Capability sample_env sample_db (UserSubject (uid CHR ''1'')) (ChannelObject (uid CHR ''e'')) =
    Inr (max (if channel_role_of sample_db (uid CHR ''e'') (uid CHR ''1'') = ''admin'' then CapAdmin
              else if channel_role_of sample_db (uid CHR ''e'') (uid CHR ''1'') = ''member'' then CapWrite
              else if ''public'' = ''public'' \<and> is_member sample_db (uid CHR ''a'') (uid CHR ''1'') then CapRead else CapNone)
             (granted_spec sample_db (uid CHR ''1'') (uid CHR ''a'')
                (''/workspace:'' @ uid CHR ''a'' @ ''/channel:'' @ uid CHR ''e'' @ ''/'')))"
proof -
  let ?c = "\<lparr>ch_id = uid CHR ''e'', ch_workspace = uid CHR ''a'', ch_type = ''public'', ch_archived = False\<rparr>"
  have "?c \<in> set (channels sample_db)" by code_simp
  then show ?thesis
    using channel_capability [OF sample_env_ok acl_invD(1,4) [OF sample_inv] sample_uids(1), of ?c] by simp
qed

section \<open>What a mutation does\<close>

definition sample_row :: "nat \<Rightarrow> acl_object_row" where
  "sample_row i = acl_object sample_db ! i"

lemma sample_rows: "sample_row 0 \<in> set (acl_object sample_db)" "sample_row 1 \<in> set (acl_object sample_db)"
  "sample_row 2 \<in> set (acl_object sample_db)" "sample_row 3 \<in> set (acl_object sample_db)"
  by code_simp+

lemma sample_nesting: "prefix (ao_path (sample_row 1)) (ao_path (sample_row 3))" "\<not> derivedTypes (ao_type (sample_row 3))"
  "ao_type (sample_row 3) \<in> set liveTypes"
  by code_simp+

text \<open>
  C7. \<open>Grant\<close> to a user on a registered object succeeds when no statement fails and the acting user exists, and once it
  has returned the grant is in force on the object and on every ACL-native object below it: \<open>Can\<close> answers yes for the
  granted capability.
\<close>

theorem grant_is_in_force:
  assumes "env_ok E" "no_faults E" "acl_inv db" "uuid_shape u" "r \<in> set (acl_object db)"
    "storable c = Inr name" "actor_known E db actor"
  shows "\<exists>db' fx. Grant_op E db actor (UserSubject u) (row_ref r) c = (Inr (), db', fx) \<and>
    (\<forall>d \<in> set (acl_object db). prefix (ao_path r) (ao_path d) \<and> \<not> derivedTypes (ao_type d) \<longrightarrow>
       Can E db' (UserSubject u) (row_ref d) c = Inr True)"
proof -
  obtain db' fx where g: "Grant_op E db actor (UserSubject u) (row_ref r) c = (Inr (), db', fx)"
    using Grant_succeeds [OF assms(1,2) acl_invD(1) [OF assms(3)] assms(4-7)] by blast
  then show ?thesis using Grant_in_force [OF assms(1-4) g assms(5)] by blast
qed

theorem grant_is_in_force_witness:
  "\<exists>db' fx. Grant_op sample_env sample_db (UserSubject (uid CHR ''2'')) (UserSubject (uid CHR ''1'')) (row_ref (sample_row 1)) CapShare =
       (Inr (), db', fx) \<and> Can sample_env db' (UserSubject (uid CHR ''1'')) (row_ref (sample_row 3)) CapShare = Inr True"
proof -
  have "storable CapShare = Inr ''share''" "actor_known sample_env sample_db (UserSubject (uid CHR ''2''))" by code_simp+
  from grant_is_in_force [OF sample_env_ok sample_inv sample_uids(1) sample_rows(2) this]
  show ?thesis using sample_rows(4) sample_nesting(1,2) by blast
qed

text \<open>
  C8. \<open>Revoke\<close> of a user on a registered object succeeds when no statement fails, and once it has returned exactly the one
  grant of that user on that object is gone, and every live object on or below it has been told to close the user's
  sessions, or the log records that the list was cut at \<open>maxLiveRevocations\<close>.
\<close>

theorem revoke_removes_and_tells:
  assumes "env_ok E" "no_faults E" "acl_inv db" "uuid_shape u" "has_revoker E" "r \<in> set (acl_object db)"
  shows "\<exists>db' fx. Revoke E db actor (UserSubject u) (row_ref r) = (Inr (), db', fx) \<and>
    acl_grant db' = filter (\<lambda>g. \<not> (ag_otype g = ao_type r \<and> ag_oid g = ao_id r \<and>
       ag_stype g = ''user'' \<and> ag_sid g = u)) (acl_grant db) \<and>
    (\<forall>d \<in> set (acl_object db). prefix (ao_path r) (ao_path d) \<and> ao_type d \<in> set liveTypes \<longrightarrow>
       RevokeObjectForSubject (UserSubject u) (row_ref d) \<in> set fx \<or> WarnTruncated \<in> set fx)"
proof -
  obtain db' fx where g: "Revoke E db actor (UserSubject u) (row_ref r) = (Inr (), db', fx)"
    using Revoke_succeeds [OF assms(1,2) acl_invD(1) [OF assms(3)] assms(4,6)] by blast
  then show ?thesis using Revoke_effect [OF assms(1,3-6) g] by blast
qed

theorem revoke_removes_and_tells_witness:
  "\<exists>db' fx. Revoke sample_env sample_db (UserSubject (uid CHR ''2'')) (UserSubject (uid CHR ''1'')) (row_ref (sample_row 1)) =
       (Inr (), db', fx) \<and>
     acl_grant db' = filter (\<lambda>g. \<not> (ag_otype g = ao_type (sample_row 1) \<and> ag_oid g = ao_id (sample_row 1) \<and>
       ag_stype g = ''user'' \<and> ag_sid g = uid CHR ''1'')) (acl_grant sample_db) \<and>
     (RevokeObjectForSubject (UserSubject (uid CHR ''1'')) (row_ref (sample_row 3)) \<in> set fx \<or> WarnTruncated \<in> set fx)"
proof -
  have "has_revoker sample_env" by (simp add: sample_env_def)
  from revoke_removes_and_tells [OF sample_env_ok sample_inv sample_uids(1) this sample_rows(2)]
  show ?thesis using sample_rows(4) sample_nesting(1,3) by blast
qed

end
