(* ===== verification/Authz_Hierarchy.thy ===== *)
theory Authz_Hierarchy
  imports Authz_Properties
begin

text \<open>
  Properties of the hierarchy: paths and their ancestors, moves, materialization of derived objects, and what the
  in-transaction form \<open>MoveTx\<close> leaves undone.
\<close>

section \<open>Paths\<close>

text \<open>
  \<open>ancestorPaths\<close> of the path of a registered object lists exactly the paths of the registered objects whose
  subtree contains it, the object's own included: what the exact-match query of \<open>grantedCapability\<close> finds is what the
  \<open>LIKE\<close> predicate of the key rewrite covers.
\<close>

theorem ancestors_are_containers:
  assumes "objects_ok db" "r \<in> set (acl_object db)" "a \<in> set (acl_object db)"
  shows "ao_path a \<in> set (ancestorPaths (ao_path r)) \<longleftrightarrow> in_subtree (ao_path a) (ao_path r)"
  using ancestorPaths_iff_prefix [of "ao_path r" "ao_path a"] objects_okD(4,5) [OF assms(1)] assms(2,3)
    in_subtree_objects [OF assms(1,3)] by simp

theorem ancestors_are_containers_witness:
  "ao_path (sample_row 1) \<in> set (ancestorPaths (ao_path (sample_row 3))) \<longleftrightarrow>
     in_subtree (ao_path (sample_row 1)) (ao_path (sample_row 3))"
  using ancestors_are_containers [OF acl_invD(1) [OF sample_inv] sample_rows(4,2)] .

section \<open>Moves\<close>

text \<open>
  C9. \<open>Move\<close> of an ACL-native object to a parent of the same workspace that is not below it succeeds when no statement
  fails and the deepest row of the subtree stays within \<open>MaxPathDepth\<close> (no constraint of the schema refuses what the
  depth guard lets through). It relocates exactly one subtree: every row on or below the object gets the new parent's
  path in place of the old one, every other row and every grant is as it was, and every live object of the moved
  subtree is told, or the log records the cut.
\<close>

theorem move_relocates_subtree:
  assumes "env_ok E" "no_faults E" "acl_inv db" "has_revoker E" "r0 \<in> set (acl_object db)" "d \<in> set (acl_object db)"
    "\<not> derivedTypes (ao_type r0)" "ao_workspace r0 = ao_workspace d" "\<not> prefix (ao_path r0) (ao_path d)"
    "subtree_depth db (ao_path r0) - int (pathDepth (ao_path r0)) +
       int (pathDepth (buildPath (ao_path d) (row_ref r0))) \<le> int MaxPathDepth"
  shows "\<exists>db' fx. Move E db actor (row_ref r0) (row_ref d) = (Inr (), db', fx) \<and>
    acl_object db' = map (\<lambda>r. if prefix (ao_path r0) (ao_path r)
       then r\<lparr>ao_path := ao_path d @ pathSegment (row_ref r0) @ ''/'' @ drop (length (ao_path r0)) (ao_path r)\<rparr>
       else r) (acl_object db) \<and>
    acl_grant db' = acl_grant db \<and>
    (\<forall>x \<in> set (acl_object db'). in_subtree (buildPath (ao_path d) (row_ref r0)) (ao_path x) \<and>
       ao_type x \<in> set liveTypes \<longrightarrow> RevokeObjectForAll (row_ref x) \<in> set fx \<or> WarnTruncated \<in> set fx)"
proof -
  obtain db' fx where m: "Move E db actor (row_ref r0) (row_ref d) = (Inr (), db', fx)"
    using Move_succeeds [OF assms(1-3,5-10)] by blast
  note e = Move_effect [OF assms(1,3,5,6) m]
  have "moved r0 d = (\<lambda>r. if prefix (ao_path r0) (ao_path r)
       then r\<lparr>ao_path := ao_path d @ pathSegment (row_ref r0) @ ''/'' @ drop (length (ao_path r0)) (ao_path r)\<rparr> else r)"
    by (rule ext) (simp add: moved_def move_row_def in_subtree_objects [OF acl_invD(1) [OF assms(3)] assms(5)] buildPath_def)
  then show ?thesis using m e(1,2) e(5) [OF assms(4)] by auto
qed

theorem move_relocates_subtree_witness:
  "\<exists>db' fx. Move sample_env sample_db (UserSubject (uid CHR ''2'')) (row_ref (sample_row 1)) (row_ref (sample_row 2)) =
       (Inr (), db', fx) \<and> acl_grant db' = acl_grant sample_db"
proof -
  have r: "has_revoker sample_env" by (simp add: sample_env_def)
  have "\<not> derivedTypes (ao_type (sample_row 1))" "ao_workspace (sample_row 1) = ao_workspace (sample_row 2)"
    "\<not> prefix (ao_path (sample_row 1)) (ao_path (sample_row 2))"
    "subtree_depth sample_db (ao_path (sample_row 1)) - int (pathDepth (ao_path (sample_row 1))) +
       int (pathDepth (buildPath (ao_path (sample_row 2)) (row_ref (sample_row 1)))) \<le> int MaxPathDepth"
    by code_simp+
  from move_relocates_subtree [OF sample_env_ok sample_inv r sample_rows(2,3) this] show ?thesis by blast
qed

text \<open>
  C10. \<open>Move\<close> refuses to put a folder below itself and to carry it into another workspace, with the error of its own
  for each, before anything is written.
\<close>

theorem move_refusals:
  assumes "env_ok E" "no_faults E" "objects_ok db" "r0 \<in> set (acl_object db)" "d \<in> set (acl_object db)"
    "\<not> derivedTypes (ao_type r0)" "r0 \<noteq> d"
  shows "(prefix (ao_path r0) (ao_path d) \<longrightarrow>
       Move E db actor (row_ref r0) (row_ref d) = (Inl ErrMoveCycle, db, [])) \<and>
    (ao_workspace r0 \<noteq> ao_workspace d \<longrightarrow>
       Move E db actor (row_ref r0) (row_ref d) = (Inl ErrCrossWorkspaceMove, db, []))"
proof -
  have tx: "Move E db actor (row_ref r0) (row_ref d) = (Inl e, db, [])"
    if "MoveInTx E db (row_ref r0) (row_ref d) = Inl e" for e
    using that assms(2) by (simp add: Move_def WithTx_def no_faults_def)
  show ?thesis
    using tx MoveInTx_refused [OF assms] same_workspace [OF assms(3-5)] by blast
qed

theorem move_refusals_witness:
  "Move sample_env sample_db (UserSubject (uid CHR ''2'')) (row_ref (sample_row 1)) (row_ref (sample_row 3)) =
     (Inl ErrMoveCycle, sample_db, [])"
proof -
  have "\<not> derivedTypes (ao_type (sample_row 1))" "sample_row 1 \<noteq> sample_row 3"
    "prefix (ao_path (sample_row 1)) (ao_path (sample_row 3))" by code_simp+
  then show ?thesis
    using move_refusals [OF sample_env_ok acl_invD(1) [OF sample_inv] sample_rows(2,4)] by blast
qed

text \<open>
  \<open>MoveTx\<close> does not do what \<open>Move\<close> does: on consistent tables, moving a folder that holds a document succeeds and
  leaves the document on the old path, so the tables are no longer consistent (and \<open>Move\<close> itself keeps them so, C2).
\<close>

theorem MoveTx_leaves_descendants:
  "\<exists>db db' r d. acl_inv db \<and> r \<in> set (acl_object db) \<and> d \<in> set (acl_object db) \<and>
     MoveTx sample_env db (row_ref r) (row_ref d) = Inr db' \<and> \<not> tree_ok db'"
proof -
  let ?o = "MoveTx sample_env sample_db (row_ref (sample_row 1)) (row_ref (sample_row 2))"
  have "case ?o of Inl _ \<Rightarrow> False | Inr db' \<Rightarrow> \<not> tree_ok db'" by code_simp
  then obtain db' where "?o = Inr db'" "\<not> tree_ok db'" by (auto split: sum.splits)
  then show ?thesis using sample_inv sample_rows(2,3) by blast
qed

section \<open>Derived objects\<close>

text \<open>
  After \<open>MaterializeTx\<close> of a workspace, a channel or a file, the object's row is the one the schema's view derives
  from the legacy tables, its keys are exactly the expected ones, and the keys of every other object are untouched.
\<close>

theorem materialize_makes_exact:
  assumes "env_ok E" "members_ok db" "uuid_shape (obj_id ref)" "MaterializeTx E db ref = Inr db'"
  shows "(\<forall>r \<in> set (acl_object_expected db). ao_type r = obj_type ref \<and> ao_id r = obj_id ref \<longrightarrow>
       r \<in> set (acl_object db')) \<and>
    (\<forall>k. k \<in> set (acl_key db') \<longleftrightarrow> (if ak_type k = obj_type ref \<and> ak_id k = obj_id ref
       then k \<in> set (acl_key_expected db') else k \<in> set (acl_key db)))"
proof -
  have n: "normalize_object E ref = Inr x \<Longrightarrow> x = Some ref" for x
    using assms(1,3) by (auto simp: normalize_object_def bindR_Inr_iff)
  have m: "materializeDerived E db ref = Inr db'"
    using assms(4) n by (auto simp: MaterializeTx_def bindR_Inr_iff split: option.splits if_splits)
  show ?thesis
    using materialize_row [OF m assms(1,3,2)] materializeDerived_result(2) [OF m assms(1,3)] by blast
qed

theorem materialize_makes_exact_witness:
  "\<exists>db'. MaterializeTx sample_env sample_db (ChannelObject (uid CHR ''e'')) = Inr db' \<and>
    (\<forall>k. k \<in> set (acl_key db') \<longleftrightarrow> (if ak_type k = ''channel'' \<and> ak_id k = uid CHR ''e''
       then k \<in> set (acl_key_expected db') else k \<in> set (acl_key sample_db)))"
proof -
  let ?o = "MaterializeTx sample_env sample_db (ChannelObject (uid CHR ''e''))"
  have "isl ?o = False" by code_simp
  then obtain db' where o1: "?o = Inr db'" by (cases ?o) auto
  have u: "uuid_shape (obj_id (ChannelObject (uid CHR ''e'')))" using sample_uids(7) by (simp add: ChannelObject_def)
  from materialize_makes_exact [OF sample_env_ok(1) acl_invD(4) [OF sample_inv] u o1] o1
  show ?thesis by (simp add: ChannelObject_def TypeChannel_def)
qed

section \<open>The audit trail of a grant\<close>

text \<open>
  The audit entry of a successful grant carries, as the value of \<open>capability\<close>, the one-character string of the
  capability's number, not its name.
\<close>

theorem grant_audit_capability:
  assumes "has_auditor E" "Grant_op E db actor subject obj c = (Inr (), db', fx)"
  shows "\<exists>e. fx = [AuditTry e] \<and> ae_action e = ''acl.granted'' \<and>
    map_of (ae_meta e) ''capability'' = Some [char_of (unat c)] \<and> Some [char_of (unat c)] \<noteq> capabilityNames c"
proof -
  obtain sub ref stored by1 where n: "normalizeGrant E actor subject obj c = Inr (sub, ref, stored, by1)"
    and fx: "fx = audit E db' actor ''acl.granted'' ref (Some sub) [(''capability'', [char_of (unat c)])]"
    by (rule Grant_op_Inr [OF assms(2)]) (rule that; assumption)
  have "Some [char_of (unat c)] \<noteq> capabilityNames c"
    using storable_cases [OF normalizeGrant_Inr(3) [OF n]] by (auto simp: capabilityNames_def)
  then show ?thesis using assms(1) fx by (simp add: audit_def)
qed

theorem grant_audit_capability_witness:
  "\<exists>db' fx e. Grant_op sample_env sample_db (UserSubject (uid CHR ''2'')) (UserSubject (uid CHR ''1'')) (row_ref (sample_row 1)) CapShare =
     (Inr (), db', fx) \<and> fx = [AuditTry e] \<and> map_of (ae_meta e) ''capability'' = Some [char_of (unat CapShare)]"
proof -
  have "storable CapShare = Inr ''share''" "actor_known sample_env sample_db (UserSubject (uid CHR ''2''))" by code_simp+
  from Grant_succeeds [OF sample_env_ok acl_invD(1) [OF sample_inv] sample_uids(1) sample_rows(2) this]
  obtain db' fx where o1: "Grant_op sample_env sample_db (UserSubject (uid CHR ''2'')) (UserSubject (uid CHR ''1''))
      (row_ref (sample_row 1)) CapShare = (Inr (), db', fx)" by blast
  have "has_auditor sample_env" by (simp add: sample_env_def)
  from grant_audit_capability [OF this o1] o1 show ?thesis by blast
qed

end
