(* ===== verification/Authz_Rebuild.thy ===== *)
theory Authz_Rebuild
  imports Authz_Hierarchy
begin

text \<open>
  Backfill and drift detection: \<open>backend/internal/authz/rebuild.go\<close>. \<open>Rebuild\<close> reconciles the derived rows and all keys
  in one transaction, \<open>Verify\<close> counts and samples every disagreement. A statement's \<open>RowsAffected\<close> is the number of
  rows it inserts, updates or deletes; the samples, which have a \<open>LIMIT\<close> and no \<open>ORDER BY\<close>, are taken in table order.
\<close>

section \<open>Rebuild\<close>

record RebuildStats =
  ObjectsUpserted :: nat
  ObjectsDeleted :: nat
  KeysDeleted :: nat
  KeysInserted :: nat

definition RebuildStats_Clean :: "RebuildStats \<Rightarrow> bool" where
  "RebuildStats_Clean s \<longleftrightarrow> ObjectsUpserted s = 0 \<and> ObjectsDeleted s = 0 \<and> KeysDeleted s = 0 \<and> KeysInserted s = 0"

definition derivedTypeList :: "string list" where
  "derivedTypeList = [TypeWorkspace, TypeChannel, TypeFile]"

definition same_object :: "acl_object_row \<Rightarrow> acl_object_row \<Rightarrow> bool" where
  "same_object a b \<longleftrightarrow> ao_type a = ao_type b \<and> ao_id a = ao_id b"

definition upsert_changes :: "database \<Rightarrow> acl_object_row \<Rightarrow> bool" where
  "upsert_changes db e \<longleftrightarrow> \<not> (\<exists>x \<in> set (acl_object db). same_object x e \<and> ao_workspace x = ao_workspace e \<and> ao_path x = ao_path e)"

definition stale_object :: "database \<Rightarrow> acl_object_row \<Rightarrow> bool" where
  "stale_object db x \<longleftrightarrow> ao_type x \<in> set derivedTypeList \<and> \<not> (\<exists>e \<in> set (acl_object_expected db). same_object e x)"

definition delete_objects :: "(acl_object_row \<Rightarrow> bool) \<Rightarrow> database \<Rightarrow> database" where
  \<comment> \<open>DELETE FROM acl\_object, with the cascades of acl\_grant and acl\_key\<close>
  "delete_objects P db =
     (let gone = filter P (acl_object db)
      in db\<lparr>acl_object := filter (\<lambda>x. \<not> P x) (acl_object db),
            acl_grant := filter (\<lambda>g. \<not> (\<exists>x \<in> set gone. ao_type x = ag_otype g \<and> ao_id x = ag_oid g)) (acl_grant db),
            acl_key := filter (\<lambda>k. \<not> (\<exists>x \<in> set gone. ao_type x = ak_type k \<and> ao_id x = ak_id k)) (acl_key db)\<rparr>)"

definition key_has_row :: "database \<Rightarrow> acl_key_row \<Rightarrow> bool" where
  "key_has_row db k \<longleftrightarrow> (\<exists>r \<in> set (acl_object db). ao_type r = ak_type k \<and> ao_id r = ak_id k)"

definition rebuild_tx :: "env \<Rightarrow> database \<Rightarrow> authz_error + database \<times> RebuildStats" where
  "rebuild_tx E db =
     (if \<not> list_all (acl_object_check db) (acl_object_expected db) then Inl (DbError ''backfill acl_object'')
      else
      bindR (db_query E ''backfill acl_object''
        (db\<lparr>acl_object := fold upsert_object (acl_object_expected db) (acl_object db)\<rparr>)) (\<lambda>db1.
      bindR (db_query E ''prune stale acl_object rows'' (delete_objects (stale_object db1) db1)) (\<lambda>db2.
      bindR (db_query E ''prune stale acl_key rows''
        (db2\<lparr>acl_key := filter (\<lambda>k. k \<in> set (acl_key_expected db2)) (acl_key db2)\<rparr>)) (\<lambda>db3.
      if \<not> list_all (key_has_row db3) (acl_key_expected db3) then Inl (DbError ''materialize acl_key rows'')
      else
      bindR (db_query E ''materialize acl_key rows''
        (db3\<lparr>acl_key := insert_keys (acl_key_expected db3) (acl_key db3)\<rparr>)) (\<lambda>db4.
      Inr (db4, \<lparr>ObjectsUpserted = length (filter (upsert_changes db) (acl_object_expected db)),
                 ObjectsDeleted = length (filter (stale_object db1) (acl_object db1)),
                 KeysDeleted = length (filter (\<lambda>k. k \<notin> set (acl_key_expected db2)) (acl_key db2)),
                 KeysInserted = length (filter (\<lambda>k. k \<notin> set (acl_key db3)) (acl_key_expected db3))\<rparr>))))))"

definition Rebuild :: "env \<Rightarrow> database \<Rightarrow> (authz_error + RebuildStats) \<times> database" where
  "Rebuild E db = WithTx E DbError db (rebuild_tx E)"

section \<open>Verify\<close>

record DriftSample =
  ds_Kind :: string
  ds_ObjectType :: string
  ds_ObjectID :: string
  ds_Detail :: string

record DriftReport =
  MissingKeys :: nat
  ExtraKeys :: nat
  MissingObjects :: nat
  MisplacedObjects :: nat
  ExtraObjects :: nat
  Samples :: "DriftSample list"

definition DriftReport_Clean :: "DriftReport \<Rightarrow> bool" where
  "DriftReport_Clean r \<longleftrightarrow> MissingKeys r = 0 \<and> ExtraKeys r = 0 \<and> MissingObjects r = 0 \<and> MisplacedObjects r = 0 \<and>
     ExtraObjects r = 0"

definition missing_keys :: "database \<Rightarrow> acl_key_row list" where
  "missing_keys db = filter (\<lambda>e. e \<notin> set (acl_key db)) (acl_key_expected db)"

definition extra_keys :: "database \<Rightarrow> acl_key_row list" where
  "extra_keys db = filter (\<lambda>k. k \<notin> set (acl_key_expected db)) (acl_key db)"

definition missing_objects :: "database \<Rightarrow> acl_object_row list" where
  "missing_objects db = filter (\<lambda>e. \<not> (\<exists>x \<in> set (acl_object db). same_object x e)) (acl_object_expected db)"

definition misplaced_objects :: "database \<Rightarrow> (acl_object_row \<times> acl_object_row) list" where
  "misplaced_objects db = [(e, x). e \<leftarrow> acl_object_expected db, x \<leftarrow> acl_object db,
     same_object x e \<and> (ao_path x \<noteq> ao_path e \<or> ao_workspace x \<noteq> ao_workspace e)]"

definition extra_objects :: "database \<Rightarrow> acl_object_row list" where
  "extra_objects db = filter (stale_object db) (acl_object db)"

definition drift_samples :: "database \<Rightarrow> nat \<Rightarrow> DriftSample list" where
  "drift_samples db n =
     map (\<lambda>k. \<lparr>ds_Kind = ''missing_key'', ds_ObjectType = ak_type k, ds_ObjectID = ak_id k, ds_Detail = ak_key k\<rparr>)
       (take n (missing_keys db)) @
     map (\<lambda>k. \<lparr>ds_Kind = ''extra_key'', ds_ObjectType = ak_type k, ds_ObjectID = ak_id k, ds_Detail = ak_key k\<rparr>)
       (take n (extra_keys db)) @
     map (\<lambda>e. \<lparr>ds_Kind = ''missing_object'', ds_ObjectType = ao_type e, ds_ObjectID = ao_id e, ds_Detail = ao_path e\<rparr>)
       (take n (missing_objects db)) @
     map (\<lambda>(e, x). \<lparr>ds_Kind = ''misplaced_object'', ds_ObjectType = ao_type e, ds_ObjectID = ao_id e,
            ds_Detail = ''stored '' @ ao_path x @ '' expected '' @ ao_path e\<rparr>)
       (take n (misplaced_objects db)) @
     map (\<lambda>x. \<lparr>ds_Kind = ''extra_object'', ds_ObjectType = ao_type x, ds_ObjectID = ao_id x, ds_Detail = ao_path x\<rparr>)
       (take n (extra_objects db))"

definition Verify :: "env \<Rightarrow> database \<Rightarrow> int \<Rightarrow> authz_error + DriftReport" where
  "Verify E db sampleLimit =
     bindR (db_query E ''count acl drift''
       \<lparr>MissingKeys = length (missing_keys db), ExtraKeys = length (extra_keys db),
        MissingObjects = length (missing_objects db), MisplacedObjects = length (misplaced_objects db),
        ExtraObjects = length (extra_objects db), Samples = []\<rparr>) (\<lambda>r.
       if DriftReport_Clean r \<or> sampleLimit \<le> 0 then Inr r
       else bindR (db_query E ''sample acl drift'' (drift_samples db (nat sampleLimit))) (\<lambda>ss.
              Inr (r\<lparr>Samples := ss\<rparr>)))"

section \<open>The view of expected objects is stable under a rebuild\<close>

definition native_part :: "acl_object_row list \<Rightarrow> acl_object_row list" where
  "native_part rows = filter (\<lambda>r. ao_type r \<notin> set derivedTypeList) rows"

lemma find_filter: "(\<And>x. P x \<Longrightarrow> Q x) \<Longrightarrow> find P (filter Q xs) = find P xs"
  by (induction xs) auto

lemma expected_native_part:
  assumes "native_part os = native_part (acl_object db)"
  shows "acl_object_expected (db\<lparr>acl_object := os\<rparr>) = acl_object_expected db"
proof -
  have f: "find P os = find P (acl_object db)" if "\<And>x. P x \<Longrightarrow> ao_type x \<notin> set derivedTypeList" for P
    using assms find_filter [of P "\<lambda>x. ao_type x \<notin> set derivedTypeList" os]
      find_filter [of P "\<lambda>x. ao_type x \<notin> set derivedTypeList" "acl_object db"] that by (simp add: native_part_def)
  have "file_folder (db\<lparr>acl_object := os\<rparr>) = file_folder db"
    unfolding file_folder_def by (rule ext, simp, rule f) (auto simp: derivedTypeList_def type_defs)
  moreover have "file_conversation (db\<lparr>acl_object := os\<rparr>) = file_conversation db"
    unfolding file_conversation_def
    by (rule ext, simp, intro bind_option_cong refl f) (auto simp: derivedTypeList_def type_defs)
  ultimately show ?thesis
    by (simp add: acl_object_expected_def expected_file_path_def file_channel_def cong: option.case_cong)
qed

lemma file_joins_upd [simp]:
  "file_folder (db\<lparr>acl_key := ks\<rparr>) = file_folder db" "file_folder (db\<lparr>acl_grant := gs\<rparr>) = file_folder db"
  "file_conversation (db\<lparr>acl_key := ks\<rparr>) = file_conversation db"
  "file_conversation (db\<lparr>acl_grant := gs\<rparr>) = file_conversation db"
  "file_channel (db\<lparr>acl_key := ks\<rparr>) = file_channel db" "file_channel (db\<lparr>acl_grant := gs\<rparr>) = file_channel db"
  "file_channel (db\<lparr>acl_object := os\<rparr>) = file_channel db"
  by (simp_all add: fun_eq_iff file_channel_def file_folder_def file_conversation_def)

lemma expected_upd [simp]:
  "acl_object_expected (db\<lparr>acl_key := ks\<rparr>) = acl_object_expected db"
  "acl_object_expected (db\<lparr>acl_grant := gs\<rparr>) = acl_object_expected db"
  by (simp_all add: acl_object_expected_def expected_file_path_def cong: option.case_cong)

lemma native_part_upsert: "ao_type r \<in> set derivedTypeList \<Longrightarrow> native_part (upsert_object r rows) = native_part rows"
proof -
  assume r: "ao_type r \<in> set derivedTypeList"
  then have "native_part (map (\<lambda>x. if ao_type x = ao_type r \<and> ao_id x = ao_id r then r else x) rows) = native_part rows"
    by (induction rows) (auto simp: native_part_def)
  then show ?thesis using r by (simp add: upsert_object_def native_part_def)
qed

lemma native_part_fold:
  "(\<And>r. r \<in> set new \<Longrightarrow> ao_type r \<in> set derivedTypeList) \<Longrightarrow> native_part (fold upsert_object new rows) = native_part rows"
  by (induction new arbitrary: rows) (simp_all add: native_part_upsert)

lemma expected_derived: "e \<in> set (acl_object_expected db) \<Longrightarrow> ao_type e \<in> set derivedTypeList"
  by (auto simp: acl_object_expected_def derivedTypeList_def type_defs)

lemma native_part_delete:
  "(\<And>x. P x \<Longrightarrow> ao_type x \<in> set derivedTypeList) \<Longrightarrow> native_part (filter (\<lambda>x. \<not> P x) rows) = native_part rows"
  by (induction rows) (auto simp: native_part_def)

section \<open>After a rebuild\<close>

lemma upsert_object_keys:
  "map (\<lambda>x. (ao_type x, ao_id x)) (upsert_object r rows) =
     (let ks = map (\<lambda>x. (ao_type x, ao_id x)) rows; k = (ao_type r, ao_id r)
      in if k \<in> set ks then ks else ks @ [k])"
  by (auto simp: upsert_object_def Let_def image_iff) metis

lemma distinct_fold_upsert:
  "distinct (map (\<lambda>x. (ao_type x, ao_id x)) rows) \<Longrightarrow>
     distinct (map (\<lambda>x. (ao_type x, ao_id x)) (fold upsert_object new rows))"
  by (induction new arbitrary: rows) (simp_all add: upsert_object_keys Let_def)

lemma expected_distinct:
  "members_ok db \<Longrightarrow> distinct (map (\<lambda>x. (ao_type x, ao_id x)) (acl_object_expected db))"
  by (auto simp: acl_object_expected_def members_ok_def distinct_map comp_def inj_on_def)

lemma rebuild_tx_result:
  assumes "rebuild_tx E db = Inr (db', stats)" "members_ok db" "objects_ok db"
  shows "acl_object_expected db' = acl_object_expected db" "set (acl_key db') = set (acl_key_expected db')"
    "set (acl_object_expected db) \<subseteq> set (acl_object db')"
    "distinct (map (\<lambda>x. (ao_type x, ao_id x)) (acl_object db'))"
    "\<And>x. x \<in> set (acl_object db') \<Longrightarrow> \<not> stale_object db' x"
    "native_part (acl_object db') = native_part (acl_object db)"
    "\<And>g. g \<in> set (acl_grant db) \<Longrightarrow> ag_otype g \<notin> set derivedTypeList \<Longrightarrow> g \<in> set (acl_grant db')"
proof -
  define db1 where "db1 = db\<lparr>acl_object := fold upsert_object (acl_object_expected db) (acl_object db)\<rparr>"
  define db2 where "db2 = delete_objects (stale_object db1) db1"
  obtain ks where db': "db' = db2\<lparr>acl_key := ks\<rparr>" "set ks = set (acl_key_expected db2)"
  proof -
    let ?db3 = "db2\<lparr>acl_key := filter (\<lambda>k. k \<in> set (acl_key_expected db2)) (acl_key db2)\<rparr>"
    have "db' = db2\<lparr>acl_key := insert_keys (acl_key_expected db2) (acl_key ?db3)\<rparr>"
      using assms(1) unfolding rebuild_tx_def db_query_def db1_def db2_def
      by (auto simp: bindR_Inr_iff split: if_splits)
    moreover have "set (insert_keys (acl_key_expected db2) (acl_key ?db3)) = set (acl_key_expected db2)" by auto
    ultimately show thesis by (rule that)
  qed
  have n1: "native_part (acl_object db1) = native_part (acl_object db)"
    unfolding db1_def using native_part_fold expected_derived by simp
  have e1: "acl_object_expected db1 = acl_object_expected db"
    unfolding db1_def using n1 expected_native_part [of _ db] by (simp add: db1_def)
  have rows2: "acl_object db2 = filter (\<lambda>x. \<not> stale_object db1 x) (acl_object db1)"
    by (simp add: db2_def delete_objects_def)
  have n2: "native_part (acl_object db2) = native_part (acl_object db1)"
    unfolding rows2 by (rule native_part_delete) (simp add: stale_object_def)
  have "acl_object_expected db2 = acl_object_expected (db1\<lparr>acl_object := acl_object db2\<rparr>)"
    by (simp add: db2_def delete_objects_def acl_object_expected_def expected_file_path_def file_channel_def
        file_folder_def file_conversation_def cong: option.case_cong)
  then have e2: "acl_object_expected db2 = acl_object_expected db1" using expected_native_part [OF n2] by simp
  show e': "acl_object_expected db' = acl_object_expected db" by (simp add: db' e1 e2)
  show "set (acl_key db') = set (acl_key_expected db')" by (simp add: db')
  have d: "distinct (map (\<lambda>x. (ao_type x, ao_id x)) (acl_object db1))"
    using distinct_fold_upsert assms(3) by (simp add: db1_def objects_ok_def)
  then show "distinct (map (\<lambda>x. (ao_type x, ao_id x)) (acl_object db'))"
    by (simp add: db' rows2 distinct_map_filter)
  show "set (acl_object_expected db) \<subseteq> set (acl_object db')"
  proof
    fix e assume e: "e \<in> set (acl_object_expected db)"
    then have "e \<in> set (acl_object db1)"
      using fold_upsert_mem expected_distinct [OF assms(2)] by (simp add: db1_def)
    moreover have "\<not> stale_object db1 e" using e e1 by (auto simp: stale_object_def same_object_def)
    ultimately show "e \<in> set (acl_object db')" by (simp add: db' rows2)
  qed
  have st: "stale_object db' = stale_object db1" by (simp add: stale_object_def fun_eq_iff e' e1)
  show "\<not> stale_object db' x" if "x \<in> set (acl_object db')" for x
    using that by (simp add: db' rows2 st [unfolded db'])
  show "native_part (acl_object db') = native_part (acl_object db)" by (simp add: db' n1 n2)
  show "g \<in> set (acl_grant db')" if "g \<in> set (acl_grant db)" "ag_otype g \<notin> set derivedTypeList" for g
    using that by (auto simp: db' db2_def delete_objects_def db1_def stale_object_def)
qed

lemma Verify_clean_iff:
  assumes "no_faults E" "distinct (map (\<lambda>x. (ao_type x, ao_id x)) (acl_object db))"
  shows "(\<exists>r. Verify E db n = Inr r \<and> DriftReport_Clean r) \<longleftrightarrow>
    keys_exact db \<and> set (acl_object_expected db) \<subseteq> set (acl_object db) \<and>
    (\<forall>x \<in> set (acl_object db). ao_type x \<in> set derivedTypeList \<longrightarrow> x \<in> set (acl_object_expected db))"
    (is "?l \<longleftrightarrow> ?r")
proof -
  have "?l \<longleftrightarrow> missing_keys db = [] \<and> extra_keys db = [] \<and> missing_objects db = [] \<and> misplaced_objects db = [] \<and>
      extra_objects db = []"
    using assms(1) by (auto simp: Verify_def DriftReport_Clean_def)
  also have "\<dots> \<longleftrightarrow> ?r"
  proof -
    have row_eq: "x = e" if "same_object x e" "ao_path x = ao_path e" "ao_workspace x = ao_workspace e"
      for x e :: acl_object_row
      using that by (cases x, cases e) (simp add: same_object_def)
    have uniq: "x = y" if "x \<in> set (acl_object db)" "y \<in> set (acl_object db)" "same_object x y" for x y
      using assms(2) that by (auto simp: distinct_map inj_on_def same_object_def)
    have keys: "missing_keys db = [] \<and> extra_keys db = [] \<longleftrightarrow> keys_exact db"
      by (auto simp: missing_keys_def extra_keys_def keys_exact_def filter_empty_conv)
    have mis: "misplaced_objects db = [] \<longleftrightarrow> (\<forall>e \<in> set (acl_object_expected db). \<forall>x \<in> set (acl_object db).
        same_object x e \<longrightarrow> ao_path x = ao_path e \<and> ao_workspace x = ao_workspace e)"
      by (auto simp: misplaced_objects_def concat_eq_Nil_conv)
    have objs: "missing_objects db = [] \<and> misplaced_objects db = [] \<longleftrightarrow>
        set (acl_object_expected db) \<subseteq> set (acl_object db)"
    proof
      assume l: "missing_objects db = [] \<and> misplaced_objects db = []"
      show "set (acl_object_expected db) \<subseteq> set (acl_object db)"
      proof
        fix e assume e: "e \<in> set (acl_object_expected db)"
        with l obtain x where x: "x \<in> set (acl_object db)" "same_object x e"
          by (auto simp: missing_objects_def filter_empty_conv)
        with e l mis row_eq have "x = e" by blast
        with x show "e \<in> set (acl_object db)" by simp
      qed
    next
      assume sub: "set (acl_object_expected db) \<subseteq> set (acl_object db)"
      have "same_object e e" for e by (simp add: same_object_def)
      with sub have "missing_objects db = []" by (auto simp: missing_objects_def filter_empty_conv)
      moreover have "misplaced_objects db = []" unfolding mis using sub uniq by blast
      ultimately show "missing_objects db = [] \<and> misplaced_objects db = []" by blast
    qed
    have ex: "extra_objects db = [] \<longleftrightarrow> (\<forall>x \<in> set (acl_object db). ao_type x \<in> set derivedTypeList \<longrightarrow>
        (\<exists>e \<in> set (acl_object_expected db). same_object e x))"
      by (auto simp: extra_objects_def stale_object_def filter_empty_conv)
    have refl: "same_object e e" for e by (simp add: same_object_def)
    have ext: "extra_objects db = [] \<longleftrightarrow>
        (\<forall>x \<in> set (acl_object db). ao_type x \<in> set derivedTypeList \<longrightarrow> x \<in> set (acl_object_expected db))"
      if "set (acl_object_expected db) \<subseteq> set (acl_object db)"
      unfolding ex using that uniq refl by blast
    show ?thesis using keys objs ext by blast
  qed
  finally show ?thesis .
qed

lemma upsert_same:
  assumes "e \<in> set rows" "distinct (map (\<lambda>x. (ao_type x, ao_id x)) rows)"
  shows "upsert_object e rows = rows"
proof -
  have "x = e" if "x \<in> set rows" "ao_type x = ao_type e \<and> ao_id x = ao_id e" for x
    using assms that by (auto simp: distinct_map inj_on_def)
  then have "map (\<lambda>x. if ao_type x = ao_type e \<and> ao_id x = ao_id e then e else x) rows = rows"
    by (intro map_idI) auto
  then show ?thesis using assms(1) by (auto simp: upsert_object_def)
qed

lemma fold_upsert_same:
  "set new \<subseteq> set rows \<Longrightarrow> distinct (map (\<lambda>x. (ao_type x, ao_id x)) rows) \<Longrightarrow> fold upsert_object new rows = rows"
  by (induction new) (simp_all add: upsert_same)

definition zero_stats :: RebuildStats where
  "zero_stats = \<lparr>ObjectsUpserted = 0, ObjectsDeleted = 0, KeysDeleted = 0, KeysInserted = 0\<rparr>"

lemma rebuild_tx_clean:
  assumes "no_faults E" "objects_ok db" "keys_ok db" "keys_exact db" "set (acl_object_expected db) \<subseteq> set (acl_object db)"
    "\<forall>x \<in> set (acl_object db). ao_type x \<in> set derivedTypeList \<longrightarrow> x \<in> set (acl_object_expected db)"
  shows "rebuild_tx E db = Inr (db, zero_stats)"
proof -
  have d: "distinct (map (\<lambda>x. (ao_type x, ao_id x)) (acl_object db))" using assms(2) by (simp add: objects_ok_def)
  have refl: "same_object e e" for e by (simp add: same_object_def)
  have chk: "list_all (acl_object_check db) (acl_object_expected db)"
    using assms(2,5) by (auto simp: list_all_iff objects_ok_def)
  have f: "fold upsert_object (acl_object_expected db) (acl_object db) = acl_object db"
    using fold_upsert_same [OF assms(5) d] .
  have same: "db\<lparr>acl_object := acl_object db\<rparr> = db" "db\<lparr>acl_key := acl_key db\<rparr> = db" by simp_all
  have st: "\<not> stale_object db x" if "x \<in> set (acl_object db)" for x
    using assms(6) that refl by (auto simp: stale_object_def)
  then have del: "delete_objects (stale_object db) db = db" "filter (stale_object db) (acl_object db) = []"
    by (auto simp: delete_objects_def filter_empty_conv filter_id_conv)
  have keys: "filter (\<lambda>k. k \<in> set (acl_key_expected db)) (acl_key db) = acl_key db"
    "insert_keys (acl_key_expected db) (acl_key db) = acl_key db"
    "filter (\<lambda>k. k \<notin> set (acl_key_expected db)) (acl_key db) = []"
    "filter (\<lambda>k. k \<notin> set (acl_key db)) (acl_key_expected db) = []"
    using assms(4) by (auto simp: keys_exact_def insert_keys_def filter_id_conv filter_empty_conv)
  have fk: "list_all (key_has_row db) (acl_key_expected db)"
    using assms(3,4) by (auto simp: list_all_iff keys_ok_def keys_exact_def key_has_row_def)
  have up: "filter (upsert_changes db) (acl_object_expected db) = []"
    using assms(5) refl by (auto simp: filter_empty_conv upsert_changes_def)
  show ?thesis
    unfolding rebuild_tx_def db_query_no_faults [OF assms(1)] bindR_simps f same del keys
    using chk fk up by (simp add: keys del zero_stats_def)
qed

lemma fold_upsert_from: "x \<in> set (fold upsert_object new rows) \<Longrightarrow> x \<in> set rows \<or> x \<in> set new"
proof (induction new arbitrary: rows)
  case (Cons a new)
  have "x \<in> set (upsert_object a rows) \<Longrightarrow> x = a \<or> x \<in> set rows"
    by (auto simp: upsert_object_def split: if_splits)
  with Cons.IH [of "upsert_object a rows"] Cons.prems show ?case by auto
qed simp

lemma expected_uuids:
  assumes "members_ok db" "e \<in> set (acl_object_expected db)"
  shows "uuid_shape (ao_id e)" "uuid_shape (ao_workspace e)"
  using assms by (auto simp: acl_object_expected_def members_ok_def)

lemma rebuild_tx_ok:
  assumes "rebuild_tx E db = Inr (db', stats)" "schema_ok db"
  shows "objects_ok db'" "keys_ok db'" "keys_exact db'" "set (acl_object_expected db') \<subseteq> set (acl_object db')"
    "\<And>x. x \<in> set (acl_object db') \<Longrightarrow> ao_type x \<in> set derivedTypeList \<Longrightarrow> x \<in> set (acl_object_expected db')"
proof -
  have ok: "objects_ok db" "keys_ok db" "members_ok db" using assms(2) by (simp_all add: schema_ok_def)
  note res = rebuild_tx_result [OF assms(1) ok(3,1)]
  show "keys_exact db'" using res(2) by (simp add: keys_exact_def)
  show sub: "set (acl_object_expected db') \<subseteq> set (acl_object db')" using res(1,3) by simp
  define db1 where "db1 = db\<lparr>acl_object := fold upsert_object (acl_object_expected db) (acl_object db)\<rparr>"
  define db2 where "db2 = delete_objects (stale_object db1) db1"
  define ks where "ks = insert_keys (acl_key_expected db2) (filter (\<lambda>k. k \<in> set (acl_key_expected db2)) (acl_key db2))"
  have chk: "list_all (acl_object_check db) (acl_object_expected db)" and fk: "list_all (key_has_row db2) (acl_key_expected db2)"
    and db': "db' = db2\<lparr>acl_key := ks\<rparr>"
    using assms(1) unfolding rebuild_tx_def db_query_def db1_def db2_def ks_def
    by (auto simp: bindR_Inr_iff key_has_row_def list_all_iff split: if_splits)
  have ck: "acl_object_check db' = acl_object_check db"
    by (simp add: db' db2_def db1_def delete_objects_def fun_eq_iff acl_object_check_def)
  have "uuid_shape (ao_id x) \<and> uuid_shape (ao_workspace x) \<and> acl_object_check db' x" if "x \<in> set (acl_object db')" for x
  proof -
    have "x \<in> set (acl_object db) \<or> x \<in> set (acl_object_expected db)"
      using that fold_upsert_from by (auto simp: db' db2_def delete_objects_def db1_def)
    then show ?thesis
      using ok(1) chk expected_uuids [OF ok(3)] by (auto simp: objects_ok_def list_all_iff ck)
  qed
  then show "objects_ok db'" using res(4) by (simp add: objects_ok_def)
  have "distinct (acl_key db2)" using ok(2) by (simp add: db2_def delete_objects_def db1_def keys_ok_def)
  then have "distinct ks" unfolding ks_def by (intro distinct_insert_keys distinct_filter)
  moreover have "set ks = set (acl_key_expected db2)" by (auto simp: ks_def)
  ultimately show "keys_ok db'" using fk by (simp add: db' keys_ok_def list_all_iff key_has_row_def)
  fix x assume x: "x \<in> set (acl_object db')" "ao_type x \<in> set derivedTypeList"
  then obtain e where e: "e \<in> set (acl_object_expected db')" "same_object e x"
    using res(5) [OF x(1)] by (auto simp: stale_object_def)
  then have "e = x" using sub res(4) x(1) by (auto simp: distinct_map inj_on_def same_object_def subset_iff)
  with e show "x \<in> set (acl_object_expected db')" by simp
qed

section \<open>The contract of the backfill\<close>

text \<open>
  C11. After a successful \<open>Rebuild\<close> the drift verifier has nothing to report, and every ACL-native row and every grant on
  an ACL-native object is still there.
\<close>

theorem rebuild_then_verify_clean:
  assumes "schema_ok db" "no_faults E" "Rebuild E0 db = (Inr stats, db')"
  shows "(\<exists>r. Verify E db' n = Inr r \<and> DriftReport_Clean r) \<and>
    filter (\<lambda>r. \<not> derivedTypes (ao_type r)) (acl_object db') = filter (\<lambda>r. \<not> derivedTypes (ao_type r)) (acl_object db) \<and>
    (\<forall>g \<in> set (acl_grant db). \<not> derivedTypes (ag_otype g) \<longrightarrow> g \<in> set (acl_grant db'))"
proof -
  have tx: "rebuild_tx E0 db = Inr (db', stats)" using assms(3) by (auto simp: Rebuild_def dest: WithTx_Inr)
  note ok = rebuild_tx_ok [OF tx assms(1)]
  have res: "native_part (acl_object db') = native_part (acl_object db)"
    "g \<in> set (acl_grant db) \<Longrightarrow> ag_otype g \<notin> set derivedTypeList \<Longrightarrow> g \<in> set (acl_grant db')" for g
    using rebuild_tx_result(6,7) [OF tx] assms(1) by (simp_all add: schema_ok_def)
  have dt: "t \<in> set derivedTypeList \<longleftrightarrow> derivedTypes t" for t by (auto simp: derivedTypeList_def derivedTypes_def)
  have "\<exists>r. Verify E db' n = Inr r \<and> DriftReport_Clean r"
    using Verify_clean_iff [OF assms(2), of db' n] ok by (auto simp: objects_ok_def)
  then show ?thesis using res by (simp add: native_part_def dt)
qed

definition drifted_db :: database where
  "drifted_db = sample_db\<lparr>users := [], workspace_members := [], channels := [], acl_object := [], acl_grant := [], acl_key := []\<rparr>"

lemma drifted_rebuild: "\<not> isl (fst (Rebuild sample_env drifted_db))"
  by code_simp

lemma drifted_schema: "schema_ok drifted_db"
  by code_simp

theorem rebuild_then_verify_clean_witness:
  "\<exists>stats db'. Rebuild sample_env drifted_db = (Inr stats, db') \<and>
     (\<exists>r. Verify sample_env db' 10 = Inr r \<and> DriftReport_Clean r)"
proof -
  obtain stats db' where r: "Rebuild sample_env drifted_db = (Inr stats, db')"
    using drifted_rebuild by (cases "Rebuild sample_env drifted_db"; cases "fst (Rebuild sample_env drifted_db)") auto
  from rebuild_then_verify_clean [OF drifted_schema sample_env_ok(2) r, of 10] r show ?thesis by blast
qed

text \<open>
  \<open>Rebuild\<close> is idempotent: run again on what it left, with no statement failing, it changes no table and reports
  zero in every count.
\<close>

theorem rebuild_idempotent:
  assumes "schema_ok db" "Rebuild E0 db = (Inr stats, db')" "no_faults E"
  shows "Rebuild E db' = (Inr zero_stats, db') \<and> RebuildStats_Clean zero_stats"
proof -
  have tx: "rebuild_tx E0 db = Inr (db', stats)" using assms(2) by (auto simp: Rebuild_def dest: WithTx_Inr)
  note ok = rebuild_tx_ok [OF tx assms(1)]
  have "rebuild_tx E db' = Inr (db', zero_stats)"
    using rebuild_tx_clean [OF assms(3) ok(1-4)] ok(5) by blast
  then show ?thesis
    using assms(3) by (simp add: Rebuild_def WithTx_def no_faults_def RebuildStats_Clean_def zero_stats_def)
qed

theorem rebuild_idempotent_witness:
  "\<exists>stats db'. Rebuild sample_env drifted_db = (Inr stats, db') \<and> Rebuild sample_env db' = (Inr zero_stats, db')"
proof -
  obtain stats db' where r: "Rebuild sample_env drifted_db = (Inr stats, db')"
    using drifted_rebuild by (cases "Rebuild sample_env drifted_db"; cases "fst (Rebuild sample_env drifted_db)") auto
  from rebuild_idempotent [OF drifted_schema r sample_env_ok(2)] r show ?thesis by blast
qed

text \<open>
  A drift report is clean exactly when the materialization is exact: the keys are the expected keys, every object
  the views derive is stored as derived, and every stored row of a derived type is one of those.
\<close>

theorem verify_clean_means_exact:
  assumes "no_faults E" "objects_ok db"
  shows "(\<exists>r. Verify E db n = Inr r \<and> DriftReport_Clean r) \<longleftrightarrow>
    keys_exact db \<and> set (acl_object_expected db) \<subseteq> set (acl_object db) \<and>
    (\<forall>x \<in> set (acl_object db). ao_type x \<in> set derivedTypeList \<longrightarrow> x \<in> set (acl_object_expected db))"
  using assms(2) by (intro Verify_clean_iff [OF assms(1)]) (simp add: objects_ok_def)

theorem verify_clean_means_exact_witness:
  "(\<exists>r. Verify sample_env sample_db 5 = Inr r \<and> DriftReport_Clean r) \<longleftrightarrow>
    keys_exact sample_db \<and> set (acl_object_expected sample_db) \<subseteq> set (acl_object sample_db) \<and>
    (\<forall>x \<in> set (acl_object sample_db). ao_type x \<in> set derivedTypeList \<longrightarrow> x \<in> set (acl_object_expected sample_db))"
  using verify_clean_means_exact [OF sample_env_ok(2) acl_invD(1) [OF sample_inv], of 5] .

end
