(* ===== verification/Issue_Rank.thy ===== *)
theory Issue_Rank
  imports SO_Prelude
begin

text \<open>
  The order of a board: \<open>backend/internal/issue/rank.go\<close>. A rank is a string over 62 digits in byte order, compared
  bytewise. \<open>Between\<close> makes a rank between two neighbours by growing, \<open>Renormalise\<close> spreads a column evenly. Go's
  \<open>int\<close> is 64 bits wide; every value here is bounded by \<open>62 ^ 9\<close> or by twice the length of a slice.
\<close>

section \<open>Digits\<close>

definition alphabet :: string where
  "alphabet = ''0123456789ABCDEFGHIJKLMNOPQRSTUVWXYZabcdefghijklmnopqrstuvwxyz''"

definition MaxRankLength :: nat where "MaxRankLength = 64"

definition Initial :: string where "Initial = ''U''"

datatype rank_error =
    ErrRankExhausted
  | ErrRankOrder string string
  | RankTooLong
  | NotRankDigit char
  | LowerBound rank_error
  | UpperBound rank_error
  | PastAddressable int

definition index :: "char \<Rightarrow> int" where
  "index c = (if is_digit c then int (of_char c) - 48
              else if is_upper c then int (of_char c) - 65 + 10
              else if is_lower c then int (of_char c) - 97 + 36
              else -1)"

definition digitAt :: "string \<Rightarrow> nat \<Rightarrow> int \<Rightarrow> int" where
  "digitAt rank i def = (if i \<ge> length rank then def else index (rank ! i))"

definition sliceFrom :: "string \<Rightarrow> nat \<Rightarrow> string" where
  "sliceFrom s i = (if i \<ge> length s then [] else drop i s)"

fun validate_digits :: "string \<Rightarrow> rank_error + unit" where
  "validate_digits [] = Inr ()"
| "validate_digits (c # cs) = (if index c < 0 then Inl (NotRankDigit c) else validate_digits cs)"

definition validate :: "string \<Rightarrow> rank_error + unit" where
  "validate rank =
     (if rank = [] then Inr ()
      else if length rank > MaxRankLength then Inl RankTooLong
      else validate_digits rank)"

section \<open>Between\<close>

definition after :: "string \<Rightarrow> rank_error + string" where
  "after lo =
     (if lo = [] then Inr Initial
      else let lst = index (last lo) in
        if lst + 1 < int (length alphabet) - 1
        then Inr (butlast lo @ [alphabet ! nat ((lst + int (length alphabet)) div 2)])
        else if length lo + 1 > MaxRankLength then Inl ErrRankExhausted
        else Inr (lo @ Initial))"

definition before :: "string \<Rightarrow> rank_error + string" where
  "before hi =
     (if hi = [] then Inr Initial
      else let first = index (last hi) in
        if first > 1 then Inr (butlast hi @ [alphabet ! nat (first div 2)])
        else if length hi + 1 > MaxRankLength then Inl ErrRankExhausted
        else Inr (butlast hi @ [alphabet ! 0] @ Initial))"

function between_loop :: "string \<Rightarrow> string \<Rightarrow> nat \<Rightarrow> string \<Rightarrow> rank_error + string" where
  "between_loop lo hi i out =
     (let l = digitAt lo i 0; h = digitAt hi i (int (length alphabet)) in
      if l = h then
        (if length out \<ge> MaxRankLength then Inl ErrRankExhausted
         else between_loop lo hi (i + 1) (out @ [alphabet ! nat l]))
      else if h - l > 1 then Inr (out @ [alphabet ! nat ((l + h) div 2)])
      else let out1 = out @ [alphabet ! nat l] in
        bindR (after (sliceFrom lo (i + 1))) (\<lambda>tail.
          if length out1 + length tail > MaxRankLength then Inl ErrRankExhausted
          else Inr (out1 @ tail)))"
  by pat_completeness auto

termination between_loop
  by (relation "measure (\<lambda>(lo, hi, i, out). max (length lo) (length hi) - i)")
    (auto simp: digitAt_def alphabet_def split: if_splits)

declare between_loop.simps [simp del]

definition between :: "string \<Rightarrow> string \<Rightarrow> rank_error + string" where
  "between lo hi = between_loop lo hi 0 []"

definition wrapR :: "('e \<Rightarrow> 'e) \<Rightarrow> 'e + 'a \<Rightarrow> 'e + 'a" where
  "wrapR f m = (case m of Inl e \<Rightarrow> Inl (f e) | Inr x \<Rightarrow> Inr x)"

definition Between :: "string \<Rightarrow> string \<Rightarrow> rank_error + string" where
  "Between lo hi =
     bindR (wrapR LowerBound (validate lo)) (\<lambda>_.
     bindR (wrapR UpperBound (validate hi)) (\<lambda>_.
       if lo \<noteq> [] \<and> hi \<noteq> [] \<and> lo \<ge> hi then Inl (ErrRankOrder lo hi)
       else if lo = [] \<and> hi = [] then Inr Initial
       else if lo = [] then before hi
       else if hi = [] then after lo
       else between lo hi))"

section \<open>Renormalise\<close>

function renorm_width :: "int \<Rightarrow> nat \<Rightarrow> int \<Rightarrow> rank_error + nat \<times> int" where
  "renorm_width n width capacity =
     (if capacity < n * 2 then
        (let w = width + 1; c = capacity * int (length alphabet)
         in if w > 8 then Inl (PastAddressable n) else renorm_width n w c)
      else Inr (width, capacity))"
  by pat_completeness auto

termination renorm_width
  by (relation "measure (\<lambda>(n, width, capacity). 9 - width)") auto

declare renorm_width.simps [simp del]

fun encode :: "int \<Rightarrow> nat \<Rightarrow> string" where
  "encode value 0 = []"
| "encode value (Suc w) = encode (value div int (length alphabet)) w @ [alphabet ! nat (value mod int (length alphabet))]"

definition Renormalise :: "int \<Rightarrow> rank_error + string list" where
  "Renormalise n =
     (if n \<le> 0 then Inr []
      else if n = 1 then Inr [Initial]
      else bindR (renorm_width n 1 (int (length alphabet))) (\<lambda>(width, capacity).
        let step0 = capacity div (n + 1); step = (if step0 < 1 then 1 else step0)
        in Inr (map (\<lambda>i. encode ((int i + 1) * step) width) [0..<nat n])))"

section \<open>The digits in order\<close>

definition rank_digits :: "string \<Rightarrow> bool" where
  "rank_digits s \<longleftrightarrow> (\<forall>c \<in> set s. 0 \<le> index c)"

lemma length_alphabet [simp]: "length alphabet = 62"
  by (simp add: alphabet_def)

lemma index_alphabet_all: "\<forall>i \<in> set [0..<62]. index (alphabet ! i) = int i"
  by code_simp

lemma index_alphabet [simp]: "0 \<le> d \<Longrightarrow> d < 62 \<Longrightarrow> index (alphabet ! nat d) = d"
  using index_alphabet_all by simp

lemma index_bounds: "index c < 62" "-1 \<le> index c"
  by (auto simp: index_def is_digit_def is_upper_def is_lower_def less_eq_char_def)

lemma index_less_iff: "0 \<le> index c \<Longrightarrow> 0 \<le> index d \<Longrightarrow> c < d \<longleftrightarrow> index c < index d"
  by (auto simp: index_def is_digit_def is_upper_def is_lower_def less_char_def less_eq_char_def split: if_splits)

lemma digit_ok: "0 \<le> d \<Longrightarrow> d < 62 \<Longrightarrow> 0 \<le> index (alphabet ! nat d)"
  by simp

lemma digit_less_iff:
  assumes "0 \<le> index c" "0 \<le> d" "d < 62"
  shows "c < alphabet ! nat d \<longleftrightarrow> index c < d" "alphabet ! nat d < c \<longleftrightarrow> d < index c"
  using assms index_less_iff [of c "alphabet ! nat d"] index_less_iff [of "alphabet ! nat d" c] by simp_all

lemma index_digit:
  assumes "0 \<le> index c"
  shows "alphabet ! nat (index c) = c"
proof -
  let ?d = "alphabet ! nat (index c)"
  have "index ?d = index c" using assms index_bounds(1) by simp
  then have "\<not> c < ?d" "\<not> ?d < c" using assms index_less_iff [of c ?d] index_less_iff [of ?d c] by simp_all
  then show ?thesis by (metis linorder_less_linear)
qed

lemma index_zero_iff: "0 \<le> index c \<Longrightarrow> index c = 0 \<longleftrightarrow> c = CHR ''0''"
  using index_digit [of c] by (auto simp: alphabet_def index_def is_digit_def)

lemma Initial_props [simp]: "rank_digits Initial" "Initial \<noteq> []" "length Initial = 1" "last Initial \<noteq> CHR ''0''"
  by (simp_all add: Initial_def rank_digits_def index_def is_digit_def is_upper_def)

lemma rank_digits_simps [simp]:
  "rank_digits []" "rank_digits (c # s) \<longleftrightarrow> 0 \<le> index c \<and> rank_digits s"
  "rank_digits (s @ t) \<longleftrightarrow> rank_digits s \<and> rank_digits t"
  by (auto simp: rank_digits_def)

lemma rank_digits_butlast: "rank_digits s \<Longrightarrow> rank_digits (butlast s)"
  by (auto simp: rank_digits_def dest: in_set_butlastD)

lemma validate_digits_iff: "validate_digits s = Inr u \<longleftrightarrow> rank_digits s"
  by (induction s) auto

lemma validate_iff: "validate s = Inr u \<longleftrightarrow> rank_digits s \<and> length s \<le> MaxRankLength"
  by (auto simp: validate_def validate_digits_iff)

section \<open>Bytewise order\<close>

lemma less_list_append [simp]: "xs @ ys < xs @ zs \<longleftrightarrow> ys < (zs :: string)"
  by (induction xs) auto

lemma prefix_less: "ys \<noteq> [] \<Longrightarrow> xs < xs @ (ys :: string)"
  using less_list_append [of xs "[]" ys] by (cases ys) auto

lemma snoc_less: "c < d \<Longrightarrow> xs @ [c] < xs @ d # (ys :: string)"
  by simp

section \<open>after and before\<close>

definition good_rank :: "string \<Rightarrow> bool" where
  \<comment> \<open>what \<open>Between\<close> produces: digits, not empty, not ending in the lowest digit\<close>
  "good_rank r \<longleftrightarrow> rank_digits r \<and> r \<noteq> [] \<and> last r \<noteq> CHR ''0''"

lemma good_digit: "0 < d \<Longrightarrow> d < 62 \<Longrightarrow> rank_digits s \<Longrightarrow> good_rank (s @ [alphabet ! nat d])"
  using index_zero_iff [of "alphabet ! nat d"] by (auto simp: good_rank_def)

lemma last_index:
  assumes "rank_digits s" "s \<noteq> []"
  shows "0 \<le> index (last s)" "s = butlast s @ [last s]"
  using assms by (auto simp: rank_digits_def)

lemma after_props:
  assumes "rank_digits lo" "after lo = Inr r"
  shows "lo < r" "good_rank r" "length r \<le> length lo + 1"
proof -
  let ?l = "index (last lo)"
  have c: "lo = [] \<and> r = Initial \<or>
    lo \<noteq> [] \<and> ?l + 1 < 61 \<and> r = butlast lo @ [alphabet ! nat ((?l + 62) div 2)] \<or>
    lo \<noteq> [] \<and> r = lo @ Initial"
    using assms(2) by (auto simp: after_def Let_def split: if_splits)
  have "lo < r \<and> good_rank r \<and> length r \<le> length lo + 1"
    using c
  proof (elim disjE)
    assume a: "lo \<noteq> [] \<and> ?l + 1 < 61 \<and> r = butlast lo @ [alphabet ! nat ((?l + 62) div 2)]"
    note li = last_index [OF assms(1) conjunct1 [OF a]]
    have m: "?l < (?l + 62) div 2" "(?l + 62) div 2 < 62" "0 \<le> (?l + 62) div 2" using a li(1) by auto
    have "last lo < alphabet ! nat ((?l + 62) div 2)" using digit_less_iff(1) [OF li(1) m(3,2)] m(1) by simp
    then have "butlast lo @ [last lo] < r" using a by (simp del: append_butlast_last_id)
    then have "lo < r" using a by simp
    then show ?thesis
      using a li(1) m good_digit [OF _ m(2) rank_digits_butlast [OF assms(1)]] by auto
  qed (use assms(1) prefix_less [of Initial "[]"] in \<open>auto simp: good_rank_def prefix_less\<close>)
  then show "lo < r" "good_rank r" "length r \<le> length lo + 1" by simp_all
qed

lemma after_total: "length lo < MaxRankLength \<Longrightarrow> \<exists>r. after lo = Inr r"
  by (auto simp: after_def Let_def)

lemma before_props:
  assumes "good_rank hi" "before hi = Inr r"
  shows "r < hi" "good_rank r" "length r \<le> length hi + 1"
proof -
  let ?f = "index (last hi)"
  have hi: "hi \<noteq> []" "rank_digits hi" using assms(1) by (auto simp: good_rank_def)
  note li = last_index [OF hi(2,1)]
  have f: "0 < ?f" "?f < 62"
    using assms(1) li(1) index_zero_iff [OF li(1)] index_bounds(1) by (auto simp: good_rank_def)
  have c: "1 < ?f \<and> r = butlast hi @ [alphabet ! nat (?f div 2)] \<or>
    ?f = 1 \<and> r = butlast hi @ [alphabet ! 0] @ Initial"
    using assms(2) hi(1) f by (auto simp: before_def Let_def split: if_splits)
  have "r < butlast hi @ [last hi] \<and> good_rank r \<and> length r \<le> length hi + 1"
    using c
  proof
    assume a: "1 < ?f \<and> r = butlast hi @ [alphabet ! nat (?f div 2)]"
    have m: "0 < ?f div 2" "?f div 2 < ?f" "?f div 2 < 62" "0 \<le> ?f div 2" using a f by auto
    have "alphabet ! nat (?f div 2) < last hi" using digit_less_iff(2) [OF li(1) m(4,3)] m(2) by simp
    then have "r < butlast hi @ [last hi]" using a by (simp del: append_butlast_last_id)
    then show ?thesis using a good_digit [OF m(1,3) rank_digits_butlast [OF hi(2)]] by auto
  next
    assume a: "?f = 1 \<and> r = butlast hi @ [alphabet ! 0] @ Initial"
    have "alphabet ! 0 < last hi" using digit_less_iff(2) [OF li(1), of 0] f by simp
    then have "r < butlast hi @ [last hi]" using a by (simp del: append_butlast_last_id)
    moreover have "good_rank r" using a rank_digits_butlast [OF hi(2)] digit_ok [of 0] by (auto simp: good_rank_def)
    ultimately show ?thesis using a hi(1) by auto
  qed
  then show "r < hi" "good_rank r" "length r \<le> length hi + 1" using li(2) by simp_all
qed

lemma before_total: "length hi < MaxRankLength \<Longrightarrow> \<exists>r. before hi = Inr r"
  by (auto simp: before_def Let_def)

section \<open>The loop of between\<close>

text \<open>The loop as a recursion on the remaining digits of the two bounds; \<open>n\<close> digits have been written.\<close>

fun mid :: "string \<Rightarrow> string \<Rightarrow> nat \<Rightarrow> rank_error + string" where
  "mid lo [] n = Inr [alphabet ! nat ((digitAt lo 0 0 + 62) div 2)]"
| "mid lo (c # hs) n =
     (let l = digitAt lo 0 0; h = index c in
      if l = h then
        (if n \<ge> MaxRankLength then Inl ErrRankExhausted
         else bindR (mid (tl lo) hs (n + 1)) (\<lambda>r. Inr ((alphabet ! nat l) # r)))
      else if h - l > 1 then Inr [alphabet ! nat ((l + h) div 2)]
      else bindR (after (tl lo)) (\<lambda>tail.
          if n + 1 + length tail > MaxRankLength then Inl ErrRankExhausted
          else Inr ((alphabet ! nat l) # tail)))"

lemma digitAt_drop: "digitAt s i d = digitAt (drop i s) 0 d"
  by (cases "i < length s") (auto simp: digitAt_def)

lemma between_loop_mid:
  assumes "length out = i" "lo < hi" "rank_digits lo" "rank_digits hi" "i < length hi" "drop i lo < drop i hi"
    "last hi \<noteq> CHR ''0''"
  shows "between_loop lo hi i out = bindR (mid (drop i lo) (drop i hi) i) (\<lambda>r. Inr (out @ r))"
  using assms
proof (induction lo hi i out rule: between_loop.induct)
  case (1 lo hi i out)
  let ?l = "digitAt lo i 0" and ?h = "digitAt hi i 62"
  have tl: "tl (drop i lo) = drop (i + 1) lo" "sliceFrom lo (i + 1) = drop (i + 1) lo"
    by (simp_all add: tl_drop drop_Suc sliceFrom_def)
  have slice: "sliceFrom lo (Suc i) = drop (Suc i) lo" using tl(2) by simp
  have hd: "drop i hi = hi ! i # drop (i + 1) hi" using 1(6) by (simp add: Cons_nth_drop_Suc)
  have lh: "digitAt (drop i lo) 0 0 = ?l" "index (hi ! i) = ?h"
    using 1(6) digitAt_drop [of lo i 0] by (simp_all add: digitAt_def)
  show ?case
  proof (cases "?l = ?h \<and> length out < MaxRankLength")
    case True
    have hpos: "0 \<le> ?h" using 1(5,6) by (auto simp: digitAt_def rank_digits_def)
    have rest: "drop (i + 1) lo < drop (i + 1) hi \<and> i + 1 < length hi"
    proof (cases "i < length lo")
      case c: True
      have "drop i lo = lo ! i # drop (i + 1) lo" using c by (simp add: Cons_nth_drop_Suc)
      moreover have "lo ! i = hi ! i"
        using True c 1(4-6) index_less_iff [of "lo ! i" "hi ! i"] index_less_iff [of "hi ! i" "lo ! i"]
        by (auto simp: digitAt_def rank_digits_def)
      ultimately have "drop (i + 1) lo < drop (i + 1) hi" using 1(7) hd by simp
      moreover from this have "drop (i + 1) hi \<noteq> []" by (cases "drop (i + 1) hi") auto
      ultimately show ?thesis by simp
    next
      case c: False
      then have "index (hi ! i) = 0" using True 1(6) by (simp add: digitAt_def)
      then have "hi ! i = CHR ''0''" using index_zero_iff [of "hi ! i"] by simp
      then have "i + 1 \<noteq> length hi" using 1(8) by (metis add_diff_cancel_right' last_conv_nth length_0_conv not_less_zero 1(6))
      then have "i + 1 < length hi" using 1(6) by simp
      moreover have "drop (i + 1) lo = []" using c by simp
      ultimately show ?thesis by (cases "drop (i + 1) hi") auto
    qed
    have "between_loop lo hi (i + 1) (out @ [alphabet ! nat ?l]) =
        bindR (mid (drop (i + 1) lo) (drop (i + 1) hi) (i + 1)) (\<lambda>r. Inr ((out @ [alphabet ! nat ?l]) @ r))"
      by (rule 1(1)) (use True rest 1 in auto)
    then show ?thesis
      using True 1(2) lh unfolding hd between_loop.simps [of lo hi i out]
      by (simp add: Let_def tl bindR_def split: sum.split)
  next
    case False
    then show ?thesis
    proof (cases "?l = ?h")
      case True
      with False 1(2) lh show ?thesis unfolding hd between_loop.simps [of lo hi i out] by simp
    next
      case ne: False
      with 1(2) lh show ?thesis
        unfolding hd between_loop.simps [of lo hi i out]
        by (cases "after (drop (Suc i) lo)") (simp_all add: Let_def tl slice)
    qed
  qed
qed

lemma digitAt_range: "rank_digits lo \<Longrightarrow> 0 \<le> digitAt lo 0 0 \<and> digitAt lo 0 0 < 62"
  using index_bounds(1) by (cases lo) (auto simp: digitAt_def)

lemma rank_digits_tl: "rank_digits s \<Longrightarrow> rank_digits (tl s)"
  by (cases s) auto

lemma good_rank_Cons: "good_rank r \<Longrightarrow> 0 \<le> index c \<Longrightarrow> good_rank (c # r)"
  by (auto simp: good_rank_def)

text \<open>The lower bound written digit by digit: missing digits count as the lowest.\<close>

lemma lo_less_Cons:
  assumes "rank_digits lo" "tl lo < r"
  shows "lo < (alphabet ! nat (digitAt lo 0 0)) # r"
proof (cases lo)
  case (Cons b ls)
  then have "alphabet ! nat (digitAt lo 0 0) = b" using assms(1) index_digit by (simp add: digitAt_def)
  with Cons assms(2) show ?thesis by simp
qed simp

lemma lo_less_digit:
  assumes "rank_digits lo" "digitAt lo 0 0 < d" "d < 62"
  shows "lo < (alphabet ! nat d) # r"
proof (cases lo)
  case (Cons b ls)
  then have "b < alphabet ! nat d" using assms digit_less_iff(1) [of b d] by (simp add: digitAt_def)
  with Cons show ?thesis by simp
qed simp

lemma lo_hi_digit:
  assumes "rank_digits lo" "rank_digits (c # hs)" "lo < c # hs"
  shows "digitAt lo 0 0 \<le> index c" "digitAt lo 0 0 = index c \<Longrightarrow> lo = [] \<or> tl lo < hs"
proof -
  have "lo = [] \<or> (\<exists>b ls. lo = b # ls \<and> (b < c \<or> b = c \<and> ls < hs))" using assms(3) by (cases lo) auto
  then show "digitAt lo 0 0 \<le> index c" "digitAt lo 0 0 = index c \<Longrightarrow> lo = [] \<or> tl lo < hs"
    using assms(1,2) index_less_iff [of _ c] by (auto simp: digitAt_def)
qed

lemma mid_props:
  assumes "rank_digits lo" "good_rank hi" "lo < hi" "n + length lo \<le> MaxRankLength" "n + length hi \<le> MaxRankLength"
    "mid lo hi n = Inr r"
  shows "lo < r \<and> r < hi \<and> good_rank r \<and> n + length r \<le> MaxRankLength \<and> length r \<le> max (length lo) (length hi) + 1"
  using assms
proof (induction hi arbitrary: lo n r)
  case Nil
  then show ?case by (simp add: good_rank_def)
next
  case (Cons c hs)
  let ?l = "digitAt lo 0 0"
  have dig: "rank_digits (c # hs)" "0 \<le> index c" using Cons.prems(2) by (auto simp: good_rank_def)
  note lr = digitAt_range [OF Cons.prems(1)] and lh = lo_hi_digit [OF Cons.prems(1) dig(1) Cons.prems(3)]
  have cap: "index c < 62" by (rule index_bounds(1))
  consider (same) "?l = index c" | (room) "index c - ?l > 1" | (adjacent) "index c = ?l + 1" using lh(1) by linarith
  then show ?case
  proof cases
    case same
    obtain r' where r': "mid (tl lo) hs (n + 1) = Inr r'" "r = (alphabet ! nat ?l) # r'"
      using Cons.prems(6) same by (auto simp: Let_def bindR_Inr_iff split: if_splits)
    have c: "alphabet ! nat ?l = c" using same index_digit [OF dig(2)] by simp
    have hs: "hs \<noteq> []"
    proof
      assume e: "hs = []"
      then have "lo = []" using lh(2) [OF same] by auto
      then have "index c = 0" using same by (simp add: digitAt_def)
      then show False using e Cons.prems(2) index_zero_iff [OF dig(2)] by (simp add: good_rank_def)
    qed
    have "tl lo < hs" using lh(2) [OF same] hs by (cases hs) auto
    moreover have "good_rank hs" using Cons.prems(2) hs by (auto simp: good_rank_def)
    moreover have "n + 1 + length (tl lo) \<le> MaxRankLength" "n + 1 + length hs \<le> MaxRankLength"
      using Cons.prems(4,5) hs by (cases lo; auto)+
    ultimately have IH: "tl lo < r' \<and> r' < hs \<and> good_rank r' \<and> n + 1 + length r' \<le> MaxRankLength \<and>
        length r' \<le> max (length (tl lo)) (length hs) + 1"
      using Cons.IH [OF rank_digits_tl [OF Cons.prems(1)] _ _ _ _ r'(1)] by simp
    have "lo < r" using lo_less_Cons [OF Cons.prems(1)] IH r'(2) by blast
    moreover have "good_rank r" using IH dig(2) good_rank_Cons r'(2) c by metis
    ultimately show ?thesis using IH r'(2) c by auto
  next
    case room
    let ?m = "(?l + index c) div 2"
    have r: "r = [alphabet ! nat ?m]" using Cons.prems(6) room by (auto simp: Let_def)
    have m: "?l < ?m" "?m < index c" "?m < 62" "0 < ?m" using room lr cap by auto
    have "alphabet ! nat ?m < c" using digit_less_iff(2) [OF dig(2)] m by simp
    then show ?thesis
      using r lo_less_digit [OF Cons.prems(1) m(1,3)] good_digit [OF m(4,3), of "[]"] Cons.prems(5) by auto
  next
    case adjacent
    obtain t where t: "after (tl lo) = Inr t" "r = (alphabet ! nat ?l) # t" "n + 1 + length t \<le> MaxRankLength"
      using Cons.prems(6) adjacent by (auto simp: Let_def bindR_Inr_iff split: if_splits)
    note a = after_props [OF rank_digits_tl [OF Cons.prems(1)] t(1)]
    have "alphabet ! nat ?l < c" using digit_less_iff(2) [OF dig(2)] lr adjacent by simp
    moreover have "good_rank r" unfolding t(2) using good_rank_Cons [OF a(2)] digit_ok lr by blast
    moreover have "length r \<le> max (length lo) (length (c # hs)) + 1" using t(2) a(3) by (cases lo) auto
    ultimately show ?thesis using t(2,3) lo_less_Cons [OF Cons.prems(1) a(1)] by auto
  qed
qed

lemma mid_total:
  assumes "n + length lo < MaxRankLength" "n + length hi < MaxRankLength"
  shows "\<exists>r. mid lo hi n = Inr r"
  using assms
proof (induction lo hi n rule: mid.induct)
  case (2 lo c hs n)
  obtain t where "after (tl lo) = Inr t" using after_total [of "tl lo"] 2(2) by (cases lo) auto
  moreover have "n + 1 + length t \<le> MaxRankLength"
  proof -
    have "length t \<le> length (tl lo) + 1" if "after (tl lo) = Inr t"
      using that by (auto simp: after_def Let_def split: if_splits)
    then show ?thesis using calculation 2(2,3) by (cases lo) auto
  qed
  moreover have "\<exists>r. mid (tl lo) hs (n + 1) = Inr r" if "digitAt lo 0 0 = index c"
    using 2(1) that 2(2,3) by (cases lo) auto
  ultimately show ?case using 2(3) by (auto simp: Let_def)
qed simp

section \<open>The contract of Between\<close>

definition bound_ok :: "string \<Rightarrow> bool" where
  \<comment> \<open>a bound \<open>Between\<close> accepts, and, on the upper side, one it keeps below\<close>
  "bound_ok s \<longleftrightarrow> rank_digits s \<and> length s \<le> MaxRankLength"

lemma Between_accepts:
  assumes "bound_ok lo" "bound_ok hi"
  shows "Between lo hi =
    (if lo \<noteq> [] \<and> hi \<noteq> [] \<and> lo \<ge> hi then Inl (ErrRankOrder lo hi)
     else if lo = [] \<and> hi = [] then Inr Initial
     else if lo = [] then before hi else if hi = [] then after lo else between lo hi)"
proof -
  have "validate lo = Inr ()" "validate hi = Inr ()" using assms by (simp_all add: validate_iff bound_ok_def)
  then show ?thesis by (simp add: Between_def wrapR_def)
qed

lemma between_mid:
  assumes "rank_digits lo" "good_rank hi" "lo < hi"
  shows "between lo hi = mid lo hi 0"
proof -
  have "between_loop lo hi 0 [] = bindR (mid (drop 0 lo) (drop 0 hi) 0) (\<lambda>r. Inr ([] @ r))"
    by (rule between_loop_mid) (use assms in \<open>auto simp: good_rank_def\<close>)
  then show ?thesis by (simp add: between_def bindR_def split: sum.splits)
qed

lemma Between_length:
  assumes "bound_ok lo" "hi = [] \<or> good_rank hi" "bound_ok hi" "Between lo hi = Inr r"
  shows "(lo = [] \<or> lo < r) \<and> (hi = [] \<or> r < hi) \<and> good_rank r \<and> length r \<le> MaxRankLength \<and>
    length r \<le> max (length lo) (length hi) + 1"
proof -
  have lo: "rank_digits lo" "length lo \<le> MaxRankLength" and hl: "length hi \<le> MaxRankLength"
    using assms(1,3) by (auto simp: bound_ok_def)
  note B = Between_accepts [OF assms(1,3)] and r = assms(4)
  have after_len: "after lo = Inr r \<Longrightarrow> length r \<le> MaxRankLength"
    using lo(2) by (auto simp: after_def Let_def MaxRankLength_def split: if_splits)
  have before_len: "before hi = Inr r \<Longrightarrow> length r \<le> MaxRankLength"
    using hl by (auto simp: before_def Let_def MaxRankLength_def split: if_splits)
  consider (start) "lo = []" "hi = []" | (bef) "lo = []" "hi \<noteq> []" | (aft) "lo \<noteq> []" "hi = []" | (inner) "lo \<noteq> []" "hi \<noteq> []"
    by blast
  then show ?thesis
  proof cases
    case start
    then show ?thesis using B r by (simp add: good_rank_def MaxRankLength_def)
  next
    case bef
    then have "before hi = Inr r" using B r by simp
    then show ?thesis using before_props assms(2) bef before_len by auto
  next
    case aft
    then have "after lo = Inr r" using B r by simp
    then show ?thesis using after_props lo(1) aft after_len by auto
  next
    case inner
    then have g: "good_rank hi" and l: "lo < hi" using assms(2) B r by (auto split: if_splits)
    then have "mid lo hi 0 = Inr r" using B r inner between_mid [OF lo(1) g l] by (auto split: if_splits)
    then show ?thesis using mid_props [OF lo(1) g l _ _, of 0 r] lo(2) hl by simp
  qed
qed

text \<open>
  C12. \<open>Between\<close> returns a rank that sorts strictly after its lower bound and strictly before its upper one (an empty
  bound is no bound), of rank digits only, at most \<open>MaxRankLength\<close> long and at most one digit longer than the longer
  bound, provided the upper bound does not end in the lowest digit; and what it returns never does, so it can be an
  upper bound itself.
\<close>

theorem Between_strictly_between:
  assumes "hi = [] \<or> last hi \<noteq> CHR ''0''" "Between lo hi = Inr r"
  shows "(lo = [] \<or> lo < r) \<and> (hi = [] \<or> r < hi) \<and> r \<noteq> [] \<and> last r \<noteq> CHR ''0'' \<and> validate r = Inr () \<and>
    length r \<le> max (length lo) (length hi) + 1"
proof -
  have v: "validate lo = Inr ()" "validate hi = Inr ()"
    using assms(2) by (auto simp: Between_def bindR_Inr_iff wrapR_def split: sum.splits)
  then have b: "bound_ok lo" "bound_ok hi" by (simp_all add: validate_iff bound_ok_def)
  then have "hi = [] \<or> good_rank hi" using assms(1) by (auto simp: good_rank_def bound_ok_def)
  from Between_length [OF b(1) this b(2) assms(2)] show ?thesis
    by (auto simp: good_rank_def validate_iff)
qed

theorem Between_strictly_between_witness:
  "Between ''A'' ''B'' = Inr ''AU'' \<and> ''A'' < ''AU'' \<and> ''AU'' < ''B''"
proof -
  have "Between ''A'' ''B'' = Inr ''AU''" by code_simp
  with Between_strictly_between [of "''B''" "''A''" "''AU''"] show ?thesis by simp
qed

text \<open>
  C13. \<open>Between\<close> refuses only for a reason: with two bounds that consist of rank digits (or are empty, for no bound) and are in
  order, both shorter than the limit and the upper one not ending in the lowest digit, it returns a rank. Next to ranks that do not end
  in \<open>0\<close>, drops into one gap can therefore fail only after the ranks around it have grown to \<open>MaxRankLength\<close>; a rank that \<open>Renormalise\<close>
  hands out may end in \<open>0\<close> and is not covered as an upper bound.
\<close>

theorem Between_succeeds:
  assumes "validate lo = Inr ()" "validate hi = Inr ()" "length lo < MaxRankLength" "length hi < MaxRankLength"
    "lo = [] \<or> hi = [] \<or> lo < hi" "hi = [] \<or> last hi \<noteq> CHR ''0''"
  shows "\<exists>r. Between lo hi = Inr r"
proof -
  have b: "bound_ok lo" "bound_ok hi" using assms(1,2) by (simp_all add: validate_iff bound_ok_def)
  have lo: "rank_digits lo" using b(1) by (simp add: bound_ok_def)
  have "\<exists>r. between lo hi = Inr r" if "lo < hi" "hi \<noteq> []"
  proof -
    have "good_rank hi" using that assms(6) b(2) by (auto simp: good_rank_def bound_ok_def)
    then show ?thesis using between_mid [OF lo _ that(1)] mid_total [of 0 lo hi] assms(3,4) by simp
  qed
  then show ?thesis
    using Between_accepts [OF b] assms(3-5) after_total [of lo] before_total [of hi] by (auto simp: not_le)
qed

theorem Between_succeeds_witness: "\<exists>r. Between ''Az'' ''B'' = Inr r"
  by (rule Between_succeeds) code_simp+

text \<open>
  An upper bound that ends in the lowest digit is not respected: \<open>Between\<close> returns a rank above it, and such a
  bound is what \<open>Renormalise\<close> itself hands out.
\<close>

theorem Between_ignores_trailing_zero:
  "Between [] ''10'' = Inr ''10U'' \<and> ''10'' < ''10U'' \<and> Between ''A'' ''A0'' = Inr ''A0V'' \<and> ''A0'' < ''A0V'' \<and>
   (\<exists>ranks. Renormalise 61 = Inr ranks \<and> hd ranks = ''10'')"
proof -
  have "Between [] ''10'' = Inr ''10U''" "''10'' < ''10U''" "Between ''A'' ''A0'' = Inr ''A0V''" "''A0'' < ''A0V''"
    by code_simp+
  moreover have "case Renormalise 61 of Inl _ \<Rightarrow> False | Inr ranks \<Rightarrow> hd ranks = ''10''" by code_simp
  then have "\<exists>ranks. Renormalise 61 = Inr ranks \<and> hd ranks = ''10''" by (auto split: sum.splits)
  ultimately show ?thesis by blast
qed

section \<open>The contract of Renormalise\<close>

lemma encode_digits: "rank_digits (encode v w)" "length (encode v w) = w"
proof -
  have "0 \<le> index (alphabet ! nat (x mod 62))" for x :: int by (rule digit_ok) simp_all
  then show "rank_digits (encode v w)" by (induction w arbitrary: v) simp_all
  show "length (encode v w) = w" by (induction w arbitrary: v) simp_all
qed

lemma less_append_same_length:
  "length xs = length ys \<Longrightarrow> xs < ys \<Longrightarrow> xs @ us < ys @ (vs :: string)"
  by (induction xs ys rule: list_induct2) auto

lemma encode_mono:
  "0 \<le> v \<Longrightarrow> v < v' \<Longrightarrow> v' < 62 ^ w \<Longrightarrow> encode v w < encode v' w"
proof (induction w arbitrary: v v')
  case (Suc w)
  let ?d = "\<lambda>x :: int. alphabet ! nat (x mod 62)"
  have q: "v div 62 \<le> v' div 62" using Suc.prems(2) by (intro zdiv_mono1) simp_all
  show ?case
  proof (cases "v div 62 = v' div 62")
    case True
    then have "v mod 62 < v' mod 62" using Suc.prems(2) div_mult_mod_eq [of v 62] div_mult_mod_eq [of v' 62] by linarith
    then have "?d v < ?d v'" using digit_less_iff(1) [of "?d v" "v' mod 62"] by simp
    then show ?thesis using True by simp
  next
    case False
    then have "v div 62 < v' div 62" using q by simp
    moreover have "0 \<le> v div 62" using Suc.prems(1) by simp
    moreover have "v' div 62 < 62 ^ w" using Suc.prems(3) by (simp add: div_less_iff_less_mult mult.commute)
    ultimately have "encode (v div 62) w < encode (v' div 62) w" by (intro Suc.IH)
    then show ?thesis using less_append_same_length encode_digits(2) by simp
  qed
qed simp

lemma renorm_width_props:
  assumes "renorm_width n w c = Inr (w', c')" "c = 62 ^ w" "w \<le> 8"
  shows "c' = 62 ^ w'" "n * 2 \<le> c'" "w' \<le> 8" "w \<le> w'"
proof -
  have "c' = 62 ^ w' \<and> n * 2 \<le> c' \<and> w' \<le> 8 \<and> w \<le> w'"
    using assms
  proof (induction n w c rule: renorm_width.induct)
    case (1 n w c)
    show ?case
    proof (cases "c < n * 2")
      case True
      then have le: "\<not> 8 < w + 1" and r: "renorm_width n (w + 1) (c * int (length alphabet)) = Inr (w', c')"
        using 1(2) by (simp_all add: renorm_width.simps [of n w c] split: if_splits)
      have "c' = 62 ^ w' \<and> n * 2 \<le> c' \<and> w' \<le> 8 \<and> w + 1 \<le> w'"
        using 1(1) [OF True refl refl le r] 1(3) le by simp
      then show ?thesis by simp
    next
      case False
      then have "renorm_width n w c = Inr (w, c)" by (simp add: renorm_width.simps [of n w c])
      then show ?thesis using 1(2-4) False by auto
    qed
  qed
  then show "c' = 62 ^ w'" "n * 2 \<le> c'" "w' \<le> 8" "w \<le> w'" by simp_all
qed

lemma renorm_width_total:
  assumes "n * 2 \<le> 62 ^ 8" "c = 62 ^ w" "w \<le> 8"
  shows "\<exists>p. renorm_width n w c = Inr p"
  using assms
proof (induction n w c rule: renorm_width.induct)
  case (1 n w c)
  show ?case
  proof (cases "c < n * 2")
    case True
    then have "w \<noteq> 8" using 1(2,3) by auto
    then have "\<not> 8 < w + 1" using 1(4) by simp
    moreover from this obtain p where "renorm_width n (w + 1) (c * int (length alphabet)) = Inr p"
      using 1(1) [OF True refl refl] 1(2,3) by auto
    ultimately show ?thesis using True by (simp add: renorm_width.simps [of n w c])
  qed (simp add: renorm_width.simps [of n w c])
qed

lemma Renormalise_props:
  assumes "Renormalise n = Inr ranks" "0 \<le> n"
  shows "length ranks = nat n" "sorted_wrt (<) ranks" "\<forall>r \<in> set ranks. validate r = Inr () \<and> r \<noteq> []"
proof -
  have "length ranks = nat n \<and> sorted_wrt (<) ranks \<and> (\<forall>r \<in> set ranks. validate r = Inr () \<and> r \<noteq> [])"
  proof (cases "n \<le> 1")
    case True
    then consider "n = 0" "ranks = []" | "n = 1" "ranks = [Initial]"
      using assms by (cases "n = 0") (simp_all add: Renormalise_def)
    then show ?thesis by cases (simp_all add: validate_iff MaxRankLength_def)
  next
    case False
    obtain w c where wc: "renorm_width n 1 62 = Inr (w, c)"
      using assms(1) False by (auto simp: Renormalise_def bindR_Inr_iff)
    note wp = renorm_width_props [OF wc]
    define st where "st = c div (n + 1)"
    have c: "c = 62 ^ w" "n * 2 \<le> c" "w \<le> 8" "1 \<le> w" using wp by simp_all
    have "1 * (n + 1) \<le> c" using c(2) False by simp
    then have st: "1 \<le> st" using False zdiv_mono1 [of "1 * (n + 1)" c "n + 1"] by (simp add: st_def)
    have ranks: "ranks = map (\<lambda>i. encode ((int i + 1) * st) w) [0..<nat n]"
      using assms(1) False wc st by (simp add: Renormalise_def st_def Let_def)
    have top: "(int i + 1) * st < c" if "i < nat n" for i
    proof -
      have "(int i + 1) * st \<le> n * st" using that st by (intro mult_right_mono) auto
      also have "\<dots> < (n + 1) * st" using st by (simp add: distrib_right)
      also have "\<dots> \<le> c" using False unfolding st_def by (simp add: mult.commute minus_mod_eq_mult_div [symmetric])
      finally show ?thesis .
    qed
    have "encode ((int i + 1) * st) w < encode ((int j + 1) * st) w" if "i < j" "j < nat n" for i j
    proof (rule encode_mono)
      show "(int i + 1) * st < (int j + 1) * st" using that st by (intro mult_strict_right_mono) auto
      show "0 \<le> (int i + 1) * st" using st by simp
      show "(int j + 1) * st < 62 ^ w" using top [OF that(2)] c(1) by simp
    qed
    then have "sorted_wrt (<) ranks" by (simp add: ranks sorted_wrt_iff_nth_less)
    moreover have "validate r = Inr () \<and> r \<noteq> []" if "r \<in> set ranks" for r
    proof -
      obtain v where r: "r = encode v w" using \<open>r \<in> set ranks\<close> by (auto simp: ranks)
      show ?thesis using encode_digits [of v w] c(3,4) unfolding r validate_iff MaxRankLength_def by (auto simp del: length_0_conv simp: length_0_conv [symmetric])
    qed
    ultimately show ?thesis by (simp add: ranks)
  qed
  then show "length ranks = nat n" "sorted_wrt (<) ranks" "\<forall>r \<in> set ranks. validate r = Inr () \<and> r \<noteq> []" by simp_all
qed

lemma Renormalise_total:
  assumes "0 \<le> n" "n * 2 \<le> 62 ^ 8"
  shows "\<exists>ranks. Renormalise n = Inr ranks"
proof -
  have "\<exists>p. renorm_width n 1 62 = Inr p" using renorm_width_total [OF assms(2), of 62 1] by simp
  then obtain w c where "renorm_width n 1 (int (length alphabet)) = Inr (w, c)" by auto
  then show ?thesis by (simp add: Renormalise_def Let_def)
qed

text \<open>
  \<open>Renormalise\<close> of any number of items a board can hold returns that many ranks, each one a valid rank, in strictly
  increasing order.
\<close>

theorem Renormalise_spreads:
  assumes "0 \<le> n" "n * 2 \<le> 62 ^ 8"
  shows "\<exists>ranks. Renormalise n = Inr ranks \<and> length ranks = nat n \<and> sorted_wrt (<) ranks \<and>
    (\<forall>r \<in> set ranks. validate r = Inr () \<and> r \<noteq> [])"
proof -
  obtain ranks where "Renormalise n = Inr ranks" using Renormalise_total [OF assms] ..
  then show ?thesis using Renormalise_props [OF _ assms(1)] by blast
qed

theorem Renormalise_spreads_witness:
  "\<exists>ranks. Renormalise 100 = Inr ranks \<and> length ranks = nat 100 \<and> sorted_wrt (<) ranks \<and>
    (\<forall>r \<in> set ranks. validate r = Inr () \<and> r \<noteq> [])"
  by (rule Renormalise_spreads) simp_all

end
