(* ===== verification/Issue_Board.thy ===== *)
theory Issue_Board
  imports Issue_Rank Authz_Machine
begin

text \<open>
  Work tracking: \<open>backend/internal/issue/repository.go\<close> over the tables of \<open>backend/migrations/031\<close> and the permission
  tables, which \<open>CreateProject\<close> and \<open>CreateIssue\<close> write through \<open>RegisterTx\<close> and \<open>GrantTx\<close>. A generated uuid is an argument
  of the operation that inserts the row. The columns nothing here reads (\<open>created_at\<close>, \<open>updated_at\<close>, the scanned copies in
  a result) are left out.
\<close>

section \<open>Tables\<close>

record project_row =
  pj_id :: string
  pj_workspace :: string
  pj_name :: string
  pj_key :: string
  pj_description :: string
  pj_archived_at :: "int option"
  pj_created_by :: "string option"

record state_row =
  st_id :: string
  st_project :: string
  st_name :: string
  st_category :: string
  st_position :: int
  st_color :: string
  st_created_at :: int

record issue_row =
  is_id :: string
  is_workspace :: string
  is_project :: string
  is_number :: int
  is_title :: string
  is_description :: string
  is_state :: string
  is_assignee :: "string option"
  is_cycle :: "string option"
  is_priority :: int
  is_rank :: string
  is_completed_at :: "int option"
  is_archived_at :: "int option"
  is_created_by :: "string option"

record activity_row =
  av_issue :: string
  av_actor :: "string option"
  av_kind :: string
  av_from :: string
  av_to :: string
  av_created_at :: int

record tracker =
  tr_acl :: database
  projects :: "project_row list"
  issue_counters :: "(string \<times> int) list"
  issue_states :: "state_row list"
  issues :: "issue_row list"
  issue_activity :: "activity_row list"

datatype issue_error =
    ErrNotFound
  | ErrCrossProject
  | ErrDuplicateKey
  | ErrBadInput string
  | ErrProjectArchived
  | NoRows string
  | RankError rank_error
  | AuthzError authz_error
  | IssueDb string

section \<open>Statements\<close>

definition run_sql :: "env \<Rightarrow> string \<Rightarrow> 'a \<Rightarrow> issue_error + 'a" where
  "run_sql E l v = (if db_fault E l then Inl (IssueDb l) else Inr v)"

definition uuid_arg :: "env \<Rightarrow> string \<Rightarrow> string \<Rightarrow> (string \<Rightarrow> issue_error + 'a) \<Rightarrow> issue_error + 'a" where
  "uuid_arg E l s k = (case pg_uuid E s of None \<Rightarrow> Inl (IssueDb l) | Some u \<Rightarrow> k u)"

definition uuid_arg_opt :: "env \<Rightarrow> string \<Rightarrow> string option \<Rightarrow> (string option \<Rightarrow> issue_error + 'a) \<Rightarrow> issue_error + 'a" where
  "uuid_arg_opt E l s k = (case s of None \<Rightarrow> k None | Some t \<Rightarrow> uuid_arg E l t (\<lambda>u. k (Some u)))"

definition nullable :: "string \<Rightarrow> string option" where
  "nullable s = (if s = '''' then None else Some s)"

definition derefOr :: "'a option \<Rightarrow> 'a \<Rightarrow> 'a" where
  "derefOr p d = (case p of None \<Rightarrow> d | Some x \<Rightarrow> x)"

definition nullablePtr :: "string option \<Rightarrow> string option" where
  "nullablePtr p = (case p of None \<Rightarrow> None | Some s \<Rightarrow> nullable s)"

definition issue_by_id :: "tracker \<Rightarrow> string \<Rightarrow> issue_row option" where
  "issue_by_id db i = find (\<lambda>x. is_id x = i) (issues db)"

definition known_user :: "tracker \<Rightarrow> string option \<Rightarrow> bool" where
  "known_user db u = (case u of None \<Rightarrow> True | Some x \<Rightarrow> x \<in> set (users (tr_acl db)))"

definition min_list_opt :: "string list \<Rightarrow> string option" where
  "min_list_opt xs = (case xs of [] \<Rightarrow> None | y # ys \<Rightarrow> Some (foldr min ys y))"

definition max_list_opt :: "string list \<Rightarrow> string option" where
  "max_list_opt xs = (case xs of [] \<Rightarrow> None | y # ys \<Rightarrow> Some (foldr max ys y))"

section \<open>Reordering\<close>

definition currentRankOf :: "env \<Rightarrow> tracker \<Rightarrow> string \<Rightarrow> issue_error + string" where
  "currentRankOf E db issueID =
     uuid_arg E ''current rank'' issueID (\<lambda>i.
     bindR (run_sql E ''current rank'' (issue_by_id db i)) (\<lambda>r.
       case r of None \<Rightarrow> Inl (NoRows ''current rank'') | Some x \<Rightarrow> Inr (is_rank x)))"

definition rankOf :: "env \<Rightarrow> tracker \<Rightarrow> string \<Rightarrow> string \<Rightarrow> issue_error + string" where
  "rankOf E db projectID issueID =
     (if issueID = '''' then Inr ''''
      else uuid_arg E ''rank of'' issueID (\<lambda>i.
           bindR (run_sql E ''rank of'' (issue_by_id db i)) (\<lambda>r.
             case r of None \<Rightarrow> Inl ErrNotFound
             | Some x \<Rightarrow> if is_project x \<noteq> projectID then Inl ErrCrossProject else Inr (is_rank x))))"

definition active_others :: "tracker \<Rightarrow> string \<Rightarrow> string \<Rightarrow> issue_row list" where
  \<comment> \<open>the rows the two neighbour queries range over\<close>
  "active_others db p moving =
     filter (\<lambda>x. is_project x = p \<and> is_archived_at x = None \<and> is_id x \<noteq> moving) (issues db)"

definition nextRankAfter :: "env \<Rightarrow> tracker \<Rightarrow> string \<Rightarrow> string \<Rightarrow> string \<Rightarrow> issue_error + string" where
  "nextRankAfter E db projectID lo movingID =
     uuid_arg E ''resolve the next rank'' projectID (\<lambda>p. uuid_arg E ''resolve the next rank'' movingID (\<lambda>m.
     bindR (run_sql E ''resolve the next rank''
       (min_list_opt (filter (\<lambda>r. r > lo) (map is_rank (active_others db p m))))) (\<lambda>nxt.
       Inr (derefOr nxt ''''))))"

definition prevRankBefore :: "env \<Rightarrow> tracker \<Rightarrow> string \<Rightarrow> string \<Rightarrow> string \<Rightarrow> issue_error + string" where
  "prevRankBefore E db projectID hi movingID =
     uuid_arg E ''resolve the previous rank'' projectID (\<lambda>p. uuid_arg E ''resolve the previous rank'' movingID (\<lambda>m.
     bindR (run_sql E ''resolve the previous rank''
       (max_list_opt (filter (\<lambda>r. r < hi) (map is_rank (active_others db p m))))) (\<lambda>prev.
       Inr (derefOr prev ''''))))"

definition set_rank :: "string \<Rightarrow> string \<Rightarrow> issue_row list \<Rightarrow> issue_row list" where
  "set_rank i r rows = map (\<lambda>x. if is_id x = i then x\<lparr>is_rank := r\<rparr> else x) rows"

definition rank_shape :: "string \<Rightarrow> bool" where
  \<comment> \<open>the CHECK of issues.rank\<close>
  "rank_shape r \<longleftrightarrow> r \<noteq> [] \<and> list_all (\<lambda>c. is_digit c \<or> is_upper c \<or> is_lower c) r"

definition renormalise_ids :: "tracker \<Rightarrow> string \<Rightarrow> string list" where
  "renormalise_ids db p = map is_id (sort_key (\<lambda>x. [is_rank x, is_id x]) (filter (\<lambda>x. is_project x = p) (issues db)))"

definition renormalise :: "env \<Rightarrow> tracker \<Rightarrow> string \<Rightarrow> issue_error + tracker" where
  "renormalise E db projectID =
     uuid_arg E ''read ranks for renormalisation'' projectID (\<lambda>p.
     bindR (run_sql E ''read ranks for renormalisation'' (renormalise_ids db p)) (\<lambda>ids.
     case Renormalise (int (length ids)) of
       Inl e \<Rightarrow> Inl (RankError e)
     | Inr ranks \<Rightarrow>
         bindR (if ids = [] then Inr () else run_sql E ''renormalise rank'' ()) (\<lambda>_.
           if \<not> list_all rank_shape ranks then Inl (IssueDb ''renormalise rank'')
           else Inr (db\<lparr>issues := fold (\<lambda>(i, r). set_rank i r) (zip ids ranks) (issues db)\<rparr>))))"

definition neighbours :: "env \<Rightarrow> tracker \<Rightarrow> string \<Rightarrow> string \<Rightarrow> string \<Rightarrow> string \<Rightarrow> issue_error + string \<times> string" where
  \<comment> \<open>the bounds of a drop: the anchor's rank and the rank of the actual adjacent row\<close>
  "neighbours E db projectID issueID afterID beforeID =
     bindR (rankOf E db projectID afterID) (\<lambda>lo.
     bindR (rankOf E db projectID beforeID) (\<lambda>hi.
       if afterID \<noteq> '''' then bindR (nextRankAfter E db projectID lo issueID) (\<lambda>h. Inr (lo, h))
       else bindR (prevRankBefore E db projectID hi issueID) (\<lambda>l. Inr (l, hi))))"

definition pick_rank :: "env \<Rightarrow> tracker \<Rightarrow> string \<Rightarrow> string \<Rightarrow> string \<Rightarrow> string \<Rightarrow> string \<Rightarrow> issue_error + tracker \<times> string" where
  "pick_rank E db projectID issueID currentRank afterID beforeID =
     (if afterID = '''' \<and> beforeID = '''' then Inr (db, currentRank)
      else bindR (neighbours E db projectID issueID afterID beforeID) (\<lambda>(lo, hi).
        case Between lo hi of
          Inr rank \<Rightarrow> Inr (db, rank)
        | Inl e \<Rightarrow>
            if e \<noteq> ErrRankExhausted then Inl (RankError e)
            else bindR (renormalise E db projectID) (\<lambda>db1.
                 bindR (neighbours E db1 projectID issueID afterID beforeID) (\<lambda>(lo, hi).
                   case Between lo hi of Inl e \<Rightarrow> Inl (RankError e) | Inr rank \<Rightarrow> Inr (db1, rank)))))"

definition completed_value :: "env \<Rightarrow> tracker \<Rightarrow> string \<Rightarrow> issue_row \<Rightarrow> int option" where
  "completed_value E db target x =
     (case find (\<lambda>s. st_id s = target) (issue_states db) of
        None \<Rightarrow> None
      | Some s \<Rightarrow> if st_category s = ''completed'' then Some (derefOr (is_completed_at x) (now E)) else None)"

definition record_activity ::
  "env \<Rightarrow> tracker \<Rightarrow> string \<Rightarrow> string \<Rightarrow> string \<Rightarrow> string \<Rightarrow> string \<Rightarrow> string \<Rightarrow> issue_error + tracker" where
  "record_activity E db l issueID actorID kind from_value to_value =
     uuid_arg E l issueID (\<lambda>i. uuid_arg_opt E l (nullable actorID) (\<lambda>actor.
       if \<not> known_user db actor then Inl (IssueDb l)
       else run_sql E l (db\<lparr>issue_activity := issue_activity db @
         [\<lparr>av_issue = i, av_actor = actor, av_kind = kind, av_from = from_value, av_to = to_value, av_created_at = now E\<rparr>]\<rparr>)))"

definition move_tx :: "env \<Rightarrow> string \<Rightarrow> string \<Rightarrow> string \<Rightarrow> string \<Rightarrow> string \<Rightarrow> tracker \<Rightarrow> issue_error + tracker \<times> issue_row option" where
  "move_tx E issueID afterID beforeID stateID actorID db =
     uuid_arg E ''lock issue'' issueID (\<lambda>i.
     bindR (run_sql E ''lock issue'' (issue_by_id db i)) (\<lambda>row.
     case row of None \<Rightarrow> Inl ErrNotFound
     | Some x \<Rightarrow>
       let projectID = is_project x; currentState = is_state x in
       bindR (if stateID \<noteq> '''' \<and> stateID \<noteq> currentState
              then uuid_arg E ''count states'' stateID (\<lambda>s.
                   bindR (run_sql E ''count states''
                     (length (filter (\<lambda>st. st_project st = projectID \<and> st_id st = s) (issue_states db)))) (\<lambda>n.
                     if n = 0 then Inl ErrCrossProject else Inr stateID))
              else Inr currentState) (\<lambda>target.
       bindR (currentRankOf E db issueID) (\<lambda>currentRank.
       bindR (pick_rank E db projectID issueID currentRank afterID beforeID) (\<lambda>(db1, rank).
       uuid_arg E ''move issue'' target (\<lambda>t.
       if \<not> rank_shape rank then Inl (IssueDb ''move issue'')
       else bindR (run_sql E ''move issue''
         (db1\<lparr>issues := map (\<lambda>y. if is_id y = i then y\<lparr>is_rank := rank, is_state := t,
              is_completed_at := completed_value E db1 t y\<rparr> else y) (issues db1)\<rparr>)) (\<lambda>db2.
       bindR (if target \<noteq> currentState
              then record_activity E db2 ''record state change'' issueID actorID ''state.changed'' currentState target
              else Inr db2) (\<lambda>db3.
       bindR (run_sql E ''scan issue'' (issue_by_id db3 i)) (\<lambda>out. Inr (db3, out))))))))))"

definition issue_Move :: "env \<Rightarrow> tracker \<Rightarrow> string \<Rightarrow> string \<Rightarrow> string \<Rightarrow> string \<Rightarrow> string \<Rightarrow>
    (issue_error + issue_row option) \<times> tracker" where
  "issue_Move E db issueID afterID beforeID stateID actorID =
     WithTx E IssueDb db (move_tx E issueID afterID beforeID stateID actorID)"

section \<open>Projects\<close>

definition to_upper :: "string \<Rightarrow> string" where
  "to_upper s = map (\<lambda>c. if is_lower c then char_of (of_char c - 32 :: nat) else c) s"

definition projectKeyShape :: "string \<Rightarrow> bool" where
  "projectKeyShape k \<longleftrightarrow> 2 \<le> length k \<and> length k \<le> 10 \<and> is_upper (hd k) \<and> list_all (\<lambda>c. is_upper c \<or> is_digit c) (tl k)"

definition DefaultStates :: "(string \<times> string \<times> string) list" where
  "DefaultStates =
     [(''Backlog'', ''backlog'', ''#64748b''), (''Todo'', ''unstarted'', ''#94a3b8''),
      (''In Progress'', ''started'', ''#f59e0b''), (''Done'', ''completed'', ''#22c55e''),
      (''Cancelled'', ''cancelled'', ''#ef4444'')]"

definition with_acl :: "tracker \<Rightarrow> (database \<Rightarrow> authz_error + database) \<Rightarrow> issue_error + tracker" where
  "with_acl db f = (case f (tr_acl db) of Inl e \<Rightarrow> Inl (AuthzError e) | Inr acl \<Rightarrow> Inr (db\<lparr>tr_acl := acl\<rparr>))"

definition create_project_tx :: "env \<Rightarrow> string \<Rightarrow> string list \<Rightarrow> string \<Rightarrow> string \<Rightarrow> string \<Rightarrow> string \<Rightarrow> string \<Rightarrow>
    tracker \<Rightarrow> issue_error + tracker \<times> project_row option" where
  "create_project_tx E newID stateIDs workspaceID name key description actorID db =
     uuid_arg E ''create project'' workspaceID (\<lambda>w. uuid_arg_opt E ''create project'' (nullable actorID) (\<lambda>actor.
     if w \<notin> set (workspaces (tr_acl db)) \<or> \<not> known_user db actor \<or> length name > 120
     then Inl (IssueDb ''create project'')
     else if \<exists>p \<in> set (projects db). pj_workspace p = w \<and> to_upper (pj_key p) = to_upper key then Inl ErrDuplicateKey
     else
     bindR (run_sql E ''create project'' (db\<lparr>projects := projects db @
       [\<lparr>pj_id = newID, pj_workspace = w, pj_name = name, pj_key = key, pj_description = description,
         pj_archived_at = None, pj_created_by = actor\<rparr>]\<rparr>)) (\<lambda>db1.
     bindR (run_sql E ''create issue counter'' (db1\<lparr>issue_counters := issue_counters db1 @ [(newID, 1)]\<rparr>)) (\<lambda>db2.
     bindR (run_sql E ''create default state'' (db2\<lparr>issue_states := issue_states db2 @
       map (\<lambda>(i, sid, nm, cat, col). \<lparr>st_id = sid, st_project = newID, st_name = nm, st_category = cat, st_position = int i,
              st_color = col, st_created_at = now E\<rparr>) (zip [0..<length DefaultStates] (zip stateIDs DefaultStates))\<rparr>)) (\<lambda>db3.
     bindR (with_acl db3 (\<lambda>a. RegisterTx E a (ProjectObject newID) (WorkspaceObject workspaceID))) (\<lambda>db4.
     bindR (with_acl db4 (\<lambda>a. GrantTx E a (UserSubject actorID) (WorkspaceSubject workspaceID) (ProjectObject newID) CapAdmin)) (\<lambda>db5.
     bindR (run_sql E ''scan project'' (find (\<lambda>p. pj_id p = newID) (projects db5))) (\<lambda>out. Inr (db5, out)))))))))"

definition CreateProject :: "env \<Rightarrow> tracker \<Rightarrow> string \<Rightarrow> string list \<Rightarrow> string \<Rightarrow> string \<Rightarrow> string \<Rightarrow> string \<Rightarrow> string \<Rightarrow>
    (issue_error + project_row option) \<times> tracker" where
  "CreateProject E db newID stateIDs workspaceID name0 key0 description actorID =
     (let name = trim_space name0; key = to_upper (trim_space key0) in
      if name = '''' then (Inl (ErrBadInput ''a project needs a name''), db)
      else if \<not> projectKeyShape key then (Inl (ErrBadInput ''a project key is 2-10 characters''), db)
      else WithTx E IssueDb db (create_project_tx E newID stateIDs workspaceID name key description actorID))"

definition Projects :: "env \<Rightarrow> tracker \<Rightarrow> string \<Rightarrow> string list \<Rightarrow> bool \<Rightarrow> issue_error + project_row list" where
  "Projects E db workspaceID keys includeArchived =
     (if length keys = 0 then Inr []
      else uuid_arg E ''list projects'' workspaceID (\<lambda>w.
        run_sql E ''list projects'' (sort_key pj_name (filter (\<lambda>p. pj_workspace p = w \<and>
          (includeArchived \<or> pj_archived_at p = None) \<and>
          (\<exists>k \<in> set (acl_key (tr_acl db)). ak_type k = ''project'' \<and> ak_id k = pj_id p \<and> ak_key k \<in> set keys)) (projects db)))))"

definition States :: "env \<Rightarrow> tracker \<Rightarrow> string \<Rightarrow> issue_error + state_row list" where
  "States E db projectID =
     uuid_arg E ''list states'' projectID (\<lambda>p.
       run_sql E ''list states'' (sort_key st_position (sort_key st_created_at
         (filter (\<lambda>s. st_project s = p) (issue_states db)))))"

section \<open>Issues\<close>

definition resolve_state :: "env \<Rightarrow> tracker \<Rightarrow> string \<Rightarrow> string \<Rightarrow> issue_error + string" where
  \<comment> \<open>the named state, which has to be of this project, or the project's first\<close>
  "resolve_state E db p stateID =
     (if stateID = ''''
      then bindR (run_sql E ''resolve default state''
             (sort_key st_position (sort_key st_created_at (filter (\<lambda>s. st_project s = p) (issue_states db))))) (\<lambda>ss.
             case ss of [] \<Rightarrow> Inl (NoRows ''resolve default state'') | s # _ \<Rightarrow> Inr (st_id s))
      else uuid_arg E ''count states'' stateID (\<lambda>sid.
           bindR (run_sql E ''count states''
             (length (filter (\<lambda>s. st_project s = p \<and> st_id s = sid) (issue_states db)))) (\<lambda>n.
             if n = 0 then Inl ErrCrossProject else Inr sid)))"

definition allocate_number :: "env \<Rightarrow> tracker \<Rightarrow> string \<Rightarrow> issue_error + tracker \<times> int" where
  \<comment> \<open>UPDATE issue_counters SET next_value = next_value + 1 RETURNING next_value - 1\<close>
  "allocate_number E db p =
     bindR (run_sql E ''allocate issue number'' (map_of (issue_counters db) p)) (\<lambda>ct.
       case ct of None \<Rightarrow> Inl (NoRows ''allocate issue number'')
       | Some number \<Rightarrow>
           Inr (db\<lparr>issue_counters := map (\<lambda>(q, n). if q = p then (q, n + 1) else (q, n)) (issue_counters db)\<rparr>, number))"

definition top_rank :: "env \<Rightarrow> tracker \<Rightarrow> string \<Rightarrow> issue_error + string" where
  "top_rank E db p =
     bindR (run_sql E ''lowest rank''
       (min_list_opt (map is_rank (filter (\<lambda>x. is_project x = p \<and> is_archived_at x = None) (issues db))))) (\<lambda>lowest.
       case Between '''' (derefOr lowest '''') of Inl e \<Rightarrow> Inl (RankError e) | Inr rank \<Rightarrow> Inr rank)"

definition insert_issue :: "env \<Rightarrow> issue_row \<Rightarrow> tracker \<Rightarrow> issue_error + tracker" where
  "insert_issue E x db =
     (if \<not> known_user db (is_assignee x) \<or> \<not> known_user db (is_created_by x) \<or> length (is_title x) > 500 \<or>
         \<not> rank_shape (is_rank x) \<or> (\<exists>y \<in> set (issues db). is_project y = is_project x \<and> is_number y = is_number x)
      then Inl (IssueDb ''create issue'')
      else run_sql E ''create issue'' (db\<lparr>issues := issues db @ [x]\<rparr>))"

definition create_issue_tx :: "env \<Rightarrow> string \<Rightarrow> string \<Rightarrow> string \<Rightarrow> string \<Rightarrow> string \<Rightarrow> string \<Rightarrow> string \<Rightarrow> int \<Rightarrow>
    tracker \<Rightarrow> issue_error + tracker \<times> issue_row option" where
  "create_issue_tx E newID projectID title description stateID assigneeID actorID priority db =
     uuid_arg E ''read project'' projectID (\<lambda>p.
     bindR (run_sql E ''read project'' (find (\<lambda>x. pj_id x = p) (projects db))) (\<lambda>row.
     case row of None \<Rightarrow> Inl ErrNotFound
     | Some pj \<Rightarrow>
       if pj_archived_at pj \<noteq> None then Inl ErrProjectArchived
       else
       bindR (resolve_state E db p stateID) (\<lambda>sid.
       bindR (allocate_number E db p) (\<lambda>(db1, number).
       bindR (top_rank E db1 p) (\<lambda>rank.
       uuid_arg_opt E ''create issue'' (nullable assigneeID) (\<lambda>assignee.
       uuid_arg_opt E ''create issue'' (nullable actorID) (\<lambda>actor.
       bindR (insert_issue E
         \<lparr>is_id = newID, is_workspace = pj_workspace pj, is_project = p, is_number = number, is_title = title,
          is_description = description, is_state = sid, is_assignee = assignee, is_cycle = None,
          is_priority = priority, is_rank = rank, is_completed_at = None, is_archived_at = None,
          is_created_by = actor\<rparr> db1) (\<lambda>db2.
       bindR (with_acl db2 (\<lambda>a. RegisterTx E a (IssueObject newID) (ProjectObject projectID))) (\<lambda>db3.
       bindR (run_sql E ''scan issue'' (issue_by_id db3 newID)) (\<lambda>out. Inr (db3, out)))))))))))"

definition CreateIssue :: "env \<Rightarrow> tracker \<Rightarrow> string \<Rightarrow> string \<Rightarrow> string \<Rightarrow> string \<Rightarrow> string \<Rightarrow> string \<Rightarrow> string \<Rightarrow> int \<Rightarrow>
    (issue_error + issue_row option) \<times> tracker" where
  "CreateIssue E db newID projectID title0 description stateID assigneeID actorID priority =
     (let title = trim_space title0 in
      if title = '''' then (Inl (ErrBadInput ''an issue needs a title''), db)
      else if priority < 0 \<or> priority > 4 then (Inl (ErrBadInput ''priority is 0 (none) to 4 (low)''), db)
      else WithTx E IssueDb db (create_issue_tx E newID projectID title description stateID assigneeID actorID priority))"

record ListOptions =
  lo_ProjectID :: string
  lo_StateID :: string
  lo_CursorRank :: string
  lo_CursorID :: string
  lo_Limit :: int

definition board_key :: "issue_row \<Rightarrow> string list" where
  "board_key x = [is_rank x, is_id x]"

definition issue_visible :: "tracker \<Rightarrow> string list \<Rightarrow> issue_row \<Rightarrow> bool" where
  "issue_visible db keys x \<longleftrightarrow>
     (\<exists>k \<in> set (acl_key (tr_acl db)). ak_type k = ''issue'' \<and> ak_id k = is_id x \<and> ak_key k \<in> set keys)"

definition list_rows :: "tracker \<Rightarrow> string list \<Rightarrow> string \<Rightarrow> string option \<Rightarrow> string \<Rightarrow> string \<Rightarrow> nat \<Rightarrow> issue_row list" where
  \<comment> \<open>the query\<close>
  "list_rows db keys p state cursorRank cursorID k =
     take k (sort_key board_key (filter (\<lambda>x. is_project x = p \<and> is_archived_at x = None \<and>
       (case state of None \<Rightarrow> True | Some s \<Rightarrow> is_state x = s) \<and>
       (case nullable cursorRank of None \<Rightarrow> True | Some r \<Rightarrow> board_key x > [r, cursorID]) \<and>
       issue_visible db keys x) (issues db)))"

definition issue_page :: "nat \<Rightarrow> issue_row list \<Rightarrow> issue_row list \<times> string \<times> string \<times> bool" where
  \<comment> \<open>the page and the next cursor out of the rows read\<close>
  "issue_page limit rows =
     (let hasMore = length rows > limit;
          out = (if hasMore then take limit rows else rows)
      in if hasMore \<and> length out > 0 then (out, is_rank (last out), is_id (last out), hasMore)
         else (out, '''', '''', hasMore))"

definition issue_List :: "env \<Rightarrow> tracker \<Rightarrow> string list \<Rightarrow> ListOptions \<Rightarrow>
    issue_error + issue_row list \<times> string \<times> string \<times> bool" where
  "issue_List E db keys opts =
     (if length keys = 0 then Inr ([], '''', '''', False)
      else
      let limit = nat (if lo_Limit opts \<le> 0 then 50 else lo_Limit opts) in
      uuid_arg E ''list issues'' (lo_ProjectID opts) (\<lambda>p. uuid_arg_opt E ''list issues'' (nullable (lo_StateID opts)) (\<lambda>state.
      bindR (run_sql E ''list issues''
        (list_rows db keys p state (lo_CursorRank opts) (lo_CursorID opts) (limit + 1))) (\<lambda>rows.
        Inr (issue_page limit rows)))))"

definition update_tx :: "env \<Rightarrow> string \<Rightarrow> string option \<Rightarrow> string option \<Rightarrow> string option \<Rightarrow> int option \<Rightarrow> string \<Rightarrow>
    tracker \<Rightarrow> issue_error + tracker \<times> issue_row option" where
  "update_tx E issueID title description assigneeID priority actorID db =
     uuid_arg E ''lock issue'' issueID (\<lambda>i.
     bindR (run_sql E ''lock issue'' (issue_by_id db i)) (\<lambda>row.
     case row of None \<Rightarrow> Inl ErrNotFound
     | Some x \<Rightarrow>
       uuid_arg_opt E ''update issue'' (nullablePtr assigneeID) (\<lambda>assignee.
       if \<not> known_user db assignee \<or> (case title of None \<Rightarrow> False | Some t \<Rightarrow> length t < 1 \<or> length t > 500)
       then Inl (IssueDb ''update issue'')
       else
       bindR (run_sql E ''update issue'' (db\<lparr>issues := map (\<lambda>y. if is_id y = i then
           y\<lparr>is_title := derefOr title (is_title y), is_description := derefOr description (is_description y),
             is_assignee := (if assigneeID \<noteq> None then assignee else is_assignee y),
             is_priority := derefOr priority (is_priority y)\<rparr> else y) (issues db)\<rparr>)) (\<lambda>db1.
       bindR (case assigneeID of None \<Rightarrow> Inr db1
              | Some a \<Rightarrow> if derefOr (is_assignee x) '''' \<noteq> a
                  then record_activity E db1 ''record assignment'' issueID actorID ''assignee.set'' (derefOr (is_assignee x) '''') a
                  else Inr db1) (\<lambda>db2.
       bindR (run_sql E ''scan issue'' (issue_by_id db2 i)) (\<lambda>out. Inr (db2, out)))))))"

definition issue_Update :: "env \<Rightarrow> tracker \<Rightarrow> string \<Rightarrow> string option \<Rightarrow> string option \<Rightarrow> string option \<Rightarrow> int option \<Rightarrow> string \<Rightarrow>
    (issue_error + issue_row option) \<times> tracker" where
  "issue_Update E db issueID title description assigneeID priority actorID =
     (if (case priority of None \<Rightarrow> False | Some p \<Rightarrow> p < 0 \<or> p > 4)
      then (Inl (ErrBadInput ''priority is 0 (none) to 4 (low)''), db)
      else WithTx E IssueDb db (update_tx E issueID title description assigneeID priority actorID))"

definition Activity :: "env \<Rightarrow> tracker \<Rightarrow> string \<Rightarrow> issue_error + activity_row list" where
  "Activity E db issueID =
     uuid_arg E ''list activity'' issueID (\<lambda>i.
       run_sql E ''list activity'' (take 200 (sort_key (\<lambda>a. - av_created_at a)
         (filter (\<lambda>a. av_issue a = i) (issue_activity db)))))"

end
