(* ===== verification/Issue_Order.thy ===== *)
theory Issue_Order
  imports Issue_Board Authz_Properties "HOL-Library.Multiset"
begin

text \<open>
  What the repository of issues promises about order: a drop lands next to its anchor and moves nothing else, a
  renormalisation keeps the order, pages neither skip nor repeat, and a new issue is on top with a number of its own.
\<close>

section \<open>Aggregates and arguments\<close>

lemma min_list_opt_None: "min_list_opt xs = None \<longleftrightarrow> xs = []"
  by (simp add: min_list_opt_def split: list.splits)

lemma max_list_opt_None: "max_list_opt xs = None \<longleftrightarrow> xs = []"
  by (simp add: max_list_opt_def split: list.splits)

lemma foldr_min: "foldr min ys y \<in> set (y # ys) \<and> (\<forall>x \<in> set (y # ys). foldr min ys y \<le> (x :: string))"
  by (induction ys) (auto simp: min_le_iff_disj min_def)

lemma foldr_max: "foldr max ys y \<in> set (y # ys) \<and> (\<forall>x \<in> set (y # ys). (x :: string) \<le> foldr max ys y)"
  by (induction ys) (auto simp: le_max_iff_disj max_def)

lemma min_list_opt_Some:
  assumes "min_list_opt xs = Some m"
  shows "m \<in> set xs" "\<And>x. x \<in> set xs \<Longrightarrow> m \<le> x"
proof -
  obtain y ys where "xs = y # ys" "m = foldr min ys y"
    using assms by (auto simp: min_list_opt_def split: list.splits)
  then show "m \<in> set xs" "\<And>x. x \<in> set xs \<Longrightarrow> m \<le> x" using foldr_min [of ys y] by auto
qed

lemma max_list_opt_Some:
  assumes "max_list_opt xs = Some m"
  shows "m \<in> set xs" "\<And>x. x \<in> set xs \<Longrightarrow> x \<le> m"
proof -
  obtain y ys where "xs = y # ys" "m = foldr max ys y"
    using assms by (auto simp: max_list_opt_def split: list.splits)
  then show "m \<in> set xs" "\<And>x. x \<in> set xs \<Longrightarrow> x \<le> m" using foldr_max [of ys y] by auto
qed

lemma uuid_arg_canonical [simp]: "env_ok E \<Longrightarrow> uuid_shape u \<Longrightarrow> uuid_arg E l u k = k u"
  by (simp add: uuid_arg_def)

lemma uuid_arg_opt_nullable:
  "env_ok E \<Longrightarrow> s = '''' \<or> uuid_shape s \<Longrightarrow> uuid_arg_opt E l (nullable s) k = k (nullable s)"
  by (auto simp: uuid_arg_opt_def nullable_def)

lemma run_sql_no_faults [simp]: "no_faults E \<Longrightarrow> run_sql E l v = Inr v"
  by (simp add: run_sql_def no_faults_def)

lemma rank_shape_good: "good_rank r \<Longrightarrow> rank_shape r"
  by (auto simp: good_rank_def rank_shape_def rank_digits_def list_all_iff index_def split: if_splits)

section \<open>Drops\<close>

definition board_ok :: "tracker \<Rightarrow> bool" where
  \<comment> \<open>the ranks \<open>Between\<close> produces, with room to grow\<close>
  "board_ok db \<longleftrightarrow> (\<forall>x \<in> set (issues db). good_rank (is_rank x) \<and> length (is_rank x) < MaxRankLength)"

lemma issue_by_id_Some: "issue_by_id db i = Some x \<Longrightarrow> x \<in> set (issues db) \<and> is_id x = i"
  by (auto simp: issue_by_id_def dest: find_SomeD)

lemma Between_board:
  assumes "lo = [] \<or> good_rank lo \<and> length lo < MaxRankLength" "hi = [] \<or> good_rank hi \<and> length hi < MaxRankLength"
    "lo = [] \<or> hi = [] \<or> lo < hi"
  shows "\<exists>r. Between lo hi = Inr r \<and> (lo = [] \<or> lo < r) \<and> (hi = [] \<or> r < hi) \<and> good_rank r \<and> length r \<le> MaxRankLength"
proof -
  have b: "bound_ok lo" "bound_ok hi" using assms(1,2) by (auto simp: bound_ok_def good_rank_def)
  have len: "rank_digits lo" "length lo < MaxRankLength" "length hi < MaxRankLength"
    using assms(1,2) by (auto simp: good_rank_def MaxRankLength_def)
  have mid: "\<exists>r. between lo hi = Inr r" if "lo < hi" "hi \<noteq> []"
    using between_mid [OF len(1) _ that(1)] mid_total [of 0 lo hi] assms(2) that(2) len by auto
  consider (lo) "lo = []" | (hi) "lo \<noteq> []" "hi = []" | (both) "lo \<noteq> []" "hi \<noteq> []" "lo < hi"
    using assms(3) by blast
  then have "\<exists>r. Between lo hi = Inr r"
  proof cases
    case lo
    then show ?thesis using before_total [OF len(3)] unfolding Between_accepts [OF b] by simp
  next
    case hi
    then show ?thesis using after_total [OF len(2)] unfolding Between_accepts [OF b] by simp
  next
    case both
    then show ?thesis using mid unfolding Between_accepts [OF b] by (simp add: not_le)
  qed
  then obtain r where r: "Between lo hi = Inr r" ..
  have "hi = [] \<or> good_rank hi" using assms(2) by blast
  from Between_length [OF b(1) this b(2) r] r show ?thesis by blast
qed

lemma rankOf_found:
  assumes "env_ok E" "no_faults E" "uuid_shape a" "issue_by_id db a = Some y" "is_project y = p"
  shows "rankOf E db p a = Inr (is_rank y)"
proof -
  have "a \<noteq> ''''" using assms(3) by auto
  then show ?thesis using assms by (simp add: rankOf_def)
qed

lemma nextRankAfter_found:
  assumes "env_ok E" "no_faults E" "uuid_shape p" "uuid_shape i"
  shows "\<exists>h. nextRankAfter E db p lo i = Inr h \<and>
    (h = '''' \<and> (\<forall>z \<in> set (active_others db p i). \<not> lo < is_rank z) \<or>
     (\<exists>z \<in> set (active_others db p i). h = is_rank z \<and> lo < h) \<and>
       (\<forall>z \<in> set (active_others db p i). lo < is_rank z \<longrightarrow> h \<le> is_rank z))"
proof (cases "min_list_opt (filter (\<lambda>r. lo < r) (map is_rank (active_others db p i)))")
  case None
  then have "\<forall>z \<in> set (active_others db p i). \<not> lo < is_rank z"
    by (auto simp: min_list_opt_None filter_empty_conv)
  then show ?thesis using None assms by (simp add: nextRankAfter_def derefOr_def)
next
  case (Some h)
  have "nextRankAfter E db p lo i = Inr h" using Some assms by (simp add: nextRankAfter_def derefOr_def)
  then show ?thesis using min_list_opt_Some [OF Some] by auto
qed

lemma prevRankBefore_found:
  assumes "env_ok E" "no_faults E" "uuid_shape p" "uuid_shape i"
  shows "\<exists>l. prevRankBefore E db p hi i = Inr l \<and>
    (l = '''' \<and> (\<forall>z \<in> set (active_others db p i). \<not> is_rank z < hi) \<or>
     (\<exists>z \<in> set (active_others db p i). l = is_rank z \<and> l < hi) \<and>
       (\<forall>z \<in> set (active_others db p i). is_rank z < hi \<longrightarrow> is_rank z \<le> l))"
proof (cases "max_list_opt (filter (\<lambda>r. r < hi) (map is_rank (active_others db p i)))")
  case None
  then have "\<forall>z \<in> set (active_others db p i). \<not> is_rank z < hi"
    by (auto simp: max_list_opt_None filter_empty_conv)
  then show ?thesis using None assms by (simp add: prevRankBefore_def derefOr_def)
next
  case (Some h)
  have "prevRankBefore E db p hi i = Inr h" using Some assms by (simp add: prevRankBefore_def derefOr_def)
  then show ?thesis using max_list_opt_Some [OF Some] by auto
qed

lemma active_others_rows: "z \<in> set (active_others db p i) \<Longrightarrow> z \<in> set (issues db)"
  by (simp add: active_others_def)

text \<open>The rank a drop gets, whichever side the anchor is on.\<close>

lemma pick_rank_after:
  assumes "env_ok E" "no_faults E" "board_ok db" "uuid_shape p" "uuid_shape i" "uuid_shape a"
    "issue_by_id db a = Some y" "is_project y = p"
  shows "\<exists>r. pick_rank E db p i cur a '''' = Inr (db, r) \<and> good_rank r \<and> is_rank y < r \<and>
    (\<forall>z \<in> set (active_others db p i). is_rank y < is_rank z \<longrightarrow> r < is_rank z)"
proof -
  have a: "a \<noteq> ''''" using assms(6) by auto
  have y: "good_rank (is_rank y)" "length (is_rank y) < MaxRankLength"
    using assms(3) issue_by_id_Some [OF assms(7)] by (auto simp: board_ok_def)
  have yne: "is_rank y \<noteq> []" using y(1) by (simp add: good_rank_def)
  obtain h where h: "nextRankAfter E db p (is_rank y) i = Inr h"
    "h = '''' \<and> (\<forall>z \<in> set (active_others db p i). \<not> is_rank y < is_rank z) \<or>
     (\<exists>z \<in> set (active_others db p i). h = is_rank z \<and> is_rank y < h) \<and>
       (\<forall>z \<in> set (active_others db p i). is_rank y < is_rank z \<longrightarrow> h \<le> is_rank z)"
    using nextRankAfter_found [OF assms(1,2,4,5)] by blast
  have n: "neighbours E db p i a '''' = Inr (is_rank y, h)"
    using a h(1) rankOf_found [OF assms(1,2,6-8)] by (simp add: neighbours_def rankOf_def)
  have hok: "h = [] \<or> good_rank h \<and> length h < MaxRankLength"
    using h(2) assms(3) active_others_rows by (fastforce simp: board_ok_def)
  have "is_rank y = [] \<or> h = [] \<or> is_rank y < h" using h(2) by auto
  then obtain r where r: "Between (is_rank y) h = Inr r" "is_rank y < r" "h = [] \<or> r < h" "good_rank r"
    using Between_board [of "is_rank y" h] hok y yne by auto
  have "r < is_rank z" if "z \<in> set (active_others db p i)" "is_rank y < is_rank z" for z
    using h(2) r(3) that by fastforce
  then show ?thesis using n r a by (auto simp: pick_rank_def)
qed

lemma pick_rank_before:
  assumes "env_ok E" "no_faults E" "board_ok db" "uuid_shape p" "uuid_shape i" "uuid_shape b"
    "issue_by_id db b = Some y" "is_project y = p"
  shows "\<exists>r. pick_rank E db p i cur '''' b = Inr (db, r) \<and> good_rank r \<and> r < is_rank y \<and>
    (\<forall>z \<in> set (active_others db p i). is_rank z < is_rank y \<longrightarrow> is_rank z < r)"
proof -
  have b: "b \<noteq> ''''" using assms(6) by auto
  have y: "good_rank (is_rank y)" "length (is_rank y) < MaxRankLength"
    using assms(3) issue_by_id_Some [OF assms(7)] by (auto simp: board_ok_def)
  have yne: "is_rank y \<noteq> []" using y(1) by (simp add: good_rank_def)
  obtain l where l: "prevRankBefore E db p (is_rank y) i = Inr l"
    "l = '''' \<and> (\<forall>z \<in> set (active_others db p i). \<not> is_rank z < is_rank y) \<or>
     (\<exists>z \<in> set (active_others db p i). l = is_rank z \<and> l < is_rank y) \<and>
       (\<forall>z \<in> set (active_others db p i). is_rank z < is_rank y \<longrightarrow> is_rank z \<le> l)"
    using prevRankBefore_found [OF assms(1,2,4,5)] by blast
  have n: "neighbours E db p i '''' b = Inr (l, is_rank y)"
    using b l(1) rankOf_found [OF assms(1,2,6-8)] by (simp add: neighbours_def rankOf_def)
  have lok: "l = [] \<or> good_rank l \<and> length l < MaxRankLength"
    using l(2) assms(3) active_others_rows by (fastforce simp: board_ok_def)
  have "l = [] \<or> is_rank y = [] \<or> l < is_rank y" using l(2) by auto
  then obtain r where r: "Between l (is_rank y) = Inr r" "r < is_rank y" "l = [] \<or> l < r" "good_rank r"
    using Between_board [of l "is_rank y"] lok y yne by auto
  have "is_rank z < r" if z: "z \<in> set (active_others db p i)" "is_rank z < is_rank y" for z
  proof -
    have "is_rank z \<noteq> []" using assms(3) active_others_rows [OF z(1)] by (auto simp: board_ok_def good_rank_def)
    moreover have "is_rank z \<le> l" using l(2) z by blast
    ultimately show ?thesis using r(3) by (cases "l = []") auto
  qed
  then show ?thesis using n r b by (auto simp: pick_rank_def)
qed

lemma move_tx_keeps_state:
  assumes "env_ok E" "no_faults E" "uuid_shape i" "issue_by_id db i = Some x" "uuid_shape (is_state x)"
    "pick_rank E db (is_project x) i (is_rank x) a b = Inr (db, r)" "good_rank r"
  shows "\<exists>out. issue_Move E db i a b '''' actor = (Inr out,
    db\<lparr>issues := map (\<lambda>z. if is_id z = i then z\<lparr>is_rank := r, is_state := is_state x,
      is_completed_at := completed_value E db (is_state x) z\<rparr> else z) (issues db)\<rparr>)"
proof -
  have "currentRankOf E db i = Inr (is_rank x)" using assms(1-4) by (simp add: currentRankOf_def)
  then show ?thesis
    using assms rank_shape_good [OF assms(7)]
    by (simp add: issue_Move_def WithTx_def no_faults_def move_tx_def Let_def)
qed

text \<open>
  C14. On a board whose ranks all are as \<open>Between\<close> makes them, with rank digits only, none ending in \<open>0\<close> and all shorter than
  \<open>MaxRankLength\<close> (\<open>board_ok\<close>), and when no statement fails, a drop next to an anchor of the same project succeeds and lands where the
  client dropped the card: after the anchor and before every active card that was after it (or before the anchor and after every active
  card that was before it). The column of the card does not change and no other card is written. Boards with a rank that ends in \<open>0\<close>, as
  \<open>Renormalise\<close> may leave them, or one at the length limit, where the move renormalises first, are outside.
\<close>

theorem drop_lands_next_to_anchor:
  assumes "env_ok E" "no_faults E" "board_ok db" "uuid_shape i" "uuid_shape a" "issue_by_id db i = Some x"
    "issue_by_id db a = Some y" "is_project y = is_project x" "uuid_shape (is_project x)" "uuid_shape (is_state x)"
  shows "(\<exists>r out. issue_Move E db i a '''' '''' actor = (Inr out, db\<lparr>issues := map (\<lambda>z. if is_id z = i
        then z\<lparr>is_rank := r, is_state := is_state x, is_completed_at := completed_value E db (is_state x) z\<rparr> else z) (issues db)\<rparr>) \<and>
      is_rank y < r \<and> (\<forall>z \<in> set (active_others db (is_project x) i). is_rank y < is_rank z \<longrightarrow> r < is_rank z)) \<and>
    (\<exists>r out. issue_Move E db i '''' a '''' actor = (Inr out, db\<lparr>issues := map (\<lambda>z. if is_id z = i
        then z\<lparr>is_rank := r, is_state := is_state x, is_completed_at := completed_value E db (is_state x) z\<rparr> else z) (issues db)\<rparr>) \<and>
      r < is_rank y \<and> (\<forall>z \<in> set (active_others db (is_project x) i). is_rank z < is_rank y \<longrightarrow> is_rank z < r))"
proof
  obtain r where r: "pick_rank E db (is_project x) i (is_rank x) a '''' = Inr (db, r)" "good_rank r" "is_rank y < r"
      "\<forall>z \<in> set (active_others db (is_project x) i). is_rank y < is_rank z \<longrightarrow> r < is_rank z"
    using pick_rank_after [OF assms(1-3,9,4,5,7,8)] by blast
  show "\<exists>r out. issue_Move E db i a '''' '''' actor = (Inr out, db\<lparr>issues := map (\<lambda>z. if is_id z = i
        then z\<lparr>is_rank := r, is_state := is_state x, is_completed_at := completed_value E db (is_state x) z\<rparr> else z) (issues db)\<rparr>) \<and>
      is_rank y < r \<and> (\<forall>z \<in> set (active_others db (is_project x) i). is_rank y < is_rank z \<longrightarrow> r < is_rank z)"
    using move_tx_keeps_state [OF assms(1,2,4,6,10) r(1,2), of actor] r(3,4) by blast
  obtain r where r: "pick_rank E db (is_project x) i (is_rank x) '''' a = Inr (db, r)" "good_rank r" "r < is_rank y"
      "\<forall>z \<in> set (active_others db (is_project x) i). is_rank z < is_rank y \<longrightarrow> is_rank z < r"
    using pick_rank_before [OF assms(1-3,9,4,5,7,8)] by blast
  show "\<exists>r out. issue_Move E db i '''' a '''' actor = (Inr out, db\<lparr>issues := map (\<lambda>z. if is_id z = i
        then z\<lparr>is_rank := r, is_state := is_state x, is_completed_at := completed_value E db (is_state x) z\<rparr> else z) (issues db)\<rparr>) \<and>
      r < is_rank y \<and> (\<forall>z \<in> set (active_others db (is_project x) i). is_rank z < is_rank y \<longrightarrow> is_rank z < r)"
    using move_tx_keeps_state [OF assms(1,2,4,6,10) r(1,2), of actor] r(3,4) by blast
qed

section \<open>Renormalisation\<close>

lemma rank_shape_valid: "validate r = Inr () \<Longrightarrow> r \<noteq> [] \<Longrightarrow> rank_shape r"
  by (auto simp: validate_iff rank_shape_def rank_digits_def list_all_iff index_def split: if_splits)

definition rerank :: "(string \<times> string) list \<Rightarrow> issue_row \<Rightarrow> issue_row" where
  "rerank ps x = (case map_of ps (is_id x) of None \<Rightarrow> x | Some r \<Rightarrow> x\<lparr>is_rank := r\<rparr>)"

lemma rerank_fields [simp]: "is_id (rerank ps x) = is_id x" "is_project (rerank ps x) = is_project x"
  "(rerank ps x)\<lparr>is_rank := r\<rparr> = x\<lparr>is_rank := r\<rparr>"
  by (simp_all add: rerank_def split: option.splits)

lemma fold_set_rank:
  "distinct (map fst ps) \<Longrightarrow> fold (\<lambda>(i, r). set_rank i r) ps rows = map (rerank ps) rows"
proof (induction ps arbitrary: rows)
  case Nil
  then show ?case by (simp add: rerank_def)
next
  case (Cons p ps)
  obtain i r where p: "p = (i, r)" by fastforce
  have "map_of ps i = None" using Cons.prems p by (auto simp: map_of_eq_None_iff)
  then have "rerank ps (if is_id x = i then x\<lparr>is_rank := r\<rparr> else x) = rerank (p # ps) x" for x
    by (auto simp: p rerank_def split: option.splits)
  then show ?case using Cons by (simp add: p set_rank_def o_def)
qed

lemma board_key_inj: "distinct (map is_id xs) \<Longrightarrow> inj_on board_key (set xs)"
  by (auto simp: board_key_def distinct_map inj_on_def)

lemma sorted_board_keys:
  "length rs = length xs \<Longrightarrow> sorted_wrt (<) rs \<Longrightarrow> map is_rank xs = rs \<Longrightarrow> sorted (map board_key xs)"
  by (auto simp: sorted_iff_nth_mono_less sorted_wrt_iff_nth_less board_key_def less_list_code)

lemma rerank_ranks:
  assumes "distinct (map is_id xs)" "length rs = length xs"
  shows "map is_rank (map (rerank (zip (map is_id xs) rs)) xs) = rs"
proof (rule nth_equalityI)
  fix k assume "k < length (map is_rank (map (rerank (zip (map is_id xs) rs)) xs))"
  then have k: "k < length xs" by simp
  have "map_of (zip (map is_id xs) rs) (is_id (xs ! k)) = Some (rs ! k)"
    using map_of_zip_nth [of "map is_id xs" rs k] assms k by simp
  then show "map is_rank (map (rerank (zip (map is_id xs) rs)) xs) ! k = rs ! k" using k by (simp add: rerank_def)
qed (use assms in simp)

definition project_board :: "tracker \<Rightarrow> string \<Rightarrow> issue_row list" where
  \<comment> \<open>the project's rows in the order renormalise reads them\<close>
  "project_board db p = sort_key board_key (filter (\<lambda>x. is_project x = p) (issues db))"

lemma project_board_ids: "renormalise_ids db p = map is_id (project_board db p)"
  by (simp add: renormalise_ids_def project_board_def board_key_def [abs_def])

lemma project_board_distinct: "distinct (map is_id (issues db)) \<Longrightarrow> distinct (map is_id (project_board db p))"
  by (auto simp: project_board_def distinct_map distinct_filter inj_on_def)

lemma project_board_rerank:
  assumes "distinct (map is_id (issues db))" "length rs = length (project_board db p)" "sorted_wrt (<) rs"
    "ps = zip (map is_id (project_board db p)) rs"
  shows "project_board (db\<lparr>issues := map (rerank ps) (issues db)\<rparr>) p = map (rerank ps) (project_board db p)"
proof -
  let ?F = "filter (\<lambda>x. is_project x = p) (issues db)"
  have d: "distinct (map is_id (project_board db p))" by (rule project_board_distinct [OF assms(1)])
  have "map is_rank (map (rerank ps) (project_board db p)) = rs" unfolding assms(4) by (rule rerank_ranks [OF d assms(2)])
  then have s: "sorted (map board_key (map (rerank ps) (project_board db p)))"
    by (rule sorted_board_keys [OF _ assms(3), rotated]) (simp add: assms(2))
  have m: "mset (map (rerank ps) ?F) = mset (map (rerank ps) (project_board db p))" by (simp add: project_board_def)
  have i: "inj_on board_key (set (map (rerank ps) ?F))"
    by (rule board_key_inj) (use assms(1) in \<open>simp add: o_def distinct_map distinct_filter inj_on_def\<close>)
  have "filter (\<lambda>x. is_project x = p) (map (rerank ps) (issues db)) = map (rerank ps) ?F"
    by (simp add: filter_map o_def)
  then show ?thesis using sort_key_inj_key_eq [OF m i s] by (simp add: project_board_def)
qed

text \<open>
  C15. Renormalising a project whose board holds at most half of \<open>62 ^ 8\<close> cards succeeds, leaves the cards in the order
  they had, gives them strictly increasing valid ranks, and changes no column but \<open>rank\<close> and no card of another project.
\<close>

theorem renormalise_keeps_order:
  assumes "env_ok E" "no_faults E" "uuid_shape p" "distinct (map is_id (issues db))"
    "int (length (renormalise_ids db p)) * 2 \<le> 62 ^ 8"
  shows "\<exists>db'. renormalise E db p = Inr db' \<and> renormalise_ids db' p = renormalise_ids db p \<and>
    sorted_wrt (<) (map is_rank (project_board db' p)) \<and> list_all rank_shape (map is_rank (project_board db' p)) \<and>
    map (\<lambda>x. x\<lparr>is_rank := ''''\<rparr>) (issues db') = map (\<lambda>x. x\<lparr>is_rank := ''''\<rparr>) (issues db) \<and>
    filter (\<lambda>x. is_project x \<noteq> p) (issues db') = filter (\<lambda>x. is_project x \<noteq> p) (issues db)"
proof -
  let ?ids = "renormalise_ids db p"
  obtain rs where rs: "Renormalise (int (length ?ids)) = Inr rs" using Renormalise_total [OF _ assms(5)] by auto
  have r: "length rs = length (project_board db p)" "sorted_wrt (<) rs" "list_all rank_shape rs"
    using Renormalise_props [OF rs] rank_shape_valid by (auto simp: project_board_ids list_all_iff)
  define ps where "ps = zip (map is_id (project_board db p)) rs"
  have d: "distinct (map is_id (project_board db p))" by (rule project_board_distinct [OF assms(4)])
  have res: "renormalise E db p = Inr (db\<lparr>issues := map (rerank ps) (issues db)\<rparr>)"
    using assms(1-3) rs r(1,3) d by (simp add: renormalise_def project_board_ids fold_set_rank ps_def)
  let ?db' = "db\<lparr>issues := map (rerank ps) (issues db)\<rparr>"
  have b: "project_board ?db' p = map (rerank ps) (project_board db p)"
    by (rule project_board_rerank [OF assms(4) r(1,2) ps_def])
  have ranks: "map is_rank (project_board ?db' p) = rs"
    unfolding b using rerank_ranks [OF d r(1)] by (simp add: ps_def)
  have other: "rerank ps x = x" if "x \<in> set (issues db)" "is_project x \<noteq> p" for x
  proof -
    have "is_id x \<notin> is_id ` set (project_board db p)"
      using that assms(4) by (auto simp: project_board_def distinct_map inj_on_def)
    then have "map_of ps (is_id x) = None" using r(1) by (simp add: ps_def map_of_zip_is_None)
    then show ?thesis by (simp add: rerank_def)
  qed
  have "filter (\<lambda>x. is_project x \<noteq> p) (map (rerank ps) (issues db)) =
      map (rerank ps) (filter (\<lambda>x. is_project x \<noteq> p) (issues db))" by (simp add: filter_map o_def)
  also have "\<dots> = filter (\<lambda>x. is_project x \<noteq> p) (issues db)" by (rule map_idI) (use other in auto)
  finally show ?thesis using res ranks r(2,3) by (simp add: project_board_ids b o_def)
qed

section \<open>Pages\<close>

definition board_rows :: "tracker \<Rightarrow> string list \<Rightarrow> string \<Rightarrow> string \<Rightarrow> issue_row list" where
  \<comment> \<open>everything a caller with these keys may see on the board of the project, in board order\<close>
  "board_rows db keys p stateID = sort_key board_key (filter (\<lambda>x. is_project x = p \<and> is_archived_at x = None \<and>
     (stateID = '''' \<or> is_state x = stateID) \<and> issue_visible db keys x) (issues db))"

definition after_cursor :: "ListOptions \<Rightarrow> issue_row \<Rightarrow> bool" where
  "after_cursor opts x \<longleftrightarrow> lo_CursorRank opts = '''' \<or> board_key x > [lo_CursorRank opts, lo_CursorID opts]"

definition page_limit :: "ListOptions \<Rightarrow> nat" where
  "page_limit opts = nat (if lo_Limit opts \<le> 0 then 50 else lo_Limit opts)"

lemma page_limit_pos: "0 < page_limit opts"
  by (simp add: page_limit_def)

fun read_pages :: "env \<Rightarrow> tracker \<Rightarrow> string list \<Rightarrow> ListOptions \<Rightarrow> nat \<Rightarrow> issue_row list option" where
  \<comment> \<open>a client that follows the cursor until the last page\<close>
  "read_pages E db keys opts 0 = None"
| "read_pages E db keys opts (Suc n) =
     (case issue_List E db keys opts of
        Inl _ \<Rightarrow> None
      | Inr (out, r, i, hasMore) \<Rightarrow>
          if hasMore then map_option ((@) out) (read_pages E db keys (opts\<lparr>lo_CursorRank := r, lo_CursorID := i\<rparr>) n)
          else Some out)"

lemma issue_List_page:
  assumes "env_ok E" "no_faults E" "keys \<noteq> []" "uuid_shape (lo_ProjectID opts)"
    "lo_StateID opts = '''' \<or> uuid_shape (lo_StateID opts)"
    "rows = filter (after_cursor opts) (board_rows db keys (lo_ProjectID opts) (lo_StateID opts))" "n = page_limit opts"
  shows "issue_List E db keys opts = Inr (if n < length rows
    then (take n rows, is_rank (rows ! (n - 1)), is_id (rows ! (n - 1)), True) else (rows, '''', '''', False))"
proof -
  have lastn: "last (take n rows) = rows ! (n - 1)" if "n < length rows"
  proof -
    have "take n rows \<noteq> []" using that page_limit_pos [of opts] assms(7) by auto
    then show ?thesis using that by (simp add: last_conv_nth min_def)
  qed
  have rows: "list_rows db keys (lo_ProjectID opts) (nullable (lo_StateID opts)) (lo_CursorRank opts) (lo_CursorID opts) k =
      take k rows" for k
    unfolding assms(6) board_rows_def filter_sort filter_filter list_rows_def
    by (rule arg_cong [where f = "\<lambda>xs. take k (sort_key board_key xs)"], rule filter_cong)
      (auto simp: after_cursor_def nullable_def)
  have "issue_List E db keys opts = Inr (issue_page n (take (n + 1) rows))"
    using assms(1-4)
    by (simp add: issue_List_def uuid_arg_opt_nullable [OF assms(1,5)] rows assms(7) page_limit_def Let_def)
  moreover have "0 < n" using page_limit_pos [of opts] assms(7) by simp
  ultimately show ?thesis using lastn by (auto simp: issue_page_def Let_def min_def)
qed

lemma filter_greater_drop:
  fixes f :: "'a \<Rightarrow> 'b :: linorder"
  assumes "sorted_wrt (<) (map f xs)" "n < length xs"
  shows "filter (\<lambda>x. f (xs ! n) < f x) xs = drop (Suc n) xs"
proof -
  have "filter (\<lambda>x. f (xs ! n) < f x) (take (Suc n) xs) = []"
    using assms by (auto simp: filter_empty_conv in_set_conv_nth sorted_wrt_iff_nth_less not_less le_less less_Suc_eq)
  moreover have "filter (\<lambda>x. f (xs ! n) < f x) (drop (Suc n) xs) = drop (Suc n) xs"
    using assms by (auto simp: filter_id_conv in_set_conv_nth sorted_wrt_iff_nth_less)
  ultimately show ?thesis
    using filter_append [of "\<lambda>x. f (xs ! n) < f x" "take (Suc n) xs" "drop (Suc n) xs"] by simp
qed

lemma board_rows_sorted:
  assumes "distinct (map is_id (issues db))"
  shows "sorted_wrt (<) (map board_key (board_rows db keys p st))"
proof -
  have "distinct (map is_id (board_rows db keys p st))"
    using assms by (auto simp: board_rows_def distinct_map distinct_filter inj_on_def)
  then have "distinct (map board_key (board_rows db keys p st))"
    using board_key_inj by (auto simp: distinct_map)
  then show ?thesis by (simp add: strict_sorted_iff board_rows_def)
qed

lemma next_page_rows:
  assumes "distinct (map is_id (issues db))" "\<forall>x \<in> set (issues db). is_rank x \<noteq> ''''"
    "rows = filter (after_cursor opts) (board_rows db keys p st)" "n < length rows"
  shows "filter (after_cursor (opts\<lparr>lo_CursorRank := is_rank (rows ! n), lo_CursorID := is_id (rows ! n)\<rparr>))
    (board_rows db keys p st) = drop (Suc n) rows"
proof -
  let ?B = "board_rows db keys p st"
  have sub: "set rows \<subseteq> set (issues db)" by (auto simp: assms(3) board_rows_def)
  have ne: "is_rank (rows ! n) \<noteq> ''''" using assms(2,4) sub nth_mem by blast
  have "after_cursor opts x" if "board_key (rows ! n) < board_key x" for x
    using nth_mem [OF assms(4)] that by (auto simp: assms(3) after_cursor_def)
  then have "filter (after_cursor (opts\<lparr>lo_CursorRank := is_rank (rows ! n), lo_CursorID := is_id (rows ! n)\<rparr>)) ?B =
      filter (\<lambda>x. board_key (rows ! n) < board_key x) rows"
    using ne unfolding assms(3) filter_filter
    by (intro filter_cong) (auto simp: after_cursor_def board_key_def simp flip: assms(3))
  also have "\<dots> = drop (Suc n) rows"
  proof (rule filter_greater_drop [OF _ assms(4)])
    show "sorted_wrt (<) (map board_key rows)"
      using board_rows_sorted [OF assms(1)] unfolding assms(3)
      by (simp add: sorted_wrt_map sorted_wrt_filter)
  qed
  finally show ?thesis .
qed

lemma read_pages_rows:
  assumes "env_ok E" "no_faults E" "keys \<noteq> []" "distinct (map is_id (issues db))"
    "\<forall>x \<in> set (issues db). is_rank x \<noteq> ''''"
    "uuid_shape (lo_ProjectID opts)" "lo_StateID opts = '''' \<or> uuid_shape (lo_StateID opts)"
    "length (filter (after_cursor opts) (board_rows db keys (lo_ProjectID opts) (lo_StateID opts))) < k"
  shows "read_pages E db keys opts k =
    Some (filter (after_cursor opts) (board_rows db keys (lo_ProjectID opts) (lo_StateID opts)))"
  using assms(6-8)
proof (induction k arbitrary: opts)
  case (Suc k)
  define rows where "rows = filter (after_cursor opts) (board_rows db keys (lo_ProjectID opts) (lo_StateID opts))"
  define n where "n = page_limit opts"
  note page = issue_List_page [OF assms(1-3) Suc.prems(1,2) rows_def n_def]
  show ?case
  proof (cases "n < length rows")
    case True
    have n: "0 < n" using page_limit_pos by (simp add: n_def)
    define o1 where "o1 = opts\<lparr>lo_CursorRank := is_rank (rows ! (n - 1)), lo_CursorID := is_id (rows ! (n - 1))\<rparr>"
    have same: "lo_ProjectID o1 = lo_ProjectID opts" "lo_StateID o1 = lo_StateID opts" by (simp_all add: o1_def)
    have nxt: "filter (after_cursor o1) (board_rows db keys (lo_ProjectID opts) (lo_StateID opts)) = drop n rows"
      using next_page_rows [OF assms(4,5) rows_def, of "n - 1"] True n by (simp add: o1_def)
    have "length rows < Suc k" using Suc.prems(3) by (simp add: rows_def)
    then have "read_pages E db keys o1 k = Some (drop n rows)"
      using Suc.IH [of o1] Suc.prems(1,2) n True by (simp add: same nxt)
    then show ?thesis using page True unfolding rows_def [symmetric] by (simp add: o1_def)
  qed (use page in \<open>simp add: rows_def\<close>)
qed simp

text \<open>
  C16. A client that starts at the top of a board and follows the cursor of each page to the next reads every card it may
  see exactly once, in board order, whatever the page size: the keyset cursor neither skips nor repeats a card.
\<close>

theorem pages_read_the_board:
  assumes "env_ok E" "no_faults E" "keys \<noteq> []" "distinct (map is_id (issues db))"
    "\<forall>x \<in> set (issues db). is_rank x \<noteq> ''''"
    "uuid_shape (lo_ProjectID opts)" "lo_StateID opts = '''' \<or> uuid_shape (lo_StateID opts)" "lo_CursorRank opts = ''''"
    "length (issues db) < k"
  shows "read_pages E db keys opts k = Some (board_rows db keys (lo_ProjectID opts) (lo_StateID opts))"
proof -
  have all: "filter (after_cursor opts) xs = xs" for xs using assms(8) by (simp add: after_cursor_def)
  have "length (board_rows db keys (lo_ProjectID opts) (lo_StateID opts)) \<le> length (issues db)"
    by (simp add: board_rows_def)
  then show ?thesis using read_pages_rows [OF assms(1-7), of k] assms(9) unfolding all by simp
qed

section \<open>New issues\<close>

definition below_counter :: "(string \<times> int) list \<Rightarrow> issue_row \<Rightarrow> bool" where
  "below_counter cs x = (case map_of cs (is_project x) of None \<Rightarrow> False | Some n \<Rightarrow> is_number x < n)"

definition numbering_ok :: "tracker \<Rightarrow> bool" where
  \<comment> \<open>numbers are unique in a project and below its counter\<close>
  "numbering_ok db \<longleftrightarrow> distinct (map fst (issue_counters db)) \<and>
     distinct (map (\<lambda>x. (is_project x, is_number x)) (issues db)) \<and>
     (\<forall>x \<in> set (issues db). below_counter (issue_counters db) x)"

lemma with_acl_Inr:
  "with_acl db f = Inr db' \<longleftrightarrow> (\<exists>a. f (tr_acl db) = Inr a \<and> db' = db\<lparr>tr_acl := a\<rparr>)"
  by (auto simp: with_acl_def split: sum.splits)

lemma run_sql_Inr [simp]: "run_sql E l v = Inr w \<longleftrightarrow> \<not> db_fault E l \<and> w = v"
  by (auto simp: run_sql_def)

lemma uuid_arg_opt_Inr: "uuid_arg_opt E l s k = Inr v \<Longrightarrow> \<exists>u. k u = Inr v"
  by (auto simp: uuid_arg_opt_def uuid_arg_def split: option.splits)

lemma map_of_bump:
  "map_of (map (\<lambda>(q, n). if q = p then (q, n + 1) else (q, n)) cs) q =
     map_option (\<lambda>n. if q = p then n + (1 :: int) else n) (map_of cs q)"
  by (induction cs) auto

lemma below_counter_bump:
  "below_counter cs x \<or> map_of cs p = Some (is_number x) \<and> is_project x = p \<Longrightarrow>
     below_counter (map (\<lambda>(q, n). if q = p then (q, n + 1) else (q, n)) cs) x"
  by (auto simp: below_counter_def map_of_bump split: option.splits)

lemma distinct_bump [simp]:
  "distinct (map (fst \<circ> (\<lambda>(q, n). if q = p then (q, n + (1 :: int)) else (q, n))) cs) = distinct (map fst cs)"
proof -
  have "fst \<circ> (\<lambda>(q, n). if q = p then (q, n + (1 :: int)) else (q, n)) = fst" by auto
  then show ?thesis by simp
qed

lemma allocate_number_Inr:
  "allocate_number E db p = Inr (db', number) \<Longrightarrow> map_of (issue_counters db) p = Some number \<and>
     db' = db\<lparr>issue_counters := map (\<lambda>(q, n). if q = p then (q, n + 1) else (q, n)) (issue_counters db)\<rparr>"
  by (auto simp: allocate_number_def bindR_Inr_iff split: option.splits)

lemma insert_issue_Inr:
  "insert_issue E x db = Inr db' \<Longrightarrow> db' = db\<lparr>issues := issues db @ [x]\<rparr> \<and>
     (\<forall>y \<in> set (issues db). is_project y = is_project x \<longrightarrow> is_number y \<noteq> is_number x)"
  by (auto simp: insert_issue_def split: if_splits)

lemma top_rank_Inr:
  assumes "top_rank E db p = Inr r" "board_ok db" "x \<in> set (issues db)" "is_project x = p" "is_archived_at x = None"
  shows "r < is_rank x"
proof -
  let ?rs = "map is_rank (filter (\<lambda>x. is_project x = p \<and> is_archived_at x = None) (issues db))"
  have x: "is_rank x \<in> set ?rs" using assms(3-5) by auto
  then obtain m where m: "min_list_opt ?rs = Some m" using min_list_opt_None [of ?rs] by fastforce
  have "m \<in> set ?rs" by (rule min_list_opt_Some [OF m])
  then have g: "good_rank m" "bound_ok m" using assms(2) by (auto simp: board_ok_def bound_ok_def good_rank_def)
  have b: "Between '''' m = Inr r"
    using assms(1) m by (auto simp: top_rank_def bindR_Inr_iff derefOr_def split: sum.splits)
  have "bound_ok []" by (simp add: bound_ok_def rank_digits_def)
  from Between_length [OF this _ g(2) b] g(1) have "r < m" by (auto simp: good_rank_def)
  also have "m \<le> is_rank x" by (rule min_list_opt_Some(2) [OF m x])
  finally show ?thesis .
qed

lemma CreateIssue_row:
  assumes "CreateIssue E db newID p title description stateID assigneeID actorID priority = (Inr out, db')"
    "env_ok E" "uuid_shape p"
  shows "\<exists>x db1 db2. allocate_number E db p = Inr (db1, is_number x) \<and> top_rank E db1 p = Inr (is_rank x) \<and>
    insert_issue E x db1 = Inr db2 \<and>
    with_acl db2 (\<lambda>a. RegisterTx E a (IssueObject newID) (ProjectObject p)) = Inr db' \<and>
    is_id x = newID \<and> is_project x = p \<and> is_archived_at x = None"
proof -
  have "\<exists>t. create_issue_tx E newID p t description stateID assigneeID actorID priority db = Inr (db', out)"
    using assms(1) by (auto simp: CreateIssue_def WithTx_def Let_def split: if_splits sum.splits)
  then obtain t pj where t: "create_issue_tx E newID p t description stateID assigneeID actorID priority db = Inr (db', out)"
    and pj: "find (\<lambda>x. pj_id x = p) (projects db) = Some pj"
    using assms(2,3) by (cases "find (\<lambda>x. pj_id x = p) (projects db)") (auto simp: create_issue_tx_def bindR_Inr_iff)
  obtain db1 n r as ac sid db2 where row:
    "allocate_number E db p = Inr (db1, n)" "top_rank E db1 p = Inr r"
    "insert_issue E \<lparr>is_id = newID, is_workspace = pj_workspace pj, is_project = p, is_number = n, is_title = t,
       is_description = description, is_state = sid, is_assignee = as, is_cycle = None, is_priority = priority,
       is_rank = r, is_completed_at = None, is_archived_at = None, is_created_by = ac\<rparr> db1 = Inr db2"
    "with_acl db2 (\<lambda>a. RegisterTx E a (IssueObject newID) (ProjectObject p)) = Inr db'"
    using t pj assms(2,3)
    by (auto simp: create_issue_tx_def bindR_Inr_iff dest!: uuid_arg_opt_Inr split: if_splits)
  let ?x = "\<lparr>is_id = newID, is_workspace = pj_workspace pj, is_project = p, is_number = n, is_title = t,
       is_description = description, is_state = sid, is_assignee = as, is_cycle = None, is_priority = priority,
       is_rank = r, is_completed_at = None, is_archived_at = None, is_created_by = ac\<rparr>"
  show ?thesis by (intro exI [of _ ?x] exI [of _ db1] exI [of _ db2]) (simp add: row)
qed

lemma normalize_object_canonical:
  assumes "env_ok E" "typePattern t" "uuid_shape i"
  shows "normalize_object E \<lparr>obj_type = t, obj_id = i\<rparr> = Inr (Some \<lparr>obj_type = t, obj_id = i\<rparr>)"
  using normalize_canonical(2) [OF assms(1), of "\<lparr>ao_type = t, ao_id = i, ao_workspace = [], ao_path = []\<rparr>"] assms(2,3)
  by (simp add: row_ref_def)

lemma object_types:
  "typePattern TypeIssue" "typePattern TypeProject" "\<not> derivedTypes TypeIssue" "TypeProject = ''project''"
  "''project'' \<noteq> TypeIssue"
  by code_simp+

lemma numbering_ok_append:
  assumes "numbering_ok db" "map_of (issue_counters db) p = Some (is_number x)" "is_project x = p"
    "\<forall>y \<in> set (issues db). is_project y = p \<longrightarrow> is_number y \<noteq> is_number x"
  shows "numbering_ok (db\<lparr>issue_counters := map (\<lambda>(q, n). if q = p then (q, n + 1) else (q, n)) (issue_counters db),
    issues := issues db @ [x]\<rparr>)"
  using assms by (auto simp: numbering_ok_def intro: below_counter_bump)

lemma numbering_ok_acl [simp]: "numbering_ok (db\<lparr>tr_acl := a\<rparr>) = numbering_ok db"
  by (simp add: numbering_ok_def)

lemma register_issue_inv:
  assumes "RegisterTx E acl (IssueObject newID) (ProjectObject p) = Inr acl'" "acl_inv acl" "env_ok E"
    "uuid_shape newID" "uuid_shape p" "fresh_ref acl (IssueObject newID)"
    "par \<in> set (acl_object acl)" "ao_type par = ''project''" "ao_id par = p"
  shows "acl_inv acl'"
proof -
  have n: "normalizeRegister E (IssueObject newID) (ProjectObject p) = Inr (IssueObject newID, ProjectObject p)"
    using normalize_object_canonical [OF assms(3) object_types(1) assms(4)]
      normalize_object_canonical [OF assms(3) object_types(2) assms(5)]
    by (simp add: normalizeRegister_def object_types IssueObject_def ProjectObject_def)
  show ?thesis
    using registerIn_inv [of E acl "IssueObject newID" "ProjectObject p" acl' par] assms n object_types fresh_leaf
    by (simp add: RegisterTx_def IssueObject_def ProjectObject_def)
qed

text \<open>
  An issue that \<open>CreateIssue\<close> created is on top of its project's board: its rank is below the rank of every active
  issue of the project. Its number is the one the counter held, no other issue of the project has it, and the numbering
  stays unique and below the counter. The row is appended, no other issue changes, and the permission tables, which the
  issue is registered in under its project, stay consistent.
\<close>

theorem created_issue_on_top:
  assumes "CreateIssue E db newID p title description stateID assigneeID actorID priority = (Inr out, db')"
    "env_ok E" "uuid_shape newID" "uuid_shape p" "board_ok db" "numbering_ok db" "acl_inv (tr_acl db)"
    "fresh_ref (tr_acl db) (IssueObject newID)"
    "par \<in> set (acl_object (tr_acl db))" "ao_type par = ''project''" "ao_id par = p"
  shows "\<exists>x. issues db' = issues db @ [x] \<and> is_id x = newID \<and> is_project x = p \<and>
    map_of (issue_counters db) p = Some (is_number x) \<and>
    (\<forall>y \<in> set (issues db). is_project y = p \<longrightarrow> is_number y \<noteq> is_number x \<and>
       (is_archived_at y = None \<longrightarrow> is_rank x < is_rank y)) \<and>
    numbering_ok db' \<and> acl_inv (tr_acl db')"
proof -
  obtain x db1 db2 where x: "allocate_number E db p = Inr (db1, is_number x)" "top_rank E db1 p = Inr (is_rank x)"
    "insert_issue E x db1 = Inr db2" "with_acl db2 (\<lambda>a. RegisterTx E a (IssueObject newID) (ProjectObject p)) = Inr db'"
    "is_id x = newID" "is_project x = p" "is_archived_at x = None"
    using CreateIssue_row [OF assms(1,2,4)] by blast
  note db1 = allocate_number_Inr [OF x(1)] and db2 = insert_issue_Inr [OF x(3)]
  obtain acl where acl: "RegisterTx E (tr_acl db) (IssueObject newID) (ProjectObject p) = Inr acl"
    "db' = db2\<lparr>tr_acl := acl\<rparr>" using x(4) db1 db2 by (auto simp: with_acl_Inr)
  have "board_ok db1" using assms(5) db1 by (simp add: board_ok_def)
  then have top: "is_rank x < is_rank y" if "y \<in> set (issues db)" "is_project y = p" "is_archived_at y = None" for y
    using top_rank_Inr [OF x(2)] that db1 by auto
  have "numbering_ok db'"
    using numbering_ok_append [OF assms(6) _ x(6)] db1 db2 acl(2) x(6) by simp
  moreover have "acl_inv (tr_acl db')"
    using register_issue_inv [OF acl(1) assms(7,2-4,8-11)] acl(2) by simp
  ultimately show ?thesis using top db1 db2 acl(2) x(5,6) by (intro exI [of _ x]) auto
qed

section \<open>A concrete board\<close>

definition sample_card :: "char \<Rightarrow> int \<Rightarrow> string \<Rightarrow> issue_row" where
  "sample_card c n r = \<lparr>is_id = uid c, is_workspace = uid CHR ''a'', is_project = uid CHR ''b'', is_number = n,
     is_title = ''card'', is_description = '''', is_state = uid CHR ''c'', is_assignee = None, is_cycle = None,
     is_priority = 0, is_rank = r, is_completed_at = None, is_archived_at = None, is_created_by = None\<rparr>"

definition sample_acl :: database where
  "sample_acl =
     (let w = uid CHR ''a''; root = ''/workspace:'' @ w @ ''/'' in
      \<lparr>users = [], workspaces = [w], workspace_members = [], channels = [], channel_members = [], messages = [], files = [],
       mail_messages = [], mail_conversations = [], sso_providers = [], user_blocks = [],
       acl_object =
         [\<lparr>ao_type = ''workspace'', ao_id = w, ao_workspace = w, ao_path = root\<rparr>,
          \<lparr>ao_type = ''project'', ao_id = uid CHR ''b'', ao_workspace = w, ao_path = root @ ''project:'' @ uid CHR ''b'' @ ''/''\<rparr>],
       acl_grant = [],
       acl_key = [\<lparr>ak_type = ''workspace'', ak_id = w, ak_key = ''w-'' @ w\<rparr>]\<rparr>)"

definition sample_board :: tracker where
  "sample_board =
     \<lparr>tr_acl = sample_acl,
      projects = [\<lparr>pj_id = uid CHR ''b'', pj_workspace = uid CHR ''a'', pj_name = ''Ops'', pj_key = ''OPS'',
        pj_description = '''', pj_archived_at = None, pj_created_by = None\<rparr>],
      issue_counters = [(uid CHR ''b'', 4)],
      issue_states = [\<lparr>st_id = uid CHR ''c'', st_project = uid CHR ''b'', st_name = ''Todo'', st_category = ''unstarted'',
        st_position = 0, st_color = '''', st_created_at = 0\<rparr>],
      issues = [sample_card CHR ''1'' 1 ''B'', sample_card CHR ''2'' 2 ''C'', sample_card CHR ''3'' 3 ''D''],
      issue_activity = []\<rparr>"

lemma sample_board_facts:
  "board_ok sample_board" "numbering_ok sample_board" "distinct (map is_id (issues sample_board))"
  "\<forall>x \<in> set (issues sample_board). is_rank x \<noteq> ''''"
  "int (length (renormalise_ids sample_board (uid CHR ''b''))) * 2 \<le> 62 ^ 8"
  by code_simp+

lemma sample_board_shapes:
  "uuid_shape (uid CHR ''1'')" "uuid_shape (uid CHR ''3'')" "uuid_shape (uid CHR ''b'')" "uuid_shape (uid CHR ''c'')"
  "uuid_shape (uid CHR ''4'')"
  by code_simp+

theorem drop_lands_next_to_anchor_witness:
  "\<exists>r out db'. issue_Move sample_env sample_board (uid CHR ''3'') (uid CHR ''1'') '''' '''' '''' = (Inr out, db') \<and>
     ''B'' < r \<and> r < ''C''"
proof -
  let ?x = "sample_card CHR ''3'' 3 ''D''" and ?y = "sample_card CHR ''1'' 1 ''B''"
  have f: "issue_by_id sample_board (uid CHR ''3'') = Some ?x" "issue_by_id sample_board (uid CHR ''1'') = Some ?y"
    "is_project ?y = is_project ?x" "uuid_shape (is_project ?x)" "uuid_shape (is_state ?x)"
    "sample_card CHR ''2'' 2 ''C'' \<in> set (active_others sample_board (is_project ?x) (uid CHR ''3''))"
    "is_rank ?y = ''B''" "is_rank (sample_card CHR ''2'' 2 ''C'') = ''C''" "''B'' < ''C''"
    by code_simp+
  show ?thesis
    using drop_lands_next_to_anchor [OF sample_env_ok sample_board_facts(1)
      sample_board_shapes(2,1) f(1-5)] f(6-9) by fastforce
qed

theorem renormalise_keeps_order_witness:
  "\<exists>db'. renormalise sample_env sample_board (uid CHR ''b'') = Inr db' \<and>
     renormalise_ids db' (uid CHR ''b'') = [uid CHR ''1'', uid CHR ''2'', uid CHR ''3'']"
proof -
  have "renormalise_ids sample_board (uid CHR ''b'') = [uid CHR ''1'', uid CHR ''2'', uid CHR ''3'']" by code_simp
  then show ?thesis
    using renormalise_keeps_order [OF sample_env_ok sample_board_shapes(3) sample_board_facts(3,5)] by auto
qed

definition visible_board :: tracker where
  "visible_board = sample_board\<lparr>tr_acl := sample_acl\<lparr>acl_key :=
     map (\<lambda>c. \<lparr>ak_type = ''issue'', ak_id = uid c, ak_key = ''u-me''\<rparr>) [CHR ''1'', CHR ''2'', CHR ''3'']\<rparr>\<rparr>"

definition first_page :: ListOptions where
  "first_page = \<lparr>lo_ProjectID = uid CHR ''b'', lo_StateID = '''', lo_CursorRank = '''', lo_CursorID = '''', lo_Limit = 2\<rparr>"

theorem pages_read_the_board_witness:
  "read_pages sample_env visible_board [''u-me''] first_page 4 =
     Some [sample_card CHR ''1'' 1 ''B'', sample_card CHR ''2'' 2 ''C'', sample_card CHR ''3'' 3 ''D'']"
proof -
  have f: "distinct (map is_id (issues visible_board))" "\<forall>x \<in> set (issues visible_board). is_rank x \<noteq> ''''"
    "uuid_shape (lo_ProjectID first_page)" "lo_StateID first_page = '''' \<or> uuid_shape (lo_StateID first_page)"
    "lo_CursorRank first_page = ''''" "length (issues visible_board) < 4" by code_simp+
  have "board_rows visible_board [''u-me''] (lo_ProjectID first_page) (lo_StateID first_page) =
      [sample_card CHR ''1'' 1 ''B'', sample_card CHR ''2'' 2 ''C'', sample_card CHR ''3'' 3 ''D'']" by code_simp
  then show ?thesis using pages_read_the_board [OF sample_env_ok _ f, of "[''u-me'']"] by simp
qed

lemma sample_acl_inv: "acl_inv sample_acl"
  by code_simp

lemma sample_create_runs:
  "\<exists>out db'. CreateIssue sample_env sample_board (uid CHR ''4'') (uid CHR ''b'') ''Fix it'' '''' '''' '''' '''' 0 = (Inr out, db')"
proof -
  have "isl (fst (CreateIssue sample_env sample_board (uid CHR ''4'') (uid CHR ''b'') ''Fix it'' '''' '''' '''' '''' 0)) = False"
    by code_simp
  then show ?thesis
    by (cases "CreateIssue sample_env sample_board (uid CHR ''4'') (uid CHR ''b'') ''Fix it'' '''' '''' '''' '''' 0")
      (auto simp: isl_def split: sum.splits, metis sum.exhaust)
qed

theorem created_issue_on_top_witness:
  "\<exists>out db' x. CreateIssue sample_env sample_board (uid CHR ''4'') (uid CHR ''b'') ''Fix it'' '''' '''' '''' '''' 0 = (Inr out, db') \<and>
     issues db' = issues sample_board @ [x] \<and> is_number x = 4 \<and> is_rank x < ''B'' \<and> numbering_ok db'"
proof -
  obtain out db' where run: "CreateIssue sample_env sample_board (uid CHR ''4'') (uid CHR ''b'') ''Fix it'' '''' '''' '''' '''' 0 = (Inr out, db')"
    using sample_create_runs by blast
  let ?par = "\<lparr>ao_type = ''project'', ao_id = uid CHR ''b'', ao_workspace = uid CHR ''a'',
    ao_path = ''/workspace:'' @ uid CHR ''a'' @ ''/project:'' @ uid CHR ''b'' @ ''/''\<rparr>"
  have f: "acl_inv (tr_acl sample_board)" "fresh_ref (tr_acl sample_board) (IssueObject (uid CHR ''4''))"
    "?par \<in> set (acl_object (tr_acl sample_board))" "ao_type ?par = ''project''" "ao_id ?par = uid CHR ''b''"
    "map_of (issue_counters sample_board) (uid CHR ''b'') = Some 4"
    "sample_card CHR ''1'' 1 ''B'' \<in> set (issues sample_board)" "is_project (sample_card CHR ''1'' 1 ''B'') = uid CHR ''b''"
    "is_archived_at (sample_card CHR ''1'' 1 ''B'') = None" "is_rank (sample_card CHR ''1'' 1 ''B'') = ''B''"
    by (simp add: sample_board_def sample_acl_inv, code_simp+)
  show ?thesis
    using created_issue_on_top [OF run sample_env_ok(1) sample_board_shapes(5,3) sample_board_facts(1,2) f(1-5)] f(6-10) run
    by fastforce
qed

end
