(* ===== verification/Go_Text.thy ===== *)
theory Go_Text
  imports SO_Prelude
begin

text \<open>
  Text renderings of Go's standard library that the audit chain hashes: \<open>strconv.AppendInt\<close> and \<open>strconv.FormatInt\<close> in
  base 10, and \<open>time.Time.Format\<close> with \<open>time.RFC3339Nano\<close> and \<open>time.RFC3339\<close> in UTC. A time is the number of
  nanoseconds since the Unix epoch. The calendar is the proleptic Gregorian one, computed the way \<open>time.absDate\<close> does:
  cycles of 400, 100, 4 and 1 years from 1 January of year 0 on, then the month within the year.
\<close>

section \<open>Decimal numbers\<close>

definition digit_char :: "int \<Rightarrow> char" where
  "digit_char d = char_of (48 + d)"

function dec :: "int \<Rightarrow> string" where
  "dec n = (if n < 10 then [digit_char n] else dec (n div 10) @ [digit_char (n mod 10)])"
  by pat_completeness auto

termination dec
  by (relation "measure nat") auto

declare dec.simps [simp del]

definition FormatInt :: "int \<Rightarrow> string" where
  "FormatInt i = (if i < 0 then ''-'' @ dec (- i) else dec i)"

fun undec :: "int \<Rightarrow> string \<Rightarrow> int" where
  "undec acc [] = acc"
| "undec acc (c # cs) = undec (10 * acc + (of_char c - 48)) cs"

lemma undec_append: "undec acc (s @ t) = undec (undec acc s) t"
  by (induction s arbitrary: acc) auto

lemma of_digit_char [simp]: "0 \<le> d \<Longrightarrow> d < 10 \<Longrightarrow> of_char (digit_char d) = 48 + d"
  by (simp add: digit_char_def)

lemma undec_dec: "0 \<le> n \<Longrightarrow> undec 0 (dec n) = n"
proof (induction n rule: dec.induct)
  case (1 n)
  show ?case
  proof (cases "n < 10")
    case False
    then have "undec 0 (dec n) = 10 * (n div 10) + n mod 10"
      using 1 by (simp add: dec.simps [of n] undec_append)
    then show ?thesis by simp
  qed (use 1 in \<open>simp add: dec.simps [of n]\<close>)
qed

lemma dec_inject [simp]: "0 \<le> m \<Longrightarrow> 0 \<le> n \<Longrightarrow> dec m = dec n \<longleftrightarrow> m = n"
  by (metis undec_dec)

lemma dec_digits: "0 \<le> n \<Longrightarrow> c \<in> set (dec n) \<Longrightarrow> 48 \<le> (of_char c :: int) \<and> (of_char c :: int) \<le> 57"
proof (induction n rule: dec.induct)
  case (1 n)
  show ?case
  proof (cases "n < 10")
    case True
    then show ?thesis using 1(2,3) by (simp add: dec.simps [of n])
  next
    case False
    then show ?thesis using 1(1) [OF False] 1(3) by (auto simp: dec.simps [of n])
  qed
qed

lemma dec_no_char [simp]:
  assumes "0 \<le> n"
  shows "CHR '':'' \<notin> set (dec n)" "CHR ''|'' \<notin> set (dec n)" "CHR ''-'' \<notin> set (dec n)"
  using dec_digits [OF assms, of "CHR '':''"] dec_digits [OF assms, of "CHR ''|''"] dec_digits [OF assms, of "CHR ''-''"] by auto

lemma dec_not_minus: "0 \<le> n \<Longrightarrow> dec n \<noteq> CHR ''-'' # s"
  using dec_no_char(3) [of n] by (metis list.set_intros(1))

lemma FormatInt_inject [simp]: "FormatInt i = FormatInt j \<longleftrightarrow> i = j"
proof -
  have "dec m \<noteq> CHR ''-'' # s" "CHR ''-'' # s \<noteq> dec m" if "0 \<le> m" for m s using dec_not_minus [OF that, of s] by auto
  then show ?thesis by (auto simp: FormatInt_def)
qed

section \<open>Length-prefixed fields\<close>

definition prefixed :: "string \<Rightarrow> string" where
  "prefixed p = dec (int (length p)) @ '':'' @ p"

fun lengthPrefixed :: "string list \<Rightarrow> string" where
  "lengthPrefixed [] = []"
| "lengthPrefixed [p] = prefixed p"
| "lengthPrefixed (p # q # ps) = prefixed p @ ''|'' @ lengthPrefixed (q # ps)"

lemma split_at_char:
  "c \<notin> set xs \<Longrightarrow> c \<notin> set ys \<Longrightarrow> xs @ c # r = ys @ c # s \<longleftrightarrow> xs = ys \<and> r = s"
proof (induction xs arbitrary: ys)
  case Nil
  then show ?case by (cases ys) auto
next
  case (Cons x xs)
  then show ?case by (cases ys) auto
qed

lemma prefixed_append: "prefixed p @ r = prefixed q @ s \<longleftrightarrow> p = q \<and> r = s"
proof
  assume a: "prefixed p @ r = prefixed q @ s"
  then have "dec (int (length p)) @ CHR '':'' # (p @ r) = dec (int (length q)) @ CHR '':'' # (q @ s)" by (simp add: prefixed_def)
  then have "length p = length q" "p @ r = q @ s" by (simp_all add: split_at_char)
  then show "p = q \<and> r = s" by simp
qed simp

lemma prefixed_inject [simp]: "prefixed p = prefixed q \<longleftrightarrow> p = q"
  using prefixed_append [of p "[]" q "[]"] by simp

lemma prefixed_nonempty [simp]: "prefixed p \<noteq> []" "[] \<noteq> prefixed p"
  by (simp_all add: prefixed_def)

lemma lengthPrefixed_empty [simp]: "lengthPrefixed ps = [] \<longleftrightarrow> ps = []" "[] = lengthPrefixed ps \<longleftrightarrow> ps = []"
  by (cases ps rule: lengthPrefixed.cases; auto)+

lemma lengthPrefixed_Cons: "lengthPrefixed (p # ps) = prefixed p @ (if ps = [] then [] else CHR ''|'' # lengthPrefixed ps)"
  by (cases ps) auto

lemma lengthPrefixed_inject [simp]: "lengthPrefixed ps = lengthPrefixed qs \<longleftrightarrow> ps = qs"
proof (induction ps arbitrary: qs)
  case (Cons p ps)
  show ?case
  proof (cases qs)
    case (Cons q qs')
    then show ?thesis using Cons.IH by (auto simp: lengthPrefixed_Cons prefixed_append)
  qed simp
qed auto

section \<open>Times\<close>

definition pad_dec :: "nat \<Rightarrow> int \<Rightarrow> string" where
  "pad_dec w n = (let s = dec n in replicate (w - length s) CHR ''0'' @ s)"

definition leap_year :: "int \<Rightarrow> bool" where
  "leap_year y \<longleftrightarrow> y mod 4 = 0 \<and> (y mod 100 \<noteq> 0 \<or> y mod 400 = 0)"

definition year_day :: "int \<Rightarrow> int \<times> int" where
  \<comment> \<open>year and day of the year (from 0) of a number of days since 1 January 1970; year 0 starts 719528 days before\<close>
  "year_day days =
     (let d = days + 719528 - 366; n400 = d div 146097; d = d mod 146097;
          n100 = min 3 (d div 36524); d = d - 36524 * n100;
          n4 = d div 1461; d = d mod 1461;
          n1 = min 3 (d div 365)
      in (400 * n400 + 100 * n100 + 4 * n4 + n1 + 1, d - 365 * n1))"

fun month_day :: "int list \<Rightarrow> int \<Rightarrow> int \<Rightarrow> int \<times> int" where
  "month_day [] m d = (m, d + 1)"
| "month_day (l # ls) m d = (if d < l then (m, d + 1) else month_day ls (m + 1) (d - l))"

definition civil_date :: "int \<Rightarrow> int \<times> int \<times> int" where
  "civil_date days =
     (let (y, yd) = year_day days;
          (m, d) = month_day [31, if leap_year y then 29 else 28, 31, 30, 31, 30, 31, 31, 30, 31, 30, 31] 1 yd
      in (y, m, d))"

definition format_seconds :: "int \<Rightarrow> string" where
  "format_seconds secs =
     (let (y, m, d) = civil_date (secs div 86400); s = secs mod 86400
      in (if y < 0 then ''-'' else '''') @ pad_dec 4 \<bar>y\<bar> @ ''-'' @ pad_dec 2 m @ ''-'' @ pad_dec 2 d @ ''T'' @
         pad_dec 2 (s div 3600) @ '':'' @ pad_dec 2 (s mod 3600 div 60) @ '':'' @ pad_dec 2 (s mod 60))"

definition RFC3339 :: "int \<Rightarrow> string" where
  "RFC3339 t = format_seconds (t div 1000000000) @ ''Z''"

definition RFC3339Nano :: "int \<Rightarrow> string" where
  "RFC3339Nano t =
     (let ns = t mod 1000000000; f = rev (dropWhile ((=) CHR ''0'') (rev (pad_dec 9 ns)))
      in format_seconds (t div 1000000000) @ (if ns = 0 then '''' else ''.'' @ f) @ ''Z'')"

lemma RFC3339Nano_examples:
  "RFC3339Nano 0 = ''1970-01-01T00:00:00Z''"
  "RFC3339Nano 1709210096500000000 = ''2024-02-29T12:34:56.5Z''"
  "RFC3339 (-1) = ''1969-12-31T23:59:59Z''"
  by code_simp+

definition Truncate :: "int \<Rightarrow> int \<Rightarrow> int" where
  \<comment> \<open>\<open>time.Time.Truncate\<close> of a duration that divides a day\<close>
  "Truncate t d = t - t mod d"

lemma Truncate_idem [simp]: "Truncate (Truncate t d) d = Truncate t d"
  by (simp add: Truncate_def minus_mod_eq_mult_div)

end
