(* ===== verification/Go_Hash.thy ===== *)
theory Go_Hash
  imports SO_Prelude
begin

text \<open>
  SHA-256, the \<open>crypto/sha256\<close> of Go's standard library, over byte strings: padding to whole blocks of 64 bytes, the
  message schedule, the compression of a block into eight 32-bit words whose sums wrap, and the 32 bytes of the digest.
\<close>

unbundle bit_operations_syntax

type_synonym sha_state =
  "32 word \<times> 32 word \<times> 32 word \<times> 32 word \<times> 32 word \<times> 32 word \<times> 32 word \<times> 32 word"

section \<open>Round functions\<close>

text \<open>
  The constants are the first 32 bits of the fractional parts of the cube roots of the first 64 primes, and of the square
  roots of the first eight.
\<close>

definition small_primes :: "int list" where
  "small_primes = filter (\<lambda>n. list_all (\<lambda>d. n mod d \<noteq> 0) [2..n - 1]) [2..311]"

fun root_bits :: "nat \<Rightarrow> nat \<Rightarrow> int \<Rightarrow> int \<Rightarrow> int" where
  \<comment> \<open>the largest \<open>r\<close> with \<open>r ^ k \<le> n\<close>, bit by bit from bit \<open>b - 1\<close> down\<close>
  "root_bits k 0 n r = r"
| "root_bits k (Suc b) n r = (let r' = r + 2 ^ b in root_bits k b n (if r' ^ k \<le> n then r' else r))"

definition root_fraction :: "nat \<Rightarrow> int \<Rightarrow> 32 word" where
  "root_fraction k p = word_of_int (root_bits k 40 (p * 2 ^ (32 * k)) 0)"

definition sha_K :: "32 word list" where
  "sha_K = map (root_fraction 3) small_primes"

definition sha_init :: sha_state where
  "sha_init = (let f = \<lambda>i. root_fraction 2 (small_primes ! i) in (f 0, f 1, f 2, f 3, f 4, f 5, f 6, f 7))"

definition big0 :: "32 word \<Rightarrow> 32 word" where
  "big0 x = word_rotr 2 x XOR word_rotr 13 x XOR word_rotr 22 x"

definition big1 :: "32 word \<Rightarrow> 32 word" where
  "big1 x = word_rotr 6 x XOR word_rotr 11 x XOR word_rotr 25 x"

definition small0 :: "32 word \<Rightarrow> 32 word" where
  "small0 x = word_rotr 7 x XOR word_rotr 18 x XOR drop_bit 3 x"

definition small1 :: "32 word \<Rightarrow> 32 word" where
  "small1 x = word_rotr 17 x XOR word_rotr 19 x XOR drop_bit 10 x"

definition sha_round :: "32 word \<times> 32 word \<Rightarrow> sha_state \<Rightarrow> sha_state" where
  "sha_round = (\<lambda>(k, w) (a, b, c, d, e, f, g, h).
     let t1 = h + big1 e + ((e AND f) XOR (NOT e AND g)) + k + w;
         t2 = big0 a + ((a AND b) XOR (a AND c) XOR (b AND c))
     in (t1 + t2, a, b, c, d + t1, e, f, g))"

section \<open>Blocks\<close>

definition be_word :: "char list \<Rightarrow> 32 word" where
  "be_word bs = word_of_int (foldl (\<lambda>n c. 256 * n + of_char c) 0 bs)"

definition be_bytes :: "nat \<Rightarrow> int \<Rightarrow> char list" where
  \<comment> \<open>the lowest \<open>n\<close> bytes, most significant first\<close>
  "be_bytes n v = map (\<lambda>i. char_of (v div 256 ^ i mod 256)) (rev [0..<n])"

definition block_words :: "char list \<Rightarrow> 32 word list" where
  "block_words bs = map (\<lambda>i. be_word (take 4 (drop (4 * i) bs))) [0..<16]"

definition extend_schedule :: "nat \<Rightarrow> 32 word list \<Rightarrow> 32 word list" where
  "extend_schedule t w = w @ [small1 (w ! (t - 2)) + w ! (t - 7) + small0 (w ! (t - 15)) + w ! (t - 16)]"

definition sha_compress :: "sha_state \<Rightarrow> char list \<Rightarrow> sha_state" where
  "sha_compress st bs =
     (let w = fold extend_schedule [16..<64] (block_words bs);
          (a, b, c, d, e, f, g, h) = st;
          (a', b', c', d', e', f', g', h') = fold sha_round (zip sha_K w) st
      in (a + a', b + b', c + c', d + d', e + e', f + f', g + g', h + h'))"

function sha_blocks :: "sha_state \<Rightarrow> char list \<Rightarrow> sha_state" where
  "sha_blocks st bs = (if bs = [] then st else sha_blocks (sha_compress st (take 64 bs)) (drop 64 bs))"
  by pat_completeness auto

termination sha_blocks
  by (relation "measure (\<lambda>(st, bs). length bs)") auto

declare sha_blocks.simps [simp del]

definition sha_pad :: "char list \<Rightarrow> char list" where
  "sha_pad m = m @ [CHR 0x80] @ replicate (nat ((55 - int (length m)) mod 64)) CHR 0x00 @
     be_bytes 8 (8 * int (length m))"

definition sha256 :: "char list \<Rightarrow> char list" where
  "sha256 m =
     (let (a, b, c, d, e, f, g, h) = sha_blocks sha_init (sha_pad m)
      in concat (map (\<lambda>x. be_bytes 4 (uint x)) [a, b, c, d, e, f, g, h]))"

lemma length_be_bytes [simp]: "length (be_bytes n v) = n"
  by (simp add: be_bytes_def)

lemma length_sha256 [simp]: "length (sha256 m) = 32"
  by (simp add: sha256_def split: prod.splits)

lemma sha256_nonempty [simp]: "sha256 m \<noteq> []" "[] \<noteq> sha256 m"
  using length_sha256 [of m] by (metis list.size(3) zero_neq_numeral)+

end
