(* ===== verification/Audit_Chain.thy ===== *)
theory Audit_Chain
  imports Go_Text Go_Hash Authz_Mutation
begin

text \<open>
  The audit log's hash chain: \<open>backend/internal/audit/chain.go\<close>, and the part of \<open>service.go\<close> that resolves an entry into
  the row that is stored. The parts of other systems the code relies on are fields of \<open>audit_env\<close>: \<open>encoding/json\<close> and
  \<open>net.ParseIP\<close> as functions on text, the text Postgres reads back from a \<open>jsonb\<close> and an \<open>inet\<close> column, and the
  \<open>uuid.NewSHA1\<close> of the uuid package. A \<open>bytea\<close> that is NULL scans to a nil slice, which \<open>bytes.Equal\<close> does not distinguish
  from the empty one; here both are the empty string. Times are nanoseconds since the epoch.
\<close>

section \<open>Entries and rows\<close>

record audit_env =
  au_env :: env
  json_recode :: "string \<Rightarrow> string option"
  json_marshal :: "(string \<times> string) list \<Rightarrow> string option"
  json_strings :: "string list \<Rightarrow> string"
  parse_ip :: "string \<Rightarrow> string option"
  pg_jsonb :: "string \<Rightarrow> string option"
  pg_inet :: "string \<Rightarrow> string option"
  uuid_sha1 :: "string \<Rightarrow> string"
  map_order :: "string list \<Rightarrow> string list"

record Entry =
  e_WorkspaceID :: string
  e_ActorID :: string
  e_Action :: string
  e_ResourceType :: string
  e_ResourceID :: string
  e_IPAddress :: string
  e_Metadata :: "(string \<times> string) list"
  e_Coalesce :: bool
  e_At :: "int option"

record storedEntry =
  se_ID :: string
  se_WorkspaceID :: string
  se_ActorID :: string
  se_Action :: string
  se_ResourceType :: string
  se_ResourceID :: string
  se_Metadata :: string
  se_IPAddress :: string
  se_CreatedAt :: int
  se_ChainSeq :: int

record log_row =
  al_id :: string
  al_workspace :: "string option"
  al_actor :: "string option"
  al_action :: string
  al_rtype :: string
  al_rid :: "string option"
  al_metadata :: string
  al_ip :: "string option"
  al_created_at :: int
  al_chain_seq :: "int option"
  al_prev_hash :: string
  al_hash :: string
  al_dedupe_key :: "string option"
  al_event_count :: int
  al_last_at :: "int option"

section \<open>Canonical bytes\<close>

definition canonicalFieldVersion :: string where
  "canonicalFieldVersion = ''v1''"

definition canonicalJSON :: "audit_env \<Rightarrow> string \<Rightarrow> string" where
  "canonicalJSON A raw =
     (if raw = '''' \<or> raw = ''{}'' then ''{}''
      else case json_recode A raw of None \<Rightarrow> raw | Some out \<Rightarrow> out)"

definition canonical_parts :: "audit_env \<Rightarrow> storedEntry \<Rightarrow> string list" where
  "canonical_parts A e =
     [canonicalFieldVersion, se_ID e, se_WorkspaceID e, se_ActorID e, se_Action e, se_ResourceType e, se_ResourceID e,
      canonicalJSON A (se_Metadata e), se_IPAddress e, RFC3339Nano (se_CreatedAt e), FormatInt (se_ChainSeq e)]"

definition canonical :: "audit_env \<Rightarrow> storedEntry \<Rightarrow> string" where
  "canonical A e = lengthPrefixed (canonical_parts A e)"

definition chainHash :: "audit_env \<Rightarrow> string \<Rightarrow> storedEntry \<Rightarrow> string" where
  "chainHash A prev e = sha256 (prev @ canonical A e)"

definition hour :: int where
  "hour = 3600000000000"

definition dedupeKey :: "audit_env \<Rightarrow> string \<Rightarrow> string \<Rightarrow> string \<Rightarrow> string \<Rightarrow> int \<Rightarrow> string \<times> int" where
  "dedupeKey A actorID action resourceType resourceID at =
     (let bucket = Truncate at hour
      in (uuid_sha1 A (lengthPrefixed [actorID, action, resourceType, resourceID, RFC3339 bucket]), bucket))"

section \<open>Preparing an entry\<close>

definition maxMetadataBytes :: nat where
  "maxMetadataBytes = 4096"

definition encodeMetadata :: "audit_env \<Rightarrow> (string \<times> string) list \<Rightarrow> string" where
  "encodeMetadata A m =
     (if length m = 0 then ''{}''
      else case json_marshal A m of
        None \<Rightarrow> ''{\"_error\":\"metadata is not encodable\"}''
      | Some b \<Rightarrow>
          if length b \<le> maxMetadataBytes then b
          else case json_marshal A [(''_truncated'', ''true''), (''_bytes'', FormatInt (int (length b))),
                                    (''_keys'', json_strings A (map fst m))] of
            None \<Rightarrow> ''{\"_truncated\":true}''
          | Some marker \<Rightarrow> marker)"

definition normalizeIP :: "audit_env \<Rightarrow> string \<Rightarrow> string" where
  "normalizeIP A s = (case parse_ip A (trim_space s) of None \<Rightarrow> '''' | Some ip \<Rightarrow> ip)"

definition microsecond :: int where
  "microsecond = 1000"

definition prepare :: "audit_env \<Rightarrow> string \<Rightarrow> Entry \<Rightarrow> int \<Rightarrow> storedEntry" where
  "prepare A newID e seq =
     (let at = (case e_At e of None \<Rightarrow> now (au_env A) | Some t \<Rightarrow> t) in
      \<lparr>se_ID = newID, se_WorkspaceID = to_lower (e_WorkspaceID e), se_ActorID = to_lower (e_ActorID e),
       se_Action = e_Action e, se_ResourceType = e_ResourceType e, se_ResourceID = e_ResourceID e,
       se_Metadata = encodeMetadata A (e_Metadata e), se_IPAddress = normalizeIP A (e_IPAddress e),
       se_CreatedAt = Truncate at microsecond, se_ChainSeq = seq\<rparr>)"

definition nilIfEmpty :: "string \<Rightarrow> string option" where
  "nilIfEmpty s = (if s = '''' then None else Some s)"

definition nilIfNotIP :: "audit_env \<Rightarrow> string \<Rightarrow> string option" where
  "nilIfNotIP A s = (let ip = normalizeIP A s in if ip = '''' then None else Some ip)"

definition read_entry :: "string \<Rightarrow> log_row \<Rightarrow> storedEntry" where
  \<comment> \<open>the entry a verifier scans out of a row\<close>
  "read_entry ws r =
     \<lparr>se_ID = al_id r, se_WorkspaceID = ws, se_ActorID = (case al_actor r of None \<Rightarrow> '''' | Some a \<Rightarrow> a),
      se_Action = al_action r, se_ResourceType = al_rtype r, se_ResourceID = (case al_rid r of None \<Rightarrow> '''' | Some i \<Rightarrow> i),
      se_Metadata = al_metadata r, se_IPAddress = (case al_ip r of None \<Rightarrow> '''' | Some ip \<Rightarrow> ip),
      se_CreatedAt = al_created_at r, se_ChainSeq = (case al_chain_seq r of None \<Rightarrow> 0 | Some s \<Rightarrow> s)\<rparr>"

section \<open>What the bytes determine\<close>

lemma canonical_eq_parts: "canonical A e = canonical A e' \<longleftrightarrow> canonical_parts A e = canonical_parts A e'"
  by (simp add: canonical_def)

lemma length_chainHash [simp]: "length (chainHash A prev e) = 32"
  by (simp add: chainHash_def)

lemma chainHash_nonempty [simp]: "chainHash A prev e \<noteq> []" "[] \<noteq> chainHash A prev e"
  by (simp_all add: chainHash_def)

section \<open>Hash chains\<close>

text \<open>
  A chain of links: each link carries the hash of the one before it, a body, and the hash of the two. Two chains that end
  in the same hash carry the same bodies, unless the two chains themselves exhibit two inputs of the hash function that
  differ and have one hash.
\<close>

type_synonym link = "string \<times> string \<times> string"

fun chained :: "(string \<Rightarrow> string) \<Rightarrow> string \<Rightarrow> link list \<Rightarrow> bool" where
  "chained H prev [] = True"
| "chained H prev ((p, b, h) # ls) = (p = prev \<and> h = H (p @ b) \<and> chained H h ls)"

definition link_inputs :: "link list \<Rightarrow> string set" where
  "link_inputs ls = (\<lambda>(p, b, h). p @ b) ` set ls"

definition collision :: "(string \<Rightarrow> string) \<Rightarrow> string set \<Rightarrow> string set \<Rightarrow> bool" where
  "collision H X Y \<longleftrightarrow> (\<exists>x \<in> X. \<exists>y \<in> Y. x \<noteq> y \<and> H x = H y)"

definition end_hash :: "string \<Rightarrow> link list \<Rightarrow> string" where
  "end_hash prev ls = (if ls = [] then prev else snd (snd (last ls)))"

locale hash_function =
  fixes H :: "string \<Rightarrow> string" and size :: nat
  assumes hash_size: "length (H x) = size"
begin

lemma chained_append:
  "chained H prev (ls @ ms) \<longleftrightarrow> chained H prev ls \<and> chained H (end_hash prev ls) ms"
  by (induction H prev ls rule: chained.induct) (auto simp: end_hash_def)

lemma end_hash_size: "chained H prev ls \<Longrightarrow> ls \<noteq> [] \<Longrightarrow> length (end_hash prev ls) = size"
proof (cases ls rule: rev_cases)
  case (snoc ms l)
  assume "chained H prev ls"
  then show ?thesis using snoc by (cases l) (auto simp: chained_append end_hash_def hash_size)
qed simp

lemma same_end:
  assumes "chained H p ls" "chained H q ms" "length ls = length ms" "length p = length q" "end_hash p ls = end_hash q ms"
    "\<not> collision H (link_inputs ls) (link_inputs ms)"
  shows "map (\<lambda>(p, b, h). b) ls = map (\<lambda>(p, b, h). b) ms \<and> p = q"
  using assms
proof (induction ls arbitrary: ms rule: rev_induct)
  case Nil
  then show ?case by (simp add: end_hash_def)
next
  case (snoc l ls)
  obtain ms' m where ms: "ms = ms' @ [m]" using snoc.prems(3) by (cases ms rule: rev_cases) auto
  obtain p1 b1 h1 p2 b2 h2 where l: "l = (p1, b1, h1)" and m: "m = (p2, b2, h2)" by (cases l, cases m) auto
  have len: "length ls = length ms'" using snoc.prems(3) ms by simp
  have c: "chained H p ls" "chained H q ms'" "p1 = end_hash p ls" "p2 = end_hash q ms'" "h1 = H (p1 @ b1)" "h2 = H (p2 @ b2)"
    using snoc.prems(1,2) by (auto simp: ms l m chained_append)
  have "H (p1 @ b1) = H (p2 @ b2)" using snoc.prems(5) c(5,6) by (simp add: ms l m end_hash_def)
  then have eq: "p1 @ b1 = p2 @ b2"
    using snoc.prems(6) by (auto simp: collision_def link_inputs_def ms l m)
  have "length p1 = length p2"
    using c(1-4) end_hash_size [OF c(1)] end_hash_size [OF c(2)] snoc.prems(4) len
    by (cases "ls = []") (auto simp: end_hash_def)
  then have "p1 = p2" "b1 = b2" using eq by simp_all
  moreover have "\<not> collision H (link_inputs ls) (link_inputs ms')"
    using snoc.prems(6) by (auto simp: collision_def link_inputs_def ms)
  ultimately show ?case using snoc.IH [OF c(1,2) len snoc.prems(4)] c(3,4) by (simp add: ms l m)
qed

end

interpretation sha: hash_function sha256 32
  by unfold_locales simp

end
