(* ===== verification/Audit_Service.thy ===== *)
theory Audit_Service
  imports Audit_Chain
begin

text \<open>
  Writing the audit log: \<open>backend/internal/audit/service.go\<close> over the tables of migration 021, and the counters of the
  service. Every entry comes with the uuid \<open>uuid.NewString\<close> draws for it. A batch is grouped by workspace into a Go map,
  whose iteration order is \<open>map_order\<close>; each group is one transaction, each other entry a statement of its own, and a
  failure of one does not keep the others from being written.
\<close>

section \<open>Tables\<close>

record chain_head =
  ch_workspace_id :: string
  head_seq :: int
  head_hash :: string
  anchored_seq :: int
  anchored_at :: "int option"

record audit_db =
  au_users :: "string list"
  au_workspaces :: "string list"
  au_partitions :: "(int \<times> int) list"
  audit_logs :: "log_row list"
  audit_chain_heads :: "chain_head list"

datatype audit_error = AuditDb string

definition au_sql :: "audit_env \<Rightarrow> string \<Rightarrow> 'a \<Rightarrow> audit_error + 'a" where
  "au_sql A l v = (if db_fault (au_env A) l then Inl (AuditDb l) else Inr v)"

definition opt_column :: "(string \<Rightarrow> string option) \<Rightarrow> string option \<Rightarrow> string option option" where
  \<comment> \<open>the stored value of a nullable argument under the input function of its column type\<close>
  "opt_column f x = (case x of None \<Rightarrow> Some None | Some s \<Rightarrow> map_option Some (f s))"

definition fk_ok :: "string list \<Rightarrow> string option \<Rightarrow> bool" where
  "fk_ok ids x = (case x of None \<Rightarrow> True | Some i \<Rightarrow> i \<in> set ids)"

definition head_of :: "audit_db \<Rightarrow> string \<Rightarrow> chain_head option" where
  "head_of db ws = find (\<lambda>h. ch_workspace_id h = ws) (audit_chain_heads db)"

text \<open>The driver sends a time to a \<open>timestamptz\<close> column as whole microseconds; times here are in nanoseconds.\<close>

definition timestamptz :: "int \<Rightarrow> int" where
  "timestamptz t = t div 1000 * 1000"

definition log_values :: "audit_env \<Rightarrow> storedEntry \<Rightarrow> int \<Rightarrow> log_row option" where
  \<comment> \<open>the columns every insert has, after the input functions of their types\<close>
  "log_values A st created =
     (case (pg_uuid (au_env A) (se_ID st), opt_column (pg_uuid (au_env A)) (nilIfEmpty (se_WorkspaceID st)),
            opt_column (pg_uuid (au_env A)) (nilIfEmpty (se_ActorID st)), pg_jsonb A (se_Metadata st),
            opt_column (pg_inet A) (nilIfNotIP A (se_IPAddress st))) of
        (Some i, Some w, Some a, Some m, Some ip) \<Rightarrow>
          Some \<lparr>al_id = i, al_workspace = w, al_actor = a, al_action = se_Action st, al_rtype = se_ResourceType st,
                al_rid = nilIfEmpty (se_ResourceID st), al_metadata = m, al_ip = ip, al_created_at = timestamptz created,
                al_chain_seq = None, al_prev_hash = '''', al_hash = '''', al_dedupe_key = None, al_event_count = 1,
                al_last_at = None\<rparr>
      | _ \<Rightarrow> None)"

definition log_check :: "audit_db \<Rightarrow> log_row \<Rightarrow> bool" where
  \<comment> \<open>foreign keys, primary key and the existence of a partition\<close>
  "log_check db r \<longleftrightarrow> fk_ok (au_workspaces db) (al_workspace r) \<and> fk_ok (au_users db) (al_actor r) \<and>
     (\<exists>p \<in> set (au_partitions db). fst p \<le> al_created_at r \<and> al_created_at r < snd p) \<and>
     (\<forall>r' \<in> set (audit_logs db). \<not> (al_id r' = al_id r \<and> al_created_at r' = al_created_at r))"

section \<open>Chained entries\<close>

definition ensure_head :: "audit_env \<Rightarrow> string \<Rightarrow> audit_db \<Rightarrow> audit_error + audit_db" where
  "ensure_head A ws db =
     (case pg_uuid (au_env A) ws of
        None \<Rightarrow> Inl (AuditDb ''audit: ensure chain head'')
      | Some w \<Rightarrow>
          if head_of db w \<noteq> None then au_sql A ''audit: ensure chain head'' db
          else if w \<notin> set (au_workspaces db) then Inl (AuditDb ''audit: ensure chain head'')
          else au_sql A ''audit: ensure chain head'' (db\<lparr>audit_chain_heads := audit_chain_heads db @
            [\<lparr>ch_workspace_id = w, head_seq = 0, head_hash = '''', anchored_seq = 0, anchored_at = None\<rparr>]\<rparr>))"

definition insert_chained :: "audit_env \<Rightarrow> storedEntry \<Rightarrow> int \<Rightarrow> string \<Rightarrow> string \<Rightarrow> audit_db \<Rightarrow> audit_error + audit_db" where
  "insert_chained A st seq prev hash db =
     (case log_values A st (se_CreatedAt st) of
        None \<Rightarrow> Inl (AuditDb ''audit log'')
      | Some r0 \<Rightarrow>
          let r = r0\<lparr>al_chain_seq := Some seq, al_prev_hash := prev, al_hash := hash\<rparr>
          in if \<not> log_check db r then Inl (AuditDb ''audit log'')
             else au_sql A ''audit log'' (db\<lparr>audit_logs := audit_logs db @ [r]\<rparr>))"

fun chain_loop :: "audit_env \<Rightarrow> (string \<times> Entry) list \<Rightarrow> int \<Rightarrow> string \<Rightarrow> audit_db \<Rightarrow> audit_error + audit_db \<times> int \<times> string" where
  "chain_loop A [] seq prev db = Inr (db, seq, prev)"
| "chain_loop A ((newID, e) # es) seq prev db =
     (let stored = prepare A newID e (seq + 1); hash = chainHash A prev stored
      in bindR (insert_chained A stored (seq + 1) prev hash db) (\<lambda>db'. chain_loop A es (seq + 1) hash db'))"

definition advance_head :: "audit_env \<Rightarrow> string \<Rightarrow> int \<Rightarrow> string \<Rightarrow> audit_db \<Rightarrow> audit_error + audit_db" where
  "advance_head A w seq hash db =
     au_sql A ''audit: advance chain head'' (db\<lparr>audit_chain_heads := map (\<lambda>h. if ch_workspace_id h = w
       then h\<lparr>head_seq := seq, head_hash := hash\<rparr> else h) (audit_chain_heads db)\<rparr>)"

definition chained_tx :: "audit_env \<Rightarrow> string \<Rightarrow> (string \<times> Entry) list \<Rightarrow> audit_db \<Rightarrow> audit_error + audit_db \<times> unit" where
  "chained_tx A ws entries db =
     bindR (ensure_head A ws db) (\<lambda>db1.
     case pg_uuid (au_env A) ws of
       None \<Rightarrow> Inl (AuditDb ''audit: lock chain head'')
     | Some w \<Rightarrow>
         bindR (au_sql A ''audit: lock chain head'' (head_of db1 w)) (\<lambda>row.
         case row of
           None \<Rightarrow> Inl (AuditDb ''audit: lock chain head'')
         | Some h \<Rightarrow>
             bindR (chain_loop A entries (head_seq h) (head_hash h) db1) (\<lambda>(db2, seq, prev).
             bindR (advance_head A w seq prev db2) (\<lambda>db3. Inr (db3, ())))))"

definition writeChained :: "audit_env \<Rightarrow> string \<Rightarrow> (string \<times> Entry) list \<Rightarrow> audit_db \<Rightarrow> audit_error option \<times> audit_db" where
  "writeChained A workspaceID entries db =
     (case WithTx (au_env A) AuditDb db (chained_tx A workspaceID entries) of
        (Inl e, db') \<Rightarrow> (Some e, db')
      | (Inr _, db') \<Rightarrow> (None, db'))"

section \<open>Loose entries\<close>

definition coalesce_insert :: "log_row \<Rightarrow> audit_db \<Rightarrow> audit_db option" where
  \<comment> \<open>INSERT ... ON CONFLICT (dedupe_key, created_at) DO UPDATE; the conflict is looked up before the other constraints\<close>
  "coalesce_insert r db =
     (if \<exists>r' \<in> set (audit_logs db). al_dedupe_key r' = al_dedupe_key r \<and> al_created_at r' = al_created_at r
      then Some (db\<lparr>audit_logs := map (\<lambda>r'. if al_dedupe_key r' = al_dedupe_key r \<and> al_created_at r' = al_created_at r
             then r'\<lparr>al_event_count := al_event_count r' + 1, al_last_at := al_last_at r\<rparr> else r') (audit_logs db)\<rparr>)
      else if log_check db r then Some (db\<lparr>audit_logs := audit_logs db @ [r]\<rparr>) else None)"

definition writeLoose :: "audit_env \<Rightarrow> string \<times> Entry \<Rightarrow> audit_db \<Rightarrow> audit_error option \<times> audit_db" where
  "writeLoose A x db =
     (let (newID, e) = x; stored = prepare A newID e 0 in
      if \<not> e_Coalesce e then
        (case log_values A stored (se_CreatedAt stored) of
           None \<Rightarrow> (Some (AuditDb ''audit log''), db)
         | Some r \<Rightarrow>
             if \<not> log_check db r \<or> db_fault (au_env A) ''audit log'' then (Some (AuditDb ''audit log''), db)
             else (None, db\<lparr>audit_logs := audit_logs db @ [r]\<rparr>))
      else
        let (key, bucket) = dedupeKey A (e_ActorID e) (e_Action e) (e_ResourceType e) (e_ResourceID e) (se_CreatedAt stored) in
        (case log_values A stored bucket of
           None \<Rightarrow> (Some (AuditDb ''audit log (coalesced)''), db)
         | Some r \<Rightarrow>
             case coalesce_insert (r\<lparr>al_dedupe_key := Some key, al_last_at := Some (timestamptz (se_CreatedAt stored))\<rparr>) db of
               None \<Rightarrow> (Some (AuditDb ''audit log (coalesced)''), db)
             | Some db' \<Rightarrow>
                 if db_fault (au_env A) ''audit log (coalesced)'' then (Some (AuditDb ''audit log (coalesced)''), db)
                 else (None, db')))"

section \<open>Batches\<close>

definition entry_chained :: "string \<times> Entry \<Rightarrow> bool" where
  "entry_chained x \<longleftrightarrow> to_lower (e_WorkspaceID (snd x)) \<noteq> '''' \<and> \<not> e_Coalesce (snd x)"

definition lower_ws :: "string \<times> Entry \<Rightarrow> string \<times> Entry" where
  "lower_ws x = (fst x, (snd x)\<lparr>e_WorkspaceID := to_lower (e_WorkspaceID (snd x))\<rparr>)"

definition first_err :: "audit_error option \<Rightarrow> audit_error option \<Rightarrow> audit_error option" where
  "first_err firstErr err = (case firstErr of Some e \<Rightarrow> Some e | None \<Rightarrow> err)"

definition run_writes ::
  "('x \<Rightarrow> audit_db \<Rightarrow> audit_error option \<times> audit_db) \<Rightarrow> 'x list \<Rightarrow> audit_error option \<times> audit_db \<Rightarrow> audit_error option \<times> audit_db" where
  "run_writes write xs = fold (\<lambda>x (firstErr, db). let (err, db') = write x db in (first_err firstErr err, db')) xs"

definition chained_groups :: "audit_env \<Rightarrow> (string \<times> Entry) list \<Rightarrow> (string \<times> (string \<times> Entry) list) list" where
  "chained_groups A xs =
     (let cs = filter entry_chained xs
      in map (\<lambda>ws. (ws, filter (\<lambda>x. e_WorkspaceID (snd x) = ws) cs)) (map_order A (remdups (map (e_WorkspaceID \<circ> snd) cs))))"

definition writeBatch :: "audit_env \<Rightarrow> (string \<times> Entry) list \<Rightarrow> audit_db \<Rightarrow> audit_error option \<times> audit_db" where
  "writeBatch A entries db =
     (if length entries = 0 then (None, db)
      else let xs = map lower_ws entries
           in run_writes (writeLoose A) (filter (\<lambda>x. \<not> entry_chained x) xs)
                (run_writes (\<lambda>(ws, batch). writeChained A ws batch) (chained_groups A xs) (None, db)))"

definition Record :: "audit_env \<Rightarrow> string \<times> Entry \<Rightarrow> audit_db \<Rightarrow> audit_error option \<times> audit_db" where
  "Record A x db = writeBatch A [x] db"

record service =
  sv_db :: audit_db
  sv_failures :: int

definition Try :: "audit_env \<Rightarrow> string \<times> Entry \<Rightarrow> service \<Rightarrow> service" where
  "Try A x s =
     (case Record A x (sv_db s) of
        (None, db') \<Rightarrow> s\<lparr>sv_db := db'\<rparr>
      | (Some _, db') \<Rightarrow> s\<lparr>sv_db := db', sv_failures := sv_failures s + 1\<rparr>)"

definition Log :: "audit_env \<Rightarrow> string \<Rightarrow> string \<Rightarrow> string \<Rightarrow> string \<Rightarrow> string \<Rightarrow> string \<Rightarrow> (string \<times> string) list \<Rightarrow>
    audit_db \<Rightarrow> audit_error option \<times> audit_db" where
  "Log A newID workspaceID actorID action resourceType resourceID metadata db =
     Record A (newID, \<lparr>e_WorkspaceID = workspaceID, e_ActorID = actorID, e_Action = action, e_ResourceType = resourceType,
       e_ResourceID = resourceID, e_IPAddress = '''', e_Metadata = metadata, e_Coalesce = False, e_At = None\<rparr>) db"

end
