(* ===== verification/Audit_Verify.thy ===== *)
theory Audit_Verify
  imports Audit_Service
begin

text \<open>
  Verifying and anchoring the audit chain: \<open>backend/internal/audit/verify.go\<close>. The sink that anchors are shipped to is an
  interface with a log, a file and a webhook behind it; here it is whether there is one and whether \<open>Ship\<close> returns nil,
  and the anchors handed to a successful \<open>Ship\<close> are part of the result. \<open>Verify\<close> and \<open>Anchor\<close> are not transactions: \<open>verify_at\<close> and
  \<open>Anchor_at\<close> take the tables that the list of heads, each walk, each read of a head hash and the updates see, and writers may have
  committed in between; \<open>audit_Verify\<close> and \<open>Anchor\<close> are the runs that nothing interleaves with.
\<close>

section \<open>Walking a chain\<close>

definition verifyBatch :: nat where
  "verifyBatch = 5000"

record Break =
  br_WorkspaceID :: string
  br_Seq :: int
  br_Reason :: string

record ChainStatus =
  cs_WorkspaceID :: string
  cs_OK :: bool
  cs_HeadSeq :: int
  cs_AnchoredSeq :: int
  cs_Breaks :: "Break list"

definition row_seq :: "log_row \<Rightarrow> int" where
  "row_seq r = (case al_chain_seq r of None \<Rightarrow> 0 | Some s \<Rightarrow> s)"

definition walk_query :: "audit_db \<Rightarrow> string \<Rightarrow> int \<Rightarrow> log_row list" where
  "walk_query db ws aft = take verifyBatch (sort_key row_seq (filter (\<lambda>r. al_workspace r = Some ws \<and>
     (case al_chain_seq r of None \<Rightarrow> False | Some s \<Rightarrow> s > aft)) (audit_logs db)))"

fun walk_rows :: "audit_env \<Rightarrow> string \<Rightarrow> int \<Rightarrow> string \<Rightarrow> bool \<Rightarrow> log_row list \<Rightarrow> Break list" where
  "walk_rows A ws expect prev first [] = []"
| "walk_rows A ws expect prev first (r # rs) =
     (let e = read_entry ws r; seq = se_ChainSeq e;
          missing = map (\<lambda>s. \<lparr>br_WorkspaceID = ws, br_Seq = s, br_Reason = ''missing''\<rparr>) [expect..seq - 1];
          gap = expect < seq;
          prev1 = (if gap then '''' else prev);
          prev2 = (if first \<or> gap then al_prev_hash r else prev1);
          mismatch = (al_prev_hash r \<noteq> prev2);
          prev3 = (if mismatch then al_prev_hash r else prev2)
      in missing @
         (if mismatch then [\<lparr>br_WorkspaceID = ws, br_Seq = seq, br_Reason = ''prev_mismatch''\<rparr>] else []) @
         (if chainHash A prev3 e \<noteq> al_hash r then [\<lparr>br_WorkspaceID = ws, br_Seq = seq, br_Reason = ''hash_mismatch''\<rparr>] else []) @
         walk_rows A ws (seq + 1) (al_hash r) False rs)"

definition walk :: "audit_env \<Rightarrow> audit_db \<Rightarrow> string \<Rightarrow> int \<Rightarrow> audit_error + Break list" where
  "walk A db workspaceID aft =
     bindR (au_sql A ''audit: walk chain'' (walk_query db workspaceID aft)) (\<lambda>rows.
       Inr (walk_rows A workspaceID (aft + 1) '''' True rows))"

section \<open>Verify\<close>

fun traverseR :: "('a \<Rightarrow> 'e + 'b) \<Rightarrow> 'a list \<Rightarrow> 'e + 'b list" where
  "traverseR f [] = Inr []"
| "traverseR f (x # xs) = bindR (f x) (\<lambda>y. bindR (traverseR f xs) (\<lambda>ys. Inr (y # ys)))"

definition status_of :: "audit_env \<Rightarrow> audit_db \<Rightarrow> chain_head \<Rightarrow> audit_error + ChainStatus" where
  "status_of A db h =
     bindR (walk A db (ch_workspace_id h) (anchored_seq h)) (\<lambda>breaks.
       Inr \<lparr>cs_WorkspaceID = ch_workspace_id h, cs_OK = (length breaks = 0), cs_HeadSeq = head_seq h,
            cs_AnchoredSeq = anchored_seq h, cs_Breaks = breaks\<rparr>)"

definition verify_at :: "audit_env \<Rightarrow> audit_db \<Rightarrow> (string \<Rightarrow> audit_db) \<Rightarrow> string list \<Rightarrow> audit_error + ChainStatus list" where
  "verify_at A heads walked workspaceIDs =
     (if \<exists>i \<in> set workspaceIDs. pg_uuid (au_env A) i = None then Inl (AuditDb ''audit: list chain heads'')
      else bindR (au_sql A ''audit: list chain heads'' (sort_key ch_workspace_id (filter (\<lambda>h.
        length workspaceIDs > 0 \<longrightarrow> Some (ch_workspace_id h) \<in> set (map (pg_uuid (au_env A)) workspaceIDs)) (audit_chain_heads heads))))
        (traverseR (\<lambda>h. status_of A (walked (ch_workspace_id h)) h)))"

definition audit_Verify :: "audit_env \<Rightarrow> audit_db \<Rightarrow> string list \<Rightarrow> audit_error + ChainStatus list" where
  "audit_Verify A db workspaceIDs = verify_at A db (\<lambda>_. db) workspaceIDs"

section \<open>Anchor\<close>

record sink =
  sk_present :: bool
  sk_ships :: bool

record Anchor_t =
  an_WorkspaceID :: string
  an_HeadSeq :: int
  an_HeadHash :: string
  an_At :: int

definition hex_digit :: "nat \<Rightarrow> char" where
  "hex_digit n = (if n < 10 then char_of (48 + n) else char_of (87 + n))"

definition hex_string :: "string \<Rightarrow> string" where
  "hex_string bs = concat (map (\<lambda>c. [hex_digit (of_char c div 16), hex_digit (of_char c mod 16)]) bs)"

definition headHash :: "audit_env \<Rightarrow> audit_db \<Rightarrow> string \<Rightarrow> audit_error + string" where
  "headHash A db ws =
     bindR (au_sql A ''audit: read chain head'' (head_of db ws)) (\<lambda>r.
       case r of None \<Rightarrow> Inl (AuditDb ''audit: read chain head'') | Some h \<Rightarrow> Inr (head_hash h))"

definition anchor_candidates :: "ChainStatus list \<Rightarrow> ChainStatus list" where
  \<comment> \<open>clean, and something new to anchor\<close>
  "anchor_candidates sts = filter (\<lambda>st. cs_OK st \<and> \<not> cs_HeadSeq st \<le> cs_AnchoredSeq st) sts"

definition anchor_of :: "audit_env \<Rightarrow> audit_db \<Rightarrow> ChainStatus \<Rightarrow> audit_error + Anchor_t" where
  "anchor_of A db st =
     bindR (headHash A db (cs_WorkspaceID st)) (\<lambda>hash.
       Inr \<lparr>an_WorkspaceID = cs_WorkspaceID st, an_HeadSeq = cs_HeadSeq st, an_HeadHash = hex_string hash, an_At = now (au_env A)\<rparr>)"

definition advance_anchor :: "Anchor_t \<Rightarrow> audit_db \<Rightarrow> audit_db" where
  "advance_anchor a db = db\<lparr>audit_chain_heads := map (\<lambda>h.
     if ch_workspace_id h = an_WorkspaceID a \<and> anchored_seq h < an_HeadSeq a
     then h\<lparr>anchored_seq := an_HeadSeq a, anchored_at := Some (timestamptz (an_At a))\<rparr> else h) (audit_chain_heads db)\<rparr>"

fun advance_anchors :: "audit_env \<Rightarrow> Anchor_t list \<Rightarrow> audit_db \<Rightarrow> audit_error option \<times> audit_db" where
  "advance_anchors A [] db = (None, db)"
| "advance_anchors A (a # as) db =
     (if db_fault (au_env A) (''audit: advance anchor for '' @ an_WorkspaceID a)
      then (Some (AuditDb ''audit: advance anchor''), db)
      else advance_anchors A as (advance_anchor a db))"

record anchor_result =
  ar_statuses :: "ChainStatus list"
  ar_err :: "audit_error option"
  ar_db :: audit_db
  ar_shipped :: "Anchor_t list"

record anchor_view =
  av_heads :: audit_db
  av_walk :: "string \<Rightarrow> audit_db"
  av_hash :: "string \<Rightarrow> audit_db"

definition Anchor_at :: "audit_env \<Rightarrow> sink \<Rightarrow> anchor_view \<Rightarrow> audit_db \<Rightarrow> anchor_result" where
  "Anchor_at A k v db =
     (case verify_at A (av_heads v) (av_walk v) [] of
        Inl e \<Rightarrow> \<lparr>ar_statuses = [], ar_err = Some e, ar_db = db, ar_shipped = []\<rparr>
      | Inr sts \<Rightarrow>
          if \<not> sk_present k then \<lparr>ar_statuses = sts, ar_err = None, ar_db = db, ar_shipped = []\<rparr>
          else case traverseR (\<lambda>st. anchor_of A (av_hash v (cs_WorkspaceID st)) st) (anchor_candidates sts) of
            Inl e \<Rightarrow> \<lparr>ar_statuses = sts, ar_err = Some e, ar_db = db, ar_shipped = []\<rparr>
          | Inr anchors \<Rightarrow>
              if anchors = [] then \<lparr>ar_statuses = sts, ar_err = None, ar_db = db, ar_shipped = []\<rparr>
              else if \<not> sk_ships k
              then \<lparr>ar_statuses = sts, ar_err = Some (AuditDb ''audit: ship anchors''), ar_db = db, ar_shipped = []\<rparr>
              else let (err, db') = advance_anchors A anchors db
                   in \<lparr>ar_statuses = sts, ar_err = err, ar_db = db', ar_shipped = anchors\<rparr>)"

definition still :: "audit_db \<Rightarrow> anchor_view" where
  "still db = \<lparr>av_heads = db, av_walk = \<lambda>_. db, av_hash = \<lambda>_. db\<rparr>"

definition Anchor :: "audit_env \<Rightarrow> sink \<Rightarrow> audit_db \<Rightarrow> anchor_result" where
  "Anchor A k db = Anchor_at A k (still db) db"

section \<open>What a clean walk means\<close>

definition row_link :: "audit_env \<Rightarrow> string \<Rightarrow> log_row \<Rightarrow> link" where
  "row_link A ws r = (al_prev_hash r, canonical A (read_entry ws r), al_hash r)"

fun seq_run :: "int \<Rightarrow> log_row list \<Rightarrow> bool" where
  "seq_run expect [] = True"
| "seq_run expect (r # rs) = (row_seq r \<le> expect \<and> seq_run (row_seq r + 1) rs)"

lemma se_ChainSeq_read [simp]: "se_ChainSeq (read_entry ws r) = row_seq r"
  by (simp add: read_entry_def row_seq_def)

lemma walk_rows_clean_False:
  "walk_rows A ws expect prev False rs = [] \<longleftrightarrow> seq_run expect rs \<and> chained sha256 prev (map (row_link A ws) rs)"
proof (induction rs arbitrary: expect prev)
  case (Cons r rs)
  show ?case by (auto simp: Let_def Cons row_link_def chainHash_def)
qed simp

lemma walk_rows_clean:
  "walk_rows A ws expect prev True rs = [] \<longleftrightarrow>
     seq_run expect rs \<and> (rs = [] \<or> chained sha256 (al_prev_hash (hd rs)) (map (row_link A ws) rs))"
proof (cases rs)
  case (Cons r rs')
  show ?thesis by (auto simp: Cons Let_def walk_rows_clean_False row_link_def chainHash_def)
qed simp

end
