(* ===== verification/Audit_Invariant.thy ===== *)
theory Audit_Invariant
  imports Audit_Verify
begin

text \<open>
  The invariant of the audit tables and that every operation keeps it: the rows of a workspace's chain are numbered from 1
  to the head without a gap, each carries the hash of the one before it and the hash of its own stored contents, and the
  head carries the hash of the last.
\<close>

section \<open>The invariant\<close>

definition in_chain :: "string \<Rightarrow> log_row \<Rightarrow> bool" where
  "in_chain ws r \<longleftrightarrow> al_workspace r = Some ws \<and> al_chain_seq r \<noteq> None"

definition chain_rows :: "audit_db \<Rightarrow> string \<Rightarrow> log_row list" where
  "chain_rows db ws = filter (in_chain ws) (audit_logs db)"

definition head_ok :: "audit_env \<Rightarrow> audit_db \<Rightarrow> chain_head \<Rightarrow> bool" where
  "head_ok A db h \<longleftrightarrow>
     (let rs = chain_rows db (ch_workspace_id h); ls = map (row_link A (ch_workspace_id h)) rs in
      map row_seq rs = [1..head_seq h] \<and> chained sha256 '''' ls \<and> head_hash h = end_hash '''' ls \<and>
      0 \<le> anchored_seq h \<and> anchored_seq h \<le> head_seq h)"

definition chain_ok :: "audit_env \<Rightarrow> audit_db \<Rightarrow> bool" where
  "chain_ok A db \<longleftrightarrow> distinct (map ch_workspace_id (audit_chain_heads db)) \<and>
     (\<forall>h \<in> set (audit_chain_heads db). head_ok A db h) \<and>
     (\<forall>r \<in> set (audit_logs db). al_chain_seq r \<noteq> None \<longrightarrow>
        al_workspace r \<in> Some ` set (map ch_workspace_id (audit_chain_heads db)))"

definition entry_stable :: "audit_env \<Rightarrow> string \<times> Entry \<Rightarrow> bool" where
  \<comment> \<open>what Postgres reads back of the entry renders as what was hashed\<close>
  "entry_stable A x \<longleftrightarrow>
     (let (newID, e) = x; ws = to_lower (e_WorkspaceID e); actor = to_lower (e_ActorID e);
          m = encodeMetadata A (e_Metadata e); ip = normalizeIP A (e_IPAddress e) in
      uuid_shape newID \<and> (ws = '''' \<or> uuid_shape ws) \<and> (actor = '''' \<or> uuid_shape actor) \<and>
      (case pg_jsonb A m of None \<Rightarrow> True | Some t \<Rightarrow> canonicalJSON A t = canonicalJSON A m) \<and>
      normalizeIP A ip = ip \<and> (ip = '''' \<or> pg_inet A ip = Some ip))"

section \<open>Frame facts\<close>

lemma au_sql_Inr [simp]: "au_sql A l v = Inr w \<longleftrightarrow> \<not> db_fault (au_env A) l \<and> w = v"
  by (auto simp: au_sql_def)

lemma codec_env [simp]:
  "canonicalJSON (A\<lparr>au_env := E\<rparr>) = canonicalJSON A" "encodeMetadata (A\<lparr>au_env := E\<rparr>) = encodeMetadata A"
  "normalizeIP (A\<lparr>au_env := E\<rparr>) = normalizeIP A"
  by (rule ext, simp add: canonicalJSON_def encodeMetadata_def normalizeIP_def cong: option.case_cong if_cong)+

lemma canonical_env [simp]: "canonical (A\<lparr>au_env := E\<rparr>) = canonical A"
  by (rule ext) (simp add: canonical_def canonical_parts_def)

lemma row_link_env [simp]: "row_link (A\<lparr>au_env := E\<rparr>) = row_link A"
  by (intro ext) (simp add: row_link_def)

lemma chain_ok_env [simp]: "chain_ok (A\<lparr>au_env := E\<rparr>) db = chain_ok A db"
  by (simp add: chain_ok_def head_ok_def)

lemma entry_stable_env [simp]: "entry_stable (A\<lparr>au_env := E\<rparr>) x = entry_stable A x"
  by (simp add: entry_stable_def cong: option.case_cong)

lemma chain_rows_heads [simp]: "chain_rows (db\<lparr>audit_chain_heads := hs\<rparr>) ws = chain_rows db ws"
  by (simp add: chain_rows_def)

lemma chain_rows_append:
  "chain_rows (db\<lparr>audit_logs := audit_logs db @ rs\<rparr>) ws =
     chain_rows db ws @ filter (in_chain ws) rs"
  by (simp add: chain_rows_def)

lemma head_ok_heads [simp]: "head_ok A (db\<lparr>audit_chain_heads := hs\<rparr>) h = head_ok A db h"
  by (simp add: head_ok_def)

lemma head_of_Some: "head_of db ws = Some h \<Longrightarrow> h \<in> set (audit_chain_heads db) \<and> ch_workspace_id h = ws"
  by (auto simp: head_of_def dest: find_SomeD)

lemma head_of_None: "head_of db ws = None \<Longrightarrow> ws \<notin> ch_workspace_id ` set (audit_chain_heads db)"
  by (auto simp: head_of_def find_None_iff)

section \<open>Rows read back\<close>

lemma pg_uuid_shape: "env_ok E \<Longrightarrow> uuid_shape u \<Longrightarrow> pg_uuid E u = Some u"
  by simp

lemma timestamptz_Truncate [simp]: "timestamptz (Truncate t microsecond) = Truncate t microsecond"
  by (simp add: timestamptz_def Truncate_def microsecond_def minus_mod_eq_div_mult)

lemma log_values_canonical:
  assumes "env_ok (au_env A)" "entry_stable A (newID, e)" "to_lower (e_WorkspaceID e) = ws" "ws \<noteq> ''''"
    "log_values A (prepare A newID e seq) (se_CreatedAt (prepare A newID e seq)) = Some r"
  shows "al_workspace r = Some ws"
    "canonical A (read_entry ws (r\<lparr>al_chain_seq := Some seq, al_prev_hash := p, al_hash := h\<rparr>)) = canonical A (prepare A newID e seq)"
proof -
  define st where "st = prepare A newID e seq"
  have st: "se_WorkspaceID st = ws" "se_ID st = newID" "se_ActorID st = to_lower (e_ActorID e)"
    "se_Metadata st = encodeMetadata A (e_Metadata e)" "se_IPAddress st = normalizeIP A (e_IPAddress e)" "se_ChainSeq st = seq"
    "timestamptz (se_CreatedAt st) = se_CreatedAt st"
    using assms(3) by (simp_all add: st_def prepare_def Let_def)
  have s: "uuid_shape newID" "uuid_shape ws" "se_ActorID st = '''' \<or> uuid_shape (se_ActorID st)"
    "normalizeIP A (se_IPAddress st) = se_IPAddress st" "se_IPAddress st = '''' \<or> pg_inet A (se_IPAddress st) = Some (se_IPAddress st)"
    using assms(2-4) st by (auto simp: entry_stable_def Let_def)
  have lv: "log_values A st (se_CreatedAt st) = Some r" using assms(5) by (simp add: st_def)
  obtain m where m: "pg_jsonb A (se_Metadata st) = Some m" using lv by (auto simp: log_values_def split: option.splits)
  have cm: "canonicalJSON A m = canonicalJSON A (se_Metadata st)" using assms(2) m st by (simp add: entry_stable_def Let_def)
  have c: "opt_column (pg_uuid (au_env A)) (nilIfEmpty (se_WorkspaceID st)) = Some (Some ws)"
    "opt_column (pg_uuid (au_env A)) (nilIfEmpty (se_ActorID st)) = Some (nilIfEmpty (se_ActorID st))"
    "opt_column (pg_inet A) (nilIfNotIP A (se_IPAddress st)) = Some (nilIfEmpty (se_IPAddress st))"
    "pg_uuid (au_env A) (se_ID st) = Some newID"
    using st s assms(1,4) by (auto simp: opt_column_def nilIfEmpty_def nilIfNotIP_def Let_def)
  have r: "r = \<lparr>al_id = newID, al_workspace = Some ws, al_actor = nilIfEmpty (se_ActorID st), al_action = se_Action st,
      al_rtype = se_ResourceType st, al_rid = nilIfEmpty (se_ResourceID st), al_metadata = m,
      al_ip = nilIfEmpty (se_IPAddress st), al_created_at = se_CreatedAt st, al_chain_seq = None, al_prev_hash = '''',
      al_hash = '''', al_dedupe_key = None, al_event_count = 1, al_last_at = None\<rparr>"
    using lv by (simp add: log_values_def c m st(7))
  have d: "(case nilIfEmpty x of None \<Rightarrow> '''' | Some y \<Rightarrow> y) = x" for x by (simp add: nilIfEmpty_def)
  show "al_workspace r = Some ws" by (simp add: r)
  show "canonical A (read_entry ws (r\<lparr>al_chain_seq := Some seq, al_prev_hash := p, al_hash := h\<rparr>)) = canonical A (prepare A newID e seq)"
    by (simp add: canonical_eq_parts canonical_parts_def read_entry_def r d cm st flip: st_def)
qed

lemma log_values_unchained: "log_values A st created = Some r \<Longrightarrow> al_chain_seq r = None"
  by (auto simp: log_values_def split: option.splits)

section \<open>Chained writes\<close>

lemma insert_chained_row:
  assumes "insert_chained A (prepare A newID e seq) seq prev (chainHash A prev (prepare A newID e seq)) db = Inr db'"
    "env_ok (au_env A)" "entry_stable A (newID, e)" "to_lower (e_WorkspaceID e) = ws" "ws \<noteq> ''''"
  shows "\<exists>r. db' = db\<lparr>audit_logs := audit_logs db @ [r]\<rparr> \<and> al_workspace r = Some ws \<and> al_chain_seq r = Some seq \<and>
    al_prev_hash r = prev \<and> al_hash r = chainHash A prev (prepare A newID e seq) \<and>
    al_hash r = sha256 (prev @ canonical A (read_entry ws r))"
proof -
  let ?h = "chainHash A prev (prepare A newID e seq)"
  obtain r0 where r0: "log_values A (prepare A newID e seq) (se_CreatedAt (prepare A newID e seq)) = Some r0"
    "db' = db\<lparr>audit_logs := audit_logs db @ [r0\<lparr>al_chain_seq := Some seq, al_prev_hash := prev, al_hash := ?h\<rparr>]\<rparr>"
    using assms(1) by (auto simp: insert_chained_def Let_def split: option.splits if_splits)
  note c = log_values_canonical [OF assms(2-5) r0(1)]
  show ?thesis
    by (rule exI [of _ "r0\<lparr>al_chain_seq := Some seq, al_prev_hash := prev, al_hash := ?h\<rparr>"])
      (use r0(2) c in \<open>simp add: chainHash_def\<close>)
qed

lemma chain_loop_rows:
  assumes "chain_loop A es seq prev db = Inr (db', seq', prev')" "env_ok (au_env A)" "ws \<noteq> ''''"
    "\<forall>x \<in> set es. entry_stable A x \<and> to_lower (e_WorkspaceID (snd x)) = ws"
  shows "\<exists>rs. db' = db\<lparr>audit_logs := audit_logs db @ rs\<rparr> \<and> seq \<le> seq' \<and> map row_seq rs = [seq + 1..seq'] \<and>
    (\<forall>r \<in> set rs. in_chain ws r) \<and>
    chained sha256 prev (map (row_link A ws) rs) \<and> prev' = end_hash prev (map (row_link A ws) rs)"
  using assms
proof (induction es arbitrary: seq prev db)
  case Nil
  then show ?case by (intro exI [of _ "[]"]) (simp add: end_hash_def)
next
  case (Cons x es)
  obtain newID e where x: "x = (newID, e)" by fastforce
  let ?st = "prepare A newID e (seq + 1)" and ?h = "chainHash A prev (prepare A newID e (seq + 1))"
  obtain db1 where i: "insert_chained A ?st (seq + 1) prev ?h db = Inr db1"
    and l: "chain_loop A es (seq + 1) ?h db1 = Inr (db', seq', prev')"
    using Cons.prems(1) by (auto simp: x Let_def bindR_Inr_iff)
  obtain r where r: "db1 = db\<lparr>audit_logs := audit_logs db @ [r]\<rparr>" "al_workspace r = Some ws" "al_chain_seq r = Some (seq + 1)"
    "al_prev_hash r = prev" "al_hash r = ?h" "al_hash r = sha256 (prev @ canonical A (read_entry ws r))"
    using insert_chained_row [OF i Cons.prems(2) _ _ Cons.prems(3)] Cons.prems(4) x by auto
  obtain rs where rs: "db' = db1\<lparr>audit_logs := audit_logs db1 @ rs\<rparr>" "seq + 1 \<le> seq'" "map row_seq rs = [seq + 1 + 1..seq']"
    "\<forall>r \<in> set rs. in_chain ws r"
    "chained sha256 ?h (map (row_link A ws) rs)" "prev' = end_hash ?h (map (row_link A ws) rs)"
    using Cons.IH [OF l Cons.prems(2,3)] Cons.prems(4) by auto
  have "row_seq r = seq + 1" using r(3) by (simp add: row_seq_def)
  then have "map row_seq (r # rs) = [seq + 1..seq']" using rs(2,3) upto_rec1 [of "seq + 1" seq'] by simp
  moreover have "chained sha256 prev (map (row_link A ws) (r # rs))" using rs(5) r(4-6) by (simp add: row_link_def)
  moreover have "prev' = end_hash prev (map (row_link A ws) (r # rs))" using rs(6) r(5) by (simp add: end_hash_def row_link_def)
  moreover have "in_chain ws r" using r(2,3) by (simp add: in_chain_def)
  ultimately show ?case using rs(1,2,4) r(1) by (intro exI [of _ "r # rs"]) simp
qed

lemma chain_okD:
  assumes "chain_ok A db"
  shows "distinct (map ch_workspace_id (audit_chain_heads db))" "h \<in> set (audit_chain_heads db) \<Longrightarrow> head_ok A db h"
    "r \<in> set (audit_logs db) \<Longrightarrow> al_chain_seq r \<noteq> None \<Longrightarrow>
       \<exists>h \<in> set (audit_chain_heads db). al_workspace r = Some (ch_workspace_id h)"
  using assms by (auto simp: chain_ok_def)

lemma chain_rows_no_head:
  "chain_ok A db \<Longrightarrow> ws \<notin> ch_workspace_id ` set (audit_chain_heads db) \<Longrightarrow> chain_rows db ws = []"
  using chain_okD(3) [of A db] by (auto simp: chain_rows_def in_chain_def filter_empty_conv; fastforce)

lemma ensure_head_ok:
  assumes "ensure_head A ws db = Inr db'" "chain_ok A db"
  shows "chain_ok A db' \<and> audit_logs db' = audit_logs db"
proof -
  obtain w where w: "pg_uuid (au_env A) ws = Some w" using assms(1) by (auto simp: ensure_head_def split: option.splits)
  show ?thesis
  proof (cases "head_of db w = None")
    case True
    let ?h = "\<lparr>ch_workspace_id = w, head_seq = 0, head_hash = '''', anchored_seq = 0, anchored_at = None\<rparr>"
    have db': "db' = db\<lparr>audit_chain_heads := audit_chain_heads db @ [?h]\<rparr>"
      using assms(1) w True by (auto simp: ensure_head_def split: if_splits)
    have "chain_rows db w = []" by (rule chain_rows_no_head [OF assms(2) head_of_None [OF True]])
    then have "head_ok A db ?h" by (simp add: head_ok_def end_hash_def)
    then show ?thesis using assms(2) head_of_None [OF True] by (auto simp: db' chain_ok_def)
  next
    case False
    then show ?thesis using assms w by (auto simp: ensure_head_def)
  qed
qed

lemma head_ok_append_other:
  "head_ok A db h \<Longrightarrow> \<forall>r \<in> set rs. \<not> in_chain (ch_workspace_id h) r \<Longrightarrow>
     head_ok A (db\<lparr>audit_logs := audit_logs db @ rs\<rparr>) h"
proof -
  assume "head_ok A db h" "\<forall>r \<in> set rs. \<not> in_chain (ch_workspace_id h) r"
  moreover from this(2) have "filter (in_chain (ch_workspace_id h)) rs = []"
    by (auto simp: filter_empty_conv)
  ultimately show ?thesis by (simp add: head_ok_def chain_rows_append)
qed

lemma head_ok_extend:
  assumes "head_ok A db h" "\<forall>r \<in> set rs. in_chain (ch_workspace_id h) r"
    "map row_seq rs = [head_seq h + 1..seq']" "head_seq h \<le> seq'" "chained sha256 (head_hash h) (map (row_link A (ch_workspace_id h)) rs)"
    "prev' = end_hash (head_hash h) (map (row_link A (ch_workspace_id h)) rs)"
  shows "head_ok A (db\<lparr>audit_logs := audit_logs db @ rs\<rparr>) (h\<lparr>head_seq := seq', head_hash := prev'\<rparr>)"
proof -
  let ?ls = "map (row_link A (ch_workspace_id h)) (chain_rows db (ch_workspace_id h))"
  have f: "filter (in_chain (ch_workspace_id h)) rs = rs"
    using assms(2) by (auto simp: filter_id_conv)
  have h: "head_hash h = end_hash '''' ?ls" "map row_seq (chain_rows db (ch_workspace_id h)) = [1..head_seq h]"
    "chained sha256 '''' ?ls" "0 \<le> anchored_seq h" "anchored_seq h \<le> head_seq h"
    using assms(1) by (simp_all add: head_ok_def Let_def)
  have "[1..seq'] = [1..head_seq h] @ [head_seq h + 1..seq']"
    using upto_split2 [of 1 "head_seq h" seq'] h(4,5) assms(4) by (cases "head_seq h = 0") simp_all
  moreover have "end_hash '''' (?ls @ map (row_link A (ch_workspace_id h)) rs) = prev'"
    using assms(6) h(1) by (simp add: end_hash_def)
  ultimately show ?thesis
    using h assms(3-5) by (simp add: head_ok_def chain_rows_append f sha.chained_append)
qed

lemma chained_tx_ok:
  assumes "chained_tx A ws es db = Inr (db', u)" "chain_ok A db" "env_ok (au_env A)"
    "\<forall>x \<in> set es. entry_stable A x \<and> to_lower (e_WorkspaceID (snd x)) = ws" "uuid_shape ws"
  shows "chain_ok A db'"
proof -
  have w: "pg_uuid (au_env A) ws = Some ws" "ws \<noteq> ''''" using assms(3,5) by auto
  obtain db1 h db2 seq prev where s: "ensure_head A ws db = Inr db1" "head_of db1 ws = Some h"
    "chain_loop A es (head_seq h) (head_hash h) db1 = Inr (db2, seq, prev)" "advance_head A ws seq prev db2 = Inr db'"
    using assms(1) by (auto simp: chained_tx_def w bindR_Inr_iff split: option.splits)
  have ok1: "chain_ok A db1" using ensure_head_ok [OF s(1) assms(2)] by simp
  obtain rs where rs: "db2 = db1\<lparr>audit_logs := audit_logs db1 @ rs\<rparr>" "head_seq h \<le> seq" "map row_seq rs = [head_seq h + 1..seq]"
    "\<forall>r \<in> set rs. in_chain ws r"
    "chained sha256 (head_hash h) (map (row_link A ws) rs)" "prev = end_hash (head_hash h) (map (row_link A ws) rs)"
    using chain_loop_rows [OF s(3) assms(3) w(2) assms(4)] by blast
  note hd = head_of_Some [OF s(2)]
  have new: "head_ok A (db1\<lparr>audit_logs := audit_logs db1 @ rs\<rparr>) (h\<lparr>head_seq := seq, head_hash := prev\<rparr>)"
    using head_ok_extend [OF chain_okD(2) [OF ok1], of h rs seq prev] hd rs by auto
  have upd: "head_ok A (db1\<lparr>audit_logs := audit_logs db1 @ rs\<rparr>)
      (if ch_workspace_id g = ws then g\<lparr>head_seq := seq, head_hash := prev\<rparr> else g)" if g: "g \<in> set (audit_chain_heads db1)" for g
  proof (cases "ch_workspace_id g = ws")
    case True
    then have "g = h" using g hd chain_okD(1) [OF ok1] by (auto simp: distinct_map inj_on_def)
    then show ?thesis using new True by simp
  next
    case False
    then show ?thesis using head_ok_append_other [OF chain_okD(2) [OF ok1 g]] rs(4) by (auto simp: in_chain_def)
  qed
  let ?hs = "map (\<lambda>g. if ch_workspace_id g = ws then g\<lparr>head_seq := seq, head_hash := prev\<rparr> else g) (audit_chain_heads db1)"
  have ids: "map ch_workspace_id ?hs = map ch_workspace_id (audit_chain_heads db1)" by simp
  have db': "db' = db1\<lparr>audit_logs := audit_logs db1 @ rs, audit_chain_heads := ?hs\<rparr>"
    using s(4) rs(1) by (auto simp: advance_head_def)
  have heads': "map ch_workspace_id (audit_chain_heads db') = map ch_workspace_id (audit_chain_heads db1)"
    and logs': "audit_logs db' = audit_logs db1 @ rs" using ids by (simp_all add: db')
  have "al_workspace r \<in> Some ` set (map ch_workspace_id (audit_chain_heads db1))"
    if "r \<in> set (audit_logs db1 @ rs)" "al_chain_seq r \<noteq> None" for r
    using that ok1 rs(4) hd by (auto simp: chain_ok_def in_chain_def)
  then have "\<forall>r \<in> set (audit_logs db'). al_chain_seq r \<noteq> None \<longrightarrow>
      al_workspace r \<in> Some ` set (map ch_workspace_id (audit_chain_heads db'))"
    unfolding heads' logs' by blast
  moreover have "\<forall>g \<in> set (audit_chain_heads db'). head_ok A db' g"
  proof
    fix g' assume "g' \<in> set (audit_chain_heads db')"
    then obtain g where "g \<in> set (audit_chain_heads db1)"
      "g' = (if ch_workspace_id g = ws then g\<lparr>head_seq := seq, head_hash := prev\<rparr> else g)" by (auto simp: db')
    then show "head_ok A db' g'" using upd [of g] by (simp add: db')
  qed
  moreover have "distinct (map ch_workspace_id (audit_chain_heads db'))" using chain_okD(1) [OF ok1] heads' by simp
  ultimately show ?thesis by (simp add: chain_ok_def)
qed

lemma chain_ok_append_loose:
  "chain_ok A db \<Longrightarrow> al_chain_seq r = None \<Longrightarrow> chain_ok A (db\<lparr>audit_logs := audit_logs db @ [r]\<rparr>)"
  by (auto simp: chain_ok_def in_chain_def intro: head_ok_append_other)

lemma writeChained_ok:
  assumes "chain_ok A db" "env_ok (au_env A)" "uuid_shape ws"
    "\<forall>x \<in> set es. entry_stable A x \<and> to_lower (e_WorkspaceID (snd x)) = ws"
  shows "chain_ok A (snd (writeChained A ws es db))"
proof -
  have "chain_ok A (snd (WithTx (au_env A) AuditDb db (chained_tx A ws es)))"
    using assms(1) chained_tx_ok [OF _ assms(1,2,4,3)] by (auto simp: WithTx_def split: sum.splits)
  then show ?thesis by (auto simp: writeChained_def split: sum.splits prod.splits)
qed

section \<open>Loose writes and batches\<close>

lemma chain_rows_map_unchained:
  assumes "\<forall>r \<in> set (audit_logs db). f r = r \<or> al_chain_seq r = None \<and> al_chain_seq (f r) = None"
  shows "chain_rows (db\<lparr>audit_logs := map f (audit_logs db)\<rparr>) ws = chain_rows db ws"
proof -
  have "filter (in_chain ws) (map f xs) = filter (in_chain ws) xs"
    if "\<forall>r \<in> set xs. f r = r \<or> al_chain_seq r = None \<and> al_chain_seq (f r) = None" for xs
    using that by (induction xs) (auto simp: in_chain_def)
  then show ?thesis using assms by (simp add: chain_rows_def)
qed

lemma chain_ok_map_unchained:
  assumes "chain_ok A db" "\<forall>r \<in> set (audit_logs db). f r = r \<or> al_chain_seq r = None \<and> al_chain_seq (f r) = None"
  shows "chain_ok A (db\<lparr>audit_logs := map f (audit_logs db)\<rparr>)"
proof -
  have "head_ok A (db\<lparr>audit_logs := map f (audit_logs db)\<rparr>) h = head_ok A db h" for h
    by (simp add: head_ok_def chain_rows_map_unchained [OF assms(2)])
  moreover have "al_workspace r \<in> Some ` set (map ch_workspace_id (audit_chain_heads db))"
    if "r \<in> f ` set (audit_logs db)" "al_chain_seq r \<noteq> None" for r
    using that assms unfolding chain_ok_def by (metis imageE)
  ultimately show ?thesis using assms(1) by (simp add: chain_ok_def)
qed

definition log_schema :: "audit_db \<Rightarrow> bool" where
  \<comment> \<open>the CHECK of migration 021\<close>
  "log_schema db \<longleftrightarrow> (\<forall>r \<in> set (audit_logs db). al_dedupe_key r = None \<or> al_chain_seq r = None)"

lemma coalesce_insert_ok:
  assumes "chain_ok A db" "log_schema db" "al_chain_seq r = None" "al_dedupe_key r = Some k" "coalesce_insert r db = Some db'"
  shows "chain_ok A db' \<and> log_schema db'"
proof (cases "\<exists>r' \<in> set (audit_logs db). al_dedupe_key r' = al_dedupe_key r \<and> al_created_at r' = al_created_at r")
  case True
  let ?f = "\<lambda>r'. if al_dedupe_key r' = al_dedupe_key r \<and> al_created_at r' = al_created_at r
             then r'\<lparr>al_event_count := al_event_count r' + 1, al_last_at := al_last_at r\<rparr> else r'"
  have db': "db' = db\<lparr>audit_logs := map ?f (audit_logs db)\<rparr>" using assms(5) True by (simp add: coalesce_insert_def)
  have "\<forall>x \<in> set (audit_logs db). ?f x = x \<or> al_chain_seq x = None \<and> al_chain_seq (?f x) = None"
    using assms(2,4) by (auto simp: log_schema_def)
  then have "chain_ok A db'" unfolding db' by (rule chain_ok_map_unchained [OF assms(1)])
  moreover have "log_schema db'" using assms(2) by (auto simp: log_schema_def db')
  ultimately show ?thesis ..
next
  case False
  then have "db' = db\<lparr>audit_logs := audit_logs db @ [r]\<rparr>" using assms(5) by (auto simp: coalesce_insert_def split: if_splits)
  then show ?thesis using assms(1-3) chain_ok_append_loose by (auto simp: log_schema_def)
qed

lemma writeLoose_ok:
  assumes "chain_ok A db" "log_schema db"
  shows "chain_ok A (snd (writeLoose A x db)) \<and> log_schema (snd (writeLoose A x db))"
proof -
  obtain i e where x: "x = (i, e)" by fastforce
  show ?thesis
  proof (cases "e_Coalesce e")
    case True
    obtain key bucket where k: "dedupeKey A (e_ActorID e) (e_Action e) (e_ResourceType e) (e_ResourceID e)
        (se_CreatedAt (prepare A i e 0)) = (key, bucket)" by fastforce
    have c: "chain_ok A db' \<and> log_schema db'"
      if "log_values A (prepare A i e 0) bucket = Some r"
        "coalesce_insert (r\<lparr>al_dedupe_key := Some key, al_last_at := Some (timestamptz (se_CreatedAt (prepare A i e 0)))\<rparr>) db = Some db'" for r db'
      by (rule coalesce_insert_ok [OF assms _ _ that(2), of key]) (simp_all add: log_values_unchained [OF that(1)])
    show ?thesis
      using assms True c by (auto simp: x writeLoose_def Let_def k split: option.splits)
  next
    case False
    then show ?thesis
      using assms chain_ok_append_loose [OF assms(1)] log_values_unchained
      by (auto simp: x writeLoose_def Let_def log_schema_def split: option.splits)
  qed
qed

lemma run_writes_inv:
  assumes "P db" "\<And>x db. x \<in> set xs \<Longrightarrow> P db \<Longrightarrow> P (snd (write x db))"
  shows "P (snd (run_writes write xs (err, db)))"
  using assms
proof (induction xs arbitrary: err db)
  case (Cons x xs)
  obtain err' db' where w: "write x db = (err', db')" by fastforce
  have "P db'" using Cons.prems(2) [of x db] Cons.prems(1) w by simp
  then show ?case using Cons.IH [of db' "first_err err err'"] Cons.prems(2) by (simp add: run_writes_def w)
qed (simp add: run_writes_def)

lemma insert_chained_schema: "insert_chained A st seq prev hash db = Inr db' \<Longrightarrow> log_schema db \<Longrightarrow> log_schema db'"
  by (auto simp: insert_chained_def Let_def log_schema_def log_values_def split: option.splits if_splits)

lemma chain_loop_schema: "chain_loop A es seq prev db = Inr (db', s', p') \<Longrightarrow> log_schema db \<Longrightarrow> log_schema db'"
proof (induction es arbitrary: seq prev db)
  case (Cons x es)
  obtain i e where x: "x = (i, e)" by fastforce
  obtain d where "insert_chained A (prepare A i e (seq + 1)) (seq + 1) prev (chainHash A prev (prepare A i e (seq + 1))) db = Inr d"
    "chain_loop A es (seq + 1) (chainHash A prev (prepare A i e (seq + 1))) d = Inr (db', s', p')"
    using Cons.prems(1) by (auto simp: x Let_def bindR_Inr_iff)
  then show ?case using Cons.IH insert_chained_schema Cons.prems(2) by blast
qed simp

lemma log_schema_heads [simp]: "log_schema (db\<lparr>audit_chain_heads := hs\<rparr>) = log_schema db"
  by (simp add: log_schema_def)

lemma ensure_head_schema: "ensure_head A ws db = Inr db' \<Longrightarrow> log_schema db \<Longrightarrow> log_schema db'"
  by (auto simp: ensure_head_def split: option.splits if_splits)

lemma chained_tx_schema:
  assumes "chained_tx A ws es db = Inr (db', u)" "log_schema db"
  shows "log_schema db'"
proof -
  obtain w where w: "pg_uuid (au_env A) ws = Some w"
    using assms(1) by (cases "pg_uuid (au_env A) ws") (auto simp: chained_tx_def bindR_Inr_iff)
  obtain db1 h db2 seq prev where "ensure_head A ws db = Inr db1" "head_of db1 w = Some h"
    "chain_loop A es (head_seq h) (head_hash h) db1 = Inr (db2, seq, prev)" "advance_head A w seq prev db2 = Inr db'"
    using assms(1) by (auto simp: chained_tx_def w bindR_Inr_iff split: option.splits)
  then show ?thesis
    using ensure_head_schema [OF _ assms(2)] chain_loop_schema by (auto simp: advance_head_def)
qed

lemma writeChained_schema: "log_schema db \<Longrightarrow> log_schema (snd (writeChained A ws es db))"
  by (auto simp: writeChained_def WithTx_def split: sum.splits dest: chained_tx_schema)

definition audit_inv :: "audit_env \<Rightarrow> audit_db \<Rightarrow> bool" where
  "audit_inv A db \<longleftrightarrow> chain_ok A db \<and> log_schema db"

lemma to_lower_char_idem [simp]: "to_lower_char (to_lower_char c) = to_lower_char c"
  by (auto simp: to_lower_char_def is_upper_def less_eq_char_def)

lemma to_lower_idem [simp]: "to_lower (to_lower s) = to_lower s"
  by (simp add: to_lower_def)

lemma entry_stable_lower: "entry_stable A (lower_ws x) = entry_stable A x"
  by (simp add: entry_stable_def lower_ws_def split_def)

definition map_order_ok :: "audit_env \<Rightarrow> bool" where
  \<comment> \<open>ranging over a Go map visits each key exactly once, in some order\<close>
  "map_order_ok A \<longleftrightarrow> (\<forall>ks. distinct ks \<longrightarrow> distinct (map_order A ks) \<and> set (map_order A ks) = set ks)"

lemma chained_groups_member:
  assumes "map_order_ok A" "(ws, batch) \<in> set (chained_groups A (map lower_ws es))" "\<forall>x \<in> set es. entry_stable A x"
  shows "uuid_shape ws" "\<forall>x \<in> set batch. entry_stable A x \<and> to_lower (e_WorkspaceID (snd x)) = ws"
proof -
  let ?cs = "filter entry_chained (map lower_ws es)"
  have m: "set (map_order A (remdups (map (e_WorkspaceID \<circ> snd) ?cs))) = set (map (e_WorkspaceID \<circ> snd) ?cs)"
    using assms(1) by (simp add: map_order_ok_def)
  have b: "batch = filter (\<lambda>x. e_WorkspaceID (snd x) = ws) ?cs" "ws \<in> set (map (e_WorkspaceID \<circ> snd) ?cs)"
    using assms(2) m by (auto simp: chained_groups_def Let_def)
  have st: "entry_stable A x \<and> to_lower (e_WorkspaceID (snd x)) = e_WorkspaceID (snd x) \<and> e_WorkspaceID (snd x) \<noteq> ''''"
    if x: "x \<in> set ?cs" for x
  proof -
    obtain y where y: "x = lower_ws y" "y \<in> set es" using x by auto
    have "entry_stable A x" using y assms(3) by (simp add: entry_stable_lower)
    moreover have "to_lower (e_WorkspaceID (snd x)) = e_WorkspaceID (snd x)" by (simp add: y lower_ws_def)
    moreover have "e_WorkspaceID (snd x) \<noteq> ''''" using x by (auto simp: entry_chained_def lower_ws_def)
    ultimately show ?thesis by blast
  qed
  obtain x where x: "x \<in> set ?cs" "e_WorkspaceID (snd x) = ws" using b(2) by auto
  show "uuid_shape ws" using st [OF x(1)] x(2) by (cases x) (auto simp: entry_stable_def Let_def)
  show "\<forall>x \<in> set batch. entry_stable A x \<and> to_lower (e_WorkspaceID (snd x)) = ws" 
  proof
    fix x assume "x \<in> set batch"
    then have "x \<in> set ?cs" "e_WorkspaceID (snd x) = ws" unfolding b(1) by simp_all
    then show "entry_stable A x \<and> to_lower (e_WorkspaceID (snd x)) = ws" using st by blast
  qed
qed

lemma writeBatch_inv:
  assumes "audit_inv A db" "env_ok (au_env A)" "map_order_ok A" "\<forall>x \<in> set es. entry_stable A x"
  shows "audit_inv A (snd (writeBatch A es db))"
proof (cases "es = []")
  case False
  let ?ch = "run_writes (\<lambda>(ws, batch). writeChained A ws batch) (chained_groups A (map lower_ws es)) (None, db)"
  have step: "audit_inv A (snd ((\<lambda>(ws, batch). writeChained A ws batch) g d))"
    if "g \<in> set (chained_groups A (map lower_ws es))" "audit_inv A d" for g d
  proof -
    obtain ws batch where wb: "g = (ws, batch)" by fastforce
    note m = chained_groups_member [OF assms(3) that(1) [unfolded wb] assms(4)]
    show ?thesis using that(2) writeChained_ok [OF _ assms(2) m] writeChained_schema by (simp add: audit_inv_def wb)
  qed
  have 1: "audit_inv A (snd ?ch)" by (rule run_writes_inv [where P = "audit_inv A", OF assms(1)]) (rule step)
  have "audit_inv A (snd (run_writes (writeLoose A) (filter (\<lambda>x. \<not> entry_chained x) (map lower_ws es)) (fst ?ch, snd ?ch)))"
    by (rule run_writes_inv [where P = "audit_inv A", OF 1]) (use writeLoose_ok in \<open>auto simp: audit_inv_def\<close>)
  then show ?thesis using False by (simp add: writeBatch_def Let_def)
qed (use assms in \<open>simp add: writeBatch_def\<close>)

section \<open>Anchoring\<close>

lemma traverseR_Inr: "traverseR f xs = Inr ys \<Longrightarrow> list_all2 (\<lambda>x y. f x = Inr y) xs ys"
  by (induction xs arbitrary: ys) (auto simp: bindR_Inr_iff)

definition anchors_fit :: "audit_db \<Rightarrow> Anchor_t list \<Rightarrow> bool" where
  "anchors_fit db as \<longleftrightarrow> (\<forall>a \<in> set as. \<forall>h \<in> set (audit_chain_heads db).
     ch_workspace_id h = an_WorkspaceID a \<longrightarrow> an_HeadSeq a \<le> head_seq h)"

lemma chain_ok_heads_map:
  assumes "chain_ok A db" "\<And>h. h \<in> set (audit_chain_heads db) \<Longrightarrow> ch_workspace_id (f h) = ch_workspace_id h \<and> head_ok A db (f h)"
  shows "chain_ok A (db\<lparr>audit_chain_heads := map f (audit_chain_heads db)\<rparr>)"
proof -
  have "map (ch_workspace_id \<circ> f) (audit_chain_heads db) = map ch_workspace_id (audit_chain_heads db)" using assms(2) by simp
  moreover from this have "ch_workspace_id ` f ` set (audit_chain_heads db) = ch_workspace_id ` set (audit_chain_heads db)"
    by (metis list.set_map map_map)
  moreover have "distinct (map (ch_workspace_id \<circ> f) (audit_chain_heads db))" using calculation(1) chain_okD(1) [OF assms(1)] by metis
  ultimately show ?thesis using assms by (simp add: chain_ok_def)
qed

lemma advance_anchor_ok:
  assumes "audit_inv A db" "anchors_fit db (a # as)"
  shows "audit_inv A (advance_anchor a db) \<and> anchors_fit (advance_anchor a db) as"
proof
  have "chain_ok A (advance_anchor a db)" unfolding advance_anchor_def
    by (rule chain_ok_heads_map) (use assms in \<open>auto simp: audit_inv_def chain_ok_def head_ok_def anchors_fit_def Let_def\<close>)
  then show "audit_inv A (advance_anchor a db)" using assms(1) by (simp add: audit_inv_def advance_anchor_def)
  show "anchors_fit (advance_anchor a db) as" using assms(2) by (auto simp: anchors_fit_def advance_anchor_def)
qed

lemma advance_anchors_inv:
  "audit_inv A db \<Longrightarrow> anchors_fit db as \<Longrightarrow> audit_inv A (snd (advance_anchors E as db))"
proof (induction E as db rule: advance_anchors.induct)
  case (2 E a as db)
  then show ?case using advance_anchor_ok [of A db a as] by simp
qed simp

lemma Verify_statuses:
  assumes "verify_at A db walked ids = Inr sts" "st \<in> set sts"
  shows "\<exists>h \<in> set (audit_chain_heads db). status_of A (walked (ch_workspace_id h)) h = Inr st"
proof -
  define hs where "hs = sort_key ch_workspace_id (filter (\<lambda>h. length ids > 0 \<longrightarrow>
    Some (ch_workspace_id h) \<in> set (map (pg_uuid (au_env A)) ids)) (audit_chain_heads db))"
  have "traverseR (\<lambda>h. status_of A (walked (ch_workspace_id h)) h) hs = Inr sts"
    using assms(1) unfolding verify_at_def hs_def [symmetric] by (auto simp: bindR_Inr_iff split: if_splits)
  moreover have "set hs \<subseteq> set (audit_chain_heads db)" by (auto simp: hs_def)
  ultimately obtain hs where hs: "set hs \<subseteq> set (audit_chain_heads db)"
      "list_all2 (\<lambda>h st. status_of A (walked (ch_workspace_id h)) h = Inr st) hs sts"
    using traverseR_Inr by blast
  then show ?thesis using assms(2) by (auto simp: list_all2_conv_all_nth in_set_conv_nth) (metis nth_mem subsetD)
qed

lemma status_of_Inr:
  "status_of A db h = Inr st \<Longrightarrow> cs_WorkspaceID st = ch_workspace_id h \<and> cs_HeadSeq st = head_seq h \<and>
     cs_AnchoredSeq st = anchored_seq h \<and> walk A db (ch_workspace_id h) (anchored_seq h) = Inr (cs_Breaks st) \<and>
     cs_OK st = (cs_Breaks st = [])"
  by (auto simp: status_of_def bindR_Inr_iff)

lemma anchor_of_Inr: "anchor_of A db st = Inr a \<Longrightarrow> an_WorkspaceID a = cs_WorkspaceID st \<and> an_HeadSeq a = cs_HeadSeq st"
  by (auto simp: anchor_of_def bindR_Inr_iff)

lemma anchors_from_clean:
  assumes "verify_at A db walked [] = Inr sts" "traverseR (\<lambda>st. anchor_of A (hashed (cs_WorkspaceID st)) st) (anchor_candidates sts) = Inr as"
    "a \<in> set as"
  shows "\<exists>h \<in> set (audit_chain_heads db). ch_workspace_id h = an_WorkspaceID a \<and> head_seq h = an_HeadSeq a \<and>
    walk A (walked (ch_workspace_id h)) (ch_workspace_id h) (anchored_seq h) = Inr [] \<and> anchored_seq h < head_seq h"
proof -
  obtain st where st: "st \<in> set (anchor_candidates sts)" "anchor_of A (hashed (cs_WorkspaceID st)) st = Inr a"
    using traverseR_Inr [OF assms(2)] assms(3) by (auto simp: list_all2_conv_all_nth in_set_conv_nth) (metis nth_mem)
  have ok: "cs_OK st" "cs_AnchoredSeq st < cs_HeadSeq st" "st \<in> set sts" using st(1) by (auto simp: anchor_candidates_def)
  obtain h where h: "h \<in> set (audit_chain_heads db)" "status_of A (walked (ch_workspace_id h)) h = Inr st"
    using Verify_statuses [OF assms(1) ok(3)] by blast
  show ?thesis using status_of_Inr [OF h(2)] anchor_of_Inr [OF st(2)] ok h(1) by (intro bexI [of _ h]) auto
qed

text \<open>One state of the tables comes before another: every chain of it is still there and its head has only grown.\<close>

definition earlier :: "audit_db \<Rightarrow> audit_db \<Rightarrow> bool" where
  "earlier db d \<longleftrightarrow> (\<forall>h \<in> set (audit_chain_heads db). \<exists>g \<in> set (audit_chain_heads d).
     ch_workspace_id g = ch_workspace_id h \<and> head_seq h \<le> head_seq g)"

lemma anchors_from_fit:
  assumes "verify_at A past walked [] = Inr sts" "traverseR (\<lambda>st. anchor_of A (hashed (cs_WorkspaceID st)) st) (anchor_candidates sts) = Inr as"
    "distinct (map ch_workspace_id (audit_chain_heads db))" "earlier past db"
  shows "anchors_fit db as"
  unfolding anchors_fit_def
proof (intro ballI impI)
  fix a h assume a: "a \<in> set as" and h: "h \<in> set (audit_chain_heads db)" "ch_workspace_id h = an_WorkspaceID a"
  obtain p where p: "p \<in> set (audit_chain_heads past)" "ch_workspace_id p = an_WorkspaceID a" "head_seq p = an_HeadSeq a"
    using anchors_from_clean [OF assms(1,2) a] by blast
  then obtain g where "g \<in> set (audit_chain_heads db)" "ch_workspace_id g = an_WorkspaceID a" "an_HeadSeq a \<le> head_seq g"
    using assms(4) by (auto simp: earlier_def)
  moreover from this have "g = h" using h assms(3) by (auto simp: distinct_map inj_on_def)
  ultimately show "an_HeadSeq a \<le> head_seq h" by simp
qed

lemma Anchor_cases:
  obtains (idle) "ar_db (Anchor_at A k v db) = db" "ar_shipped (Anchor_at A k v db) = []"
  | (shipped) sts as where "verify_at A (av_heads v) (av_walk v) [] = Inr sts"
      "traverseR (\<lambda>st. anchor_of A (av_hash v (cs_WorkspaceID st)) st) (anchor_candidates sts) = Inr as" "sk_present k" "sk_ships k"
      "ar_shipped (Anchor_at A k v db) = as" "ar_db (Anchor_at A k v db) = snd (advance_anchors A as db)"
proof (cases "verify_at A (av_heads v) (av_walk v) []")
  case (Inl e)
  then show thesis by (intro that(1)) (simp_all add: Anchor_at_def)
next
  case (Inr sts)
  let ?t = "traverseR (\<lambda>st. anchor_of A (av_hash v (cs_WorkspaceID st)) st) (anchor_candidates sts)"
  show thesis
  proof (cases ?t)
    case (Inl e)
    with Inr show thesis by (intro that(1)) (simp_all add: Anchor_at_def)
  next
    case as: (Inr as)
    show thesis
    proof (cases "sk_present k \<and> as \<noteq> [] \<and> sk_ships k")
      case True
      then show thesis using Inr as by (intro that(2) [of sts as]) (simp_all add: Anchor_at_def Let_def split_def)
    next
      case False
      then show thesis using Inr as by (intro that(1)) (auto simp: Anchor_at_def)
    qed
  qed
qed

lemma Anchor_inv:
  assumes "audit_inv A db" "earlier (av_heads v) db"
  shows "audit_inv A (ar_db (Anchor_at (A\<lparr>au_env := E\<rparr>) k v db))"
proof -
  have d: "distinct (map ch_workspace_id (audit_chain_heads db))" using assms by (simp add: audit_inv_def chain_ok_def)
  show ?thesis
  proof (cases rule: Anchor_cases [of "A\<lparr>au_env := E\<rparr>" k v db])
    case (shipped sts as)
    then show ?thesis using anchors_from_fit [OF shipped(1,2) d assms(2)] advance_anchors_inv [OF assms(1)] by simp
  qed (use assms(1) in simp)
qed

section \<open>The audit log as a machine\<close>

text \<open>
  What happens to the log: a batch is written (by \<open>Record\<close>, \<open>Try\<close> or a worker of the buffer), or the verifier runs and
  anchors. Every step runs under its own faults and time. A run of the verifier is placed where its updates happen; what it read
  before may be older, as its guard says, and \<open>history_earlier\<close> shows that every earlier state of a history qualifies.
\<close>

datatype audit_op =
    WriteBatch env "(string \<times> Entry) list"
  | RunAnchor env sink anchor_view

fun audit_step :: "audit_env \<Rightarrow> audit_op \<Rightarrow> audit_db \<Rightarrow> audit_db" where
  "audit_step A (WriteBatch E es) db = snd (writeBatch (A\<lparr>au_env := E\<rparr>) es db)"
| "audit_step A (RunAnchor E k v) db = ar_db (Anchor_at (A\<lparr>au_env := E\<rparr>) k v db)"

fun audit_guard :: "audit_env \<Rightarrow> audit_op \<Rightarrow> audit_db \<Rightarrow> bool" where
  "audit_guard A (WriteBatch E es) db = (env_ok E \<and> map_order_ok A \<and> (\<forall>x \<in> set es. entry_stable A x))"
| "audit_guard A (RunAnchor E k v) db = earlier (av_heads v) db"

lemma audit_inv_env [simp]: "audit_inv (A\<lparr>au_env := E\<rparr>) db = audit_inv A db"
  by (simp add: audit_inv_def)

lemma map_order_ok_env [simp]: "map_order_ok (A\<lparr>au_env := E\<rparr>) = map_order_ok A"
  by (simp add: map_order_ok_def)

interpretation audit: guarded_machine "audit_step A" "audit_guard A" "audit_inv A"
proof
  fix db op assume "audit_inv A db" "audit_guard A op db"
  then show "audit_inv A (audit_step A op db)"
    using writeBatch_inv [of "A\<lparr>au_env := _\<rparr>" db] Anchor_inv by (cases op) auto
qed

section \<open>Heads only grow\<close>

definition grown :: "audit_db \<Rightarrow> audit_db \<Rightarrow> bool" where
  "grown db d \<longleftrightarrow> earlier db d \<and> distinct (map ch_workspace_id (audit_chain_heads d))"

lemma earlier_refl [simp]: "earlier db db"
  by (auto simp: earlier_def)

lemma earlier_trans: "earlier a b \<Longrightarrow> earlier b c \<Longrightarrow> earlier a c"
  by (force simp: earlier_def intro: order_trans)

lemma earlier_map:
  assumes "audit_chain_heads d = map f (audit_chain_heads db)"
    "\<And>h. h \<in> set (audit_chain_heads db) \<Longrightarrow> ch_workspace_id (f h) = ch_workspace_id h \<and> head_seq h \<le> head_seq (f h)"
  shows "earlier db d" "map ch_workspace_id (audit_chain_heads d) = map ch_workspace_id (audit_chain_heads db)"
  using assms by (auto simp: earlier_def)

lemma chain_loop_heads:
  "chain_loop A es seq prev db = Inr (db', seq', prev') \<Longrightarrow> audit_chain_heads db' = audit_chain_heads db \<and> seq \<le> seq'"
proof (induction es arbitrary: seq prev db)
  case (Cons x es)
  obtain i e where x: "x = (i, e)" by fastforce
  obtain d where d: "insert_chained A (prepare A i e (seq + 1)) (seq + 1) prev (chainHash A prev (prepare A i e (seq + 1))) db = Inr d"
    "chain_loop A es (seq + 1) (chainHash A prev (prepare A i e (seq + 1))) d = Inr (db', seq', prev')"
    using Cons.prems by (auto simp: x Let_def bindR_Inr_iff)
  have "audit_chain_heads d = audit_chain_heads db"
    using d(1) by (auto simp: insert_chained_def Let_def split: option.splits if_splits)
  then show ?case using Cons.IH [OF d(2)] by simp
qed simp

lemma chained_tx_grown:
  assumes "chained_tx A ws es db = Inr (db', u)" "distinct (map ch_workspace_id (audit_chain_heads db))"
  shows "grown db db'"
proof -
  obtain w where w: "pg_uuid (au_env A) ws = Some w"
    using assms(1) by (cases "pg_uuid (au_env A) ws") (auto simp: chained_tx_def bindR_Inr_iff)
  obtain db1 h db2 seq prev where s: "ensure_head A ws db = Inr db1" "head_of db1 w = Some h"
    "chain_loop A es (head_seq h) (head_hash h) db1 = Inr (db2, seq, prev)" "advance_head A w seq prev db2 = Inr db'"
    using assms(1) by (auto simp: chained_tx_def w bindR_Inr_iff split: option.splits)
  have 1: "earlier db db1" "distinct (map ch_workspace_id (audit_chain_heads db1))"
    using s(1) assms(2) w head_of_None [of db w]
    by (auto simp: ensure_head_def earlier_def split: if_splits)
  have heads: "audit_chain_heads db' = map (\<lambda>g. if ch_workspace_id g = w then g\<lparr>head_seq := seq, head_hash := prev\<rparr> else g)
      (audit_chain_heads db1)"
    using s(4) chain_loop_heads [OF s(3)] by (auto simp: advance_head_def)
  have "g = h" if "g \<in> set (audit_chain_heads db1)" "ch_workspace_id g = w" for g
    using that head_of_Some [OF s(2)] 1(2) by (auto simp: distinct_map inj_on_def)
  then have up: "ch_workspace_id (if ch_workspace_id g = w then g\<lparr>head_seq := seq, head_hash := prev\<rparr> else g) = ch_workspace_id g \<and>
      head_seq g \<le> head_seq (if ch_workspace_id g = w then g\<lparr>head_seq := seq, head_hash := prev\<rparr> else g)"
    if "g \<in> set (audit_chain_heads db1)" for g
    using that chain_loop_heads [OF s(3)] by auto
  note earlier_map [OF heads up]
  then show ?thesis using 1 earlier_trans by (auto simp: grown_def)
qed

lemma writes_grown:
  assumes "grown db d"
  shows "grown db (snd (writeChained A ws es d))" "grown db (snd (writeLoose A x d))"
proof -
  show "grown db (snd (writeChained A ws es d))"
    using assms chained_tx_grown [of A ws es d] earlier_trans
    by (auto simp: writeChained_def WithTx_def grown_def split: sum.splits; blast)
  have "audit_chain_heads (snd (writeLoose A x d)) = audit_chain_heads d"
    by (cases x) (auto simp: writeLoose_def coalesce_insert_def Let_def split: option.splits prod.splits if_splits)
  then show "grown db (snd (writeLoose A x d))" using assms by (simp add: grown_def earlier_def)
qed

lemma writeBatch_grown:
  assumes "distinct (map ch_workspace_id (audit_chain_heads db))"
  shows "grown db (snd (writeBatch A es db))"
proof -
  let ?ch = "run_writes (\<lambda>(ws, batch). writeChained A ws batch) (chained_groups A (map lower_ws es)) (None, db)"
  have 0: "grown db db" using assms by (simp add: grown_def)
  have 1: "grown db (snd ?ch)" by (rule run_writes_inv [where P = "grown db", OF 0]) (auto intro: writes_grown(1))
  have "grown db (snd (run_writes (writeLoose A) (filter (\<lambda>x. \<not> entry_chained x) (map lower_ws es)) (fst ?ch, snd ?ch)))"
    by (rule run_writes_inv [where P = "grown db", OF 1]) (rule writes_grown(2))
  then show ?thesis using 0 by (simp add: writeBatch_def Let_def)
qed

lemma advance_anchors_earlier: "earlier db (snd (advance_anchors A as db))"
proof (induction A as db rule: advance_anchors.induct)
  case (2 A a as db)
  have heads: "audit_chain_heads (advance_anchor a db) = map (\<lambda>h. if ch_workspace_id h = an_WorkspaceID a \<and> anchored_seq h < an_HeadSeq a
     then h\<lparr>anchored_seq := an_HeadSeq a, anchored_at := Some (timestamptz (an_At a))\<rparr> else h) (audit_chain_heads db)"
    by (simp add: advance_anchor_def)
  have "earlier db (advance_anchor a db)" by (rule earlier_map(1) [OF heads]) simp
  then show ?case using 2 earlier_trans by auto
qed simp

lemma Anchor_earlier: "earlier db (ar_db (Anchor_at A k v db))"
  by (cases rule: Anchor_cases [of A k v db]) (simp_all add: advance_anchors_earlier)

lemma history_earlier:
  "audit_inv A db \<Longrightarrow> guarded_run (audit_step A) (audit_guard A) ops db = Some db' \<Longrightarrow> earlier db db'"
proof (induction ops arbitrary: db)
  case (Cons op ops)
  have g: "audit_guard A op db" "guarded_run (audit_step A) (audit_guard A) ops (audit_step A op db) = Some db'"
    using Cons.prems(2) by (auto split: if_splits)
  have "earlier db (audit_step A op db)"
    using writeBatch_grown [of db] Anchor_earlier Cons.prems(1) by (cases op) (auto simp: grown_def audit_inv_def chain_ok_def)
  moreover have "earlier (audit_step A op db) db'" by (rule Cons.IH [OF audit.step_inv [OF Cons.prems(1) g(1)] g(2)])
  ultimately show ?case by (rule earlier_trans)
qed simp

end
