(* ===== verification/Audit_Properties.thy ===== *)
theory Audit_Properties
  imports Audit_Invariant Authz_Properties
begin

text \<open>
  What the audit log promises: an honest log verifies, a log that verifies and ends in an anchored hash is the log that
  was anchored, every kind of damage the walk can see is reported where it is, and the anchor moves exactly for clean
  chains. The last section is about what the walk cannot see.
\<close>

section \<open>Honest logs verify\<close>

lemma chained_prev_hd: "chained H p (map (row_link A ws) rs) \<Longrightarrow> rs \<noteq> [] \<Longrightarrow> al_prev_hash (hd rs) = p"
  by (cases rs) (auto simp: row_link_def)

lemma seq_run_upto: "map row_seq rs = [n..m] \<Longrightarrow> seq_run n rs"
proof (induction rs arbitrary: n)
  case (Cons r rs)
  then have "n \<le> m" by (metis list.distinct(1) list.map_disc_iff not_le upto_empty)
  then have "row_seq r = n" "map row_seq rs = [n + 1..m]" using Cons.prems by (simp_all add: upto_rec1 [of n m])
  then show ?case using Cons.IH by simp
qed simp

lemma drop_upto: "0 \<le> a \<Longrightarrow> drop (nat a) [1..n] = [a + 1..n]" for a n :: int
proof (cases "a \<le> n")
  case True
  assume "0 \<le> a"
  then have "[1..n] = [1..a] @ [a + 1..n]" using upto_split2 [of 1 a n] True by (cases "a = 0") simp_all
  then show ?thesis using \<open>0 \<le> a\<close> by simp
qed simp

lemma take_upto: "0 \<le> a \<Longrightarrow> take (nat a) [1..n] = [1..min a n]" for a n :: int
proof (cases "a \<le> n")
  case True
  assume "0 \<le> a"
  then have "[1..n] = [1..a] @ [a + 1..n]" using upto_split2 [of 1 a n] True by (cases "a = 0") simp_all
  then show ?thesis using \<open>0 \<le> a\<close> True by (simp add: min_def)
qed (simp add: min_def)

lemma chain_take_drop:
  assumes "map row_seq rs = [1..n]" "0 \<le> a"
  shows "r \<in> set (take (nat a) rs) \<Longrightarrow> row_seq r \<le> a" "r \<in> set (drop (nat a) rs) \<Longrightarrow> a < row_seq r"
proof -
  have "map row_seq (take (nat a) rs) = [1..min a n]" "map row_seq (drop (nat a) rs) = [a + 1..n]"
    using assms by (simp_all add: take_map [symmetric] drop_map [symmetric] take_upto drop_upto)
  then have "row_seq ` set (take (nat a) rs) = {1..min a n}" "row_seq ` set (drop (nat a) rs) = {a + 1..n}"
    by (metis list.set_map set_upto)+
  then have "row_seq ` set (take (nat a) rs) \<subseteq> {..a}" "row_seq ` set (drop (nat a) rs) \<subseteq> {a<..}" by auto
  then show "r \<in> set (take (nat a) rs) \<Longrightarrow> row_seq r \<le> a" "r \<in> set (drop (nat a) rs) \<Longrightarrow> a < row_seq r" by blast+
qed

lemma chain_suffix:
  assumes "map row_seq rs = [1..n]" "0 \<le> a"
  shows "filter (\<lambda>r. a < row_seq r) rs = drop (nat a) rs" "filter (\<lambda>r. \<not> a < row_seq r) rs = take (nat a) rs"
proof -
  note td = chain_take_drop [OF assms]
  have "filter (\<lambda>r. a < row_seq r) (take (nat a) rs @ drop (nat a) rs) = drop (nat a) rs"
    "filter (\<lambda>r. \<not> a < row_seq r) (take (nat a) rs @ drop (nat a) rs) = take (nat a) rs"
    using td by (fastforce simp: filter_empty_conv filter_id_conv simp del: append_take_drop_id)+
  then show "filter (\<lambda>r. a < row_seq r) rs = drop (nat a) rs" "filter (\<lambda>r. \<not> a < row_seq r) rs = take (nat a) rs" by simp_all
qed

lemma walk_query_chain:
  assumes "head_ok A db h"
  shows "walk_query db (ch_workspace_id h) (anchored_seq h) =
    take verifyBatch (drop (nat (anchored_seq h)) (chain_rows db (ch_workspace_id h)))"
proof -
  let ?rs = "chain_rows db (ch_workspace_id h)"
  have h: "map row_seq ?rs = [1..head_seq h]" "0 \<le> anchored_seq h" using assms by (simp_all add: head_ok_def Let_def)
  have f: "filter (\<lambda>r. al_workspace r = Some (ch_workspace_id h) \<and>
      (case al_chain_seq r of None \<Rightarrow> False | Some s \<Rightarrow> s > anchored_seq h)) (audit_logs db) = filter (\<lambda>r. anchored_seq h < row_seq r) ?rs"
    unfolding chain_rows_def filter_filter by (rule filter_cong) (auto simp: in_chain_def row_seq_def split: option.splits)
  have "sorted (map row_seq (drop (nat (anchored_seq h)) ?rs))"
    using h(1) by (simp add: drop_map [symmetric] sorted_wrt_drop)
  then have "sort_key row_seq (drop (nat (anchored_seq h)) ?rs) = drop (nat (anchored_seq h)) ?rs" by (rule sort_key_id_if_sorted)
  then show ?thesis unfolding walk_query_def f chain_suffix(1) [OF h] by simp
qed

lemma chained_segment:
  assumes "chained sha256 p (map (row_link A ws) rs)" "seg = take n (drop m rs)" "seg \<noteq> []"
  shows "chained sha256 (al_prev_hash (hd seg)) (map (row_link A ws) seg)"
proof -
  have "rs = take m rs @ seg @ drop n (drop m rs)" unfolding assms(2) by (metis append_take_drop_id)
  then have "chained sha256 p (map (row_link A ws) (take m rs) @ map (row_link A ws) seg @ map (row_link A ws) (drop n (drop m rs)))"
    using assms(1) by (metis map_append)
  then have "chained sha256 (end_hash p (map (row_link A ws) (take m rs))) (map (row_link A ws) seg)"
    by (simp add: sha.chained_append)
  then show ?thesis using chained_prev_hd [OF _ assms(3)] by metis
qed

lemma head_ok_walk_clean:
  assumes "head_ok A db h"
  shows "walk_rows A (ch_workspace_id h) (anchored_seq h + 1) '''' True (walk_query db (ch_workspace_id h) (anchored_seq h)) = []"
proof -
  let ?rs = "chain_rows db (ch_workspace_id h)" and ?q = "walk_query db (ch_workspace_id h) (anchored_seq h)"
  have h: "map row_seq ?rs = [1..head_seq h]" "0 \<le> anchored_seq h" "chained sha256 '''' (map (row_link A (ch_workspace_id h)) ?rs)"
    using assms by (simp_all add: head_ok_def Let_def)
  note q = walk_query_chain [OF assms]
  have seqs: "map row_seq (drop (nat (anchored_seq h)) ?rs) = [anchored_seq h + 1..head_seq h]"
    using h(1,2) by (simp add: drop_map [symmetric] drop_upto)
  have "seq_run e rs \<Longrightarrow> seq_run e (take n rs)" for e n rs
    by (induction rs arbitrary: e n) (auto simp: take_Cons split: nat.splits)
  then have "seq_run (anchored_seq h + 1) ?q" using seq_run_upto [OF seqs] q by simp
  moreover have "?q = [] \<or> chained sha256 (al_prev_hash (hd ?q)) (map (row_link A (ch_workspace_id h)) ?q)"
    using chained_segment [OF h(3) q] by blast
  ultimately show ?thesis by (simp add: walk_rows_clean)
qed

lemma traverseR_total: "(\<And>x. x \<in> set xs \<Longrightarrow> f x = Inr (g x)) \<Longrightarrow> traverseR f xs = Inr (map g xs)"
  by (induction xs) auto

text \<open>
  C17. Whatever sequence of batches and anchor runs the log goes through, with failures of any statement in between and with runs that
  read older states than they update, the verifier then reports every chain intact: an honest log raises no alarm, and no transaction
  that was rolled back leaves a gap or a dangling link. The entries written are such that Postgres reads back what renders as it was
  hashed (\<open>entry_stable\<close>): ids are uuids, the stored metadata has the same canonical form as the encoded one, and an address is
  stored as its own text. Times are not part of that hypothesis: they survive the column's precision because \<open>prepare\<close> truncates them.
\<close>

theorem honest_log_verifies:
  assumes "audit_inv A db" "guarded_run (audit_step A) (audit_guard A) ops db = Some db'" "no_faults E"
  shows "\<exists>sts. audit_Verify (A\<lparr>au_env := E\<rparr>) db' [] = Inr sts \<and> (\<forall>st \<in> set sts. cs_OK st \<and> cs_Breaks st = []) \<and>
    map cs_WorkspaceID sts = map ch_workspace_id (sort_key ch_workspace_id (audit_chain_heads db'))"
proof -
  have inv: "audit_inv A db'" by (rule audit.run_inv [OF assms(1,2)])
  let ?A = "A\<lparr>au_env := E\<rparr>" and ?hs = "sort_key ch_workspace_id (audit_chain_heads db')"
  let ?g = "\<lambda>h. \<lparr>cs_WorkspaceID = ch_workspace_id h, cs_OK = True, cs_HeadSeq = head_seq h,
    cs_AnchoredSeq = anchored_seq h, cs_Breaks = []\<rparr>"
  have st: "status_of ?A db' h = Inr (?g h)" if "h \<in> set ?hs" for h
  proof -
    have "head_ok ?A db' h" using inv that by (simp add: audit_inv_def chain_ok_def head_ok_def)
    then show ?thesis using head_ok_walk_clean assms(3) by (simp add: status_of_def walk_def au_sql_def no_faults_def)
  qed
  have "traverseR (status_of ?A db') ?hs = Inr (map ?g ?hs)" by (rule traverseR_total [OF st])
  then have "audit_Verify ?A db' [] = Inr (map ?g ?hs)"
    using assms(3) by (simp add: audit_Verify_def verify_at_def au_sql_def no_faults_def)
  then show ?thesis by (intro exI [of _ "map ?g ?hs"]) (simp add: o_def)
qed

section \<open>Tampering\<close>

definition walked_links :: "audit_env \<Rightarrow> audit_db \<Rightarrow> string \<Rightarrow> int \<Rightarrow> link list" where
  "walked_links A db ws aft = map (row_link A ws) (walk_query db ws aft)"

lemma walk_clean_iff:
  assumes "no_faults (au_env A)"
  shows "walk A db ws aft = Inr [] \<longleftrightarrow> seq_run (aft + 1) (walk_query db ws aft) \<and>
    (walk_query db ws aft = [] \<or> chained sha256 (al_prev_hash (hd (walk_query db ws aft))) (walked_links A db ws aft))"
  using assms by (simp add: walk_def au_sql_def no_faults_def walk_rows_clean walked_links_def)

lemma map_eq_kernel: "(\<And>x y. f x = f y \<Longrightarrow> g x = g y) \<Longrightarrow> map f xs = map f ys \<Longrightarrow> map g xs = map g ys"
proof (induction xs arbitrary: ys)
  case (Cons x xs)
  obtain y ys' where "ys = y # ys'" "f x = f y" "map f xs = map f ys'" using Cons.prems(2) by (cases ys) auto
  then show ?case using Cons.prems(1) Cons.IH [OF Cons.prems(1)] by (metis list.simps(9))
qed simp

text \<open>
  C18. A chain that was anchored cannot be rewritten without the verifier or the anchor noticing: if two states of the
  table both walk clean from the same point over the same number of rows and end in the same hash, and the previous hashes stored in
  their first rows have the same length, then the eleven hashed fields of every row agree, unless the two tables contain two different
  inputs to SHA-256 with one digest. The condition on the first previous hash is needed: the walk takes it as it is stored, and the
  hash is over the previous hash followed by the contents, with no mark between the two.
\<close>

theorem tamper_evident:
  assumes "no_faults (au_env A)" "walk A db ws aft = Inr []" "walk A db' ws aft = Inr []"
    "walk_query db ws aft \<noteq> []" "length (walk_query db ws aft) = length (walk_query db' ws aft)"
    "al_hash (last (walk_query db ws aft)) = al_hash (last (walk_query db' ws aft))"
    "length (al_prev_hash (hd (walk_query db ws aft))) = length (al_prev_hash (hd (walk_query db' ws aft)))"
    "\<not> collision sha256 (link_inputs (walked_links A db ws aft)) (link_inputs (walked_links A db' ws aft))"
  shows "map (\<lambda>r. canonical_parts A (read_entry ws r)) (walk_query db ws aft) =
    map (\<lambda>r. canonical_parts A (read_entry ws r)) (walk_query db' ws aft)"
proof -
  let ?q = "walk_query db ws aft" and ?q' = "walk_query db' ws aft"
  have ne: "?q' \<noteq> []" using assms(4,5) by auto
  have c: "chained sha256 (al_prev_hash (hd ?q)) (walked_links A db ws aft)"
    "chained sha256 (al_prev_hash (hd ?q')) (walked_links A db' ws aft)"
    using assms(2-4) ne by (simp_all add: walk_clean_iff [OF assms(1)])
  have e: "end_hash (al_prev_hash (hd ?q)) (walked_links A db ws aft) = end_hash (al_prev_hash (hd ?q')) (walked_links A db' ws aft)"
    using assms(4,6) ne by (simp add: end_hash_def walked_links_def last_map row_link_def)
  have "length (walked_links A db ws aft) = length (walked_links A db' ws aft)" using assms(5) by (simp add: walked_links_def)
  from sha.same_end [OF c this assms(7) e assms(8)]
  have "map (\<lambda>r. canonical A (read_entry ws r)) ?q = map (\<lambda>r. canonical A (read_entry ws r)) ?q'"
    by (simp add: walked_links_def o_def row_link_def)
  then show ?thesis by (rule map_eq_kernel [rotated]) (simp add: canonical_eq_parts)
qed

section \<open>What the walk reports\<close>

definition break_at :: "string \<Rightarrow> int \<Rightarrow> string \<Rightarrow> Break" where
  "break_at ws s reason = \<lparr>br_WorkspaceID = ws, br_Seq = s, br_Reason = reason\<rparr>"

lemma walk_rows_Cons:
  "walk_rows A ws expect prev first (r # rs) =
     map (\<lambda>s. break_at ws s ''missing'') [expect..row_seq r - 1] @
     (if \<not> (first \<or> expect < row_seq r) \<and> al_prev_hash r \<noteq> prev then [break_at ws (row_seq r) ''prev_mismatch''] else []) @
     (if chainHash A (al_prev_hash r) (read_entry ws r) \<noteq> al_hash r then [break_at ws (row_seq r) ''hash_mismatch''] else []) @
     walk_rows A ws (row_seq r + 1) (al_hash r) False rs"
  by (auto simp: Let_def break_at_def)

lemma break_at_eq [simp]: "break_at ws s x = break_at ws s' x' \<longleftrightarrow> s = s' \<and> x = x'"
  by (simp add: break_at_def)

lemma walk_rows_hash:
  "break_at ws s ''hash_mismatch'' \<in> set (walk_rows A ws expect prev first rs) \<longleftrightarrow>
     (\<exists>r \<in> set rs. row_seq r = s \<and> al_hash r \<noteq> chainHash A (al_prev_hash r) (read_entry ws r))"
proof (induction rs arbitrary: expect prev first)
  case (Cons r rs)
  show ?case unfolding walk_rows_Cons using Cons by auto
qed simp

lemma walk_rows_missing:
  "sorted (map row_seq rs) \<Longrightarrow> \<forall>r \<in> set rs. expect - 1 \<le> row_seq r \<Longrightarrow>
   break_at ws s ''missing'' \<in> set (walk_rows A ws expect prev first rs) \<longleftrightarrow>
     expect \<le> s \<and> s \<notin> row_seq ` set rs \<and> (\<exists>r \<in> set rs. s < row_seq r)"
proof (induction rs arbitrary: expect prev first)
  case (Cons r rs)
  have ge: "\<forall>x \<in> set rs. row_seq r + 1 - 1 \<le> row_seq x" using Cons.prems(1) by auto
  have IH: "break_at ws s ''missing'' \<in> set (walk_rows A ws (row_seq r + 1) (al_hash r) False rs) \<longleftrightarrow>
     row_seq r + 1 \<le> s \<and> s \<notin> row_seq ` set rs \<and> (\<exists>x \<in> set rs. s < row_seq x)"
    using Cons.IH [OF _ ge] Cons.prems(1) by simp
  show ?case unfolding walk_rows_Cons using IH Cons.prems by fastforce
qed simp

lemma walk_query_sorted: "sorted (map row_seq (walk_query db ws aft))" "\<forall>r \<in> set (walk_query db ws aft). aft < row_seq r"
proof -
  show "sorted (map row_seq (walk_query db ws aft))" by (simp add: walk_query_def take_map [symmetric] sorted_wrt_take)
  show "\<forall>r \<in> set (walk_query db ws aft). aft < row_seq r"
    by (auto simp: walk_query_def row_seq_def dest!: in_set_takeD split: option.splits)
qed

text \<open>
  C19. The walk reports damage exactly where it is: an in-place edit at every row it reads whose stored hash is not the
  hash of its own previous hash and contents, and a missing row at every sequence number after the anchor that has no row
  but is followed by a later row that the walk reads. Rows missing at the end of what it reads are not reported.
\<close>

theorem walk_reports_exactly:
  assumes "walk A db ws aft = Inr bs"
  shows "(break_at ws s ''hash_mismatch'' \<in> set bs \<longleftrightarrow>
      (\<exists>r \<in> set (walk_query db ws aft). row_seq r = s \<and> al_hash r \<noteq> chainHash A (al_prev_hash r) (read_entry ws r))) \<and>
    (break_at ws s ''missing'' \<in> set bs \<longleftrightarrow>
      aft < s \<and> s \<notin> row_seq ` set (walk_query db ws aft) \<and> (\<exists>r \<in> set (walk_query db ws aft). s < row_seq r))"
proof -
  have "bs = walk_rows A ws (aft + 1) '''' True (walk_query db ws aft)" using assms by (auto simp: walk_def bindR_Inr_iff)
  moreover have "\<forall>r \<in> set (walk_query db ws aft). aft + 1 - 1 \<le> row_seq r" using walk_query_sorted(2) by fastforce
  ultimately show ?thesis using walk_rows_missing [OF walk_query_sorted(1)] by (auto simp: walk_rows_hash)
qed

section \<open>Anchors\<close>

lemma advance_anchor_heads:
  "audit_chain_heads (advance_anchor a db) = map (\<lambda>h. if ch_workspace_id h = an_WorkspaceID a \<and> anchored_seq h < an_HeadSeq a
     then h\<lparr>anchored_seq := an_HeadSeq a, anchored_at := Some (timestamptz (an_At a))\<rparr> else h) (audit_chain_heads db)"
  "audit_logs (advance_anchor a db) = audit_logs db"
  by (simp_all add: advance_anchor_def)

definition anchored_by :: "Anchor_t list \<Rightarrow> chain_head \<Rightarrow> chain_head \<Rightarrow> bool" where
  "anchored_by as g g' \<longleftrightarrow> ch_workspace_id g' = ch_workspace_id g \<and> head_seq g' = head_seq g \<and> head_hash g' = head_hash g \<and>
     (anchored_seq g' = anchored_seq g \<or> anchored_seq g < anchored_seq g' \<and>
        (\<exists>a \<in> set as. an_WorkspaceID a = ch_workspace_id g \<and> an_HeadSeq a = anchored_seq g'))"

lemma anchored_by_trans: "anchored_by [a] g g1 \<Longrightarrow> anchored_by as g1 g' \<Longrightarrow> anchored_by (a # as) g g'"
  by (auto simp: anchored_by_def)

lemma advance_anchors_by:
  "audit_logs (snd (advance_anchors A as db)) = audit_logs db \<and>
   (\<forall>g' \<in> set (audit_chain_heads (snd (advance_anchors A as db))). \<exists>g \<in> set (audit_chain_heads db). anchored_by as g g')"
proof (induction A as db rule: advance_anchors.induct)
  case (1 A db)
  then show ?case by (auto simp: anchored_by_def)
next
  case (2 A a as db)
  show ?case
  proof (cases "db_fault (au_env A) (''audit: advance anchor for '' @ an_WorkspaceID a)")
    case True
    then show ?thesis by (simp add: anchored_by_def) blast
  next
    case False
    have step: "\<exists>g \<in> set (audit_chain_heads db). anchored_by [a] g g1" if g1: "g1 \<in> set (audit_chain_heads (advance_anchor a db))" for g1
    proof -
      obtain g where "g \<in> set (audit_chain_heads db)" "g1 = (if ch_workspace_id g = an_WorkspaceID a \<and> anchored_seq g < an_HeadSeq a
          then g\<lparr>anchored_seq := an_HeadSeq a, anchored_at := Some (timestamptz (an_At a))\<rparr> else g)"
        using g1 by (auto simp: advance_anchor_heads)
      then show ?thesis by (intro bexI [of _ g]) (simp_all add: anchored_by_def)
    qed
    have "\<exists>g \<in> set (audit_chain_heads db). anchored_by (a # as) g g'"
      if g': "g' \<in> set (audit_chain_heads (snd (advance_anchors A as (advance_anchor a db))))" for g'
      using 2 [OF False] g' step anchored_by_trans by meson
    moreover have "audit_logs (snd (advance_anchors A as (advance_anchor a db))) = audit_logs db"
      using 2 [OF False] advance_anchor_heads(2) by simp
    ultimately show ?thesis using False by simp
  qed
qed

text \<open>
  C20. Whatever fails, whatever the tables hold and whatever writers commit between its statements, a run of \<open>Anchor\<close> moves the anchor of
  a chain only forward, only to the head that the chain had when its heads were listed, only if the walk of that chain found no break,
  and only if \<open>Ship\<close> succeeded with an anchor for that head; it never touches a log row, and it never moves a head. Nothing is assumed
  of the chains, only that a workspace has one head row.
\<close>

theorem anchor_moves_only_clean:
  assumes "distinct (map ch_workspace_id (audit_chain_heads db))" "h \<in> set (audit_chain_heads db)"
    "h' \<in> set (audit_chain_heads (ar_db (Anchor_at A k v db)))" "ch_workspace_id h' = ch_workspace_id h"
  shows "audit_logs (ar_db (Anchor_at A k v db)) = audit_logs db \<and> head_seq h' = head_seq h \<and> head_hash h' = head_hash h \<and>
    (anchored_seq h' = anchored_seq h \<or>
     (\<exists>g \<in> set (audit_chain_heads (av_heads v)). ch_workspace_id g = ch_workspace_id h \<and>
        anchored_seq h < head_seq g \<and> anchored_seq h' = head_seq g \<and> anchored_seq g < head_seq g \<and> sk_present k \<and> sk_ships k \<and>
        walk A (av_walk v (ch_workspace_id g)) (ch_workspace_id g) (anchored_seq g) = Inr [] \<and>
        (\<exists>a \<in> set (ar_shipped (Anchor_at A k v db)). an_WorkspaceID a = ch_workspace_id g \<and> an_HeadSeq a = head_seq g)))"
proof (cases rule: Anchor_cases [of A k v db])
  case idle
  have "h' = h" using assms idle(1) by (auto simp: distinct_map inj_on_def)
  then show ?thesis unfolding idle(1) by simp
next
  case (shipped sts as)
  obtain o1 where o1: "o1 \<in> set (audit_chain_heads db)" "anchored_by as o1 h'"
    using assms(3) shipped(6) advance_anchors_by [of A as db] by auto
  then have "o1 = h" using assms(1,2,4) by (auto simp: distinct_map inj_on_def anchored_by_def)
  then have by_h: "anchored_by as h h'" using o1(2) by simp
  moreover have "\<exists>g \<in> set (audit_chain_heads (av_heads v)). ch_workspace_id g = an_WorkspaceID a \<and> head_seq g = an_HeadSeq a \<and>
      walk A (av_walk v (ch_workspace_id g)) (ch_workspace_id g) (anchored_seq g) = Inr [] \<and> anchored_seq g < head_seq g"
    if "a \<in> set as" for a
    using anchors_from_clean [OF shipped(1,2) that] .
  ultimately show ?thesis
    using shipped(3-6) advance_anchors_by [of A as db] unfolding anchored_by_def by (metis (no_types, lifting))
qed

section \<open>What the walk does not see\<close>

text \<open>
  The walk never compares the last row it read with the head of the chain, so cutting off the tail of a chain goes
  unnoticed: remove the newest rows of any intact chain, down to any point at or above the anchor, and the verifier still
  reports it intact, with the old head.
\<close>

theorem tail_deletion_unnoticed:
  assumes "audit_inv A db" "h \<in> set (audit_chain_heads db)" "no_faults (au_env A)" "anchored_seq h \<le> s"
  shows "status_of A (db\<lparr>audit_logs := filter (\<lambda>r. \<not> (in_chain (ch_workspace_id h) r \<and> s < row_seq r)) (audit_logs db)\<rparr>) h =
    Inr \<lparr>cs_WorkspaceID = ch_workspace_id h, cs_OK = True, cs_HeadSeq = head_seq h, cs_AnchoredSeq = anchored_seq h, cs_Breaks = []\<rparr>"
proof -
  let ?db = "db\<lparr>audit_logs := filter (\<lambda>r. \<not> (in_chain (ch_workspace_id h) r \<and> s < row_seq r)) (audit_logs db)\<rparr>"
  let ?rs = "chain_rows db (ch_workspace_id h)" and ?m = "min s (head_seq h)"
  have h: "head_ok A db h" using assms(1,2) by (simp add: audit_inv_def chain_ok_def)
  have hs: "map row_seq ?rs = [1..head_seq h]" "0 \<le> anchored_seq h" "anchored_seq h \<le> head_seq h"
    "chained sha256 '''' (map (row_link A (ch_workspace_id h)) ?rs)" using h by (simp_all add: head_ok_def Let_def)
  have rows: "chain_rows ?db (ch_workspace_id h) = take (nat s) ?rs"
  proof -
    have "chain_rows ?db (ch_workspace_id h) = filter (\<lambda>r. \<not> s < row_seq r) ?rs"
      by (simp add: chain_rows_def conj_commute cong: conj_cong)
    then show ?thesis using chain_suffix(2) [OF hs(1), of s] assms(4) hs(2) by simp
  qed
  let ?ls = "map (row_link A (ch_workspace_id h)) (take (nat s) ?rs)"
  have "chained sha256 '''' (?ls @ map (row_link A (ch_workspace_id h)) (drop (nat s) ?rs))"
    using hs(4) by (simp flip: map_append)
  then have c: "chained sha256 '''' ?ls" by (simp add: sha.chained_append)
  have sq: "map row_seq (take (nat s) ?rs) = [1..?m]" using hs(1,2) assms(4) by (simp add: take_map [symmetric] take_upto)
  have "head_ok A ?db (h\<lparr>head_seq := ?m, head_hash := end_hash '''' ?ls\<rparr>)"
    unfolding head_ok_def Let_def using rows c sq hs(2,3) assms(4) by simp
  from head_ok_walk_clean [OF this] show ?thesis
    using assms(3) by (simp add: status_of_def walk_def au_sql_def no_faults_def)
qed

lemma traverseR_ex: "(\<And>x. x \<in> set xs \<Longrightarrow> \<exists>y. f x = Inr y) \<Longrightarrow> \<exists>ys. traverseR f xs = Inr ys"
proof (induction xs)
  case (Cons x xs)
  obtain y ys where "f x = Inr y" "traverseR f xs = Inr ys" using Cons by fastforce
  then show ?case by simp
qed simp

lemma traverseR_mem: "traverseR f xs = Inr ys \<Longrightarrow> x \<in> set xs \<Longrightarrow> \<exists>y \<in> set ys. f x = Inr y"
  by (induction xs arbitrary: ys) (auto simp: bindR_Inr_iff)

lemma head_of_mem: "distinct (map ch_workspace_id (audit_chain_heads db)) \<Longrightarrow> h \<in> set (audit_chain_heads db) \<Longrightarrow>
    head_of db (ch_workspace_id h) = Some h"
  unfolding head_of_def by (rule find_unique) (auto simp: distinct_map inj_on_def)

lemma advance_anchors_reach:
  assumes "no_faults (au_env A)" "a \<in> set as" "g \<in> set (audit_chain_heads db)" "ch_workspace_id g = an_WorkspaceID a"
  shows "\<exists>g' \<in> set (audit_chain_heads (snd (advance_anchors A as db))). ch_workspace_id g' = an_WorkspaceID a \<and> an_HeadSeq a \<le> anchored_seq g'"
  using assms(2-4)
proof (induction as arbitrary: db g)
  case (Cons b as)
  have nf: "\<not> db_fault (au_env A) l" for l using assms(1) by (simp add: no_faults_def)
  define up where "up h = (if ch_workspace_id h = an_WorkspaceID b \<and> anchored_seq h < an_HeadSeq b
     then h\<lparr>anchored_seq := an_HeadSeq b, anchored_at := Some (timestamptz (an_At b))\<rparr> else h)" for h :: chain_head
  have heads: "audit_chain_heads (advance_anchor b db) = map up (audit_chain_heads db)" by (simp add: advance_anchor_def up_def)
  have up: "ch_workspace_id (up h) = ch_workspace_id h" "anchored_seq h \<le> anchored_seq (up h)" for h by (simp_all add: up_def)
  show ?case
  proof (cases "a \<in> set as")
    case True
    then show ?thesis using Cons.IH [of "up g" "advance_anchor b db"] Cons.prems heads up nf by simp
  next
    case False
    then have ab: "a = b" using Cons.prems(1) by simp
    have keep: "\<exists>g' \<in> set (audit_chain_heads (snd (advance_anchors A as d))). ch_workspace_id g' = ch_workspace_id k \<and> anchored_seq k \<le> anchored_seq g'"
      if "k \<in> set (audit_chain_heads d)" for k d using that
    proof (induction as arbitrary: d k)
      case (Cons c cs)
      define up' where "up' h = (if ch_workspace_id h = an_WorkspaceID c \<and> anchored_seq h < an_HeadSeq c
         then h\<lparr>anchored_seq := an_HeadSeq c, anchored_at := Some (timestamptz (an_At c))\<rparr> else h)" for h :: chain_head
      have "up' k \<in> set (audit_chain_heads (advance_anchor c d))" using Cons.prems by (simp add: advance_anchor_def up'_def)
      from Cons.IH [OF this] show ?case using nf by (auto simp: up'_def split: if_splits)
    qed auto
    have "up g \<in> set (audit_chain_heads (advance_anchor b db))" using heads Cons.prems(2) by simp
    from keep [OF this] obtain g' where "g' \<in> set (audit_chain_heads (snd (advance_anchors A as (advance_anchor b db))))"
      "ch_workspace_id g' = ch_workspace_id g" "anchored_seq (up g) \<le> anchored_seq g'" using up by auto
    moreover have "an_HeadSeq a \<le> anchored_seq (up g)" using Cons.prems(3) ab by (simp add: up_def)
    ultimately show ?thesis using nf Cons.prems(3) by (intro bexI [of _ g']) simp_all
  qed
qed simp

text \<open>
  The general case, for a walk that may have stopped at \<open>verifyBatch\<close> rows: a chain that walks clean and has grown is anchored at its
  head, with the hash that the head row holds when it is read, even when the walk did not get as far as the head.
\<close>

lemma clean_walk_anchors:
  assumes "no_faults (au_env A)" "sk_present k" "sk_ships k" "earlier (av_heads v) db" "\<forall>ws. earlier (av_heads v) (av_hash v ws)"
    "h \<in> set (audit_chain_heads (av_heads v))" "anchored_seq h < head_seq h" "ws = ch_workspace_id h"
    "walk_rows A ws (anchored_seq h + 1) '''' True (walk_query (av_walk v ws) ws (anchored_seq h)) = []"
  shows "ar_err (Anchor_at A k v db) = None \<and>
    (\<exists>a \<in> set (ar_shipped (Anchor_at A k v db)). an_WorkspaceID a = ws \<and> an_HeadSeq a = head_seq h \<and>
       map_option (\<lambda>g. hex_string (head_hash g)) (head_of (av_hash v ws) ws) = Some (an_HeadHash a)) \<and>
    (\<exists>h' \<in> set (audit_chain_heads (ar_db (Anchor_at A k v db))). ch_workspace_id h' = ws \<and> head_seq h \<le> anchored_seq h')"
proof -
  have nf: "\<not> db_fault (au_env A) l" for l using assms(1) by (simp add: no_faults_def)
  let ?sts = "\<lambda>h. status_of A (av_walk v (ch_workspace_id h)) h" and ?hs = "sort_key ch_workspace_id (audit_chain_heads (av_heads v))"
  let ?anc = "\<lambda>st. anchor_of A (av_hash v (cs_WorkspaceID st)) st"
  have "\<exists>st. ?sts g = Inr st" for g by (simp add: status_of_def walk_def au_sql_def nf)
  then obtain sts where tr: "traverseR ?sts ?hs = Inr sts" using traverseR_ex [of ?hs ?sts] by auto
  then have sts: "verify_at A (av_heads v) (av_walk v) [] = Inr sts" by (simp add: verify_at_def au_sql_def nf)
  let ?st = "\<lparr>cs_WorkspaceID = ws, cs_OK = True, cs_HeadSeq = head_seq h, cs_AnchoredSeq = anchored_seq h, cs_Breaks = []\<rparr>"
  have "?sts h = Inr ?st" using assms(8,9) by (simp add: status_of_def walk_def au_sql_def nf)
  then have "?st \<in> set sts" using traverseR_mem [OF tr, of h] assms(6) by auto
  then have cand: "?st \<in> set (anchor_candidates sts)" using assms(7) by (simp add: anchor_candidates_def)
  have anc: "\<exists>a. ?anc st = Inr a" if st: "st \<in> set sts" for st
  proof -
    obtain g where "g \<in> set (audit_chain_heads (av_heads v))" "?sts g = Inr st" using Verify_statuses [OF sts st] by blast
    moreover from this have "cs_WorkspaceID st = ch_workspace_id g" by (auto dest: status_of_Inr)
    moreover have "earlier (av_heads v) (av_hash v (cs_WorkspaceID st))" using assms(5) by blast
    ultimately obtain x where "x \<in> set (audit_chain_heads (av_hash v (cs_WorkspaceID st)))" "ch_workspace_id x = cs_WorkspaceID st"
      unfolding earlier_def by metis
    then have "head_of (av_hash v (cs_WorkspaceID st)) (cs_WorkspaceID st) \<noteq> None" by (metis head_of_None image_eqI)
    then show ?thesis by (auto simp: anchor_of_def headHash_def au_sql_def nf)
  qed
  then obtain as where as: "traverseR ?anc (anchor_candidates sts) = Inr as"
    using traverseR_ex [of "anchor_candidates sts" ?anc] by (auto simp: anchor_candidates_def)
  obtain a where a: "a \<in> set as" "?anc ?st = Inr a" using traverseR_mem [OF as cand] by blast
  have aw: "an_WorkspaceID a = ws" "an_HeadSeq a = head_seq h"
    "map_option (\<lambda>g. hex_string (head_hash g)) (head_of (av_hash v ws) ws) = Some (an_HeadHash a)"
    using a(2) by (auto simp: anchor_of_def headHash_def au_sql_def nf split: option.splits)
  have err: "fst (advance_anchors A bs d) = None" for bs d by (induction bs arbitrary: d) (simp_all add: nf)
  have run: "Anchor_at A k v db = \<lparr>ar_statuses = sts, ar_err = None, ar_db = snd (advance_anchors A as db), ar_shipped = as\<rparr>"
    using sts as a(1) assms(2,3) err [of as db] by (auto simp: Anchor_at_def Let_def split: prod.splits)
  obtain g where g: "g \<in> set (audit_chain_heads db)" "ch_workspace_id g = ws" using assms(4,6,8) by (auto simp: earlier_def)
  show ?thesis using advance_anchors_reach [OF assms(1) a(1) g(1)] g(2) aw a(1) by (auto simp: run)
qed

lemma clean_walk_covers:
  assumes "walk_rows A ws (aft + 1) '''' True (walk_query db ws aft) = []" "length (filter (\<lambda>r. in_chain ws r \<and> aft < row_seq r) (audit_logs db)) \<le> verifyBatch"
    "r \<in> set (audit_logs db)" "in_chain ws r" "aft < s" "s \<le> row_seq r"
  shows "\<exists>x \<in> set (audit_logs db). in_chain ws x \<and> row_seq x = s \<and> al_hash x = chainHash A (al_prev_hash x) (read_entry ws x)"
proof -
  have f: "(al_workspace r = Some ws \<and> (case al_chain_seq r of None \<Rightarrow> False | Some s \<Rightarrow> s > aft)) \<longleftrightarrow> (in_chain ws r \<and> aft < row_seq r)" for r
    by (auto simp: in_chain_def row_seq_def split: option.splits)
  have q: "set (walk_query db ws aft) = {r \<in> set (audit_logs db). in_chain ws r \<and> aft < row_seq r}"
    unfolding walk_query_def f using assms(2) by simp
  have "break_at ws s ''missing'' \<notin> set (walk_rows A ws (aft + 1) '''' True (walk_query db ws aft))"
    "break_at ws s ''hash_mismatch'' \<notin> set (walk_rows A ws (aft + 1) '''' True (walk_query db ws aft))" using assms(1) by simp_all
  moreover have "\<forall>r \<in> set (walk_query db ws aft). aft + 1 - 1 \<le> row_seq r" using walk_query_sorted(2) by fastforce
  ultimately have "s \<in> row_seq ` set (walk_query db ws aft) \<or> \<not> (\<exists>r \<in> set (walk_query db ws aft). s < row_seq r)"
    "\<forall>x \<in> set (walk_query db ws aft). row_seq x = s \<longrightarrow> al_hash x = chainHash A (al_prev_hash x) (read_entry ws x)"
    using walk_rows_missing [OF walk_query_sorted(1)] assms(5) by (auto simp: walk_rows_hash)
  moreover have "r \<in> set (walk_query db ws aft)" using assms(3-6) q by auto
  ultimately obtain x where "x \<in> set (walk_query db ws aft)" "row_seq x = s"
    "al_hash x = chainHash A (al_prev_hash x) (read_entry ws x)" using assms(6) by (cases "s = row_seq r") auto
  then show ?thesis using q by auto
qed

text \<open>
  C21. A chain that is intact and has grown by no more rows than one walk reads is anchored: let the rows of a chain after its anchor
  number at most \<open>verifyBatch\<close>, its head row be among them, the walk of it be clean, and nothing be appended to this chain between the
  listing of the heads and the reading of its head hash. Then, with a sink that ships and no failing statement, \<open>Anchor\<close> ships the chain's
  head sequence number with the hash of that head and raises \<open>anchored_seq\<close> to it, and every sequence number that the anchor passes
  has a row whose stored hash is the hash of its contents. Writers may commit to other chains all the while.
\<close>

theorem clean_chain_is_anchored:
  assumes "no_faults (au_env A)" "sk_present k" "sk_ships k" "earlier (av_heads v) db" "\<forall>ws. earlier (av_heads v) (av_hash v ws)"
    "h \<in> set (audit_chain_heads (av_heads v))" "anchored_seq h < head_seq h" "ws = ch_workspace_id h"
    "walk A (av_walk v ws) ws (anchored_seq h) = Inr []"
    "length (filter (\<lambda>r. in_chain ws r \<and> anchored_seq h < row_seq r) (audit_logs (av_walk v ws))) \<le> verifyBatch"
    "r \<in> set (audit_logs (av_walk v ws))" "in_chain ws r" "row_seq r = head_seq h" "head_of (av_hash v ws) ws = Some g" "head_seq g = head_seq h"
  shows "ar_err (Anchor_at A k v db) = None \<and>
    (\<exists>a \<in> set (ar_shipped (Anchor_at A k v db)). an_WorkspaceID a = ws \<and> an_HeadSeq a = head_seq g \<and> an_HeadHash a = hex_string (head_hash g)) \<and>
    (\<exists>h' \<in> set (audit_chain_heads (ar_db (Anchor_at A k v db))). ch_workspace_id h' = ws \<and> head_seq h \<le> anchored_seq h') \<and>
    (\<forall>s. anchored_seq h < s \<and> s \<le> head_seq h \<longrightarrow> (\<exists>x \<in> set (audit_logs (av_walk v ws)).
       in_chain ws x \<and> row_seq x = s \<and> al_hash x = chainHash A (al_prev_hash x) (read_entry ws x)))"
proof -
  have w: "walk_rows A ws (anchored_seq h + 1) '''' True (walk_query (av_walk v ws) ws (anchored_seq h)) = []"
    using assms(9) by (auto simp: walk_def bindR_Inr_iff)
  have "\<exists>x \<in> set (audit_logs (av_walk v ws)). in_chain ws x \<and> row_seq x = s \<and> al_hash x = chainHash A (al_prev_hash x) (read_entry ws x)"
    if "anchored_seq h < s" "s \<le> head_seq h" for s
    by (rule clean_walk_covers [OF w assms(10-12) that(1)]) (use that(2) assms(13) in simp)
  then show ?thesis using clean_walk_anchors [OF assms(1-8) w] assms(14,15) by auto
qed

text \<open>
  The listing of the heads and the reading of a head hash are two statements. When a batch commits between them, the shipped anchor pairs
  the old head sequence number with the hash of a newer row, so it does not authenticate the row it names.
\<close>

lemma shipped_hash_of_later_row:
  assumes "no_faults (au_env A)" "sk_present k" "sk_ships k" "earlier (av_heads v) db" "\<forall>ws. earlier (av_heads v) (av_hash v ws)"
    "h \<in> set (audit_chain_heads (av_heads v))" "anchored_seq h < head_seq h" "walk A (av_walk v (ch_workspace_id h)) (ch_workspace_id h) (anchored_seq h) = Inr []"
    "head_of (av_hash v (ch_workspace_id h)) (ch_workspace_id h) = Some g"
  shows "\<exists>a \<in> set (ar_shipped (Anchor_at A k v db)).
    an_WorkspaceID a = ch_workspace_id h \<and> an_HeadSeq a = head_seq h \<and> an_HeadHash a = hex_string (head_hash g)"
  using clean_walk_anchors [OF assms(1-7) refl] assms(8,9) by (auto simp: walk_def bindR_Inr_iff)

section \<open>Coalescing\<close>

definition coalesced_row :: "audit_env \<Rightarrow> string \<times> Entry \<Rightarrow> log_row option" where
  \<comment> \<open>the row a coalesced entry asks for\<close>
  "coalesced_row A x =
     (let (i, e) = x; st = prepare A i e 0;
          (key, bucket) = dedupeKey A (e_ActorID e) (e_Action e) (e_ResourceType e) (e_ResourceID e) (se_CreatedAt st)
      in map_option (\<lambda>r. r\<lparr>al_dedupe_key := Some key, al_last_at := Some (timestamptz (se_CreatedAt st))\<rparr>) (log_values A st bucket))"

lemma writeLoose_coalesced:
  assumes "e_Coalesce (snd x)" "coalesced_row A x = Some r" "coalesce_insert r db = Some db'" "no_faults (au_env A)"
  shows "writeLoose A x db = (None, db')"
  using assms by (cases x) (auto simp: writeLoose_def coalesced_row_def Let_def no_faults_def split: prod.splits)

definition same_event :: "log_row \<Rightarrow> log_row \<Rightarrow> bool" where
  "same_event r r' \<longleftrightarrow> al_dedupe_key r' = al_dedupe_key r \<and> al_created_at r' = al_created_at r"

lemma coalesce_insert_present:
  assumes "\<forall>r' \<in> set logs. \<not> same_event r' r1" "same_event r1 r" "audit_logs db = logs @ [r1]"
  shows "coalesce_insert r db = Some (db\<lparr>audit_logs := logs @ [r1\<lparr>al_event_count := al_event_count r1 + 1, al_last_at := al_last_at r\<rparr>]\<rparr>)"
proof -
  have "map (\<lambda>r'. if al_dedupe_key r' = al_dedupe_key r \<and> al_created_at r' = al_created_at r
      then r'\<lparr>al_event_count := al_event_count r' + 1, al_last_at := al_last_at r\<rparr> else r') logs = logs"
  proof (rule map_idI)
    fix r' assume "r' \<in> set logs"
    then have "\<not> (al_dedupe_key r' = al_dedupe_key r \<and> al_created_at r' = al_created_at r)"
      using assms(1,2) unfolding same_event_def by metis
    then show "(if al_dedupe_key r' = al_dedupe_key r \<and> al_created_at r' = al_created_at r
      then r'\<lparr>al_event_count := al_event_count r' + 1, al_last_at := al_last_at r\<rparr> else r') = r'" by (rule if_not_P)
  qed
  then show ?thesis using assms(2,3) by (simp add: coalesce_insert_def same_event_def)
qed

lemma coalesced_repeats:
  assumes "no_faults (au_env A)" "\<forall>x \<in> set xs. e_Coalesce (snd x) \<and> (\<exists>r. coalesced_row A x = Some r \<and> same_event r1 r)"
    "\<forall>r' \<in> set logs. \<not> same_event r' r1" "audit_logs db = logs @ [r1]"
  shows "\<exists>l. run_writes (writeLoose A) xs (None, db) =
    (None, db\<lparr>audit_logs := logs @ [r1\<lparr>al_event_count := al_event_count r1 + int (length xs), al_last_at := l\<rparr>]\<rparr>)"
  using assms(2-4)
proof (induction xs arbitrary: r1 db)
  case Nil
  then show ?case by (intro exI [of _ "al_last_at r1"]) (simp add: run_writes_def)
next
  case (Cons x xs)
  obtain r where r: "coalesced_row A x = Some r" "same_event r1 r" using Cons.prems(1) by auto
  let ?r2 = "r1\<lparr>al_event_count := al_event_count r1 + 1, al_last_at := al_last_at r\<rparr>"
  let ?db2 = "db\<lparr>audit_logs := logs @ [?r2]\<rparr>"
  have w: "writeLoose A x db = (None, ?db2)"
    by (rule writeLoose_coalesced [OF _ r(1) coalesce_insert_present [OF Cons.prems(2) r(2) Cons.prems(3)] assms(1)])
      (use Cons.prems(1) in simp)
  have ev: "same_event ?r2 = same_event r1" "same_event r' ?r2 = same_event r' r1" for r' by (auto simp: same_event_def)
  obtain l where l: "run_writes (writeLoose A) xs (None, ?db2) = (None, ?db2\<lparr>audit_logs := logs @
      [?r2\<lparr>al_event_count := al_event_count ?r2 + int (length xs), al_last_at := l\<rparr>]\<rparr>)"
    using Cons.IH [of ?r2 ?db2] Cons.prems(1,2) ev by auto
  have "run_writes (writeLoose A) (x # xs) (None, db) = run_writes (writeLoose A) xs (None, ?db2)"
    by (simp add: run_writes_def w first_err_def)
  then show ?case using l by (intro exI [of _ l]) (simp add: algebra_simps)
qed

text \<open>
  Repeats of one coalescable event within its hour become one row that counts them: writing \<open>n\<close> entries with the
  same actor, action, resource and hour into a log without such a row appends exactly one row, with \<open>event_count = n\<close>,
  and reports no failure.
\<close>

theorem repeats_become_one_row:
  assumes "no_faults (au_env A)" "\<forall>x \<in> set (x0 # xs). e_Coalesce (snd x) \<and> (\<exists>r. coalesced_row A x = Some r \<and> same_event r0 r)"
    "coalesced_row A x0 = Some r0" "\<forall>r' \<in> set (audit_logs db). \<not> same_event r' r0" "log_check db r0"
  shows "\<exists>r. run_writes (writeLoose A) (x0 # xs) (None, db) = (None, db\<lparr>audit_logs := audit_logs db @ [r]\<rparr>) \<and>
    al_event_count r = 1 + int (length xs) \<and> al_dedupe_key r = al_dedupe_key r0 \<and> al_created_at r = al_created_at r0"
proof -
  let ?db1 = "db\<lparr>audit_logs := audit_logs db @ [r0]\<rparr>"
  have "coalesce_insert r0 db = Some ?db1" using assms(4,5) by (auto simp: coalesce_insert_def same_event_def)
  then have w: "writeLoose A x0 db = (None, ?db1)" using writeLoose_coalesced [OF _ assms(3)] assms(1,2) by auto
  have one: "al_event_count r0 = 1" using assms(3) by (auto simp: coalesced_row_def Let_def log_values_def split: prod.splits option.splits)
  obtain l where "run_writes (writeLoose A) xs (None, ?db1) =
      (None, ?db1\<lparr>audit_logs := audit_logs db @ [r0\<lparr>al_event_count := al_event_count r0 + int (length xs), al_last_at := l\<rparr>]\<rparr>)"
    using coalesced_repeats [OF assms(1) _ assms(4), of xs ?db1] assms(2) by auto
  moreover have "run_writes (writeLoose A) (x0 # xs) (None, db) = run_writes (writeLoose A) xs (None, ?db1)"
    by (simp add: run_writes_def w first_err_def)
  ultimately show ?thesis
    by (intro exI [of _ "r0\<lparr>al_event_count := al_event_count r0 + int (length xs), al_last_at := l\<rparr>"]) (simp add: one)
qed

section \<open>A concrete log\<close>

definition sample_audit :: audit_env where
  "sample_audit = \<lparr>au_env = sample_env, json_recode = Some, json_marshal = (\<lambda>m. Some (concat (map snd m))), json_strings = concat,
     parse_ip = (\<lambda>s. if s = '''' then None else Some s), pg_jsonb = Some, pg_inet = Some, uuid_sha1 = (\<lambda>s. s), map_order = rev\<rparr>"

definition sample_log_row :: log_row where
  "sample_log_row =
     (let r = \<lparr>al_id = uid CHR ''1'', al_workspace = Some (uid CHR ''a''), al_actor = None, al_action = ''user.login'',
        al_rtype = ''user'', al_rid = None, al_metadata = ''{}'', al_ip = None, al_created_at = 0, al_chain_seq = Some 1,
        al_prev_hash = '''', al_hash = '''', al_dedupe_key = None, al_event_count = 1, al_last_at = None\<rparr>
      in r\<lparr>al_hash := chainHash sample_audit '''' (read_entry (uid CHR ''a'') r)\<rparr>)"

definition sample_head :: chain_head where
  "sample_head = \<lparr>ch_workspace_id = uid CHR ''a'', head_seq = 1, head_hash = al_hash sample_log_row, anchored_seq = 0, anchored_at = None\<rparr>"

definition sample_log :: audit_db where
  "sample_log = \<lparr>au_users = [], au_workspaces = [uid CHR ''a''], au_partitions = [(0, 100)],
     audit_logs = [sample_log_row], audit_chain_heads = [sample_head]\<rparr>"

definition sample_login :: "string \<times> Entry" where
  "sample_login = (uid CHR ''2'', \<lparr>e_WorkspaceID = uid CHR ''a'', e_ActorID = '''', e_Action = ''user.logout'',
     e_ResourceType = ''user'', e_ResourceID = '''', e_IPAddress = '''', e_Metadata = [], e_Coalesce = False, e_At = Some 7\<rparr>)"

lemma sample_log_facts:
  "al_workspace sample_log_row = Some (uid CHR ''a'')" "al_chain_seq sample_log_row = Some 1" "al_prev_hash sample_log_row = ''''"
  "row_seq sample_log_row = 1" "al_dedupe_key sample_log_row = None"
  "al_hash sample_log_row = chainHash sample_audit '''' (read_entry (uid CHR ''a'') sample_log_row)"
  by (simp_all add: sample_log_row_def Let_def row_seq_def read_entry_def)

lemma sample_log_chain: "chain_rows sample_log (uid CHR ''a'') = [sample_log_row]"
  by (simp add: sample_log_def chain_rows_def in_chain_def sample_log_facts)

lemma sample_log_inv: "audit_inv sample_audit sample_log"
proof -
  have "head_ok sample_audit sample_log sample_head"
    using sample_log_facts sample_log_chain
    by (simp add: head_ok_def sample_head_def row_link_def chainHash_def end_hash_def)
  then show ?thesis
    by (simp add: audit_inv_def chain_ok_def log_schema_def sample_log_facts) (simp add: sample_log_def sample_head_def sample_log_facts)
qed

lemma sample_log_walk: "walk_query sample_log (uid CHR ''a'') 0 = [sample_log_row]"
  by (simp add: walk_query_def sample_log_def sample_log_facts verifyBatch_def)

lemma sample_log_head: "sample_head \<in> set (audit_chain_heads sample_log)" "ch_workspace_id sample_head = uid CHR ''a''"
  "anchored_seq sample_head = 0" "head_seq sample_head = 1" "distinct (map ch_workspace_id (audit_chain_heads sample_log))"
  by (simp_all add: sample_log_def sample_head_def)

lemma sample_audit_env: "au_env sample_audit = sample_env" "sample_audit\<lparr>au_env := sample_env\<rparr> = sample_audit"
  by (simp_all add: sample_audit_def)

lemma sample_login_stable: "entry_stable sample_audit sample_login"
  by code_simp

theorem honest_log_verifies_witness:
  "\<exists>db' sts. guarded_run (audit_step sample_audit) (audit_guard sample_audit)
      [WriteBatch sample_env [sample_login], RunAnchor sample_env \<lparr>sk_present = True, sk_ships = True\<rparr> (still sample_log)] sample_log = Some db' \<and>
     audit_Verify sample_audit db' [] = Inr sts \<and> (\<forall>st \<in> set sts. cs_OK st)"
proof -
  let ?ops = "[WriteBatch sample_env [sample_login], RunAnchor sample_env \<lparr>sk_present = True, sk_ships = True\<rparr> (still sample_log)]"
  have "map_order_ok sample_audit" by (simp add: map_order_ok_def sample_audit_def)
  moreover have "earlier sample_log (snd (writeBatch sample_audit [sample_login] sample_log))"
    using writeBatch_grown [OF sample_log_head(5)] by (simp add: grown_def)
  ultimately obtain db' where "guarded_run (audit_step sample_audit) (audit_guard sample_audit) ?ops sample_log = Some db'"
    using sample_login_stable sample_env_ok(1) by (simp add: sample_audit_env still_def)
  from honest_log_verifies [OF sample_log_inv this sample_env_ok(2)] this show ?thesis by (auto simp: sample_audit_env)
qed

theorem tamper_evident_witness:
  "map (\<lambda>r. canonical_parts sample_audit (read_entry (uid CHR ''a'') r)) (walk_query sample_log (uid CHR ''a'') 0) =
   map (\<lambda>r. canonical_parts sample_audit (read_entry (uid CHR ''a'') r))
     (walk_query (sample_log\<lparr>audit_logs := audit_logs sample_log @ [sample_log_row\<lparr>al_chain_seq := None\<rparr>]\<rparr>) (uid CHR ''a'') 0)"
proof -
  let ?db' = "sample_log\<lparr>audit_logs := audit_logs sample_log @ [sample_log_row\<lparr>al_chain_seq := None\<rparr>]\<rparr>" and ?w = "uid CHR ''a''"
  have q': "walk_query ?db' ?w 0 = [sample_log_row]" by (simp add: walk_query_def sample_log_def sample_log_facts verifyBatch_def)
  have nf: "no_faults (au_env sample_audit)" using sample_env_ok(2) by (simp add: sample_audit_env)
  have c: "walk sample_audit sample_log ?w 0 = Inr []" "walk sample_audit ?db' ?w 0 = Inr []"
    using sample_log_facts
    by (simp_all add: walk_clean_iff [OF nf] sample_log_walk q' walked_links_def row_link_def chainHash_def)
  have "\<not> collision sha256 (link_inputs (walked_links sample_audit sample_log ?w 0)) (link_inputs (walked_links sample_audit ?db' ?w 0))"
    by (simp add: collision_def link_inputs_def walked_links_def sample_log_walk q' row_link_def)
  from tamper_evident [OF nf c _ _ _ _ this] show ?thesis by (simp add: sample_log_walk q')
qed

theorem walk_reports_exactly_witness:
  "\<exists>bs. walk sample_audit (sample_log\<lparr>audit_logs := [sample_log_row\<lparr>al_hash := ''''\<rparr>]\<rparr>) (uid CHR ''a'') 0 = Inr bs \<and>
     break_at (uid CHR ''a'') 1 ''hash_mismatch'' \<in> set bs"
proof -
  let ?r = "sample_log_row\<lparr>al_hash := ''''\<rparr>" and ?w = "uid CHR ''a''"
  let ?db = "sample_log\<lparr>audit_logs := [?r]\<rparr>"
  have q: "walk_query ?db ?w 0 = [?r]" "row_seq ?r = 1"
    by (simp_all add: walk_query_def sample_log_def sample_log_facts verifyBatch_def row_seq_def)
  obtain bs where bs: "walk sample_audit ?db ?w 0 = Inr bs"
    using sample_env_ok(2) by (simp add: walk_def au_sql_def sample_audit_env no_faults_def)
  from walk_reports_exactly [OF this, of 1] show ?thesis using bs by (simp add: q)
qed

lemma sample_log_clean: "walk sample_audit sample_log (uid CHR ''a'') 0 = Inr []"
proof -
  have "head_ok sample_audit sample_log sample_head" using sample_log_inv sample_log_head(1) by (simp add: audit_inv_def chain_ok_def)
  from head_ok_walk_clean [OF this] show ?thesis
    using sample_env_ok(2) by (simp add: walk_def au_sql_def no_faults_def sample_log_head sample_audit_env)
qed

theorem anchor_moves_only_clean_witness:
  "\<exists>h' \<in> set (audit_chain_heads (ar_db (Anchor_at sample_audit \<lparr>sk_present = True, sk_ships = True\<rparr> (still sample_log) sample_log))).
     ch_workspace_id h' = uid CHR ''a'' \<and> anchored_seq h' = 1 \<and> head_seq h' = 1"
proof -
  let ?k = "\<lparr>sk_present = True, sk_ships = True\<rparr>" and ?w = "uid CHR ''a''"
  have "\<forall>ws. earlier (av_heads (still sample_log)) (av_hash (still sample_log) ws)" by (simp add: still_def)
  then obtain h' where h': "h' \<in> set (audit_chain_heads (ar_db (Anchor_at sample_audit ?k (still sample_log) sample_log)))"
    "ch_workspace_id h' = ?w" "1 \<le> anchored_seq h'"
    using clean_walk_anchors [of sample_audit ?k "still sample_log" sample_log sample_head ?w] sample_log_clean sample_env_ok(2)
    by (auto simp: still_def sample_log_head sample_audit_env walk_def bindR_Inr_iff)
  moreover have "head_seq h' = 1 \<and> (anchored_seq h' = 0 \<or> anchored_seq h' = 1)"
    using anchor_moves_only_clean [OF sample_log_head(5,1) h'(1)] h'(2)
    by (auto simp: still_def sample_log_head) (auto simp: sample_log_def sample_head_def)
  ultimately show ?thesis by force
qed

theorem tail_deletion_unnoticed_witness:
  "cs_OK (projr (status_of sample_audit (sample_log\<lparr>audit_logs := []\<rparr>) sample_head)) \<and> audit_logs sample_log \<noteq> []"
proof -
  have "filter (\<lambda>r. \<not> (in_chain (ch_workspace_id sample_head) r \<and> 0 < row_seq r)) (audit_logs sample_log) = []"
    by (simp add: sample_log_def sample_log_head in_chain_def sample_log_facts)
  moreover have "no_faults (au_env sample_audit)" using sample_env_ok(2) by (simp add: sample_audit_env)
  ultimately show ?thesis
    using tail_deletion_unnoticed [OF sample_log_inv sample_log_head(1), of 0] by (simp add: sample_log_head sample_log_def)
qed

theorem clean_chain_is_anchored_witness:
  "\<exists>h' \<in> set (audit_chain_heads (ar_db (Anchor_at sample_audit \<lparr>sk_present = True, sk_ships = True\<rparr> (still sample_log) sample_log))).
     1 \<le> anchored_seq h'"
proof -
  let ?w = "uid CHR ''a''"
  have "head_of sample_log ?w = Some sample_head" using head_of_mem [OF sample_log_head(5,1)] by (simp add: sample_log_head)
  then show ?thesis
    using clean_chain_is_anchored [of sample_audit "\<lparr>sk_present = True, sk_ships = True\<rparr>" "still sample_log" sample_log sample_head ?w
        sample_log_row sample_head] sample_log_clean sample_env_ok(2) sample_log_facts
    by (auto simp: still_def sample_log_head sample_audit_env in_chain_def verifyBatch_def)
      (auto simp: sample_log_def)
qed

definition sample_download :: "int \<Rightarrow> string \<times> Entry" where
  "sample_download t = (uid CHR ''3'', \<lparr>e_WorkspaceID = uid CHR ''a'', e_ActorID = '''', e_Action = ''file.downloaded'',
     e_ResourceType = ''file'', e_ResourceID = ''f'', e_IPAddress = '''', e_Metadata = [], e_Coalesce = True, e_At = Some t\<rparr>)"

lemma sample_ids: "uuid_shape (uid CHR ''a'')" "uuid_shape (uid CHR ''3'')" "to_lower (uid CHR ''a'') = uid CHR ''a''"
  "uid CHR ''a'' \<noteq> ''''" "uid CHR ''1'' \<noteq> uid CHR ''3''"
  by code_simp+

lemma sample_download_row:
  assumes "0 \<le> t" "t < hour"
  shows "\<exists>l. coalesced_row sample_audit (sample_download t) =
    Some \<lparr>al_id = uid CHR ''3'', al_workspace = Some (uid CHR ''a''), al_actor = None, al_action = ''file.downloaded'',
      al_rtype = ''file'', al_rid = Some ''f'', al_metadata = ''{}'', al_ip = None, al_created_at = 0, al_chain_seq = None,
      al_prev_hash = '''', al_hash = '''', al_dedupe_key = Some (lengthPrefixed ['''', ''file.downloaded'', ''file'', ''f'', RFC3339 0]),
      al_event_count = 1, al_last_at = l\<rparr>"
proof -
  have "Truncate (Truncate t microsecond) hour = 0"
  proof -
    have "0 \<le> t - t mod 1000" "t - t mod 1000 < 3600000000000"
      using assms pos_mod_sign [of 1000 t] zmod_le_nonneg_dividend [of t 1000] by (auto simp: hour_def)
    then show ?thesis by (simp add: Truncate_def microsecond_def hour_def)
  qed
  then show ?thesis
    using sample_ids
    by (simp add: timestamptz_def coalesced_row_def sample_download_def prepare_def dedupeKey_def log_values_def sample_audit_def sample_env_def
        opt_column_def nilIfEmpty_def nilIfNotIP_def normalizeIP_def encodeMetadata_def to_lower_def trim_space_def Let_def)
qed

theorem repeats_become_one_row_witness:
  "\<exists>r. run_writes (writeLoose sample_audit) [sample_download 1000, sample_download 5000, sample_download 9000] (None, sample_log) =
     (None, sample_log\<lparr>audit_logs := audit_logs sample_log @ [r]\<rparr>) \<and> al_event_count r = 3"
proof -
  obtain r0 where c: "coalesced_row sample_audit (sample_download 1000) = Some r0" and k: "al_dedupe_key r0 \<noteq> None"
    "al_workspace r0 = Some (uid CHR ''a'')" "al_actor r0 = None" "al_created_at r0 = 0" "al_id r0 = uid CHR ''3''"
    "al_dedupe_key r0 = Some (lengthPrefixed ['''', ''file.downloaded'', ''file'', ''f'', RFC3339 0])"
    using sample_download_row [of 1000] by (auto simp: hour_def)
  have same: "\<exists>r. coalesced_row sample_audit (sample_download t) = Some r \<and> same_event r0 r" if "0 \<le> t" "t < hour" for t
    using sample_download_row [OF that] k(4,6) by (auto simp: same_event_def)
  have "\<forall>r' \<in> set (audit_logs sample_log). \<not> same_event r' r0"
    using k(1) by (simp add: sample_log_def same_event_def sample_log_facts)
  moreover have "log_check sample_log r0"
    using k sample_ids by (auto simp: log_check_def fk_ok_def sample_log_def sample_log_row_def Let_def)
  moreover have "no_faults (au_env sample_audit)" by (simp add: sample_audit_env)
  moreover have "\<forall>x \<in> set [sample_download 1000, sample_download 5000, sample_download 9000].
      e_Coalesce (snd x) \<and> (\<exists>r. coalesced_row sample_audit x = Some r \<and> same_event r0 r)"
    using same by (simp add: sample_download_def hour_def)
  ultimately show ?thesis
    using repeats_become_one_row [of sample_audit "sample_download 1000" "[sample_download 5000, sample_download 9000]", OF _ _ c] by auto
qed

end
