(* ===== verification/Audit_Buffer.thy ===== *)
theory Audit_Buffer
  imports Audit_Invariant "HOL-Library.Multiset"
begin

text \<open>
  The bounded queue of the second audit tier: \<open>backend/internal/audit/buffer.go\<close>, and \<open>Buffer\<close> of \<open>service.go\<close>. The
  channel, its workers and their batches are one state; callers, workers, tickers and \<open>Close\<close> interleave in any order, which
  the step relation allows. Three history variables record what was offered, what the queue refused and what was handed to
  the writer; nothing reads them.
\<close>

section \<open>State\<close>

record BufferConfig =
  cfg_Size :: int
  cfg_Workers :: int
  cfg_FlushInterval :: int
  cfg_BatchSize :: int
  cfg_WriteTimeout :: int

definition DefaultBufferConfig :: BufferConfig where
  "DefaultBufferConfig = \<lparr>cfg_Size = 4096, cfg_Workers = 2, cfg_FlushInterval = 2000000000, cfg_BatchSize = 64,
     cfg_WriteTimeout = 10000000000\<rparr>"

definition positive_or :: "int \<Rightarrow> int \<Rightarrow> int" where
  "positive_or v d = (if v \<le> 0 then d else v)"

definition effective_config :: "BufferConfig \<Rightarrow> BufferConfig" where
  "effective_config c =
     \<lparr>cfg_Size = positive_or (cfg_Size c) (cfg_Size DefaultBufferConfig),
      cfg_Workers = positive_or (cfg_Workers c) (cfg_Workers DefaultBufferConfig),
      cfg_FlushInterval = positive_or (cfg_FlushInterval c) (cfg_FlushInterval DefaultBufferConfig),
      cfg_BatchSize = positive_or (cfg_BatchSize c) (cfg_BatchSize DefaultBufferConfig),
      cfg_WriteTimeout = positive_or (cfg_WriteTimeout c) (cfg_WriteTimeout DefaultBufferConfig)\<rparr>"

type_synonym item = "string \<times> Entry"

record worker =
  wk_batch :: "item list"
  wk_done :: bool

text \<open>
  The \<open>hs_\<close> fields are history: what was offered, what was refused, and what a worker has handed to the writer. An entry counts as handed
  over whether or not the write then succeeds; a failed write shows in the failure counter of the service.
\<close>

record buffer =
  bf_ch :: "item list"
  bf_closed :: bool
  bf_dropped :: int
  bf_cfg :: BufferConfig
  bf_workers :: "worker list"
  bf_service :: service
  hs_offered :: "item list"
  hs_refused :: "item list"
  hs_flushed :: "item list"

definition StartBuffer :: "BufferConfig \<Rightarrow> service \<Rightarrow> buffer" where
  "StartBuffer c s =
     (let cfg = effective_config c in
      \<lparr>bf_ch = [], bf_closed = False, bf_dropped = 0, bf_cfg = cfg,
       bf_workers = replicate (nat (cfg_Workers cfg)) \<lparr>wk_batch = [], wk_done = False\<rparr>, bf_service = s,
       hs_offered = [], hs_refused = [], hs_flushed = []\<rparr>)"

section \<open>Operations\<close>

definition enqueue :: "item \<Rightarrow> buffer \<Rightarrow> buffer" where
  "enqueue e b =
     (let b = b\<lparr>hs_offered := hs_offered b @ [e]\<rparr> in
      if int (length (bf_ch b)) < cfg_Size (bf_cfg b) then b\<lparr>bf_ch := bf_ch b @ [e]\<rparr>
      else b\<lparr>bf_dropped := bf_dropped b + 1, hs_refused := hs_refused b @ [e]\<rparr>)"

definition buffered_write :: "audit_env \<Rightarrow> item list \<Rightarrow> service \<Rightarrow> service" where
  "buffered_write A batch s =
     (case writeBatch A batch (sv_db s) of
        (None, db') \<Rightarrow> s\<lparr>sv_db := db'\<rparr>
      | (Some _, db') \<Rightarrow> s\<lparr>sv_db := db', sv_failures := sv_failures s + int (length batch)\<rparr>)"

definition flush :: "audit_env \<Rightarrow> nat \<Rightarrow> buffer \<Rightarrow> buffer" where
  "flush A i b =
     (let batch = wk_batch (bf_workers b ! i) in
      if length batch = 0 then b
      else b\<lparr>bf_service := buffered_write A batch (bf_service b),
             bf_workers := (bf_workers b)[i := (bf_workers b ! i)\<lparr>wk_batch := []\<rparr>],
             hs_flushed := hs_flushed b @ batch\<rparr>)"

definition take_item :: "nat \<Rightarrow> buffer \<Rightarrow> buffer" where
  "take_item i b =
     (case bf_ch b of
        [] \<Rightarrow> b
      | e # rest \<Rightarrow> b\<lparr>bf_ch := rest, bf_workers := (bf_workers b)[i := (bf_workers b ! i)\<lparr>wk_batch := wk_batch (bf_workers b ! i) @ [e]\<rparr>]\<rparr>)"

definition receive :: "audit_env \<Rightarrow> nat \<Rightarrow> buffer \<Rightarrow> buffer" where
  "receive A i b =
     (let b' = take_item i b
      in if int (length (wk_batch (bf_workers b' ! i))) \<ge> cfg_BatchSize (bf_cfg b') then flush A i b' else b')"

definition finish :: "audit_env \<Rightarrow> nat \<Rightarrow> buffer \<Rightarrow> buffer" where
  "finish A i b =
     (let b' = flush A i b
      in b'\<lparr>bf_workers := (bf_workers b')[i := (bf_workers b' ! i)\<lparr>wk_done := True\<rparr>]\<rparr>)"

definition close :: "buffer \<Rightarrow> buffer" where
  "close b = b\<lparr>bf_closed := True\<rparr>"

definition Dropped :: "buffer option \<Rightarrow> int" where
  "Dropped b = (case b of None \<Rightarrow> 0 | Some b \<Rightarrow> bf_dropped b)"

definition Buffer :: "audit_env \<Rightarrow> item \<Rightarrow> service + buffer \<Rightarrow> service + buffer" where
  \<comment> \<open>a service without a queue writes at once\<close>
  "Buffer A x s =
     (case s of
        Inl sv \<Rightarrow> Inl (Try A x sv)
      | Inr b \<Rightarrow>
          let e = snd x; e' = (case e_At e of None \<Rightarrow> e\<lparr>e_At := Some (now (au_env A))\<rparr> | Some _ \<Rightarrow> e)
          in Inr (enqueue (fst x, e') b))"

section \<open>Interleavings\<close>

definition working :: "buffer \<Rightarrow> nat \<Rightarrow> bool" where
  "working b i \<longleftrightarrow> i < length (bf_workers b) \<and> \<not> wk_done (bf_workers b ! i)"

inductive buf_step :: "buffer \<Rightarrow> buffer \<Rightarrow> bool" where
  offer: "\<not> bf_closed b \<Longrightarrow> buf_step b (enqueue e b)"
| receive: "working b i \<Longrightarrow> bf_ch b \<noteq> [] \<Longrightarrow> buf_step b (receive A i b)"
| tick: "working b i \<Longrightarrow> buf_step b (flush A i b)"
| finish: "working b i \<Longrightarrow> bf_closed b \<Longrightarrow> bf_ch b = [] \<Longrightarrow> buf_step b (finish A i b)"
| close: "buf_step b (close b)"

inductive_cases buf_stepE: "buf_step b b'"

definition worker_items :: "worker list \<Rightarrow> item multiset" where
  "worker_items ws = mset (concat (map wk_batch ws))"

definition buf_inv :: "buffer \<Rightarrow> bool" where
  "buf_inv b \<longleftrightarrow>
     1 \<le> cfg_Size (bf_cfg b) \<and> 1 \<le> cfg_BatchSize (bf_cfg b) \<and> bf_workers b \<noteq> [] \<and>
     int (length (bf_ch b)) \<le> cfg_Size (bf_cfg b) \<and>
     (\<forall>w \<in> set (bf_workers b). int (length (wk_batch w)) < cfg_BatchSize (bf_cfg b)) \<and>
     (\<forall>w \<in> set (bf_workers b). wk_done w \<longrightarrow> wk_batch w = [] \<and> bf_closed b \<and> bf_ch b = []) \<and>
     bf_dropped b = int (length (hs_refused b)) \<and>
     mset (hs_offered b) = mset (hs_refused b) + mset (bf_ch b) + worker_items (bf_workers b) + mset (hs_flushed b)"

lemma worker_items_update:
  assumes "i < length ws"
  shows "worker_items (ws[i := w]) + mset (wk_batch (ws ! i)) = worker_items ws + mset (wk_batch w)"
proof -
  have "worker_items ws = worker_items (take i ws @ ws ! i # drop (Suc i) ws)" using id_take_nth_drop [OF assms] by simp
  then show ?thesis by (simp add: worker_items_def upd_conv_take_nth_drop [OF assms])
qed

lemma buf_inv_start: "buf_inv (StartBuffer c s)"
  by (auto simp: buf_inv_def StartBuffer_def effective_config_def positive_or_def DefaultBufferConfig_def worker_items_def Let_def)

lemma enqueue_inv: "buf_inv b \<Longrightarrow> \<not> bf_closed b \<Longrightarrow> buf_inv (enqueue e b)"
  by (auto simp: buf_inv_def enqueue_def Let_def)

lemma close_inv: "buf_inv b \<Longrightarrow> buf_inv (close b)"
  by (auto simp: buf_inv_def close_def)

lemma worker_batch_empty: "wk_batch w = [] \<Longrightarrow> w\<lparr>wk_batch := []\<rparr> = w"
  by (cases w) simp

lemma flush_fields:
  "bf_ch (flush A i b) = bf_ch b" "bf_closed (flush A i b) = bf_closed b" "bf_cfg (flush A i b) = bf_cfg b"
  "length (bf_workers (flush A i b)) = length (bf_workers b)" "hs_offered (flush A i b) = hs_offered b"
  "hs_refused (flush A i b) = hs_refused b" "bf_dropped (flush A i b) = bf_dropped b"
  "i < length (bf_workers b) \<Longrightarrow> bf_workers (flush A i b) = (bf_workers b)[i := (bf_workers b ! i)\<lparr>wk_batch := []\<rparr>]"
  "hs_flushed (flush A i b) = hs_flushed b @ wk_batch (bf_workers b ! i)"
  by (auto simp: flush_def Let_def worker_batch_empty)

definition buf_pre :: "nat \<Rightarrow> buffer \<Rightarrow> bool" where
  \<comment> \<open>the invariant, except that one batch may have reached its size\<close>
  "buf_pre i b \<longleftrightarrow> buf_inv (b\<lparr>bf_workers := (bf_workers b)[i := (bf_workers b ! i)\<lparr>wk_batch := []\<rparr>],
     hs_flushed := hs_flushed b @ wk_batch (bf_workers b ! i)\<rparr>)"

lemma flush_inv_pre: "i < length (bf_workers b) \<Longrightarrow> buf_pre i b \<Longrightarrow> buf_inv (flush A i b)"
  by (simp add: buf_pre_def buf_inv_def flush_fields)

lemma buf_pre_inv:
  assumes "working b i" "buf_inv b"
  shows "buf_pre i b"
proof -
  have i: "i < length (bf_workers b)" using assms(1) by (simp add: working_def)
  note u = worker_items_update [OF i, of "(bf_workers b ! i)\<lparr>wk_batch := []\<rparr>"]
  have w: "w \<in> set (bf_workers b) \<or> w = (bf_workers b ! i)\<lparr>wk_batch := []\<rparr>"
    if "w \<in> set ((bf_workers b)[i := (bf_workers b ! i)\<lparr>wk_batch := []\<rparr>])" for w
    using that set_update_subset_insert by fastforce
  show ?thesis
    using assms u w unfolding buf_pre_def buf_inv_def
    by (auto simp: working_def algebra_simps dest!: w)
qed

lemma flush_inv: "working b i \<Longrightarrow> buf_inv b \<Longrightarrow> buf_inv (flush A i b)"
  by (rule flush_inv_pre [OF _ buf_pre_inv]) (simp_all add: working_def)

lemma take_item_inv:
  assumes "working b i" "buf_inv b" "bf_ch b = e # rest"
  shows "buf_pre i (take_item i b)"
    "int (length (wk_batch (bf_workers b ! i))) + 1 < cfg_BatchSize (bf_cfg b) \<Longrightarrow> buf_inv (take_item i b)"
proof -
  let ?w = "bf_workers b ! i"
  let ?w' = "?w\<lparr>wk_batch := wk_batch ?w @ [e]\<rparr>"
  have i: "i < length (bf_workers b)" using assms(1) by (simp add: working_def)
  have t: "take_item i b = b\<lparr>bf_ch := rest, bf_workers := (bf_workers b)[i := ?w']\<rparr>" using assms(3) by (simp add: take_item_def)
  have nd: "\<forall>w \<in> set (bf_workers b). \<not> wk_done w" using assms(2,3) by (auto simp: buf_inv_def)
  have mem: "w \<in> set (bf_workers b) \<or> w = v" if "w \<in> set ((bf_workers b)[i := v])" for w v
    using that set_update_subset_insert by fastforce
  note u = worker_items_update [OF i, of ?w'] worker_items_update [OF i, of "?w\<lparr>wk_batch := []\<rparr>"]
  have cons: "mset (hs_offered b) = mset (hs_refused b) + mset (bf_ch b) + worker_items (bf_workers b) + mset (hs_flushed b)"
    using assms(2) by (simp add: buf_inv_def)
  show "buf_pre i (take_item i b)"
    using assms(2,3) nd u(2) cons i unfolding buf_pre_def buf_inv_def t
    by (auto simp: algebra_simps nth_mem dest!: mem)
  show "buf_inv (take_item i b)" if "int (length (wk_batch ?w)) + 1 < cfg_BatchSize (bf_cfg b)"
    using assms(2,3) nd u(1) cons i that unfolding buf_inv_def t
    by (auto simp: algebra_simps nth_mem dest!: mem)
qed

lemma receive_inv:
  assumes "working b i" "buf_inv b" "bf_ch b \<noteq> []"
  shows "buf_inv (receive A i b)"
proof -
  obtain e rest where ch: "bf_ch b = e # rest" using assms(3) by (cases "bf_ch b") auto
  have i: "i < length (bf_workers b)" using assms(1) by (simp add: working_def)
  then have l: "i < length (bf_workers (take_item i b))" "cfg_BatchSize (bf_cfg (take_item i b)) = cfg_BatchSize (bf_cfg b)"
    "int (length (wk_batch (bf_workers (take_item i b) ! i))) = int (length (wk_batch (bf_workers b ! i))) + 1"
    by (simp_all add: take_item_def ch)
  show ?thesis
    using take_item_inv [OF assms(1,2) ch] flush_inv_pre [OF l(1), of A] l by (simp add: receive_def Let_def)
qed

lemma finish_inv:
  assumes "working b i" "buf_inv b" "bf_closed b" "bf_ch b = []"
  shows "buf_inv (finish A i b)"
proof -
  let ?b = "flush A i b"
  have i: "i < length (bf_workers ?b)" using assms(1) by (simp add: working_def flush_fields)
  have f: "buf_inv ?b" by (rule flush_inv [OF assms(1,2)])
  have e: "wk_batch (bf_workers ?b ! i) = []" using assms(1) by (simp add: flush_fields working_def)
  have u: "worker_items ((bf_workers ?b)[i := (bf_workers ?b ! i)\<lparr>wk_done := True\<rparr>]) = worker_items (bf_workers ?b)"
    using worker_items_update [OF i, of "(bf_workers ?b ! i)\<lparr>wk_done := True\<rparr>"] by (simp add: e)
  have mem: "w \<in> set (bf_workers ?b) \<or> w = v" if "w \<in> set ((bf_workers ?b)[i := v])" for w v
    using that set_update_subset_insert by fastforce
  show ?thesis
    using f e u assms(3,4) unfolding buf_inv_def finish_def Let_def by (auto simp: flush_fields(1,2) dest!: mem)
qed

lemma buf_step_inv: "buf_step b b' \<Longrightarrow> buf_inv b \<Longrightarrow> buf_inv b'"
  by (induction rule: buf_step.induct) (simp_all add: enqueue_inv receive_inv flush_inv finish_inv close_inv)

lemma reachable_inv: "buf_step\<^sup>*\<^sup>* b b' \<Longrightarrow> buf_inv b \<Longrightarrow> buf_inv b'"
  by (induction rule: rtranclp_induct) (auto intro: buf_step_inv)

section \<open>Properties of the queue\<close>

text \<open>
  C22. However callers, workers, tickers and \<open>Close\<close> interleave, no offered entry is lost silently or written twice: every
  entry offered so far is, counted with multiplicity, refused and counted by \<open>Dropped\<close>, waiting in the channel, in the
  batch of exactly one worker, or handed to the writer. The channel stays within its size and every batch below its size.
\<close>

theorem buffer_conserves_entries:
  assumes "buf_step\<^sup>*\<^sup>* (StartBuffer c s) b"
  shows "mset (hs_offered b) = mset (hs_refused b) + mset (bf_ch b) + worker_items (bf_workers b) + mset (hs_flushed b) \<and>
    Dropped (Some b) = int (length (hs_refused b)) \<and> int (length (bf_ch b)) \<le> cfg_Size (bf_cfg b) \<and>
    (\<forall>w \<in> set (bf_workers b). int (length (wk_batch w)) < cfg_BatchSize (bf_cfg b))"
  using reachable_inv [OF assms buf_inv_start] by (simp add: buf_inv_def Dropped_def)

lemma all_done_drained:
  assumes "buf_inv b" "\<forall>w \<in> set (bf_workers b). wk_done w"
  shows "bf_ch b = [] \<and> mset (hs_offered b) = mset (hs_refused b) + mset (hs_flushed b)"
proof -
  have "bf_workers b \<noteq> []" using assms(1) by (simp add: buf_inv_def)
  then obtain w where "w \<in> set (bf_workers b)" by (cases "bf_workers b") auto
  then have "bf_ch b = []" using assms by (auto simp: buf_inv_def)
  moreover have "worker_items (bf_workers b) = {#}" using assms by (auto simp: worker_items_def buf_inv_def)
  ultimately show ?thesis using assms(1) by (simp add: buf_inv_def)
qed

definition undone :: "worker list \<Rightarrow> nat" where
  "undone ws = length (filter (\<lambda>w. \<not> wk_done w) ws)"

lemma undone_update:
  "i < length ws \<Longrightarrow> undone (ws[i := w]) + (if wk_done (ws ! i) then 0 else 1) = undone ws + (if wk_done w then 0 else 1)"
proof -
  assume i: "i < length ws"
  have "undone ws = undone (take i ws @ ws ! i # drop (Suc i) ws)" using id_take_nth_drop [OF i] by simp
  then show ?thesis by (simp add: undone_def upd_conv_take_nth_drop [OF i])
qed

lemma flush_undone: "i < length (bf_workers b) \<Longrightarrow> undone (bf_workers (flush A i b)) = undone (bf_workers b)"
  using undone_update [of i "bf_workers b" "(bf_workers b ! i)\<lparr>wk_batch := []\<rparr>"] by (simp add: flush_fields)

lemma receive_progress:
  assumes "working b i" "bf_ch b = e # rest"
  shows "bf_ch (receive A i b) = rest" "undone (bf_workers (receive A i b)) = undone (bf_workers b)"
    "bf_closed (receive A i b) = bf_closed b" "hs_offered (receive A i b) = hs_offered b"
proof -
  have i: "i < length (bf_workers b)" using assms(1) by (simp add: working_def)
  let ?t = "take_item i b"
  have t: "bf_ch ?t = rest" "bf_closed ?t = bf_closed b" "hs_offered ?t = hs_offered b" "i < length (bf_workers ?t)"
    using i by (simp_all add: take_item_def assms(2))
  have u: "undone (bf_workers ?t) = undone (bf_workers b)"
    using undone_update [OF i, of "(bf_workers b ! i)\<lparr>wk_batch := wk_batch (bf_workers b ! i) @ [e]\<rparr>"]
    by (simp add: take_item_def assms(2))
  show "bf_ch (receive A i b) = rest" "undone (bf_workers (receive A i b)) = undone (bf_workers b)"
    "bf_closed (receive A i b) = bf_closed b" "hs_offered (receive A i b) = hs_offered b"
    using t u by (simp_all add: receive_def Let_def flush_fields(1,2,5) flush_undone)
qed

lemma finish_progress:
  assumes "working b i"
  shows "undone (bf_workers (finish A i b)) < undone (bf_workers b)" "bf_ch (finish A i b) = bf_ch b"
    "bf_closed (finish A i b) = bf_closed b" "hs_offered (finish A i b) = hs_offered b"
proof -
  have i: "i < length (bf_workers b)" "\<not> wk_done (bf_workers b ! i)" using assms by (simp_all add: working_def)
  let ?ws = "bf_workers (flush A i b)"
  have "i < length ?ws" "\<not> wk_done (?ws ! i)" using i by (simp_all add: flush_fields)
  then have "undone (?ws[i := (?ws ! i)\<lparr>wk_done := True\<rparr>]) + 1 = undone ?ws"
    using undone_update [of i ?ws "(?ws ! i)\<lparr>wk_done := True\<rparr>"] by simp
  then show "undone (bf_workers (finish A i b)) < undone (bf_workers b)"
    using flush_undone [OF i(1), of A] by (simp add: finish_def Let_def)
  show "bf_ch (finish A i b) = bf_ch b" "bf_closed (finish A i b) = bf_closed b" "hs_offered (finish A i b) = hs_offered b"
    by (simp_all add: finish_def Let_def flush_fields)
qed

lemma drain:
  "bf_closed b \<Longrightarrow> \<exists>b'. buf_step\<^sup>*\<^sup>* b b' \<and> (\<forall>w \<in> set (bf_workers b'). wk_done w) \<and> hs_offered b' = hs_offered b"
proof (induction "length (bf_ch b) + undone (bf_workers b)" arbitrary: b rule: less_induct)
  case less
  show ?case
  proof (cases "\<exists>i. working b i")
    case False
    then have "\<forall>w \<in> set (bf_workers b). wk_done w" by (auto simp: working_def in_set_conv_nth)
    then show ?thesis by blast
  next
    case True
    then obtain i where i: "working b i" ..
    define b1 where "b1 = (if bf_ch b = [] then finish undefined i b else receive undefined i b)"
    have s: "buf_step b b1" using i less.prems by (auto simp: b1_def intro: buf_step.intros)
    have "length (bf_ch b1) + undone (bf_workers b1) < length (bf_ch b) + undone (bf_workers b)"
      using finish_progress [OF i] receive_progress [OF i] by (cases "bf_ch b") (auto simp: b1_def)
    moreover have "bf_closed b1" "hs_offered b1 = hs_offered b"
      using finish_progress [OF i] receive_progress [OF i] less.prems by (cases "bf_ch b"; simp add: b1_def)+
    ultimately show ?thesis using less.hyps [of b1] s by (metis converse_rtranclp_into_rtranclp)
  qed
qed

text \<open>
  C23. \<open>Close\<close> does not hang and discards nothing: from every state after \<open>Close\<close> the workers can run until all of them have
  exited, and whenever all have exited, the channel is empty and every entry ever offered was either refused, which
  \<open>Dropped\<close> counts, or handed to the writer.
\<close>

theorem close_drains:
  assumes "buf_step\<^sup>*\<^sup>* (StartBuffer c s) b" "bf_closed b"
  shows "(\<exists>b'. buf_step\<^sup>*\<^sup>* b b' \<and> (\<forall>w \<in> set (bf_workers b'). wk_done w) \<and> hs_offered b' = hs_offered b) \<and>
    (\<forall>b'. buf_step\<^sup>*\<^sup>* b b' \<and> (\<forall>w \<in> set (bf_workers b'). wk_done w) \<longrightarrow>
       bf_ch b' = [] \<and> mset (hs_offered b') = mset (hs_refused b') + mset (hs_flushed b'))"
proof (intro conjI allI impI)
  show "\<exists>b'. buf_step\<^sup>*\<^sup>* b b' \<and> (\<forall>w \<in> set (bf_workers b'). wk_done w) \<and> hs_offered b' = hs_offered b"
    by (rule drain [OF assms(2)])
  fix b' assume b': "buf_step\<^sup>*\<^sup>* b b' \<and> (\<forall>w \<in> set (bf_workers b'). wk_done w)"
  then have "buf_inv b'" using reachable_inv reachable_inv [OF assms(1) buf_inv_start] by blast
  then show "bf_ch b' = []" "mset (hs_offered b') = mset (hs_refused b') + mset (hs_flushed b')"
    using all_done_drained b' by blast+
qed

definition sample_service :: service where
  "sample_service = \<lparr>sv_db = \<lparr>au_users = [], au_workspaces = [], au_partitions = [], audit_logs = [], audit_chain_heads = []\<rparr>,
     sv_failures = 0\<rparr>"

definition sample_item :: item where
  "sample_item = ('''', \<lparr>e_WorkspaceID = '''', e_ActorID = '''', e_Action = ''file.downloaded'', e_ResourceType = ''file'',
     e_ResourceID = '''', e_IPAddress = '''', e_Metadata = [], e_Coalesce = False, e_At = Some 0\<rparr>)"

definition tiny_buffer :: buffer where
  \<comment> \<open>a queue of one place and one worker, offered two entries\<close>
  "tiny_buffer = enqueue sample_item (enqueue sample_item (StartBuffer
     \<lparr>cfg_Size = 1, cfg_Workers = 1, cfg_FlushInterval = 1, cfg_BatchSize = 1, cfg_WriteTimeout = 1\<rparr> sample_service))"

lemma tiny_buffer_fields: "bf_closed tiny_buffer = False" "bf_dropped tiny_buffer = 1" "bf_ch tiny_buffer = [sample_item]"
  "hs_offered tiny_buffer = [sample_item, sample_item]"
  by (simp_all add: tiny_buffer_def enqueue_def StartBuffer_def effective_config_def positive_or_def Let_def)

lemma tiny_buffer_reachable:
  "buf_step\<^sup>*\<^sup>* (StartBuffer \<lparr>cfg_Size = 1, cfg_Workers = 1, cfg_FlushInterval = 1, cfg_BatchSize = 1, cfg_WriteTimeout = 1\<rparr>
     sample_service) tiny_buffer"
proof -
  let ?b = "StartBuffer \<lparr>cfg_Size = 1, cfg_Workers = 1, cfg_FlushInterval = 1, cfg_BatchSize = 1, cfg_WriteTimeout = 1\<rparr> sample_service"
  have "buf_step ?b (enqueue sample_item ?b)" by (rule buf_step.offer) (simp add: StartBuffer_def Let_def)
  moreover have "buf_step (enqueue sample_item ?b) tiny_buffer" unfolding tiny_buffer_def
    by (rule buf_step.offer) (simp add: enqueue_def StartBuffer_def Let_def)
  ultimately show ?thesis by (meson rtranclp.rtrancl_refl rtranclp.rtrancl_into_rtrancl)
qed

theorem buffer_conserves_entries_witness: "Dropped (Some tiny_buffer) = 1 \<and> length (hs_refused tiny_buffer) = 1"
  using buffer_conserves_entries [OF tiny_buffer_reachable] tiny_buffer_fields(2) by (simp add: Dropped_def)

theorem close_drains_witness:
  "\<exists>b'. buf_step\<^sup>*\<^sup>* (close tiny_buffer) b' \<and> bf_ch b' = [] \<and> mset (hs_refused b') + mset (hs_flushed b') = {#sample_item, sample_item#}"
proof -
  have "buf_step\<^sup>*\<^sup>* (StartBuffer \<lparr>cfg_Size = 1, cfg_Workers = 1, cfg_FlushInterval = 1, cfg_BatchSize = 1, cfg_WriteTimeout = 1\<rparr>
     sample_service) (close tiny_buffer)" using tiny_buffer_reachable buf_step.close by (rule rtranclp.rtrancl_into_rtrancl)
  from close_drains [OF this] show ?thesis by (force simp: close_def tiny_buffer_fields)
qed

end
