(* ===== verification/Go_Json.thy ===== *)
theory Go_Json
  imports Go_Text
begin

text \<open>
  The part of Go's \<open>encoding/json\<close> the socket code relies on, at the level of JSON values: a document is its value, a
  \<open>json.RawMessage\<close> is an optional value (\<open>None\<close> is the nil slice of an absent field), and \<open>json.Unmarshal\<close> into a struct visits the
  members in order, matches a member to a field by exact name and then case-insensitively, leaves the field alone on \<open>null\<close>, and
  fails on a value of another kind. Case folding is the ASCII one. A \<open>[]byte\<close> field accepts standard base64 and an array of
  numbers, as the decoder does.
\<close>

section \<open>Values\<close>

datatype json = JNull | JBool bool | JNum string | JStr string | JArr "json list" | JObj "(string \<times> json) list"

type_synonym RawMessage = "json option"

definition raw_json :: "RawMessage \<Rightarrow> json" where
  "raw_json r = (case r of None \<Rightarrow> JNull | Some j \<Rightarrow> j)"

definition JInt :: "int \<Rightarrow> json" where
  "JInt n = JNum (FormatInt n)"

definition str_object :: "(string \<times> string) list \<Rightarrow> json" where
  "str_object kvs = JObj (map (\<lambda>(k, v). (k, JStr v)) kvs)"

section \<open>Base64\<close>

definition b64_value :: "char \<Rightarrow> nat option" where
  "b64_value c =
     (let n = of_char c :: nat in
      if is_upper c then Some (n - 65)
      else if is_lower c then Some (n - 71)
      else if is_digit c then Some (n + 4)
      else if c = CHR ''+'' then Some 62
      else if c = CHR ''/'' then Some 63
      else None)"

definition b64_bytes :: "nat list \<Rightarrow> string" where
  "b64_bytes vs =
     (case vs of
        [a, b] \<Rightarrow> [char_of (a * 4 + b div 16)]
      | [a, b, c] \<Rightarrow> [char_of (a * 4 + b div 16), char_of (b mod 16 * 16 + c div 4)]
      | [a, b, c, d] \<Rightarrow> [char_of (a * 4 + b div 16), char_of (b mod 16 * 16 + c div 4), char_of (c mod 4 * 64 + d)]
      | _ \<Rightarrow> [])"

definition b64_chunk :: "string \<Rightarrow> string option" where
  "b64_chunk s = map_option b64_bytes (those (map b64_value s))"

fun b64_decode :: "string \<Rightarrow> string option" where
  "b64_decode [] = Some []"
| "b64_decode [a, b, c, d] =
     (if d = CHR ''='' then b64_chunk (if c = CHR ''='' then [a, b] else [a, b, c]) else b64_chunk [a, b, c, d])"
| "b64_decode (a # b # c # d # s) =
     (case b64_chunk [a, b, c, d] of None \<Rightarrow> None | Some x \<Rightarrow> map_option ((@) x) (b64_decode s))"
| "b64_decode _ = None"

definition base64_std :: "string \<Rightarrow> string option" where
  "base64_std s = b64_decode (filter (\<lambda>c. c \<noteq> CHR 0x0A \<and> c \<noteq> CHR 0x0D) s)"

section \<open>Decoding into a struct\<close>

type_synonym 'a field_decoder = "json \<Rightarrow> 'a \<Rightarrow> 'a option"

definition into_string :: "(string \<Rightarrow> 'a \<Rightarrow> 'a) \<Rightarrow> 'a field_decoder" where
  "into_string put v x = (case v of JStr s \<Rightarrow> Some (put s x) | JNull \<Rightarrow> Some x | _ \<Rightarrow> None)"

definition into_raw :: "(RawMessage \<Rightarrow> 'a \<Rightarrow> 'a) \<Rightarrow> 'a field_decoder" where
  "into_raw put v x = Some (put (Some v) x)"

definition json_byte :: "json \<Rightarrow> char option" where
  "json_byte v =
     (case v of
        JNull \<Rightarrow> Some (CHR 0x00)
      | JNum s \<Rightarrow> if s \<noteq> [] \<and> list_all is_digit s \<and> undec 0 s < 256 then Some (char_of (nat (undec 0 s))) else None
      | _ \<Rightarrow> None)"

definition into_bytes :: "(string \<Rightarrow> 'a \<Rightarrow> 'a) \<Rightarrow> 'a field_decoder" where
  "into_bytes put v x =
     (case v of
        JStr s \<Rightarrow> map_option (\<lambda>b. put b x) (base64_std s)
      | JArr vs \<Rightarrow> map_option (\<lambda>b. put b x) (those (map json_byte vs))
      | JNull \<Rightarrow> Some (put [] x)
      | _ \<Rightarrow> None)"

definition json_string :: "json \<Rightarrow> string option" where
  "json_string v = (case v of JStr s \<Rightarrow> Some s | JNull \<Rightarrow> Some '''' | _ \<Rightarrow> None)"

definition into_strings :: "(string list \<Rightarrow> 'a \<Rightarrow> 'a) \<Rightarrow> 'a field_decoder" where
  "into_strings put v x =
     (case v of
        JArr vs \<Rightarrow> map_option (\<lambda>ss. put ss x) (those (map json_string vs))
      | JNull \<Rightarrow> Some (put [] x)
      | _ \<Rightarrow> None)"

definition field_for :: "(string \<times> 'a field_decoder) list \<Rightarrow> string \<Rightarrow> 'a field_decoder option" where
  "field_for fs k =
     (case map_of fs k of
        Some d \<Rightarrow> Some d
      | None \<Rightarrow> map_option snd (find (\<lambda>f. to_lower (fst f) = to_lower k) fs))"

fun decode_members :: "(string \<times> 'a field_decoder) list \<Rightarrow> (string \<times> json) list \<Rightarrow> 'a \<Rightarrow> 'a option" where
  "decode_members fs [] x = Some x"
| "decode_members fs ((k, v) # kvs) x =
     (case field_for fs k of
        None \<Rightarrow> decode_members fs kvs x
      | Some d \<Rightarrow> (case d v x of None \<Rightarrow> None | Some x' \<Rightarrow> decode_members fs kvs x'))"

definition Unmarshal :: "(string \<times> 'a field_decoder) list \<Rightarrow> 'a \<Rightarrow> RawMessage \<Rightarrow> 'a option" where
  "Unmarshal fs zero raw =
     (case raw of
        None \<Rightarrow> None
      | Some JNull \<Rightarrow> Some zero
      | Some (JObj kvs) \<Rightarrow> decode_members fs kvs zero
      | Some _ \<Rightarrow> None)"

lemma base64_std_examples:
  "base64_std ''TWFu'' = Some ''Man''" "base64_std ''TWE='' = Some ''Ma''" "base64_std ''TQ=='' = Some ''M''"
  "base64_std ''TQ='' = None" "base64_std ''TQ=a'' = None"
  by code_simp+

end
