(* ===== verification/Ws_Client.thy ===== *)
theory Ws_Client
  imports Go_Json Complex_Main "HOL-Library.AList"
begin

text \<open>
  One WebSocket connection: \<open>backend/internal/ws/ratelimit.go\<close>, the frames of \<open>protocol.go\<close>, and the parts of \<open>client.go\<close> and
  \<open>room.go\<close> that touch a single \<open>Client\<close>. The send channel is a list of at most \<open>sendBuffer\<close> frames; \<open>cl_wire\<close> records what the
  write pump has put on the socket and nothing reads it. Go's \<open>float64\<close> tokens are exact rationals, the \<open>int64\<close> counters are
  integers (a connection does not live for \<open>2 ^ 63\<close> frames), and time is in nanoseconds. Sets and maps are duplicate-free lists
  whose order stands for one iteration order. \<open>Hub.kill\<close> starts \<open>close\<close> on a goroutine; the model runs it at once.
\<close>

section \<open>Rate limiting\<close>

record tokenBucket =
  tb_tokens :: rat
  tb_rate :: rat
  tb_burst :: rat
  tb_last :: int

definition newTokenBucket :: "rat \<Rightarrow> rat \<Rightarrow> int \<Rightarrow> tokenBucket" where
  "newTokenBucket rate burst now = \<lparr>tb_tokens = burst, tb_rate = rate, tb_burst = burst, tb_last = now\<rparr>"

definition time_Sub :: "int \<Rightarrow> int \<Rightarrow> int" where
  "time_Sub t u = max (- (2 ^ 63)) (min (2 ^ 63 - 1) (t - u))"

definition Seconds :: "int \<Rightarrow> rat" where
  "Seconds d = of_int d / 1000000000"

definition refill :: "int \<Rightarrow> tokenBucket \<Rightarrow> tokenBucket" where
  "refill now b =
     (let elapsed = time_Sub now (tb_last b) in
      if elapsed > 0
      then let t = tb_tokens b + Seconds elapsed * tb_rate b in
           b\<lparr>tb_tokens := (if t > tb_burst b then tb_burst b else t), tb_last := now\<rparr>
      else b)"

definition allow :: "int \<Rightarrow> tokenBucket \<Rightarrow> bool \<times> tokenBucket" where
  "allow now b =
     (let b = refill now b in
      if tb_tokens b < 1 then (False, b) else (True, b\<lparr>tb_tokens := tb_tokens b - 1\<rparr>))"

section \<open>Frames\<close>

record InboundMessage =
  im_Type :: string
  im_Data :: RawMessage

record OutboundMessage =
  om_Type :: string
  om_Seq :: int
  om_Data :: json

record frame =
  fr_msgType :: string
  fr_data :: RawMessage

text \<open>\<open>newFrame\<close> keeps a \<open>json.RawMessage\<close> as it is and marshals anything else; the values the code marshals here are JSON trees.\<close>

definition newFrame :: "string \<Rightarrow> RawMessage \<Rightarrow> frame" where
  "newFrame msgType data = \<lparr>fr_msgType = msgType, fr_data = data\<rparr>"

definition encode_frame :: "frame \<Rightarrow> int \<Rightarrow> OutboundMessage" where
  "encode_frame f seq = \<lparr>om_Type = fr_msgType f, om_Seq = seq, om_Data = raw_json (fr_data f)\<rparr>"

definition isCollabStreamType :: "string \<Rightarrow> bool" where
  "isCollabStreamType t \<longleftrightarrow> t = ''collab.update'' \<or> t = ''collab.awareness''"

definition parse_inbound :: "RawMessage \<Rightarrow> InboundMessage option" where
  "parse_inbound =
     Unmarshal [(''type'', into_string (\<lambda>s x. x\<lparr>im_Type := s\<rparr>)), (''data'', into_raw (\<lambda>r x. x\<lparr>im_Data := r\<rparr>))]
       \<lparr>im_Type = '''', im_Data = None\<rparr>"

definition SubscribeData :: "RawMessage \<Rightarrow> string option" where
  "SubscribeData = Unmarshal [(''channel_id'', into_string (\<lambda>s _. s))] ''''"

definition PresenceData :: "RawMessage \<Rightarrow> string option" where
  "PresenceData = Unmarshal [(''status'', into_string (\<lambda>s _. s))] ''''"

definition CollabDocumentData :: "RawMessage \<Rightarrow> string option" where
  "CollabDocumentData = Unmarshal [(''document_id'', into_string (\<lambda>s _. s))] ''''"

definition CollabUpdateData :: "RawMessage \<Rightarrow> (string \<times> string) option" where
  "CollabUpdateData =
     Unmarshal [(''document_id'', into_string (\<lambda>s x. (s, snd x))), (''update'', into_bytes (\<lambda>b x. (fst x, b)))] ('''', '''')"

definition CollabAwarenessData :: "RawMessage \<Rightarrow> (string \<times> string) option" where
  "CollabAwarenessData =
     Unmarshal [(''document_id'', into_string (\<lambda>s x. (s, snd x))), (''state'', into_bytes (\<lambda>b x. (fst x, b)))] ('''', '''')"

section \<open>The connection\<close>

definition sendBuffer :: nat where "sendBuffer = 256"
definition maxConsecutiveDrops :: int where "maxConsecutiveDrops = 32"
definition maxRateStrikes :: int where "maxRateStrikes = 20"
definition maxCollabPayloadBytes :: nat where "maxCollabPayloadBytes = 32 * 1024"

record client =
  cl_userID :: string
  cl_connID :: string
  cl_send :: "OutboundMessage list"
  cl_seq :: int
  cl_drops :: int
  cl_strikes :: int
  cl_closing :: bool
  cl_cancelled :: bool
  cl_reading :: bool
  cl_workspaces :: "string list"
  cl_subscriptions :: "string list"
  cl_rooms :: "(string \<times> bool) list"
  cl_limiter :: tokenBucket
  cl_collabLimiter :: tokenBucket
  cl_wire :: "OutboundMessage list"

definition NewClient :: "string \<Rightarrow> string \<Rightarrow> string list \<Rightarrow> int \<Rightarrow> client" where
  "NewClient userID connID workspaceIDs now =
     \<lparr>cl_userID = userID, cl_connID = connID, cl_send = [], cl_seq = 0, cl_drops = 0, cl_strikes = 0, cl_closing = False,
      cl_cancelled = False, cl_reading = True, cl_workspaces = remdups workspaceIDs, cl_subscriptions = [], cl_rooms = [],
      cl_limiter = newTokenBucket 5 20 now, cl_collabLimiter = newTokenBucket 40 120 now, cl_wire = []\<rparr>"

definition close_client :: "client \<Rightarrow> client" where
  "close_client c = (if cl_closing c then c else c\<lparr>cl_closing := True, cl_cancelled := True\<rparr>)"

definition kill :: "client \<Rightarrow> client" where
  "kill c = close_client c"

definition trySend :: "OutboundMessage \<Rightarrow> client \<Rightarrow> client" where
  "trySend b c =
     (if length (cl_send c) < sendBuffer then c\<lparr>cl_send := cl_send c @ [b], cl_drops := 0\<rparr>
      else let n = cl_drops c + 1; c = c\<lparr>cl_drops := n\<rparr> in
           if n \<ge> maxConsecutiveDrops then kill c else c)"

definition sendFrame :: "frame \<Rightarrow> client \<Rightarrow> client" where
  "sendFrame f c =
     (let seq = cl_seq c + 1; c = c\<lparr>cl_seq := seq\<rparr> in trySend (encode_frame f seq) c)"

definition SendMessage :: "string \<Rightarrow> RawMessage \<Rightarrow> client \<Rightarrow> client" where
  "SendMessage msgType data c = sendFrame (newFrame msgType data) c"

definition sendError :: "string \<Rightarrow> string \<Rightarrow> client \<Rightarrow> client" where
  "sendError code message = SendMessage ''error'' (Some (str_object [(''code'', code), (''message'', message)]))"

text \<open>One iteration of the write pump that finds a frame in the channel and writes it.\<close>

definition write_next :: "client \<Rightarrow> client" where
  "write_next c =
     (case cl_send c of [] \<Rightarrow> c | m # ms \<Rightarrow> c\<lparr>cl_send := ms, cl_wire := cl_wire c @ [m]\<rparr>)"

text \<open>A panic in one of the pumps: the connection is closed, which ends its read pump too.\<close>

definition recoverPump :: "client \<Rightarrow> client" where
  "recoverPump c = (close_client c)\<lparr>cl_reading := False\<rparr>"

text \<open>The two inbound budgets of a connection; \<open>collab\<close> picks the one of the editing stream.\<close>

definition limiter_of :: "bool \<Rightarrow> client \<Rightarrow> tokenBucket" where
  "limiter_of collab c = (if collab then cl_collabLimiter c else cl_limiter c)"

definition put_limiter :: "bool \<Rightarrow> tokenBucket \<Rightarrow> client \<Rightarrow> client" where
  "put_limiter collab b c = (if collab then c\<lparr>cl_collabLimiter := b\<rparr> else c\<lparr>cl_limiter := b\<rparr>)"

definition chargeInbound :: "bool \<Rightarrow> int \<Rightarrow> client \<Rightarrow> (bool \<times> bool) \<times> client" where
  "chargeInbound collab now c =
     (case allow now (limiter_of collab c) of
        (True, b) \<Rightarrow> ((True, False), put_limiter collab b c)
      | (False, b) \<Rightarrow>
          (let c = sendError ''RATE_LIMITED'' ''too many frames'' (put_limiter collab b c);
               strikes = cl_strikes c + 1;
               c = c\<lparr>cl_strikes := strikes\<rparr> in
           if strikes \<ge> maxRateStrikes then ((False, True), kill c) else ((False, False), c)))"

section \<open>Subscriptions and rooms\<close>

definition Subscribe :: "string \<Rightarrow> client \<Rightarrow> client" where
  "Subscribe channelID c = c\<lparr>cl_subscriptions := List.insert channelID (cl_subscriptions c)\<rparr>"

definition Unsubscribe :: "string \<Rightarrow> client \<Rightarrow> client" where
  "Unsubscribe channelID c = c\<lparr>cl_subscriptions := removeAll channelID (cl_subscriptions c)\<rparr>"

definition IsSubscribed :: "string \<Rightarrow> client \<Rightarrow> bool" where
  "IsSubscribed channelID c \<longleftrightarrow> List.member (cl_subscriptions c) channelID"

definition InWorkspace :: "string \<Rightarrow> client \<Rightarrow> bool" where
  "InWorkspace workspaceID c \<longleftrightarrow> List.member (cl_workspaces c) workspaceID"

definition LeaveWorkspace :: "string \<Rightarrow> client \<Rightarrow> client" where
  "LeaveWorkspace workspaceID c = c\<lparr>cl_workspaces := removeAll workspaceID (cl_workspaces c)\<rparr>"

definition JoinRoom :: "string \<Rightarrow> bool \<Rightarrow> client \<Rightarrow> client" where
  "JoinRoom documentID canWrite c = c\<lparr>cl_rooms := AList.update documentID canWrite (cl_rooms c)\<rparr>"

definition InRoom :: "string \<Rightarrow> client \<Rightarrow> bool" where
  "InRoom documentID c \<longleftrightarrow> map_of (cl_rooms c) documentID \<noteq> None"

definition setRoomWrite :: "string \<Rightarrow> bool \<Rightarrow> client \<Rightarrow> client" where
  "setRoomWrite documentID canWrite c =
     (if InRoom documentID c then c\<lparr>cl_rooms := AList.update documentID canWrite (cl_rooms c)\<rparr> else c)"

definition LeaveRoom :: "string \<Rightarrow> client \<Rightarrow> client" where
  "LeaveRoom documentID c = c\<lparr>cl_rooms := AList.delete documentID (cl_rooms c)\<rparr>"

definition CanWriteRoom :: "string \<Rightarrow> client \<Rightarrow> bool" where
  "CanWriteRoom documentID c = (case map_of (cl_rooms c) documentID of None \<Rightarrow> False | Some w \<Rightarrow> w)"

definition Rooms :: "client \<Rightarrow> string list" where
  "Rooms c = map fst (cl_rooms c)"

end
