(* ===== verification/Ws_Hub.thy ===== *)
theory Ws_Hub
  imports Ws_Client
begin

text \<open>
  The registry of live connections and everything that crosses it: \<open>hub.go\<close>, \<open>bridge.go\<close>, \<open>relay.go\<close>, the rooms of \<open>room.go\<close> and
  the inbound dispatch of \<open>client.go\<close>, all in \<open>backend/internal/ws\<close>.

  A \<open>*Client\<close> is an index of \<open>hb_heap\<close>; the registry maps a user to connection ids to such references, as the two nested Go maps
  do. Messages a hub publishes on NATS and calls it makes into the collaboration layer and the presence store are appended to
  \<open>hb_published\<close> and \<open>hb_calls\<close>. What the services answer, and \<open>uuid.Validate\<close> of the uuid package, are fields of \<open>ws_env\<close>; every
  operation has its own, so answers may change between operations. Each operation is one atomic step.
\<close>

section \<open>Environment and state\<close>

datatype room_error = ErrRoomNotFound | ErrRoomForbidden | ErrRoomReadOnly | ErrRoomInvalidPayload | ErrRoomPayloadTooLarge
  | RoomFailure string

record RoomAccess =
  ra_HeadSeq :: int
  ra_CanWrite :: bool

record RoomHandler =
  rh_Join :: "string \<Rightarrow> string \<Rightarrow> room_error + RoomAccess"
  rh_Recheck :: "string \<Rightarrow> string \<Rightarrow> room_error + RoomAccess"
  rh_Update :: "string \<Rightarrow> string \<Rightarrow> string \<Rightarrow> string \<Rightarrow> room_error option"
  rh_Awareness :: "string \<Rightarrow> string \<Rightarrow> string \<Rightarrow> string \<Rightarrow> room_error option"

record ws_env =
  we_Validate :: "string \<Rightarrow> bool"
  we_isMember :: "(string \<Rightarrow> string \<Rightarrow> string + bool) option"
  we_roomHandler :: "RoomHandler option"
  we_SetStatus :: "(string \<Rightarrow> string \<Rightarrow> bool) option"
  we_Publish :: "string \<Rightarrow> bool"

text \<open>The membership check a client ends up with: \<open>NewClient\<close> puts one that always denies in place of a missing one.\<close>

definition member_checker :: "ws_env \<Rightarrow> string \<Rightarrow> string \<Rightarrow> string + bool" where
  "member_checker E = (case we_isMember E of None \<Rightarrow> (\<lambda>_ _. Inr False) | Some isMember \<Rightarrow> isMember)"

record BroadcastEnvelope =
  be_OriginID :: string
  be_ChannelID :: string
  be_ExcludeUserID :: string
  be_Type :: string
  be_Data :: RawMessage

record RevokeEnvelope =
  re_OriginID :: string
  re_UserID :: string
  re_ChannelID :: string
  re_WorkspaceID :: string
  re_ChannelIDs :: "string list"

record RoomEnvelope =
  rm_OriginID :: string
  rm_DocumentID :: string
  rm_Type :: string
  rm_Data :: RawMessage

record RoomRevokeEnvelope =
  rr_OriginID :: string
  rr_UserID :: string
  rr_DocumentID :: string

record domainEvent =
  de_Type :: string
  de_Data :: RawMessage

datatype nats_msg =
    Msg_Broadcast BroadcastEnvelope
  | Msg_Revoke RevokeEnvelope
  | Msg_Room RoomEnvelope
  | Msg_RoomLeader RoomEnvelope
  | Msg_RoomRevoke RoomRevokeEnvelope
  | Msg_Domain domainEvent

datatype ws_call =
    Call_Update string string string string
  | Call_Awareness string string string string
  | Call_SetTyping string string
  | Call_ClearTyping string string
  | Call_SetStatus string string
  | Call_Heartbeat string
  | Call_Connect string
  | Call_Disconnect string

type_synonym cref = nat

record hub =
  hb_id :: string
  hb_clients :: "(string \<times> (string \<times> cref) list) list"
  hb_total :: int
  hb_nats :: bool
  hb_running :: bool
  hb_done :: bool
  hb_heap :: "client list"
  hb_published :: "(string \<times> nats_msg) list"
  hb_calls :: "ws_call list"

definition NewHub :: "string \<Rightarrow> hub" where
  "NewHub i = \<lparr>hb_id = i, hb_clients = [], hb_total = 0, hb_nats = False, hb_running = True, hb_done = False, hb_heap = [],
     hb_published = [], hb_calls = []\<rparr>"

definition get_client :: "cref \<Rightarrow> hub \<Rightarrow> client" where
  "get_client r h = hb_heap h ! r"

definition upd_client :: "cref \<Rightarrow> (client \<Rightarrow> client) \<Rightarrow> hub \<Rightarrow> hub" where
  "upd_client r f h = h\<lparr>hb_heap := (hb_heap h)[r := f (hb_heap h ! r)]\<rparr>"

definition call :: "ws_call \<Rightarrow> hub \<Rightarrow> hub" where
  "call k h = h\<lparr>hb_calls := hb_calls h @ [k]\<rparr>"

definition nats_Publish :: "ws_env \<Rightarrow> string \<Rightarrow> nats_msg \<Rightarrow> hub \<Rightarrow> hub" where
  "nats_Publish E subject m h = (if we_Publish E subject then h\<lparr>hb_published := hb_published h @ [(subject, m)]\<rparr> else h)"

definition conns_of :: "string \<Rightarrow> hub \<Rightarrow> (string \<times> cref) list" where
  "conns_of userID h = (case map_of (hb_clients h) userID of None \<Rightarrow> [] | Some conns \<Rightarrow> conns)"

section \<open>Registry\<close>

definition run_register :: "cref \<Rightarrow> hub \<Rightarrow> hub" where
  "run_register r h =
     (let c = get_client r h;
          conns = AList.update (cl_connID c) r (conns_of (cl_userID c) h) in
      h\<lparr>hb_clients := AList.update (cl_userID c) conns (hb_clients h), hb_total := hb_total h + 1\<rparr>)"

definition run_unregister :: "cref \<Rightarrow> hub \<Rightarrow> hub" where
  "run_unregister r h =
     (let c = get_client r h;
          conns = conns_of (cl_userID c) h;
          h = (if map_of conns (cl_connID c) = Some r
               then let conns = AList.delete (cl_connID c) conns in
                    h\<lparr>hb_clients := (if length conns = 0 then AList.delete (cl_userID c) (hb_clients h)
                                      else AList.update (cl_userID c) conns (hb_clients h)),
                      hb_total := hb_total h - 1\<rparr>
               else h) in
      upd_client r (\<lambda>c. c\<lparr>cl_cancelled := True\<rparr>) h)"

definition run_exit :: "hub \<Rightarrow> hub" where
  "run_exit h = h\<lparr>hb_running := False\<rparr>"

definition all_conns :: "hub \<Rightarrow> cref list" where
  "all_conns h = concat (map (\<lambda>(u, conns). map snd conns) (hb_clients h))"

definition GetOnlineUserIDs :: "hub \<Rightarrow> string list" where
  "GetOnlineUserIDs h = map fst (hb_clients h)"

definition ConnectionCount :: "hub \<Rightarrow> int" where
  "ConnectionCount h = hb_total h"

definition IsOnline :: "string \<Rightarrow> hub \<Rightarrow> bool" where
  "IsOnline userID h \<longleftrightarrow> length (conns_of userID h) > 0"

definition Shutdown :: "hub \<Rightarrow> hub" where
  "Shutdown h =
     (if hb_done h then h
      else let clients = all_conns h in
           fold (\<lambda>r. upd_client r close_client) clients (h\<lparr>hb_clients := [], hb_total := 0, hb_done := True\<rparr>))"

section \<open>Fan-out\<close>

definition channelTargets :: "string \<Rightarrow> string \<Rightarrow> hub \<Rightarrow> cref list" where
  "channelTargets channelID excludeUserID h =
     concat (map (\<lambda>(u, conns). if u = excludeUserID then []
                               else filter (\<lambda>r. IsSubscribed channelID (get_client r h)) (map snd conns)) (hb_clients h))"

definition workspaceTargets :: "string \<Rightarrow> string \<Rightarrow> hub \<Rightarrow> cref list" where
  "workspaceTargets workspaceID excludeUserID h =
     concat (map (\<lambda>(u, conns). if u = excludeUserID then []
                               else filter (\<lambda>r. InWorkspace workspaceID (get_client r h)) (map snd conns)) (hb_clients h))"

definition userTargets :: "string \<Rightarrow> hub \<Rightarrow> cref list" where
  "userTargets userID h = map snd (conns_of userID h)"

definition roomTargets :: "string \<Rightarrow> hub \<Rightarrow> cref list" where
  "roomTargets documentID h = filter (\<lambda>r. InRoom documentID (get_client r h)) (all_conns h)"

definition send_all :: "cref list \<Rightarrow> frame \<Rightarrow> hub \<Rightarrow> hub" where
  "send_all rs f h = fold (\<lambda>r. upd_client r (sendFrame f)) rs h"

definition localBroadcast :: "string \<Rightarrow> frame \<Rightarrow> string \<Rightarrow> hub \<Rightarrow> hub" where
  "localBroadcast channelID f excludeUserID h = send_all (channelTargets channelID excludeUserID h) f h"

definition publishToNATS :: "ws_env \<Rightarrow> string \<Rightarrow> frame \<Rightarrow> string \<Rightarrow> hub \<Rightarrow> hub" where
  "publishToNATS E channelID f excludeUserID h =
     (if \<not> hb_nats h then h
      else nats_Publish E (''ws.broadcast.'' @ channelID)
             (Msg_Broadcast \<lparr>be_OriginID = hb_id h, be_ChannelID = channelID, be_ExcludeUserID = excludeUserID,
                be_Type = fr_msgType f, be_Data = fr_data f\<rparr>) h)"

definition BroadcastToChannel :: "ws_env \<Rightarrow> string \<Rightarrow> string \<Rightarrow> RawMessage \<Rightarrow> string \<Rightarrow> hub \<Rightarrow> hub" where
  "BroadcastToChannel E channelID msgType data excludeUserID h =
     (let f = newFrame msgType data in
      publishToNATS E channelID f excludeUserID (localBroadcast channelID f excludeUserID h))"

definition BroadcastLocal :: "string \<Rightarrow> string \<Rightarrow> RawMessage \<Rightarrow> string \<Rightarrow> hub \<Rightarrow> hub" where
  "BroadcastLocal channelID msgType data excludeUserID h = localBroadcast channelID (newFrame msgType data) excludeUserID h"

definition BroadcastToWorkspaceLocal :: "string \<Rightarrow> string \<Rightarrow> RawMessage \<Rightarrow> string \<Rightarrow> hub \<Rightarrow> hub" where
  "BroadcastToWorkspaceLocal workspaceID msgType data excludeUserID h =
     send_all (workspaceTargets workspaceID excludeUserID h) (newFrame msgType data) h"

definition BroadcastToUser :: "string \<Rightarrow> string \<Rightarrow> RawMessage \<Rightarrow> hub \<Rightarrow> hub" where
  "BroadcastToUser userID msgType data h = send_all (userTargets userID h) (newFrame msgType data) h"

definition roomBroadcast :: "string \<Rightarrow> frame \<Rightarrow> hub \<Rightarrow> hub" where
  "roomBroadcast documentID f h = send_all (roomTargets documentID h) f h"

definition publishRoomToNATS :: "ws_env \<Rightarrow> string \<Rightarrow> frame \<Rightarrow> hub \<Rightarrow> hub" where
  "publishRoomToNATS E documentID f h =
     (if \<not> hb_nats h then h
      else nats_Publish E (''ws.room.'' @ documentID)
             (Msg_Room \<lparr>rm_OriginID = hb_id h, rm_DocumentID = documentID, rm_Type = fr_msgType f, rm_Data = fr_data f\<rparr>) h)"

definition BroadcastToRoom :: "ws_env \<Rightarrow> string \<Rightarrow> string \<Rightarrow> RawMessage \<Rightarrow> hub \<Rightarrow> hub" where
  "BroadcastToRoom E documentID msgType data h =
     (let f = newFrame msgType data in publishRoomToNATS E documentID f (roomBroadcast documentID f h))"

definition BroadcastToRoomLocal :: "string \<Rightarrow> string \<Rightarrow> RawMessage \<Rightarrow> hub \<Rightarrow> hub" where
  "BroadcastToRoomLocal documentID msgType data h = roomBroadcast documentID (newFrame msgType data) h"

fun pick_leader :: "hub \<Rightarrow> cref \<Rightarrow> cref list \<Rightarrow> cref" where
  "pick_leader h leader [] = leader"
| "pick_leader h leader (r # rs) =
     pick_leader h (if cl_connID (get_client r h) < cl_connID (get_client leader h) then r else leader) rs"

definition SendToRoomLeader :: "string \<Rightarrow> string \<Rightarrow> RawMessage \<Rightarrow> hub \<Rightarrow> bool \<times> hub" where
  "SendToRoomLeader documentID msgType data h =
     (case roomTargets documentID h of
        [] \<Rightarrow> (False, h)
      | r # rs \<Rightarrow> (True, upd_client (pick_leader h r rs) (SendMessage msgType data) h))"

definition PublishRoomLeaderRequest :: "ws_env \<Rightarrow> string \<Rightarrow> string \<Rightarrow> string \<Rightarrow> RawMessage \<Rightarrow> hub \<Rightarrow> hub" where
  "PublishRoomLeaderRequest E originID documentID msgType data h =
     (if \<not> hb_nats h then h
      else nats_Publish E ''ws.roomleader''
             (Msg_RoomLeader \<lparr>rm_OriginID = originID, rm_DocumentID = documentID, rm_Type = msgType, rm_Data = data\<rparr>) h)"

definition AskRoomLeader :: "ws_env \<Rightarrow> string \<Rightarrow> string \<Rightarrow> RawMessage \<Rightarrow> hub \<Rightarrow> bool \<times> hub" where
  "AskRoomLeader E documentID msgType data h =
     (let (local, h) = SendToRoomLeader documentID msgType data h in
      (local, if hb_nats h then PublishRoomLeaderRequest E (hb_id h) documentID msgType data h else h))"

section \<open>Domain events\<close>

definition channel_types :: "string list" where
  "channel_types = [''message.new'', ''message.updated'', ''message.deleted'', ''reaction.added'', ''reaction.removed'',
     ''channel.updated'', ''member.joined'', ''member.left'', ''huddle.started'', ''huddle.ended'', ''huddle.roster'']"

record created_target =
  ct_WorkspaceID :: string
  ct_Type :: string
  ct_MemberIDs :: "string list"

definition decode_created :: "RawMessage \<Rightarrow> created_target option" where
  "decode_created =
     Unmarshal [(''workspace_id'', into_string (\<lambda>s x. x\<lparr>ct_WorkspaceID := s\<rparr>)),
                (''type'', into_string (\<lambda>s x. x\<lparr>ct_Type := s\<rparr>)),
                (''member_ids'', into_strings (\<lambda>ss x. x\<lparr>ct_MemberIDs := ss\<rparr>))]
       \<lparr>ct_WorkspaceID = '''', ct_Type = '''', ct_MemberIDs = []\<rparr>"

definition decode_id :: "string \<Rightarrow> RawMessage \<Rightarrow> string option" where
  "decode_id field = Unmarshal [(field, into_string (\<lambda>s _. s))] ''''"

definition dispatchEvent :: "string \<Rightarrow> RawMessage \<Rightarrow> hub \<Rightarrow> hub" where
  "dispatchEvent msgType data h =
     (if List.member channel_types msgType
      then (case decode_id ''channel_id'' data of
              None \<Rightarrow> h
            | Some channelID \<Rightarrow> if channelID = '''' then h else BroadcastLocal channelID msgType data '''' h)
      else if msgType = ''channel.created''
      then (case decode_created data of
              None \<Rightarrow> h
            | Some t \<Rightarrow>
                if ct_WorkspaceID t = '''' then h
                else if ct_Type t = ''public'' then BroadcastToWorkspaceLocal (ct_WorkspaceID t) msgType data '''' h
                else fold (\<lambda>userID. BroadcastToUser userID msgType data) (ct_MemberIDs t) h)
      else if msgType = ''presence.changed''
      then (case decode_id ''workspace_id'' data of
              None \<Rightarrow> h
            | Some w \<Rightarrow> if w = '''' then h else BroadcastToWorkspaceLocal w msgType data '''' h)
      else if msgType = ''notification.new'' \<or> msgType = ''unread.update''
      then (case decode_id ''user_id'' data of
              None \<Rightarrow> h
            | Some u \<Rightarrow> if u = '''' then h else BroadcastToUser u msgType data h)
      else h)"

definition publishDomain :: "ws_env \<Rightarrow> string \<Rightarrow> string \<Rightarrow> string \<Rightarrow> string \<Rightarrow> json \<Rightarrow> hub \<Rightarrow> hub" where
  "publishDomain E workspaceID resource action msgType payload h =
     (if \<not> hb_nats h then dispatchEvent msgType (Some payload) h
      else if \<not> we_Validate E workspaceID then h
      else nats_Publish E (''superops.'' @ workspaceID @ ''.'' @ resource @ ''.'' @ action)
             (Msg_Domain \<lparr>de_Type = msgType, de_Data = Some payload\<rparr>) h)"

definition PublishChannelCreated :: "ws_env \<Rightarrow> string \<Rightarrow> json \<Rightarrow> hub \<Rightarrow> hub" where
  "PublishChannelCreated E workspaceID payload = publishDomain E workspaceID ''channel'' ''created'' ''channel.created'' payload"

definition PublishChannelUpdated :: "ws_env \<Rightarrow> string \<Rightarrow> json \<Rightarrow> hub \<Rightarrow> hub" where
  "PublishChannelUpdated E workspaceID payload = publishDomain E workspaceID ''channel'' ''updated'' ''channel.updated'' payload"

definition PublishMemberJoined :: "ws_env \<Rightarrow> string \<Rightarrow> json \<Rightarrow> hub \<Rightarrow> hub" where
  "PublishMemberJoined E workspaceID payload = publishDomain E workspaceID ''member'' ''joined'' ''member.joined'' payload"

definition PublishMemberLeft :: "ws_env \<Rightarrow> string \<Rightarrow> json \<Rightarrow> hub \<Rightarrow> hub" where
  "PublishMemberLeft E workspaceID payload = publishDomain E workspaceID ''member'' ''left'' ''member.left'' payload"

definition PublishUnreadUpdate :: "ws_env \<Rightarrow> string \<Rightarrow> json \<Rightarrow> hub \<Rightarrow> hub" where
  "PublishUnreadUpdate E workspaceID payload = publishDomain E workspaceID ''unread'' ''update'' ''unread.update'' payload"

definition PublishPresenceChanged :: "ws_env \<Rightarrow> string \<Rightarrow> string \<Rightarrow> string list \<Rightarrow> hub \<Rightarrow> hub" where
  "PublishPresenceChanged E userID status workspaceIDs =
     fold (\<lambda>wsID. publishDomain E wsID ''presence'' ''changed'' ''presence.changed''
             (str_object [(''user_id'', userID), (''status'', status), (''workspace_id'', wsID)])) workspaceIDs"

definition PublishHuddle :: "ws_env \<Rightarrow> string \<Rightarrow> string \<Rightarrow> string \<Rightarrow> json \<Rightarrow> hub \<Rightarrow> hub" where
  "PublishHuddle E workspaceID channelID eventType data h =
     (if workspaceID = '''' \<or> channelID = '''' then h else publishDomain E workspaceID ''huddle'' eventType eventType data h)"

section \<open>Revocation\<close>

definition revoke_subscription :: "string \<Rightarrow> client \<Rightarrow> client" where
  "revoke_subscription channelID c =
     (if \<not> IsSubscribed channelID c then c
      else SendMessage ''unsubscribed'' (Some (str_object [(''channel_id'', channelID), (''reason'', ''revoked'')]))
             (Unsubscribe channelID c))"

definition revoke_targets :: "string \<Rightarrow> hub \<Rightarrow> cref list" where
  "revoke_targets userID h = (if userID = '''' then all_conns h else userTargets userID h)"

definition revokeLocal :: "string \<Rightarrow> string \<Rightarrow> hub \<Rightarrow> hub" where
  "revokeLocal userID channelID h =
     (if channelID = '''' then h
      else fold (\<lambda>r. upd_client r (revoke_subscription channelID)) (revoke_targets userID h) h)"

definition publishRevoke :: "ws_env \<Rightarrow> string \<Rightarrow> string \<Rightarrow> hub \<Rightarrow> hub" where
  "publishRevoke E userID channelID h =
     (if \<not> hb_nats h then h
      else nats_Publish E ''ws.revoke''
             (Msg_Revoke \<lparr>re_OriginID = hb_id h, re_UserID = userID, re_ChannelID = channelID, re_WorkspaceID = '''',
                re_ChannelIDs = []\<rparr>) h)"

definition RevokeChannelSubscription :: "ws_env \<Rightarrow> string \<Rightarrow> string \<Rightarrow> hub \<Rightarrow> hub" where
  "RevokeChannelSubscription E userID channelID h = publishRevoke E userID channelID (revokeLocal userID channelID h)"

definition RevokeChannelForAll :: "ws_env \<Rightarrow> string \<Rightarrow> hub \<Rightarrow> hub" where
  "RevokeChannelForAll E channelID h = publishRevoke E '''' channelID (revokeLocal '''' channelID h)"

definition leave_revoked :: "string \<Rightarrow> client \<Rightarrow> client" where
  "leave_revoked documentID c =
     SendMessage ''collab.left'' (Some (str_object [(''document_id'', documentID), (''reason'', ''revoked'')]))
       (LeaveRoom documentID c)"

definition recheck_room :: "RoomHandler \<Rightarrow> string \<Rightarrow> client \<Rightarrow> client" where
  "recheck_room H documentID c =
     (case rh_Recheck H documentID (cl_userID c) of
        Inl e \<Rightarrow> if e = ErrRoomForbidden \<or> e = ErrRoomNotFound then leave_revoked documentID c else c
      | Inr access \<Rightarrow> setRoomWrite documentID (ra_CanWrite access) c)"

definition recheckRooms :: "ws_env \<Rightarrow> client \<Rightarrow> client" where
  "recheckRooms E c =
     (case we_roomHandler E of None \<Rightarrow> c | Some H \<Rightarrow> fold (recheck_room H) (Rooms c) c)"

definition recheck_subscription :: "(string \<Rightarrow> string \<Rightarrow> string + bool) \<Rightarrow> string \<Rightarrow> client \<Rightarrow> client" where
  "recheck_subscription isMember channelID c =
     (case isMember channelID (cl_userID c) of
        Inl _ \<Rightarrow> c
      | Inr ok \<Rightarrow>
          if \<not> ok
          then SendMessage ''unsubscribed'' (Some (str_object [(''channel_id'', channelID), (''reason'', ''revoked'')]))
                 (Unsubscribe channelID c)
          else c)"

definition recheckSubscriptions :: "ws_env \<Rightarrow> client \<Rightarrow> client" where
  "recheckSubscriptions E c =
     fold (recheck_subscription (member_checker E)) (cl_subscriptions c) c"

definition revoke_workspace :: "ws_env \<Rightarrow> string \<Rightarrow> string list \<Rightarrow> client \<Rightarrow> client" where
  "revoke_workspace E workspaceID channelIDs c =
     recheckRooms E
       (fold (\<lambda>channelID c. if channelID = '''' then c else revoke_subscription channelID c) channelIDs
          (LeaveWorkspace workspaceID c))"

definition revokeWorkspaceLocal :: "ws_env \<Rightarrow> string \<Rightarrow> string \<Rightarrow> string list \<Rightarrow> hub \<Rightarrow> hub" where
  "revokeWorkspaceLocal E userID workspaceID channelIDs h =
     (if userID = '''' \<or> workspaceID = '''' then h
      else fold (\<lambda>r. upd_client r (revoke_workspace E workspaceID channelIDs)) (userTargets userID h) h)"

definition publishWorkspaceRevoke :: "ws_env \<Rightarrow> string \<Rightarrow> string \<Rightarrow> string list \<Rightarrow> hub \<Rightarrow> hub" where
  "publishWorkspaceRevoke E userID workspaceID channelIDs h =
     (if \<not> hb_nats h then h
      else nats_Publish E ''ws.revoke''
             (Msg_Revoke \<lparr>re_OriginID = hb_id h, re_UserID = userID, re_ChannelID = '''', re_WorkspaceID = workspaceID,
                re_ChannelIDs = channelIDs\<rparr>) h)"

definition RevokeWorkspaceMembership :: "ws_env \<Rightarrow> string \<Rightarrow> string \<Rightarrow> string list \<Rightarrow> hub \<Rightarrow> hub" where
  "RevokeWorkspaceMembership E userID workspaceID channelIDs h =
     publishWorkspaceRevoke E userID workspaceID channelIDs (revokeWorkspaceLocal E userID workspaceID channelIDs h)"

definition revoke_room :: "string \<Rightarrow> client \<Rightarrow> client" where
  "revoke_room documentID c = (if \<not> InRoom documentID c then c else leave_revoked documentID c)"

definition revokeRoomLocal :: "string \<Rightarrow> string \<Rightarrow> hub \<Rightarrow> hub" where
  "revokeRoomLocal userID documentID h =
     (if documentID = '''' then h
      else fold (\<lambda>r. upd_client r (revoke_room documentID)) (revoke_targets userID h) h)"

definition publishRoomRevoke :: "ws_env \<Rightarrow> string \<Rightarrow> string \<Rightarrow> hub \<Rightarrow> hub" where
  "publishRoomRevoke E userID documentID h =
     (if \<not> hb_nats h then h
      else nats_Publish E ''ws.roomrevoke''
             (Msg_RoomRevoke \<lparr>rr_OriginID = hb_id h, rr_UserID = userID, rr_DocumentID = documentID\<rparr>) h)"

definition RevokeRoom :: "ws_env \<Rightarrow> string \<Rightarrow> string \<Rightarrow> hub \<Rightarrow> hub" where
  "RevokeRoom E userID documentID h = publishRoomRevoke E userID documentID (revokeRoomLocal userID documentID h)"

definition RevokeRoomForAll :: "ws_env \<Rightarrow> string \<Rightarrow> hub \<Rightarrow> hub" where
  "RevokeRoomForAll E documentID h = publishRoomRevoke E '''' documentID (revokeRoomLocal '''' documentID h)"

section \<open>Bridges\<close>

text \<open>
  Starting a bridge gives the hub its connection to NATS, from which on it publishes; then what a replica does with a message of each
  subject it subscribes to; \<open>superops.*.>\<close> is the event relay.
\<close>

definition StartNATSBridge :: "hub \<Rightarrow> hub" where
  "StartNATSBridge h = h\<lparr>hb_nats := True\<rparr>"

definition StartRoomBridge :: "hub \<Rightarrow> hub" where
  "StartRoomBridge h = h\<lparr>hb_nats := True\<rparr>"

definition on_broadcast :: "BroadcastEnvelope \<Rightarrow> hub \<Rightarrow> hub" where
  "on_broadcast env h =
     (if be_OriginID env = hb_id h then h
      else localBroadcast (be_ChannelID env) \<lparr>fr_msgType = be_Type env, fr_data = be_Data env\<rparr> (be_ExcludeUserID env) h)"

definition on_revoke :: "ws_env \<Rightarrow> RevokeEnvelope \<Rightarrow> hub \<Rightarrow> hub" where
  "on_revoke E env h =
     (if re_OriginID env = hb_id h then h
      else if re_WorkspaceID env \<noteq> '''' then revokeWorkspaceLocal E (re_UserID env) (re_WorkspaceID env) (re_ChannelIDs env) h
      else revokeLocal (re_UserID env) (re_ChannelID env) h)"

definition on_room :: "RoomEnvelope \<Rightarrow> hub \<Rightarrow> hub" where
  "on_room env h =
     (if rm_OriginID env = hb_id h then h
      else roomBroadcast (rm_DocumentID env) \<lparr>fr_msgType = rm_Type env, fr_data = rm_Data env\<rparr> h)"

definition on_room_leader :: "RoomEnvelope \<Rightarrow> hub \<Rightarrow> hub" where
  "on_room_leader env h =
     (if rm_OriginID env = hb_id h then h
      else snd (SendToRoomLeader (rm_DocumentID env) (rm_Type env) (rm_Data env) h))"

definition on_room_revoke :: "RoomRevokeEnvelope \<Rightarrow> hub \<Rightarrow> hub" where
  "on_room_revoke env h =
     (if rr_OriginID env = hb_id h then h else revokeRoomLocal (rr_UserID env) (rr_DocumentID env) h)"

definition StartEventRelay :: "domainEvent \<Rightarrow> hub \<Rightarrow> hub" where
  "StartEventRelay env h = dispatchEvent (de_Type env) (de_Data env) h"

definition on_nats :: "ws_env \<Rightarrow> nats_msg \<Rightarrow> hub \<Rightarrow> hub" where
  "on_nats E m =
     (case m of
        Msg_Broadcast env \<Rightarrow> on_broadcast env
      | Msg_Revoke env \<Rightarrow> on_revoke E env
      | Msg_Room env \<Rightarrow> on_room env
      | Msg_RoomLeader env \<Rightarrow> on_room_leader env
      | Msg_RoomRevoke env \<Rightarrow> on_room_revoke env
      | Msg_Domain env \<Rightarrow> StartEventRelay env)"

end
