(* ===== verification/Ws_Inbound.thy ===== *)
theory Ws_Inbound
  imports Ws_Hub
begin

text \<open>
  What a connection does with the frames its peer sends: \<open>ReadPump\<close>, \<open>handleMessage\<close> and the handlers it calls in \<open>client.go\<close> and
  \<open>room.go\<close>, and the opening of a connection in \<open>handler.go\<close> after its token was accepted.
\<close>

section \<open>Arguments and errors\<close>

definition channelArg :: "ws_env \<Rightarrow> RawMessage \<Rightarrow> client \<Rightarrow> string option \<times> client" where
  "channelArg E raw c =
     (case SubscribeData raw of
        None \<Rightarrow> (None, sendError ''BAD_REQUEST'' ''invalid payload'' c)
      | Some channelID \<Rightarrow>
          if \<not> we_Validate E channelID then (None, sendError ''BAD_REQUEST'' ''channel_id must be a UUID'' c)
          else (Some channelID, c))"

definition documentArg :: "ws_env \<Rightarrow> RawMessage \<Rightarrow> client \<Rightarrow> string option \<times> client" where
  "documentArg E raw c =
     (case CollabDocumentData raw of
        None \<Rightarrow> (None, sendError ''BAD_REQUEST'' ''invalid payload'' c)
      | Some documentID \<Rightarrow>
          if \<not> we_Validate E documentID then (None, sendError ''BAD_REQUEST'' ''document_id must be a UUID'' c)
          else (Some documentID, c))"

fun room_error_text :: "room_error \<Rightarrow> string \<times> string" where
  "room_error_text ErrRoomNotFound = (''NOT_FOUND'', ''collaboration document not found'')"
| "room_error_text ErrRoomForbidden = (''FORBIDDEN'', ''not allowed to open this collaboration document'')"
| "room_error_text ErrRoomReadOnly = (''FORBIDDEN'', ''read-only access to this collaboration document'')"
| "room_error_text ErrRoomInvalidPayload = (''BAD_REQUEST'', ''invalid collaboration payload'')"
| "room_error_text ErrRoomPayloadTooLarge =
     (''PAYLOAD_TOO_LARGE'', ''collaboration update too large for the socket; use the HTTP append endpoint'')"
| "room_error_text (RoomFailure _) = (''INTERNAL_ERROR'', ''could not process collaboration frame'')"

definition sendRoomError :: "string \<Rightarrow> string \<Rightarrow> room_error \<Rightarrow> client \<Rightarrow> client" where
  "sendRoomError op documentID err =
     (let (code, message) = room_error_text err in
      SendMessage ''error''
        (Some (str_object [(''code'', code), (''message'', message), (''op'', op), (''document_id'', documentID)])))"

section \<open>Collaboration frames\<close>

definition handleCollabJoin :: "ws_env \<Rightarrow> cref \<Rightarrow> RawMessage \<Rightarrow> hub \<Rightarrow> hub" where
  "handleCollabJoin E r raw h =
     (let c = get_client r h in
      case documentArg E raw c of
        (None, c) \<Rightarrow> upd_client r (\<lambda>_. c) h
      | (Some documentID, c) \<Rightarrow>
          upd_client r
            (case we_roomHandler E of
               None \<Rightarrow> sendError ''UNSUPPORTED'' ''collaboration is not enabled on this server''
             | Some H \<Rightarrow>
                 (case rh_Join H documentID (cl_userID c) of
                    Inl err \<Rightarrow> sendRoomError ''join'' documentID err
                  | Inr access \<Rightarrow> \<lambda>c.
                      SendMessage ''collab.joined''
                        (Some (JObj [(''document_id'', JStr documentID), (''head_seq'', JInt (ra_HeadSeq access)),
                                     (''can_write'', JBool (ra_CanWrite access))]))
                        (JoinRoom documentID (ra_CanWrite access) c))) h)"

definition handleCollabLeave :: "ws_env \<Rightarrow> cref \<Rightarrow> RawMessage \<Rightarrow> hub \<Rightarrow> hub" where
  "handleCollabLeave E r raw h =
     (case documentArg E raw (get_client r h) of
        (None, c) \<Rightarrow> upd_client r (\<lambda>_. c) h
      | (Some documentID, c) \<Rightarrow>
          upd_client r (\<lambda>c. SendMessage ''collab.left''
              (Some (str_object [(''document_id'', documentID), (''reason'', ''client'')])) (LeaveRoom documentID c)) h)"

definition handleCollabUpdate :: "ws_env \<Rightarrow> cref \<Rightarrow> RawMessage \<Rightarrow> hub \<Rightarrow> hub" where
  "handleCollabUpdate E r raw h =
     (let c = get_client r h in
      case CollabUpdateData raw of
        None \<Rightarrow> upd_client r (sendError ''BAD_REQUEST'' ''invalid collaboration payload'') h
      | Some (documentID, update) \<Rightarrow>
          if \<not> we_Validate E documentID
          then upd_client r (sendError ''BAD_REQUEST'' ''document_id must be a UUID'') h
          else (case we_roomHandler E of
             None \<Rightarrow> upd_client r (sendRoomError ''update'' documentID ErrRoomForbidden) h
           | Some H \<Rightarrow>
               if \<not> InRoom documentID c
               then upd_client r (sendRoomError ''update'' documentID ErrRoomForbidden) h
               else if \<not> CanWriteRoom documentID c
               then upd_client r (sendRoomError ''update'' documentID ErrRoomReadOnly) h
               else if length update = 0
               then upd_client r (sendRoomError ''update'' documentID ErrRoomInvalidPayload) h
               else if length update > maxCollabPayloadBytes
               then upd_client r (sendRoomError ''update'' documentID ErrRoomPayloadTooLarge) h
               else let h = call (Call_Update documentID (cl_userID c) (cl_connID c) update) h in
                    (case rh_Update H documentID (cl_userID c) (cl_connID c) update of
                       None \<Rightarrow> h
                     | Some err \<Rightarrow> upd_client r (sendRoomError ''update'' documentID err) h)))"

definition handleCollabAwareness :: "ws_env \<Rightarrow> cref \<Rightarrow> RawMessage \<Rightarrow> hub \<Rightarrow> hub" where
  "handleCollabAwareness E r raw h =
     (let c = get_client r h in
      case CollabAwarenessData raw of
        None \<Rightarrow> upd_client r (sendError ''BAD_REQUEST'' ''invalid collaboration payload'') h
      | Some (documentID, state) \<Rightarrow>
          if \<not> we_Validate E documentID
          then upd_client r (sendError ''BAD_REQUEST'' ''document_id must be a UUID'') h
          else (case we_roomHandler E of
             None \<Rightarrow> upd_client r (sendRoomError ''awareness'' documentID ErrRoomForbidden) h
           | Some H \<Rightarrow>
               if \<not> InRoom documentID c
               then upd_client r (sendRoomError ''awareness'' documentID ErrRoomForbidden) h
               else if length state = 0 \<or> length state > maxCollabPayloadBytes
               then upd_client r (sendRoomError ''awareness'' documentID ErrRoomInvalidPayload) h
               else let h = call (Call_Awareness documentID (cl_userID c) (cl_connID c) state) h in
                    (case rh_Awareness H documentID (cl_userID c) (cl_connID c) state of
                       None \<Rightarrow> h
                     | Some err \<Rightarrow> upd_client r (sendRoomError ''awareness'' documentID err) h)))"

section \<open>Channels, typing and presence\<close>

definition refreshPresence :: "ws_env \<Rightarrow> cref \<Rightarrow> hub \<Rightarrow> hub" where
  "refreshPresence E r h =
     (case we_SetStatus E of None \<Rightarrow> h | Some _ \<Rightarrow> call (Call_Heartbeat (cl_userID (get_client r h))) h)"

definition ParseStatus :: "string \<Rightarrow> string option" where
  "ParseStatus s = (if List.member [''online'', ''away'', ''dnd'', ''offline''] s then Some s else None)"

definition handleSubscribe :: "ws_env \<Rightarrow> cref \<Rightarrow> RawMessage \<Rightarrow> hub \<Rightarrow> hub" where
  "handleSubscribe E r raw h =
     (case channelArg E raw (get_client r h) of
        (None, c) \<Rightarrow> upd_client r (\<lambda>_. c) h
      | (Some channelID, c) \<Rightarrow>
          upd_client r
            (case member_checker E channelID (cl_userID c) of
               Inl _ \<Rightarrow> sendError ''INTERNAL_ERROR'' ''could not verify channel membership''
             | Inr allowed \<Rightarrow>
                 if \<not> allowed then sendError ''FORBIDDEN'' ''not a member of this channel''
                 else (\<lambda>c. SendMessage ''subscribed'' (Some (str_object [(''channel_id'', channelID)]))
                             (Subscribe channelID c))) h)"

definition handleUnsubscribe :: "ws_env \<Rightarrow> cref \<Rightarrow> RawMessage \<Rightarrow> hub \<Rightarrow> hub" where
  "handleUnsubscribe E r raw h =
     (case channelArg E raw (get_client r h) of
        (None, c) \<Rightarrow> upd_client r (\<lambda>_. c) h
      | (Some channelID, c) \<Rightarrow>
          upd_client r (\<lambda>c. SendMessage ''unsubscribed''
              (Some (str_object [(''channel_id'', channelID), (''reason'', ''client'')])) (Unsubscribe channelID c)) h)"

definition typing_broadcast :: "ws_env \<Rightarrow> string \<Rightarrow> string \<Rightarrow> bool \<Rightarrow> hub \<Rightarrow> hub" where
  "typing_broadcast E channelID userID typing h =
     (let h = (case we_SetStatus E of
                 None \<Rightarrow> h
               | Some _ \<Rightarrow> call (if typing then Call_SetTyping channelID userID else Call_ClearTyping channelID userID) h) in
      BroadcastToChannel E channelID ''typing.indicator''
        (Some (JObj [(''channel_id'', JStr channelID), (''user_id'', JStr userID), (''typing'', JBool typing)])) userID h)"

definition handleTyping :: "ws_env \<Rightarrow> cref \<Rightarrow> RawMessage \<Rightarrow> bool \<Rightarrow> hub \<Rightarrow> hub" where
  "handleTyping E r raw typing h =
     (case channelArg E raw (get_client r h) of
        (None, c) \<Rightarrow> upd_client r (\<lambda>_. c) h
      | (Some channelID, c) \<Rightarrow>
          if IsSubscribed channelID c then typing_broadcast E channelID (cl_userID c) typing h
          else (case member_checker E channelID (cl_userID c) of
             Inl _ \<Rightarrow> upd_client r (sendError ''INTERNAL_ERROR'' ''could not verify channel membership'') h
           | Inr allowed \<Rightarrow>
               if \<not> allowed then upd_client r (sendError ''FORBIDDEN'' ''not a member of this channel'') h
               else typing_broadcast E channelID (cl_userID c) typing h))"

definition handlePresence :: "ws_env \<Rightarrow> cref \<Rightarrow> RawMessage \<Rightarrow> hub \<Rightarrow> hub" where
  "handlePresence E r raw h =
     (let c = get_client r h in
      case PresenceData raw of
        None \<Rightarrow> upd_client r (sendError ''BAD_REQUEST'' ''invalid presence payload'') h
      | Some s \<Rightarrow>
          (case ParseStatus s of
             None \<Rightarrow> upd_client r (sendError ''BAD_REQUEST'' ''invalid presence status'') h
           | Some status \<Rightarrow>
               (case we_SetStatus E of
                  None \<Rightarrow> PublishPresenceChanged E (cl_userID c) status (cl_workspaces c) h
                | Some setStatus \<Rightarrow>
                    let h = call (Call_SetStatus (cl_userID c) status) h in
                    if \<not> setStatus (cl_userID c) status
                    then upd_client r (sendError ''INTERNAL_ERROR'' ''could not update presence'') h
                    else PublishPresenceChanged E (cl_userID c) status (cl_workspaces c) h)))"

section \<open>Dispatch\<close>

definition handleMessage :: "ws_env \<Rightarrow> cref \<Rightarrow> InboundMessage \<Rightarrow> hub \<Rightarrow> hub" where
  "handleMessage E r msg h =
     (let t = im_Type msg; d = im_Data msg in
      if t = ''ping'' then upd_client r (SendMessage ''pong'' (Some JNull)) (refreshPresence E r h)
      else if t = ''subscribe'' then handleSubscribe E r d h
      else if t = ''unsubscribe'' then handleUnsubscribe E r d h
      else if t = ''collab.join'' then handleCollabJoin E r d h
      else if t = ''collab.leave'' then handleCollabLeave E r d h
      else if t = ''collab.update'' then handleCollabUpdate E r d h
      else if t = ''collab.awareness'' then handleCollabAwareness E r d h
      else if t = ''typing.start'' then handleTyping E r d True h
      else if t = ''typing.stop'' then handleTyping E r d False h
      else if t = ''presence.update'' then handlePresence E r d h
      else upd_client r (sendError ''UNKNOWN_TYPE'' ''unknown message type'') h)"

definition charge :: "bool \<Rightarrow> int \<Rightarrow> cref \<Rightarrow> hub \<Rightarrow> (bool \<times> bool) \<times> hub" where
  "charge collab now r h =
     (let (res, c) = chargeInbound collab now (get_client r h) in (res, upd_client r (\<lambda>_. c) h))"

definition stop_reading :: "cref \<Rightarrow> hub \<Rightarrow> hub" where
  "stop_reading r h = upd_client r (\<lambda>c. c\<lparr>cl_reading := False\<rparr>) h"

text \<open>One turn of the read loop on the bytes of one frame; \<open>None\<close> are bytes that are not a JSON document.\<close>

definition read_frame :: "ws_env \<Rightarrow> int \<Rightarrow> cref \<Rightarrow> RawMessage \<Rightarrow> hub \<Rightarrow> hub" where
  "read_frame E now r data h =
     (case parse_inbound data of
        None \<Rightarrow>
          (case charge False now r h of
             ((allowed, done), h) \<Rightarrow>
               if done then stop_reading r h
               else if allowed then upd_client r (sendError ''BAD_REQUEST'' ''invalid message format'') h
               else h)
      | Some msg \<Rightarrow>
          (case charge (isCollabStreamType (im_Type msg)) now r h of
             ((allowed, done), h) \<Rightarrow>
               if done then stop_reading r h
               else if \<not> allowed then h
               else handleMessage E r msg h))"

section \<open>Opening a connection\<close>

definition accept_client :: "string \<Rightarrow> string \<Rightarrow> string list \<Rightarrow> int \<Rightarrow> hub \<Rightarrow> hub" where
  "accept_client userID connID workspaceIDs now h =
     h\<lparr>hb_heap := hb_heap h @ [NewClient userID connID workspaceIDs now]\<rparr>"

text \<open>
  After the registration went through; \<open>conns\<close> is what the presence store's \<open>Connect\<close> answered, \<open>None\<close> on an error. \<open>leave\<close> runs the
  deferred calls of the handler when the read pump has returned.
\<close>

definition greet :: "ws_env \<Rightarrow> cref \<Rightarrow> int option \<Rightarrow> string list \<Rightarrow> hub \<Rightarrow> hub" where
  "greet E r conns workspaceIDs h =
     (let c = get_client r h;
          h = (case we_SetStatus E of
                 None \<Rightarrow> h
               | Some _ \<Rightarrow>
                   let h = call (Call_Connect (cl_userID c)) h in
                   if conns = Some 1 then PublishPresenceChanged E (cl_userID c) ''online'' workspaceIDs h else h) in
      upd_client r (SendMessage ''hello''
        (Some (str_object [(''user_id'', cl_userID c), (''connection_id'', cl_connID c)]))) h)"

definition leave :: "ws_env \<Rightarrow> cref \<Rightarrow> bool option \<Rightarrow> string list \<Rightarrow> hub \<Rightarrow> hub" where
  "leave E r last_conn workspaceIDs h =
     (let c = get_client r h;
          h = (case we_SetStatus E of
                 None \<Rightarrow> h
               | Some _ \<Rightarrow>
                   let h = call (Call_Disconnect (cl_userID c)) h in
                   if last_conn = Some True then PublishPresenceChanged E (cl_userID c) ''offline'' workspaceIDs h else h) in
      upd_client r close_client h)"

text \<open>The two tickers of \<open>KeepAlive\<close>: a ping that was or was not answered, and the membership sweep.\<close>

definition keepalive_ping :: "ws_env \<Rightarrow> bool \<Rightarrow> cref \<Rightarrow> hub \<Rightarrow> hub" where
  "keepalive_ping E answered r h =
     (if answered then refreshPresence E r h
      else if \<not> cl_cancelled (get_client r h) then upd_client r kill h else h)"

definition keepalive_recheck :: "ws_env \<Rightarrow> cref \<Rightarrow> hub \<Rightarrow> hub" where
  "keepalive_recheck E r h = upd_client r (\<lambda>c. recheckRooms E (recheckSubscriptions E c)) h"

end
