(* ===== verification/Ws_Invariant.thy ===== *)
theory Ws_Invariant
  imports Ws_Inbound
begin

text \<open>
  The invariant of a hub and that every operation keeps it. A connection never holds more frames than its channel has room for,
  the sequence numbers of the frames it wrote and of those still queued grow strictly, a connection that dropped or overran too
  often is closed, and its maps have one entry per key. The registry has one entry per user and per connection id, no empty inner
  map, entries that point at the connection they name, and a counter that is the number of entries.
\<close>

section \<open>Connections\<close>

definition bucket_ok :: "tokenBucket \<Rightarrow> bool" where
  "bucket_ok b \<longleftrightarrow> 0 \<le> tb_tokens b \<and> tb_tokens b \<le> tb_burst b \<and> 0 \<le> tb_rate b"

definition stream :: "client \<Rightarrow> OutboundMessage list" where
  "stream c = cl_wire c @ cl_send c"

definition stream_ok :: "client \<Rightarrow> bool" where
  "stream_ok c \<longleftrightarrow> length (cl_send c) \<le> sendBuffer \<and> sorted_wrt (<) (map om_Seq (stream c)) \<and>
     (\<forall>m \<in> set (stream c). 0 < om_Seq m \<and> om_Seq m \<le> cl_seq c) \<and> 0 \<le> cl_seq c"

definition closed_ok :: "client \<Rightarrow> bool" where
  "closed_ok c \<longleftrightarrow> (cl_drops c \<ge> maxConsecutiveDrops \<longrightarrow> cl_closing c) \<and> (cl_strikes c \<ge> maxRateStrikes \<longrightarrow> cl_closing c) \<and>
     (cl_closing c \<longrightarrow> cl_cancelled c)"

definition maps_ok :: "client \<Rightarrow> bool" where
  "maps_ok c \<longleftrightarrow> distinct (cl_workspaces c) \<and> distinct (cl_subscriptions c) \<and> distinct (map fst (cl_rooms c))"

definition client_ok :: "client \<Rightarrow> bool" where
  "client_ok c \<longleftrightarrow> stream_ok c \<and> closed_ok c \<and> maps_ok c \<and> bucket_ok (cl_limiter c) \<and> bucket_ok (cl_collabLimiter c)"

definition ident :: "client \<Rightarrow> string \<times> string" where
  "ident c = (cl_userID c, cl_connID c)"

text \<open>An update of a connection that keeps who it is and its invariant; the operations are built from such updates.\<close>

definition safe :: "(client \<Rightarrow> client) \<Rightarrow> bool" where
  "safe f \<longleftrightarrow> (\<forall>c. ident (f c) = ident c \<and> (client_ok c \<longrightarrow> client_ok (f c)))"

named_theorems safe_intros \<open>updates that keep a connection's invariant\<close>

lemmas client_ok_defs = client_ok_def stream_ok_def stream_def closed_ok_def maps_ok_def ident_def

lemma safe_I:
  assumes "\<And>c. ident (f c) = ident c" "\<And>c. client_ok c \<Longrightarrow> client_ok (f c)"
  shows "safe f"
  using assms by (simp add: safe_def)

lemma safe_comp: "safe f \<Longrightarrow> safe g \<Longrightarrow> safe (\<lambda>c. f (g c))"
  by (simp add: safe_def)

lemma safe_id [safe_intros]: "safe (\<lambda>c. c)"
  by (simp add: safe_def)

lemma safe_fold: "(\<And>x. safe (f x)) \<Longrightarrow> safe (fold f xs)"
  by (induction xs) (auto simp: safe_def)

lemma safe_if: "safe f \<Longrightarrow> safe g \<Longrightarrow> safe (\<lambda>c. if P c then f c else g c)"
  by (simp add: safe_def)

lemma safe_close [safe_intros]: "safe close_client"
  by (rule safe_I) (auto simp: client_ok_defs close_client_def)

lemma safe_recoverPump [safe_intros]: "safe recoverPump"
  by (rule safe_I) (auto simp: client_ok_defs recoverPump_def close_client_def)

lemma stream_ok_sendFrame:
  assumes "stream_ok c"
  shows "stream_ok (sendFrame f c)"
proof -
  have bound: "om_Seq m < cl_seq c + 1" if "m \<in> set (stream c)" for m
    using assms that by (auto simp: stream_ok_def)
  show ?thesis
    using assms bound
    by (auto simp: stream_ok_def stream_def sendFrame_def trySend_def kill_def close_client_def encode_frame_def sorted_wrt_append
        Let_def intro: less_imp_le)
qed

lemma safe_sendFrame [safe_intros]: "safe (sendFrame f)"
proof (rule safe_I)
  fix c
  show "ident (sendFrame f c) = ident c"
    by (simp add: sendFrame_def trySend_def kill_def close_client_def ident_def Let_def)
  assume ok: "client_ok c"
  then have "closed_ok (sendFrame f c)"
    by (auto simp: client_ok_def closed_ok_def sendFrame_def trySend_def kill_def close_client_def maxConsecutiveDrops_def Let_def)
  then show "client_ok (sendFrame f c)"
    using ok stream_ok_sendFrame [of c f]
    by (auto simp: client_ok_def maps_ok_def sendFrame_def trySend_def kill_def close_client_def Let_def)
qed

lemma safe_SendMessage [safe_intros]: "safe (SendMessage t d)"
  using safe_sendFrame by (simp add: SendMessage_def [abs_def])

lemma safe_sendError [safe_intros]: "safe (sendError a b)"
  by (simp add: sendError_def safe_SendMessage)

lemma safe_maps [safe_intros]:
  "safe (Subscribe ch)" "safe (Unsubscribe ch)" "safe (LeaveWorkspace w)" "safe (JoinRoom d b)" "safe (LeaveRoom d)"
  "safe (setRoomWrite d b)"
  by (auto intro!: safe_I simp: client_ok_defs Subscribe_def Unsubscribe_def LeaveWorkspace_def JoinRoom_def LeaveRoom_def
      setRoomWrite_def distinct_removeAll distinct_update distinct_delete)

lemma safe_write [safe_intros]: "safe write_next"
  by (auto intro!: safe_I simp: client_ok_defs write_next_def split: list.splits)

lemma safe_flags [safe_intros]: "safe (\<lambda>c. c\<lparr>cl_reading := False\<rparr>)" "safe (\<lambda>c. c\<lparr>cl_cancelled := True\<rparr>)"
  by (auto intro!: safe_I simp: client_ok_defs)

lemma bucket_ok_new: "0 \<le> r \<Longrightarrow> 0 \<le> b \<Longrightarrow> bucket_ok (newTokenBucket r b t)"
  by (simp add: bucket_ok_def newTokenBucket_def)

lemma bucket_ok_refill: "bucket_ok b \<Longrightarrow> bucket_ok (refill now b)"
  by (auto simp: bucket_ok_def refill_def Seconds_def Let_def)

lemma bucket_ok_allow: "bucket_ok b \<Longrightarrow> bucket_ok (snd (allow now b))"
  using bucket_ok_refill [of b now] by (auto simp: allow_def Let_def bucket_ok_def)

lemma safe_charge [safe_intros]: "safe (\<lambda>c. snd (chargeInbound collab now c))"
proof (rule safe_I)
  fix c
  obtain ok b where a: "allow now (limiter_of collab c) = (ok, b)" by fastforce
  let ?c = "put_limiter collab b c" and ?e = "sendError ''RATE_LIMITED'' ''too many frames''"
  have e: "ident (?e c') = ident c'" "client_ok c' \<Longrightarrow> client_ok (?e c')" for c'
    using safe_sendError by (auto simp: safe_def)
  have i: "ident ?c = ident c"
    by (simp add: put_limiter_def ident_def)
  show "ident (snd (chargeInbound collab now c)) = ident c"
    using a i e(1) [of ?c]
    by (auto simp: chargeInbound_def Let_def kill_def close_client_def ident_def split: bool.splits)
  assume ok: "client_ok c"
  then have "bucket_ok b"
    using bucket_ok_allow [of "limiter_of collab c" now] a by (auto simp: client_ok_def limiter_of_def split: if_splits)
  then have c1: "client_ok ?c"
    using ok by (auto simp: client_ok_defs put_limiter_def)
  show "client_ok (snd (chargeInbound collab now c))"
    using a c1 e(2) [OF c1]
    by (auto simp: chargeInbound_def Let_def kill_def close_client_def client_ok_defs split: bool.splits)
qed

lemma safe_revoke_subscription [safe_intros]: "safe (revoke_subscription ch)"
  unfolding revoke_subscription_def [abs_def] by (rule safe_if [OF safe_id safe_comp [OF safe_SendMessage safe_maps(2)]])

lemma safe_leave_revoked [safe_intros]: "safe (leave_revoked d)"
  unfolding leave_revoked_def [abs_def] by (rule safe_comp [OF safe_SendMessage safe_maps(5)])

lemma safe_revoke_room [safe_intros]: "safe (revoke_room d)"
  unfolding revoke_room_def [abs_def] by (rule safe_if [OF safe_id safe_leave_revoked])

lemma safe_recheck_room: "safe (recheck_room H d)"
proof (rule safe_I)
  fix c
  have l: "safe (leave_revoked d)" "safe (setRoomWrite d b)" for b
    by (rule safe_leave_revoked safe_maps)+
  show "ident (recheck_room H d c) = ident c"
    using l by (auto simp: recheck_room_def safe_def split: sum.splits)
  show "client_ok (recheck_room H d c)" if "client_ok c"
    using l that by (auto simp: recheck_room_def safe_def split: sum.splits)
qed

lemma safe_recheckRooms [safe_intros]: "safe (recheckRooms E)"
proof (cases "we_roomHandler E")
  case None
  then show ?thesis by (simp add: recheckRooms_def [abs_def] safe_id)
next
  case (Some H)
  have "safe (fold (recheck_room H) ds)" for ds
    by (rule safe_fold) (rule safe_recheck_room)
  with Some show ?thesis by (simp add: recheckRooms_def safe_def)
qed

lemma safe_recheck_subscription: "safe (recheck_subscription m ch)"
proof (rule safe_I)
  fix c
  have l: "safe (\<lambda>c. SendMessage t d (Unsubscribe ch c))" for t d
    by (rule safe_comp [OF safe_SendMessage safe_maps(2)])
  show "ident (recheck_subscription m ch c) = ident c"
    using l by (auto simp: recheck_subscription_def safe_def split: sum.splits)
  show "client_ok (recheck_subscription m ch c)" if "client_ok c"
    using l that by (auto simp: recheck_subscription_def safe_def split: sum.splits)
qed

lemma safe_recheckSubscriptions [safe_intros]: "safe (recheckSubscriptions E)"
proof -
  have "safe (fold (recheck_subscription (member_checker E)) chs)" for chs
    by (rule safe_fold) (rule safe_recheck_subscription)
  then show ?thesis by (simp add: recheckSubscriptions_def safe_def)
qed

lemma safe_revoke_workspace [safe_intros]: "safe (revoke_workspace E w chs)"
proof -
  let ?f = "\<lambda>channelID c. if channelID = '''' then c else revoke_subscription channelID c"
  have "safe (fold ?f chs)"
    by (rule safe_fold) (rule safe_if [OF safe_id safe_revoke_subscription])
  then show ?thesis
    unfolding revoke_workspace_def [abs_def] by (intro safe_comp [OF safe_recheckRooms] safe_comp [OF _ safe_maps(3)])
qed

lemma safe_sendRoomError [safe_intros]: "safe (sendRoomError op d e)"
  by (simp add: sendRoomError_def safe_SendMessage split: prod.splits)

section \<open>The registry\<close>

definition registry_ok :: "(string \<times> (string \<times> cref) list) list \<Rightarrow> int \<Rightarrow> (string \<times> string) list \<Rightarrow> bool" where
  "registry_ok cs n ids \<longleftrightarrow>
     distinct (map fst cs) \<and> distinct (map snd ids) \<and> n = (\<Sum>(u, conns) \<leftarrow> cs. int (length conns)) \<and>
     (\<forall>(u, conns) \<in> set cs. conns \<noteq> [] \<and> distinct (map fst conns) \<and>
        (\<forall>(k, r) \<in> set conns. r < length ids \<and> ids ! r = (u, k)))"

definition hub_inv :: "hub \<Rightarrow> bool" where
  "hub_inv h \<longleftrightarrow> registry_ok (hb_clients h) (hb_total h) (map ident (hb_heap h)) \<and> (\<forall>c \<in> set (hb_heap h). client_ok c)"

definition keeps :: "(hub \<Rightarrow> hub) \<Rightarrow> bool" where
  "keeps g \<longleftrightarrow> (\<forall>h. hub_inv h \<longrightarrow> hub_inv (g h))"

named_theorems keeps_intros \<open>operations that keep the hub's invariant\<close>

lemma update_fresh: "k \<notin> fst ` set al \<Longrightarrow> AList.update k v al = al @ [(k, v)]"
  by (induction al) auto

lemma sum_update:
  "(\<Sum>(u, c) \<leftarrow> AList.update u v cs. int (length c)) =
   (\<Sum>(u, c) \<leftarrow> cs. int (length c)) - int (length (case map_of cs u of None \<Rightarrow> [] | Some c \<Rightarrow> c)) + int (length v)"
  by (induction cs) auto

lemma sum_delete:
  "distinct (map fst cs) \<Longrightarrow> (\<Sum>(u, c) \<leftarrow> AList.delete u cs. int (length c)) =
   (\<Sum>(u, c) \<leftarrow> cs. int (length c)) - int (length (case map_of cs u of None \<Rightarrow> [] | Some c \<Rightarrow> c))"
proof (induction cs)
  case (Cons a cs)
  have "AList.delete (fst a) cs = cs"
    using Cons.prems by (auto simp: AList.delete_eq filter_id_conv image_iff)
  with Cons show ?case by (cases a) auto
qed simp

lemma length_delete_present:
  "distinct (map fst al) \<Longrightarrow> map_of al k = Some v \<Longrightarrow> Suc (length (AList.delete k al)) = length al"
proof (induction al)
  case (Cons a al)
  have "AList.delete (fst a) al = al"
    using Cons.prems by (auto simp: AList.delete_eq filter_id_conv image_iff)
  with Cons show ?case by (cases a) (auto split: if_splits)
qed simp

lemma registry_okD:
  assumes "registry_ok cs n ids" "map_of cs u = Some conns"
  shows "conns \<noteq> []" "distinct (map fst conns)" "\<And>k r. (k, r) \<in> set conns \<Longrightarrow> r < length ids \<and> ids ! r = (u, k)"
  using assms(1) map_of_SomeD [OF assms(2)] by (fastforce simp: registry_ok_def)+

lemma registry_okI:
  assumes "distinct (map fst cs)" "distinct (map snd ids)" "n = (\<Sum>(u, conns) \<leftarrow> cs. int (length conns))"
    and "\<And>u conns. map_of cs u = Some conns \<Longrightarrow>
      conns \<noteq> [] \<and> distinct (map fst conns) \<and> (\<forall>(k, r) \<in> set conns. r < length ids \<and> ids ! r = (u, k))"
  shows "registry_ok cs n ids"
  using assms(1-3) assms(4) [OF map_of_is_SomeI [OF assms(1)]] by (fastforce simp: registry_ok_def)

lemma hub_inv_upd:
  assumes "hub_inv h" "r < length (hb_heap h) \<Longrightarrow> ident (f (hb_heap h ! r)) = ident (hb_heap h ! r)"
    "r < length (hb_heap h) \<Longrightarrow> client_ok (f (hb_heap h ! r))"
  shows "hub_inv (upd_client r f h)"
proof (cases "r < length (hb_heap h)")
  case True
  then have "map ident ((hb_heap h)[r := f (hb_heap h ! r)]) = map ident (hb_heap h)"
    using assms(2) by (intro nth_equalityI) (auto simp: nth_list_update)
  then show ?thesis
    using assms True by (auto simp: hub_inv_def upd_client_def dest: set_update_subset_insert [THEN subsetD])
next
  case False
  then show ?thesis using assms(1) by (simp add: upd_client_def list_update_beyond not_less)
qed

lemma keeps_upd [keeps_intros]: "safe f \<Longrightarrow> keeps (upd_client r f)"
  unfolding keeps_def using hub_inv_upd [of _ r f] by (simp add: safe_def hub_inv_def)

lemma keepsD: "keeps g \<Longrightarrow> hub_inv h \<Longrightarrow> hub_inv (g h)"
  by (simp add: keeps_def)

lemma upd_const: "upd_client r (\<lambda>_. f (get_client r h)) h = upd_client r f h"
  by (simp add: upd_client_def get_client_def)

lemma keeps_fold: "(\<And>x. keeps (g x)) \<Longrightarrow> keeps (fold g xs)"
  by (induction xs) (auto simp: keeps_def)

lemma keeps_publish: "hub_inv (nats_Publish E t m h) = hub_inv h" "hub_inv (call k h) = hub_inv h"
  by (simp_all add: nats_Publish_def call_def hub_inv_def)

lemma keeps_send_all: "hub_inv h \<Longrightarrow> hub_inv (send_all rs f h)"
  unfolding send_all_def by (rule keepsD [OF keeps_fold]) (rule keeps_upd [OF safe_sendFrame])

lemma keeps_fanout:
  assumes "hub_inv h"
  shows "hub_inv (localBroadcast ch f x h)" "hub_inv (BroadcastToChannel E ch t d x h)" "hub_inv (BroadcastLocal ch t d x h)"
    "hub_inv (BroadcastToWorkspaceLocal w t d x h)" "hub_inv (BroadcastToUser u t d h)" "hub_inv (roomBroadcast doc f h)"
    "hub_inv (BroadcastToRoom E doc t d h)" "hub_inv (BroadcastToRoomLocal doc t d h)"
  using keeps_send_all [OF assms]
  by (simp_all add: localBroadcast_def BroadcastToChannel_def BroadcastLocal_def BroadcastToWorkspaceLocal_def BroadcastToUser_def
      roomBroadcast_def BroadcastToRoom_def BroadcastToRoomLocal_def publishToNATS_def publishRoomToNATS_def keeps_publish Let_def)

lemma keeps_leader:
  assumes "hub_inv h"
  shows "hub_inv (snd (SendToRoomLeader doc t d h))" "hub_inv (snd (AskRoomLeader E doc t d h))"
  using assms keepsD [OF keeps_upd [OF safe_SendMessage] assms]
  by (auto simp: SendToRoomLeader_def AskRoomLeader_def PublishRoomLeaderRequest_def keeps_publish Let_def
      split: prod.splits list.splits)

lemma keeps_dispatch: "hub_inv h \<Longrightarrow> hub_inv (dispatchEvent t d h)"
proof -
  assume h: "hub_inv h"
  have "keeps (fold (\<lambda>u. BroadcastToUser u t d) us)" for us t
    by (rule keeps_fold) (simp add: keeps_def keeps_fanout)
  then have "hub_inv (fold (\<lambda>u. BroadcastToUser u t d) us h)" for us t
    using keepsD [OF _ h] by blast
  with h show ?thesis
    by (simp add: dispatchEvent_def keeps_fanout split: option.split)
qed

lemma keeps_publishDomain: "hub_inv h \<Longrightarrow> hub_inv (publishDomain E w a b t p h)"
  by (simp add: publishDomain_def keeps_dispatch keeps_publish)

lemma keeps_presence: "hub_inv h \<Longrightarrow> hub_inv (PublishPresenceChanged E u st ws h)"
  unfolding PublishPresenceChanged_def
  by (rule keepsD [OF keeps_fold]) (simp_all add: keeps_def keeps_publishDomain)

lemma keeps_revocation:
  assumes "hub_inv h"
  shows "hub_inv (revokeLocal u ch h)" "hub_inv (revokeWorkspaceLocal E u w chs h)" "hub_inv (revokeRoomLocal u doc h)"
    "hub_inv (fold (\<lambda>r. upd_client r close_client) rs h)"
  using assms
  by (auto simp: revokeLocal_def revokeWorkspaceLocal_def revokeRoomLocal_def
      intro!: keepsD [OF keeps_fold [OF keeps_upd]] safe_intros)

lemma keeps_on_nats: "hub_inv h \<Longrightarrow> hub_inv (on_nats E m h)"
  by (simp add: on_nats_def on_broadcast_def on_revoke_def on_room_def on_room_leader_def on_room_revoke_def StartEventRelay_def
      keeps_fanout keeps_revocation keeps_leader keeps_dispatch split: nats_msg.split)

section \<open>Registering and closing\<close>

lemma conns_of_ok:
  assumes "registry_ok (hb_clients h) n ids"
  shows "distinct (map fst (conns_of u h))" "\<And>k r. (k, r) \<in> set (conns_of u h) \<Longrightarrow> r < length ids \<and> ids ! r = (u, k)"
  using registry_okD [OF assms, of u] by (cases "map_of (hb_clients h) u"; auto simp: conns_of_def)+

lemma conn_ids_unique:
  assumes "registry_ok cs n ids" "r < length ids" "r' < length ids" "snd (ids ! r) = snd (ids ! r')"
  shows "r = r'"
  using assms distinct_conv_nth [of "map snd ids"] by (auto simp: registry_ok_def)

lemma mem_all_conns: "r \<in> set (all_conns h) \<longleftrightarrow> (\<exists>u conns k. (u, conns) \<in> set (hb_clients h) \<and> (k, r) \<in> set conns)"
  by (force simp: all_conns_def)

lemma conns_of_mem:
  assumes "(k, r) \<in> set (conns_of u h)"
  shows "r \<in> set (all_conns h)"
  using assms unfolding mem_all_conns
  by (cases "map_of (hb_clients h) u") (auto simp: conns_of_def dest!: map_of_SomeD)

lemma register_inv:
  assumes inv: "hub_inv h" and r: "r < length (hb_heap h)" "r \<notin> set (all_conns h)"
  shows "hub_inv (run_register r h)"
proof -
  let ?ids = "map ident (hb_heap h)" and ?c = "get_client r h"
  define u k where uk: "u = cl_userID ?c" "k = cl_connID ?c"
  let ?old = "conns_of u h"
  have reg: "registry_ok (hb_clients h) (hb_total h) ?ids" using inv by (simp add: hub_inv_def)
  have rid: "?ids ! r = (u, k)" using r uk by (simp add: ident_def get_client_def)
  have fresh: "k \<notin> fst ` set ?old"
  proof
    assume "k \<in> fst ` set ?old"
    then obtain r' where m: "(k, r') \<in> set ?old" by auto
    with conns_of_ok(2) [OF reg m] have "r' = r"
      using conn_ids_unique [OF reg, of r' r] rid r by simp
    with m r(2) conns_of_mem show False by blast
  qed
  let ?new = "?old @ [(k, r)]"
  have new: "distinct (map fst ?new)" "\<forall>(k', r') \<in> set ?new. r' < length ?ids \<and> ?ids ! r' = (u, k')"
    using conns_of_ok(1) [OF reg, of u] conns_of_ok(2) [OF reg, of _ _ u] fresh rid r by (auto simp del: nth_map)
  have "registry_ok (AList.update u ?new (hb_clients h)) (hb_total h + 1) ?ids"
  proof (rule registry_okI)
    show "distinct (map fst (AList.update u ?new (hb_clients h)))" "distinct (map snd ?ids)"
      using reg by (simp_all add: registry_ok_def distinct_update)
    show "hb_total h + 1 = (\<Sum>(u, conns) \<leftarrow> AList.update u ?new (hb_clients h). int (length conns))"
      using reg by (simp add: sum_update registry_ok_def conns_of_def split: option.splits)
    fix v conns
    assume "map_of (AList.update u ?new (hb_clients h)) v = Some conns"
    then show "conns \<noteq> [] \<and> distinct (map fst conns) \<and> (\<forall>(k, r) \<in> set conns. r < length ?ids \<and> ?ids ! r = (v, k))"
      using new registry_okD [OF reg, of v conns] by (auto simp: update_conv' simp del: nth_map split: if_splits)
  qed
  moreover have "AList.update k r ?old = ?new" by (rule update_fresh [OF fresh])
  ultimately show ?thesis
    using inv uk by (simp add: hub_inv_def run_register_def Let_def)
qed

lemma unregister_inv:
  assumes inv: "hub_inv h" and r: "r < length (hb_heap h)"
  shows "hub_inv (run_unregister r h)"
proof -
  let ?ids = "map ident (hb_heap h)" and ?c = "get_client r h"
  define u k where uk: "u = cl_userID ?c" "k = cl_connID ?c"
  let ?old = "conns_of u h" and ?cs = "hb_clients h"
  let ?new = "AList.delete k ?old"
  let ?cs' = "if length ?new = 0 then AList.delete u ?cs else AList.update u ?new ?cs"
  have reg: "registry_ok ?cs (hb_total h) ?ids" using inv by (simp add: hub_inv_def)
  have "registry_ok ?cs' (hb_total h - 1) ?ids" if m: "map_of ?old k = Some r"
  proof (rule registry_okI)
    have d: "distinct (map fst ?old)" by (rule conns_of_ok [OF reg])
    have len: "length ?old = Suc (length ?new)"
      using length_delete_present [OF d m] by simp
    show "distinct (map fst ?cs')" "distinct (map snd ?ids)"
      using reg by (simp_all add: registry_ok_def distinct_update distinct_delete)
    show "hb_total h - 1 = (\<Sum>(u, conns) \<leftarrow> ?cs'. int (length conns))"
      using reg len by (auto simp: sum_update sum_delete registry_ok_def simp flip: conns_of_def)
    have sub: "(k', r') \<in> set ?old" if "(k', r') \<in> set ?new" for k' r'
      using that by (simp add: AList.delete_eq)
    fix v conns
    assume a: "map_of ?cs' v = Some conns"
    show "conns \<noteq> [] \<and> distinct (map fst conns) \<and> (\<forall>(k, r) \<in> set conns. r < length ?ids \<and> ?ids ! r = (v, k))"
      using a registry_okD [OF reg, of v conns] conns_of_ok(2) [OF reg, of _ _ u] distinct_delete [OF d, of k]
      by (auto simp: update_conv' delete_conv' simp del: nth_map split: if_splits dest!: sub)
  qed
  then have "hub_inv (h\<lparr>hb_clients := ?cs', hb_total := hb_total h - 1\<rparr>)" if "map_of ?old k = Some r"
    using inv that by (simp add: hub_inv_def)
  then show ?thesis
    using inv uk by (auto simp: run_unregister_def Let_def intro!: keepsD [OF keeps_upd] safe_intros)
qed

lemma shutdown_inv: "hub_inv h \<Longrightarrow> hub_inv (Shutdown h)"
proof -
  assume h: "hub_inv h"
  then have "hub_inv (h\<lparr>hb_clients := [], hb_total := 0, hb_done := True\<rparr>)"
    by (simp add: hub_inv_def registry_ok_def)
  with h show ?thesis by (simp add: Shutdown_def keeps_revocation)
qed

lemma registry_ok_more_ids:
  assumes "registry_ok cs n ids" "k \<notin> snd ` set ids"
  shows "registry_ok cs n (ids @ [(u, k)])"
proof -
  have "\<forall>(v, conns) \<in> set cs. conns \<noteq> [] \<and> distinct (map fst conns) \<and>
      (\<forall>(k', r) \<in> set conns. r < length (ids @ [(u, k)]) \<and> (ids @ [(u, k)]) ! r = (v, k'))"
    using assms(1) by (fastforce simp: registry_ok_def nth_append)
  then show ?thesis using assms by (simp add: registry_ok_def)
qed

lemma NewClient_ok: "client_ok (NewClient u k ws now)"
  by (simp add: client_ok_defs NewClient_def bucket_ok_new sendBuffer_def maxConsecutiveDrops_def maxRateStrikes_def)

lemma accept_inv:
  assumes "hub_inv h" "k \<notin> cl_connID ` set (hb_heap h)"
  shows "hub_inv (accept_client u k ws now h)"
proof -
  have "registry_ok (hb_clients h) (hb_total h) (map ident (hb_heap h) @ [(u, k)])"
    using assms by (intro registry_ok_more_ids) (auto simp: hub_inv_def ident_def)
  moreover have "ident (NewClient u k ws now) = (u, k)"
    by (simp add: ident_def NewClient_def)
  ultimately show ?thesis
    using assms NewClient_ok by (simp add: hub_inv_def accept_client_def)
qed

section \<open>Inbound frames\<close>

lemma channelArg_client: "safe (\<lambda>c. snd (channelArg E raw c))" "fst (channelArg E raw c) = Some ch \<Longrightarrow> snd (channelArg E raw c) = c"
  using safe_sendError by (auto simp: channelArg_def safe_def split: option.split)

lemma documentArg_client: "safe (\<lambda>c. snd (documentArg E raw c))" "fst (documentArg E raw c) = Some d \<Longrightarrow> snd (documentArg E raw c) = c"
  using safe_sendError by (auto simp: documentArg_def safe_def split: option.split)

lemma keeps_const:
  assumes "hub_inv h" "safe f" "c = f (get_client r h)"
  shows "hub_inv (upd_client r (\<lambda>_. c) h)"
  using assms keepsD [OF keeps_upd [OF assms(2)] assms(1)] by (simp add: upd_const)

lemma keeps_upds:
  assumes "hub_inv h"
  shows "hub_inv (upd_client r (sendError a b) h)" "hub_inv (upd_client r (sendRoomError op doc err) h)"
    "hub_inv (upd_client r (SendMessage t p) h)" "hub_inv (upd_client r recoverPump h)" "hub_inv (upd_client r kill h)"
    "hub_inv (upd_client r close_client h)" "hub_inv (upd_client r (\<lambda>c. SendMessage t p (LeaveRoom doc c)) h)"
    "hub_inv (upd_client r (\<lambda>c. SendMessage t p (JoinRoom doc w c)) h)" "hub_inv (upd_client r (\<lambda>c. SendMessage t p (Subscribe ch c)) h)"
    "hub_inv (upd_client r (\<lambda>c. SendMessage t p (Unsubscribe ch c)) h)" "hub_inv (upd_client r (\<lambda>c. c\<lparr>cl_reading := False\<rparr>) h)"
    "hub_inv (upd_client r write_next h)" "hub_inv (upd_client r (\<lambda>c. recheckRooms E (recheckSubscriptions E c)) h)"
  using assms safe_close
  by (auto simp: kill_def [abs_def] intro!: keepsD [OF keeps_upd] safe_sendError safe_sendRoomError safe_SendMessage safe_recoverPump
      safe_close safe_comp [OF safe_SendMessage] safe_maps safe_flags safe_write safe_comp [OF safe_recheckRooms safe_recheckSubscriptions])

lemma handlers_inv:
  assumes "hub_inv h"
  shows "hub_inv (handleCollabUpdate E r d h)" "hub_inv (handleCollabAwareness E r d h)" "hub_inv (handlePresence E r d h)"
    "hub_inv (refreshPresence E r h)"
  using assms
  by (simp_all add: handleCollabUpdate_def handleCollabAwareness_def handlePresence_def refreshPresence_def keeps_upds keeps_publish
      keeps_presence Let_def split: option.split prod.split)

lemma typing_inv: "hub_inv h \<Longrightarrow> hub_inv (typing_broadcast E ch u t h)"
  by (simp add: typing_broadcast_def keeps_fanout keeps_publish Let_def split: option.split)

lemma arg_handlers_inv:
  assumes "hub_inv h"
  shows "hub_inv (handleSubscribe E r d h)" "hub_inv (handleUnsubscribe E r d h)" "hub_inv (handleTyping E r d t h)"
    "hub_inv (handleCollabJoin E r d h)" "hub_inv (handleCollabLeave E r d h)"
proof -
  have c: "hub_inv (upd_client r (\<lambda>_. c) h)" if "channelArg E d (get_client r h) = (x, c)" for x c
    using keeps_const [OF assms channelArg_client(1) [of E d], of c r] that by simp
  have e: "hub_inv (upd_client r (\<lambda>_. c) h)" if "documentArg E d (get_client r h) = (x, c)" for x c
    using keeps_const [OF assms documentArg_client(1) [of E d], of c r] that by simp
  show "hub_inv (handleSubscribe E r d h)" "hub_inv (handleUnsubscribe E r d h)" "hub_inv (handleTyping E r d t h)"
    using assms c by (simp_all add: handleSubscribe_def handleUnsubscribe_def handleTyping_def keeps_upds typing_inv
        split: option.split prod.split sum.split)
  show "hub_inv (handleCollabJoin E r d h)" "hub_inv (handleCollabLeave E r d h)"
    using assms e by (simp_all add: handleCollabJoin_def handleCollabLeave_def keeps_upds Let_def
        split: option.split prod.split sum.split)
qed

lemma handleMessage_inv: "hub_inv h \<Longrightarrow> hub_inv (handleMessage E r msg h)"
  by (simp add: handleMessage_def Let_def handlers_inv arg_handlers_inv keeps_upds)

lemma charge_inv: "hub_inv h \<Longrightarrow> hub_inv (snd (charge collab now r h))"
  using keeps_const [OF _ safe_charge [of collab now], of h _ r] by (simp add: charge_def case_prod_beta)

lemma read_frame_inv: "hub_inv h \<Longrightarrow> hub_inv (read_frame E now r data h)"
proof -
  assume "hub_inv h"
  then have "hub_inv h'" if "charge collab now r h = (x, h')" for collab x h'
    using charge_inv [of h collab now r] that by simp
  then show ?thesis
    by (auto simp: read_frame_def stop_reading_def keeps_upds handleMessage_inv split: option.split prod.split)
qed

section \<open>The machine\<close>

datatype ws_op =
    Op_Accept string string "string list" int
  | Op_Register cref
  | Op_Greet ws_env cref "int option" "string list"
  | Op_Frame ws_env int cref RawMessage
  | Op_ReadError cref
  | Op_PumpPanic cref
  | Op_Write cref
  | Op_Ping ws_env bool cref
  | Op_Recheck ws_env cref
  | Op_Unregister cref
  | Op_Leave ws_env cref "bool option" "string list"
  | Op_StartNATSBridge
  | Op_StartRoomBridge
  | Op_Nats ws_env nats_msg
  | Op_BroadcastToChannel ws_env string string RawMessage string
  | Op_BroadcastLocal string string RawMessage string
  | Op_BroadcastToUser string string RawMessage
  | Op_BroadcastToRoom ws_env string string RawMessage
  | Op_AskRoomLeader ws_env string string RawMessage
  | Op_PublishDomain ws_env string string string string json
  | Op_RevokeChannelSubscription ws_env string string
  | Op_RevokeChannelForAll ws_env string
  | Op_RevokeWorkspaceMembership ws_env string string "string list"
  | Op_RevokeRoom ws_env string string
  | Op_RevokeRoomForAll ws_env string
  | Op_Shutdown
  | Op_RunExit

fun ws_step :: "ws_op \<Rightarrow> hub \<Rightarrow> hub" where
  "ws_step (Op_Accept u k ws now) h = accept_client u k ws now h"
| "ws_step (Op_Register r) h = run_register r h"
| "ws_step (Op_Greet E r conns ws) h = greet E r conns ws h"
| "ws_step (Op_Frame E now r data) h = read_frame E now r data h"
| "ws_step (Op_ReadError r) h = stop_reading r h"
| "ws_step (Op_PumpPanic r) h = upd_client r recoverPump h"
| "ws_step (Op_Write r) h = upd_client r write_next h"
| "ws_step (Op_Ping E answered r) h = keepalive_ping E answered r h"
| "ws_step (Op_Recheck E r) h = keepalive_recheck E r h"
| "ws_step (Op_Unregister r) h = run_unregister r h"
| "ws_step (Op_Leave E r l ws) h = leave E r l ws h"
| "ws_step Op_StartNATSBridge h = StartNATSBridge h"
| "ws_step Op_StartRoomBridge h = StartRoomBridge h"
| "ws_step (Op_Nats E m) h = on_nats E m h"
| "ws_step (Op_BroadcastToChannel E ch t d x) h = BroadcastToChannel E ch t d x h"
| "ws_step (Op_BroadcastLocal ch t d x) h = BroadcastLocal ch t d x h"
| "ws_step (Op_BroadcastToUser u t d) h = BroadcastToUser u t d h"
| "ws_step (Op_BroadcastToRoom E doc t d) h = BroadcastToRoom E doc t d h"
| "ws_step (Op_AskRoomLeader E doc t d) h = snd (AskRoomLeader E doc t d h)"
| "ws_step (Op_PublishDomain E w a b t p) h = publishDomain E w a b t p h"
| "ws_step (Op_RevokeChannelSubscription E u ch) h = RevokeChannelSubscription E u ch h"
| "ws_step (Op_RevokeChannelForAll E ch) h = RevokeChannelForAll E ch h"
| "ws_step (Op_RevokeWorkspaceMembership E u w chs) h = RevokeWorkspaceMembership E u w chs h"
| "ws_step (Op_RevokeRoom E u doc) h = RevokeRoom E u doc h"
| "ws_step (Op_RevokeRoomForAll E doc) h = RevokeRoomForAll E doc h"
| "ws_step Op_Shutdown h = Shutdown h"
| "ws_step Op_RunExit h = run_exit h"

text \<open>
  When an operation can happen. A connection id is a fresh \<open>uuid.NewString\<close>. A handler registers its client once, and only the
  running loop takes registrations; the loop ends only after \<open>done\<close> was closed, but its \<open>select\<close> may still take one that is
  waiting. The read pump unregisters when it has stopped reading.
\<close>

fun ws_guard :: "ws_op \<Rightarrow> hub \<Rightarrow> bool" where
  "ws_guard (Op_Accept u k ws now) h \<longleftrightarrow> k \<notin> set (map cl_connID (hb_heap h))"
| "ws_guard (Op_Register r) h \<longleftrightarrow> r < length (hb_heap h) \<and> r \<notin> set (all_conns h) \<and> hb_running h"
| "ws_guard (Op_Greet E r conns ws) h \<longleftrightarrow> r < length (hb_heap h)"
| "ws_guard (Op_Frame E now r data) h \<longleftrightarrow> r < length (hb_heap h) \<and> cl_reading (get_client r h)"
| "ws_guard (Op_ReadError r) h \<longleftrightarrow> r < length (hb_heap h) \<and> cl_reading (get_client r h)"
| "ws_guard (Op_PumpPanic r) h \<longleftrightarrow> r < length (hb_heap h)"
| "ws_guard (Op_Write r) h \<longleftrightarrow> r < length (hb_heap h)"
| "ws_guard (Op_Ping E answered r) h \<longleftrightarrow> r < length (hb_heap h)"
| "ws_guard (Op_Recheck E r) h \<longleftrightarrow> r < length (hb_heap h)"
| "ws_guard (Op_Unregister r) h \<longleftrightarrow> r < length (hb_heap h) \<and> \<not> cl_reading (get_client r h) \<and> hb_running h"
| "ws_guard (Op_Leave E r l ws) h \<longleftrightarrow> r < length (hb_heap h)"
| "ws_guard Op_RunExit h \<longleftrightarrow> hb_running h \<and> hb_done h"
| "ws_guard _ h \<longleftrightarrow> True"

lemma publish_revokes_inv:
  "hub_inv (publishRevoke E u ch h) = hub_inv h" "hub_inv (publishWorkspaceRevoke E u w chs h) = hub_inv h"
  "hub_inv (publishRoomRevoke E u doc h) = hub_inv h"
  by (simp_all add: publishRevoke_def publishWorkspaceRevoke_def publishRoomRevoke_def keeps_publish)

lemma lifecycle_inv:
  assumes "hub_inv h"
  shows "hub_inv (greet E r conns ws h)" "hub_inv (leave E r l ws h)" "hub_inv (keepalive_ping E answered r h)"
    "hub_inv (keepalive_recheck E r h)" "hub_inv (stop_reading r h)" "hub_inv (run_exit h)"
  using assms
  by (simp_all add: greet_def leave_def keepalive_ping_def keepalive_recheck_def stop_reading_def handlers_inv keeps_upds
      keeps_presence keeps_publish Let_def split: option.split)
    (simp add: run_exit_def hub_inv_def)

lemma bridge_inv: "hub_inv (StartNATSBridge h) = hub_inv h" "hub_inv (StartRoomBridge h) = hub_inv h"
  by (simp_all add: hub_inv_def StartNATSBridge_def StartRoomBridge_def)

interpretation ws: guarded_machine ws_step ws_guard hub_inv
proof
  fix h op
  assume "hub_inv h" "ws_guard op h"
  then show "hub_inv (ws_step op h)"
    by (cases op)
      (simp_all add: accept_inv register_inv unregister_inv shutdown_inv read_frame_inv lifecycle_inv bridge_inv keeps_upds keeps_on_nats
        keeps_fanout keeps_leader keeps_publishDomain RevokeChannelSubscription_def RevokeChannelForAll_def
        RevokeWorkspaceMembership_def RevokeRoom_def RevokeRoomForAll_def publish_revokes_inv keeps_revocation)
qed

lemma NewHub_inv: "hub_inv (NewHub i)"
  by (simp add: hub_inv_def NewHub_def registry_ok_def)

end
