(* ===== verification/Ws_Properties.thy ===== *)
theory Ws_Properties
  imports Ws_Invariant
begin

text \<open>
  What the socket layer promises: the inbound budget, the registry's invariant over every history, delivery and revocation across
  replicas, and which frames reach the collaboration layer.
\<close>

section \<open>Inbound budget\<close>

fun allowed_count :: "int list \<Rightarrow> tokenBucket \<Rightarrow> nat" where
  "allowed_count [] b = 0"
| "allowed_count (t # ts) b = (case allow t b of (ok, b') \<Rightarrow> (if ok then 1 else 0) + allowed_count ts b')"

definition bucket_after :: "int list \<Rightarrow> tokenBucket \<Rightarrow> tokenBucket" where
  "bucket_after ts b = fold (\<lambda>t b. snd (allow t b)) ts b"

fun paced :: "rat \<Rightarrow> int \<Rightarrow> int list \<Rightarrow> bool" where
  "paced rate prev [] \<longleftrightarrow> True"
| "paced rate prev (t # ts) \<longleftrightarrow> 1 \<le> Seconds (t - prev) * rate \<and> t - prev < 2 ^ 63 \<and> paced rate t ts"

lemma refill_fields [simp]: "tb_rate (refill t b) = tb_rate b" "tb_burst (refill t b) = tb_burst b"
  by (simp_all add: refill_def Let_def)

lemma refill_tokens:
  assumes "0 \<le> tb_rate b"
  shows "tb_tokens (refill t b) - tb_rate b * Seconds (tb_last (refill t b)) \<le> tb_tokens b - tb_rate b * Seconds (tb_last b)"
    and "tb_last b \<le> tb_last (refill t b)" "tb_last (refill t b) \<le> max t (tb_last b)"
proof -
  have "Seconds (time_Sub t (tb_last b)) \<le> Seconds (t - tb_last b)" if "time_Sub t (tb_last b) > 0"
    using that by (simp add: Seconds_def time_Sub_def divide_right_mono)
  then have "Seconds (time_Sub t (tb_last b)) * tb_rate b \<le> Seconds t * tb_rate b - Seconds (tb_last b) * tb_rate b"
    if "time_Sub t (tb_last b) > 0"
    using that mult_right_mono [OF _ assms] by (fastforce simp: Seconds_def diff_divide_distrib left_diff_distrib)
  then show "tb_tokens (refill t b) - tb_rate b * Seconds (tb_last (refill t b)) \<le> tb_tokens b - tb_rate b * Seconds (tb_last b)"
    by (auto simp: refill_def Let_def algebra_simps)
  show "tb_last b \<le> tb_last (refill t b)" "tb_last (refill t b) \<le> max t (tb_last b)"
    by (auto simp: refill_def Let_def time_Sub_def split: if_splits)
qed

lemma Seconds_mono: "s \<le> t \<Longrightarrow> Seconds s \<le> Seconds t"
  by (simp add: Seconds_def divide_right_mono)

lemma allowed_count_bound:
  assumes "0 \<le> tb_rate b" "0 \<le> tb_tokens b" "0 \<le> tb_burst b" "\<And>t. t \<in> set ts \<Longrightarrow> t \<le> T" "tb_last b \<le> T"
  shows "of_nat (allowed_count ts b) \<le> tb_tokens b + tb_rate b * (Seconds T - Seconds (tb_last b))"
  using assms
proof (induction ts arbitrary: b)
  case Nil
  then show ?case using Seconds_mono [of "tb_last b" T] by simp
next
  case (Cons t ts)
  define c where "c = refill t b"
  have c: "tb_rate c = tb_rate b" "tb_last c \<le> T" "0 \<le> tb_tokens c"
    "tb_tokens c - tb_rate b * Seconds (tb_last c) \<le> tb_tokens b - tb_rate b * Seconds (tb_last b)"
    using refill_tokens [of b t] Cons.prems
    by (auto simp: c_def intro: order_trans) (auto simp: refill_def Let_def Seconds_def)
  define d where "d = (if tb_tokens c < 1 then c else c\<lparr>tb_tokens := tb_tokens c - 1\<rparr>)"
  have "of_nat (allowed_count ts d) \<le> tb_tokens d + tb_rate b * (Seconds T - Seconds (tb_last c))"
    using Cons.IH [of d] Cons.prems c by (auto simp: d_def c_def)
  then show ?case
    using c(4) by (auto simp: allow_def Let_def d_def c_def [symmetric] algebra_simps)
qed

lemma paced_all_allowed:
  assumes "paced (tb_rate b) (tb_last b) ts" "0 \<le> tb_rate b" "0 \<le> tb_tokens b" "1 \<le> tb_burst b"
  shows "allowed_count ts b = length ts"
  using assms
proof (induction ts arbitrary: b)
  case (Cons t ts)
  have step: "1 \<le> Seconds (t - tb_last b) * tb_rate b" "t - tb_last b < 2 ^ 63"
    using Cons.prems by simp_all
  have "0 < Seconds (t - tb_last b)"
  proof (rule ccontr)
    assume "\<not> 0 < Seconds (t - tb_last b)"
    then have "Seconds (t - tb_last b) * tb_rate b \<le> 0"
      using Cons.prems(2) by (simp add: mult_nonpos_nonneg)
    with step(1) show False by simp
  qed
  then have pos: "0 < t - tb_last b" by (simp add: Seconds_def zero_less_divide_iff)
  then have sub: "time_Sub t (tb_last b) = t - tb_last b"
    using step by (simp add: time_Sub_def)
  define c where "c = refill t b"
  have c: "1 \<le> tb_tokens c" "tb_last c = t" "tb_rate c = tb_rate b" "tb_burst c = tb_burst b"
    using step pos sub Cons.prems by (auto simp: c_def refill_def Let_def)
  then have "allowed_count ts (c\<lparr>tb_tokens := tb_tokens c - 1\<rparr>) = length ts"
    using Cons.prems by (intro Cons.IH) auto
  then show ?case using c(1) by (simp add: allow_def Let_def c_def [symmetric])
qed simp

lemma refill_capped:
  "0 \<le> tb_rate b \<Longrightarrow> 0 \<le> tb_tokens b \<Longrightarrow> tb_tokens b \<le> tb_burst b \<Longrightarrow>
     0 \<le> tb_tokens (refill t b) \<and> tb_tokens (refill t b) \<le> tb_burst b \<and> t \<le> tb_last (refill t b)"
  by (auto simp: refill_def Let_def time_Sub_def Seconds_def)

lemma bucket_after_capped:
  "0 \<le> tb_rate b \<Longrightarrow> 0 \<le> tb_tokens b \<Longrightarrow> tb_tokens b \<le> tb_burst b \<Longrightarrow>
     tb_rate (bucket_after ts b) = tb_rate b \<and> tb_burst (bucket_after ts b) = tb_burst b \<and>
     0 \<le> tb_tokens (bucket_after ts b) \<and> tb_tokens (bucket_after ts b) \<le> tb_burst b"
proof (induction ts arbitrary: b)
  case (Cons t ts)
  have "tb_rate (snd (allow t b)) = tb_rate b \<and> tb_burst (snd (allow t b)) = tb_burst b \<and>
      0 \<le> tb_tokens (snd (allow t b)) \<and> tb_tokens (snd (allow t b)) \<le> tb_burst b"
    using refill_capped [OF Cons.prems, of t] by (auto simp: allow_def Let_def)
  then show ?case using Cons.IH [of "snd (allow t b)"] Cons.prems by (simp add: bucket_after_def)
qed (simp add: bucket_after_def)

lemma window_bound:
  assumes "0 \<le> tb_rate b" "0 \<le> tb_tokens b" "tb_tokens b \<le> tb_burst b" "\<forall>t \<in> set ts. S \<le> t \<and> t \<le> T" "S \<le> T"
  shows "of_nat (allowed_count ts b) \<le> tb_burst b + tb_rate b * (Seconds T - Seconds S)"
proof (cases ts)
  case Nil
  then show ?thesis using assms Seconds_mono [OF assms(5)] by simp
next
  case (Cons t us)
  define c where "c = refill t b"
  define d where "d = (if tb_tokens c < 1 then c else c\<lparr>tb_tokens := tb_tokens c - 1\<rparr>)"
  have c: "0 \<le> tb_tokens c" "tb_tokens c \<le> tb_burst b" "S \<le> tb_last c" "tb_rate c = tb_rate b"
    using refill_capped [OF assms(1-3), of t] assms(4) Cons by (auto simp: c_def)
  have "of_nat (allowed_count us d) \<le> tb_tokens d + tb_rate d * (Seconds (max T (tb_last d)) - Seconds (tb_last d))"
    using assms c Cons by (intro allowed_count_bound) (auto simp: d_def c_def)
  then have n: "of_nat (allowed_count ts b) \<le> tb_tokens c + tb_rate b * (Seconds (max T (tb_last c)) - Seconds (tb_last c))"
    using c(4) by (auto simp: Cons allow_def Let_def d_def c_def [symmetric])
  have "Seconds (max T (tb_last c)) - Seconds (tb_last c) \<le> Seconds T - Seconds S"
    using Seconds_mono [OF c(3)] Seconds_mono [OF assms(5)] by (simp add: max_def)
  then have "tb_rate b * (Seconds (max T (tb_last c)) - Seconds (tb_last c)) \<le> tb_rate b * (Seconds T - Seconds S)"
    using assms(1) by (rule mult_left_mono)
  then show ?thesis using n c(2) by linarith
qed

text \<open>
  C24. Whatever frames a connection sent before, the inbound limiter admits in any window of time from \<open>S\<close> to \<open>T\<close> at most the burst plus
  the rate times the length of the window: time without traffic saves up no more than the burst. The frames of the window may come in any
  number and order (the clock may jump back). And frames that follow the last refill, and one another, by at least one refill interval are
  all admitted, if the burst is at least one.
\<close>

theorem inbound_budget:
  assumes "0 \<le> rate" "0 \<le> burst" "\<forall>t \<in> set ts. S \<le> t \<and> t \<le> T" "S \<le> T" "b = bucket_after pre (newTokenBucket rate burst t0)"
  shows "of_nat (allowed_count ts b) \<le> burst + rate * (Seconds T - Seconds S) \<and>
    (1 \<le> burst \<longrightarrow> paced rate (tb_last b) us \<longrightarrow> allowed_count us b = length us)"
proof -
  have b: "tb_rate b = rate" "tb_burst b = burst" "0 \<le> tb_tokens b" "tb_tokens b \<le> burst"
    using bucket_after_capped [of "newTokenBucket rate burst t0" pre] assms(1,2,5) by (simp_all add: newTokenBucket_def)
  then show ?thesis using window_bound [OF _ _ _ assms(3,4), of b] paced_all_allowed [of b us] assms(1) by simp
qed

theorem inbound_budget_witness:
  "of_nat (allowed_count (replicate 4 9000000000 @ [10000000000]) (bucket_after [0] (newTokenBucket 1 2 0)))
     \<le> (2 :: rat) + 1 * (Seconds 10000000000 - Seconds 9000000000) \<and>
   allowed_count (replicate 4 9000000000 @ [10000000000]) (bucket_after [0] (newTokenBucket 1 2 0)) = 3 \<and>
   allowed_count [1000000000, 2000000000] (bucket_after [0] (newTokenBucket 1 2 0)) = 2"
proof -
  have l: "tb_last (bucket_after [0] (newTokenBucket 1 2 0)) = 0"
    by (simp add: bucket_after_def allow_def refill_def newTokenBucket_def time_Sub_def)
  have p: "paced 1 0 [1000000000, 2000000000]" by (simp add: Seconds_def)
  have n: "allowed_count (replicate 4 9000000000 @ [10000000000]) (bucket_after [0] (newTokenBucket 1 2 0)) = 3"
    by (simp add: numeral_eq_Suc bucket_after_def allow_def refill_def newTokenBucket_def time_Sub_def Seconds_def)
  show ?thesis
    using inbound_budget [of 1 2 "replicate 4 9000000000 @ [10000000000]" 9000000000 10000000000 _ "[0]" 0 "[1000000000, 2000000000]", OF _ _ _ _ refl]
      p n l by simp
qed

section \<open>The registry over every history\<close>

lemma conns_distinct:
  assumes "distinct (map fst conns)" "\<And>k r. (k, r) \<in> set conns \<Longrightarrow> ids ! r = (u, k)"
  shows "distinct (map snd conns)"
  using assms
proof (induction conns)
  case (Cons a conns)
  have "snd a \<notin> snd ` set conns"
  proof
    assume "snd a \<in> snd ` set conns"
    then obtain k where k: "(k, snd a) \<in> set conns" by auto
    then have "k = fst a" using Cons.prems(2) [of k "snd a"] Cons.prems(2) [of "fst a" "snd a"] by simp
    with k Cons.prems(1) show False by force
  qed
  with Cons show ?case by auto
qed simp

lemma distinct_refs:
  assumes "distinct (map fst cs)" "\<And>u conns. (u, conns) \<in> set cs \<Longrightarrow> distinct (map fst conns)"
    "\<And>u conns k r. (u, conns) \<in> set cs \<Longrightarrow> (k, r) \<in> set conns \<Longrightarrow> ids ! r = (u, k)"
  shows "distinct (concat (map (\<lambda>(u, conns). map snd conns) cs))"
  using assms
proof (induction cs)
  case (Cons a cs)
  obtain u conns where a: "a = (u, conns)" by fastforce
  have "set (map snd conns) \<inter> set (concat (map (\<lambda>(u, conns). map snd conns) cs)) = {}"
  proof (rule ccontr)
    assume "\<not> ?thesis"
    then obtain k r v conns' k' where m: "(k, r) \<in> set conns" "(v, conns') \<in> set cs" "(k', r) \<in> set conns'" by fastforce
    then have "v = u" using Cons.prems(3) [of u conns k r] Cons.prems(3) [of v conns' k' r] a by simp
    with m Cons.prems(1) a show False by force
  qed
  moreover have "distinct (map snd conns)"
    using Cons.prems(2) [of u conns] Cons.prems(3) [of u conns] a by (intro conns_distinct [of conns ids u]) auto
  moreover have "distinct (concat (map (\<lambda>(u, conns). map snd conns) cs))"
    using Cons.prems(1) by (intro Cons.IH Cons.prems(2)) (auto intro: Cons.prems(3))
  ultimately show ?case using a by simp
qed simp

lemma count_refs: "(\<Sum>(u, conns) \<leftarrow> cs. int (length conns)) = int (length (concat (map (\<lambda>(u, conns). map snd conns) cs)))"
  by (induction cs) auto

lemma registry_refs:
  assumes "hub_inv h"
  shows "distinct (all_conns h)" "hb_total h = int (length (all_conns h))"
    "\<And>u conns k r. (u, conns) \<in> set (hb_clients h) \<Longrightarrow> (k, r) \<in> set conns \<Longrightarrow>
       r < length (hb_heap h) \<and> cl_userID (get_client r h) = u \<and> cl_connID (get_client r h) = k"
    "\<And>u. conns_of u h \<noteq> [] \<longleftrightarrow> u \<in> set (map fst (hb_clients h))"
proof -
  have reg: "registry_ok (hb_clients h) (hb_total h) (map ident (hb_heap h))" using assms by (simp add: hub_inv_def)
  have ids: "r < length (hb_heap h) \<and> map ident (hb_heap h) ! r = (u, k)"
    if "(u, conns) \<in> set (hb_clients h)" "(k, r) \<in> set conns" for u conns k r
    using reg that by (fastforce simp: registry_ok_def)
  show "r < length (hb_heap h) \<and> cl_userID (get_client r h) = u \<and> cl_connID (get_client r h) = k"
    if "(u, conns) \<in> set (hb_clients h)" "(k, r) \<in> set conns" for u conns k r
    using ids [OF that] by (auto simp: ident_def get_client_def)
  show "distinct (all_conns h)"
    unfolding all_conns_def
  proof (rule distinct_refs)
    show "distinct (map fst (hb_clients h))" "\<And>u conns. (u, conns) \<in> set (hb_clients h) \<Longrightarrow> distinct (map fst conns)"
      using reg by (auto simp: registry_ok_def)
    show "\<And>u conns k r. (u, conns) \<in> set (hb_clients h) \<Longrightarrow> (k, r) \<in> set conns \<Longrightarrow> map ident (hb_heap h) ! r = (u, k)"
      using ids by blast
  qed
  show "hb_total h = int (length (all_conns h))"
    using reg by (simp add: registry_ok_def all_conns_def count_refs)
  show "conns_of u h \<noteq> [] \<longleftrightarrow> u \<in> set (map fst (hb_clients h))" for u
  proof (cases "map_of (hb_clients h) u")
    case None
    then have "u \<notin> fst ` set (hb_clients h)" by (simp add: map_of_eq_None_iff)
    with None show ?thesis by (simp add: conns_of_def)
  next
    case (Some conns)
    with registry_okD(1) [OF reg Some] show ?thesis
      using map_of_SomeD [OF Some] by (force simp: conns_of_def)
  qed
qed

lemma mem_conns:
  assumes "hub_inv h"
  shows "r \<in> set (all_conns h) \<Longrightarrow> r < length (hb_heap h)"
    "r \<in> set (userTargets u h) \<longleftrightarrow> r \<in> set (all_conns h) \<and> cl_userID (get_client r h) = u"
proof -
  show "r < length (hb_heap h)" if "r \<in> set (all_conns h)"
    using that registry_refs(3) [OF assms] by (auto simp: mem_all_conns)
  show "r \<in> set (userTargets u h) \<longleftrightarrow> r \<in> set (all_conns h) \<and> cl_userID (get_client r h) = u"
  proof
    assume "r \<in> set (userTargets u h)"
    then obtain k conns where "map_of (hb_clients h) u = Some conns" "(k, r) \<in> set conns"
      by (cases "map_of (hb_clients h) u") (auto simp: userTargets_def conns_of_def)
    then show "r \<in> set (all_conns h) \<and> cl_userID (get_client r h) = u"
      using registry_refs(3) [OF assms, of u conns k r] map_of_SomeD [of "hb_clients h" u conns] by (auto simp: mem_all_conns)
  next
    assume a: "r \<in> set (all_conns h) \<and> cl_userID (get_client r h) = u"
    then obtain v conns k where m: "(v, conns) \<in> set (hb_clients h)" "(k, r) \<in> set conns" by (auto simp: mem_all_conns)
    moreover have "v = u" using registry_refs(3) [OF assms m] a by simp
    moreover have "distinct (map fst (hb_clients h))" using assms by (simp add: hub_inv_def registry_ok_def)
    ultimately show "r \<in> set (userTargets u h)" by (force simp: userTargets_def conns_of_def)
  qed
qed

lemma IsOnline_iff:
  assumes "hub_inv h"
  shows "IsOnline u h \<longleftrightarrow> (\<exists>r \<in> set (all_conns h). cl_userID (get_client r h) = u)"
    "IsOnline u h \<longleftrightarrow> u \<in> set (GetOnlineUserIDs h)"
proof -
  have "IsOnline u h \<longleftrightarrow> (\<exists>r. r \<in> set (userTargets u h))"
    by (cases "conns_of u h") (auto simp: IsOnline_def userTargets_def)
  then show "IsOnline u h \<longleftrightarrow> (\<exists>r \<in> set (all_conns h). cl_userID (get_client r h) = u)"
    using mem_conns(2) [OF assms] by auto
  show "IsOnline u h \<longleftrightarrow> u \<in> set (GetOnlineUserIDs h)"
    using registry_refs(4) [OF assms, of u] by (simp add: IsOnline_def GetOnlineUserIDs_def)
qed

text \<open>
  C25. After any history of operations of a fresh hub (bridges starting, connections opening and closing, frames, pings, sweeps,
  panics of a pump, broadcasts, revocations, messages from other replicas, shutdown), the counter is the number of registered
  connections, no connection is registered twice, a user is online exactly while one of their connections is registered, and every connection that was ever
  opened has at most \<open>sendBuffer\<close> queued frames, strictly increasing sequence numbers over everything written and queued, is closed
  once it dropped 32 frames in a row or overran its budget 20 times, and holds between 0 and its burst of tokens.
\<close>

theorem ws_history_invariant:
  assumes "guarded_run ws_step ws_guard ops (NewHub i) = Some h"
  shows "ConnectionCount h = int (length (all_conns h)) \<and> distinct (all_conns h) \<and>
    (IsOnline u h \<longleftrightarrow> (\<exists>r \<in> set (all_conns h). cl_userID (get_client r h) = u)) \<and>
    (IsOnline u h \<longleftrightarrow> u \<in> set (GetOnlineUserIDs h)) \<and> list_all client_ok (hb_heap h)"
proof -
  have inv: "hub_inv h" by (rule ws.run_inv [OF NewHub_inv assms])
  then show ?thesis
    using registry_refs(1,2) [OF inv] IsOnline_iff [OF inv] by (auto simp: ConnectionCount_def hub_inv_def list_all_iff)
qed

section \<open>Fan-out\<close>

lemma get_upd: "get_client r (upd_client q f h) = (if r = q \<and> q < length (hb_heap h) then f (get_client q h) else get_client r h)"
  by (cases "r = q") (simp_all add: get_client_def upd_client_def nth_list_update_neq list_update_beyond not_less)

lemma upd_fields [simp]:
  "hb_clients (upd_client q f h) = hb_clients h" "hb_id (upd_client q f h) = hb_id h" "hb_nats (upd_client q f h) = hb_nats h"
  "length (hb_heap (upd_client q f h)) = length (hb_heap h)" "hb_published (upd_client q f h) = hb_published h"
  "hb_calls (upd_client q f h) = hb_calls h" "all_conns (upd_client q f h) = all_conns h"
  by (simp_all add: upd_client_def all_conns_def)

lemma fold_upd_fields [simp]:
  fixes h :: hub and rs f
  defines "h' \<equiv> fold (\<lambda>r. upd_client r f) rs h"
  shows "hb_clients h' = hb_clients h" "hb_id h' = hb_id h" "hb_nats h' = hb_nats h" "length (hb_heap h') = length (hb_heap h)"
    "hb_published h' = hb_published h" "hb_calls h' = hb_calls h" "all_conns h' = all_conns h"
  unfolding h'_def by (induction rs arbitrary: h) auto

lemma get_fold_upd:
  "distinct rs \<Longrightarrow> get_client r (fold (\<lambda>r. upd_client r f) rs h) =
     (if r \<in> set rs \<and> r < length (hb_heap h) then f (get_client r h) else get_client r h)"
  by (induction rs arbitrary: h) (auto simp: get_upd)

lemma mem_channelTargets:
  assumes "hub_inv h"
  shows "r \<in> set (channelTargets ch x h) \<longleftrightarrow>
    r \<in> set (all_conns h) \<and> cl_userID (get_client r h) \<noteq> x \<and> IsSubscribed ch (get_client r h)"
proof -
  have "r \<in> set (channelTargets ch x h) \<longleftrightarrow>
      (\<exists>u conns k. (u, conns) \<in> set (hb_clients h) \<and> (k, r) \<in> set conns \<and> u \<noteq> x \<and> IsSubscribed ch (get_client r h))"
    by (force simp: channelTargets_def split: if_splits)
  then show ?thesis
    unfolding mem_all_conns using registry_refs(3) [OF assms] by blast
qed

lemma distinct_concat_filter:
  "distinct (concat (map (\<lambda>(u, conns). map snd conns) cs)) \<Longrightarrow>
   distinct (concat (map (\<lambda>(u, conns). if P u then [] else filter Q (map snd conns)) cs))"
proof (induction cs)
  case (Cons a cs)
  obtain u conns where a: "a = (u, conns)" by fastforce
  let ?all = "concat (map (\<lambda>(u, conns). map snd conns) cs)"
  let ?some = "concat (map (\<lambda>(u, conns). if P u then [] else filter Q (map snd conns)) cs)"
  have sub: "set ?some \<subseteq> set ?all" by (auto split: if_splits)
  have d: "distinct (map snd conns)" "distinct ?all" "set (map snd conns) \<inter> set ?all = {}"
    using Cons.prems a by (simp_all only: list.map concat.simps prod.case distinct_append)
  have "set (filter Q (map snd conns)) \<inter> set ?some = {}"
    using sub d(3) unfolding set_filter by blast
  then have "distinct ((if P u then [] else filter Q (map snd conns)) @ ?some)"
    unfolding distinct_append using Cons.IH [OF d(2)] distinct_filter [OF d(1)] by simp
  then show ?case by (simp only: a list.map concat.simps prod.case)
qed simp

lemma distinct_channelTargets: "hub_inv h \<Longrightarrow> distinct (channelTargets ch x h)"
  unfolding channelTargets_def using registry_refs(1) [of h]
  by (intro distinct_concat_filter) (simp add: all_conns_def)

lemma localBroadcast_get:
  assumes "hub_inv h"
  shows "get_client r (localBroadcast ch f x h) =
    (if r \<in> set (all_conns h) \<and> cl_userID (get_client r h) \<noteq> x \<and> IsSubscribed ch (get_client r h)
     then sendFrame f (get_client r h) else get_client r h)"
  using get_fold_upd [OF distinct_channelTargets [OF assms]] mem_conns(1) [OF assms]
  by (auto simp: localBroadcast_def send_all_def mem_channelTargets [OF assms])

section \<open>Replicas\<close>

text \<open>
  NATS is a parameter. Core NATS delivers a published message to each subscription at most once and at some later time; \<open>net m j\<close> is
  \<open>None\<close> when the message never reaches replica \<open>j\<close> (it was lost, or the replica has no subscription), and \<open>Some work\<close> when it does, after
  the replica did \<open>work\<close> in the meantime. The publisher gets its own message back as any other replica. \<open>local_work\<close> is what the code
  relies on: what a replica does keeps its invariant and its id.
\<close>

type_synonym network = "nats_msg \<Rightarrow> nat \<Rightarrow> (hub \<Rightarrow> hub) option"

definition local_work :: "network \<Rightarrow> bool" where
  "local_work net \<longleftrightarrow> (\<forall>m j work h. net m j = Some work \<longrightarrow> hb_id (work h) = hb_id h \<and> (hub_inv h \<longrightarrow> hub_inv (work h)))"

definition arrive :: "ws_env \<Rightarrow> network \<Rightarrow> nats_msg \<Rightarrow> nat \<Rightarrow> hub \<Rightarrow> hub" where
  "arrive E net m j h = (case net m j of None \<Rightarrow> h | Some work \<Rightarrow> on_nats E m (work h))"

definition cluster_op :: "ws_env \<Rightarrow> network \<Rightarrow> (hub \<Rightarrow> hub) \<Rightarrow> nat \<Rightarrow> hub list \<Rightarrow> hub list" where
  "cluster_op E net g i hs =
     (let h = g (hs ! i);
          new = drop (length (hb_published (hs ! i))) (hb_published h) in
      fold (\<lambda>(subject, m) hs. map (\<lambda>j. arrive E net m j (hs ! j)) [0..<length hs]) new (hs[i := h]))"

lemma cluster_op_publish:
  assumes "i < length hs" "j < length hs" "hb_published (g (hs ! i)) = hb_published (hs ! i) @ [(s, m)]"
  shows "cluster_op E net g i hs ! j = arrive E net m j (if j = i then g (hs ! i) else hs ! j)"
  using assms by (simp add: cluster_op_def Let_def nth_list_update)

lemma local_workD:
  "local_work net \<Longrightarrow> net m j = Some work \<Longrightarrow> hb_id (work h) = hb_id h"
  "local_work net \<Longrightarrow> net m j = Some work \<Longrightarrow> hub_inv h \<Longrightarrow> hub_inv (work h)"
  by (auto simp: local_work_def)

lemma broadcast_fields:
  "hb_published (localBroadcast ch f x h) = hb_published h" "hb_id (localBroadcast ch f x h) = hb_id h"
  "hb_nats (localBroadcast ch f x h) = hb_nats h" "hb_published (revokeLocal u ch h) = hb_published h"
  "hb_id (revokeLocal u ch h) = hb_id h" "hb_nats (revokeLocal u ch h) = hb_nats h" "all_conns (revokeLocal u ch h) = all_conns h"
  by (simp_all add: localBroadcast_def send_all_def revokeLocal_def)

lemma origin_differs:
  assumes "distinct (map hb_id hs)" "i < length hs" "j < length hs" "j \<noteq> i"
  shows "hb_id (hs ! i) \<noteq> hb_id (hs ! j)"
  using assms nth_eq_iff_index_eq [of "map hb_id hs" i j] by simp

lemma get_publish [simp]: "get_client r (nats_Publish E t m h) = get_client r h" "all_conns (nats_Publish E t m h) = all_conns h"
  "hb_id (nats_Publish E t m h) = hb_id h"
  by (simp_all add: nats_Publish_def get_client_def all_conns_def)

definition sent_once :: "string \<Rightarrow> frame \<Rightarrow> string \<Rightarrow> hub \<Rightarrow> hub \<Rightarrow> bool" where
  \<comment> \<open>from \<open>h\<close> to \<open>h'\<close>: one \<open>sendFrame\<close> to every registered connection subscribed to the channel, but those of the user \<open>x\<close>\<close>
  "sent_once ch f x h h' \<longleftrightarrow>
     (\<forall>r. get_client r h' =
        (let c = get_client r h in
         if r \<in> set (all_conns h) \<and> cl_userID c \<noteq> x \<and> IsSubscribed ch c then sendFrame f c else c))"

lemma localBroadcast_sent: "hub_inv h \<Longrightarrow> sent_once ch f x h (localBroadcast ch f x h)"
  by (simp add: sent_once_def localBroadcast_get Let_def)

text \<open>
  C26. Fan-out across replicas, at most once. When a replica with a bridge broadcasts to a channel, it sends the frame once to every
  registered connection of its own that is subscribed to the channel and does not belong to the excluded user, and its own envelope
  coming back changes nothing. On another replica that the envelope reaches, at whatever later time, every connection registered and
  subscribed there by then and not of the excluded user is sent the frame once; a replica that it does not reach sends nothing. No other
  connection changes. To be sent the frame is one call of \<open>sendFrame\<close>, which drops it when the buffer of the connection is full.
\<close>

theorem broadcast_exactly_once:
  assumes inv: "\<And>h. h \<in> set hs \<Longrightarrow> hub_inv h" and ids: "distinct (map hb_id hs)" and ij: "i < length hs" "j < length hs"
    and nats: "hb_nats (hs ! i)" "we_Publish E (''ws.broadcast.'' @ ch)" and net: "local_work net"
  shows "let g = BroadcastToChannel E ch t d x; hs' = cluster_op E net g i hs;
      m = Msg_Broadcast \<lparr>be_OriginID = hb_id (hs ! i), be_ChannelID = ch, be_ExcludeUserID = x, be_Type = t, be_Data = d\<rparr> in
    sent_once ch (newFrame t d) x (hs ! i) (g (hs ! i)) \<and>
    hs' ! i = (case net m i of None \<Rightarrow> g (hs ! i) | Some work \<Rightarrow> work (g (hs ! i))) \<and>
    (j \<noteq> i \<longrightarrow> (case net m j of None \<Rightarrow> hs' ! j = hs ! j | Some work \<Rightarrow> sent_once ch (newFrame t d) x (work (hs ! j)) (hs' ! j)))"
proof -
  let ?h = "hs ! i" and ?g = "BroadcastToChannel E ch t d x" and ?f = "newFrame t d"
  let ?m = "Msg_Broadcast \<lparr>be_OriginID = hb_id ?h, be_ChannelID = ch, be_ExcludeUserID = x, be_Type = t, be_Data = d\<rparr>"
  have g: "?g ?h = nats_Publish E (''ws.broadcast.'' @ ch) ?m (localBroadcast ch ?f x ?h)"
    using nats by (simp add: BroadcastToChannel_def publishToNATS_def broadcast_fields newFrame_def)
  then have "hb_published (?g ?h) = hb_published ?h @ [(''ws.broadcast.'' @ ch, ?m)]"
    using nats by (simp add: nats_Publish_def broadcast_fields)
  note c = cluster_op_publish [where g = ?g, OF ij(1) _ this]
  have "sent_once ch ?f x ?h (?g ?h)"
    using localBroadcast_sent [OF inv [OF nth_mem [OF ij(1)]]] by (simp add: g sent_once_def)
  moreover have "cluster_op E net ?g i hs ! i = (case net ?m i of None \<Rightarrow> ?g ?h | Some work \<Rightarrow> work (?g ?h))"
    unfolding c [OF ij(1)] using local_workD(1) [OF net]
    by (auto simp: arrive_def on_nats_def on_broadcast_def g broadcast_fields split: option.split)
  moreover have "case net ?m j of None \<Rightarrow> cluster_op E net ?g i hs ! j = hs ! j
      | Some work \<Rightarrow> sent_once ch ?f x (work (hs ! j)) (cluster_op E net ?g i hs ! j)" if "j \<noteq> i"
    unfolding c [OF ij(2)]
    using that origin_differs [OF ids ij] local_workD [OF net] localBroadcast_sent inv [OF nth_mem [OF ij(2)]]
    by (auto simp: arrive_def on_nats_def on_broadcast_def newFrame_def split: option.split)
  ultimately show ?thesis by (simp add: Let_def)
qed

lemma mem_revoke_targets:
  assumes "hub_inv h"
  shows "r \<in> set (revoke_targets u h) \<longleftrightarrow> r \<in> set (all_conns h) \<and> (u = '''' \<or> cl_userID (get_client r h) = u)"
  using mem_conns(2) [OF assms] by (simp add: revoke_targets_def)

lemma distinct_revoke_targets:
  assumes "hub_inv h"
  shows "distinct (revoke_targets u h)"
proof -
  have reg: "registry_ok (hb_clients h) (hb_total h) (map ident (hb_heap h))" using assms by (simp add: hub_inv_def)
  have "distinct (userTargets u h)"
    unfolding userTargets_def by (rule conns_distinct [OF conns_of_ok(1) [OF reg]]) (use conns_of_ok(2) [OF reg] in blast)
  then show ?thesis using registry_refs(1) [OF assms] by (simp add: revoke_targets_def)
qed

lemma revokeLocal_get:
  assumes "hub_inv h" "ch \<noteq> ''''"
  shows "get_client r (revokeLocal u ch h) =
    (if r \<in> set (all_conns h) \<and> (u = '''' \<or> cl_userID (get_client r h) = u) then revoke_subscription ch (get_client r h)
     else get_client r h)"
  using get_fold_upd [OF distinct_revoke_targets [OF assms(1)]] mem_conns(1) [OF assms(1)] assms(2)
  by (auto simp: revokeLocal_def mem_revoke_targets [OF assms(1)])

lemma unsubscribed: "\<not> IsSubscribed ch (revoke_subscription ch c)"
  "ch' \<noteq> ch \<Longrightarrow> IsSubscribed ch' (revoke_subscription ch c) = IsSubscribed ch' c" "cl_userID (revoke_subscription ch c) = cl_userID c"
  by (auto simp: revoke_subscription_def IsSubscribed_def SendMessage_def sendFrame_def trySend_def kill_def close_client_def
      Unsubscribe_def Let_def)

definition revoked_once :: "string \<Rightarrow> string \<Rightarrow> hub \<Rightarrow> hub \<Rightarrow> bool" where
  \<comment> \<open>from \<open>h\<close> to \<open>h'\<close>: the user (every user, for the empty id) has lost the subscription, and nothing else has changed of the registry\<close>
  "revoked_once u ch h h' \<longleftrightarrow> all_conns h' = all_conns h \<and>
     (\<forall>r ch'. let c = get_client r h; c' = get_client r h' in
        cl_userID c' = cl_userID c \<and>
        (IsSubscribed ch' c' \<longleftrightarrow>
           IsSubscribed ch' c \<and> \<not> (r \<in> set (all_conns h) \<and> ch' = ch \<and> (u = '''' \<or> cl_userID c = u))))"

lemma revokeLocal_revoked:
  assumes "hub_inv h" "ch \<noteq> ''''"
  shows "revoked_once u ch h (revokeLocal u ch h)"
  unfolding revoked_once_def Let_def
proof (intro conjI allI)
  show "all_conns (revokeLocal u ch h) = all_conns h" by (simp add: broadcast_fields)
  fix r ch'
  show "cl_userID (get_client r (revokeLocal u ch h)) = cl_userID (get_client r h)"
    using revokeLocal_get [OF assms] unsubscribed(3) by simp
  show "IsSubscribed ch' (get_client r (revokeLocal u ch h)) \<longleftrightarrow> IsSubscribed ch' (get_client r h) \<and>
      \<not> (r \<in> set (all_conns h) \<and> ch' = ch \<and> (u = '''' \<or> cl_userID (get_client r h) = u))"
    using revokeLocal_get [OF assms, of r u] unsubscribed(1,2) [where ch = ch] by (cases "ch' = ch") auto
qed

text \<open>
  C27. Revocation is cluster-wide. When a replica with a bridge revokes a user's subscription to a channel (every user's, for the empty
  user id), then no registered connection of that user is subscribed to the channel any more on that replica, nor on any replica that the
  envelope has reached, so no later broadcast to the channel selects one; every other subscription is as it was, and a replica that the
  envelope does not reach is unchanged.
\<close>

theorem revocation_reaches_every_replica:
  assumes inv: "\<And>h. h \<in> set hs \<Longrightarrow> hub_inv h" and ids: "distinct (map hb_id hs)" and ij: "i < length hs" "j < length hs"
    and nats: "hb_nats (hs ! i)" "we_Publish E ''ws.revoke''" and net: "local_work net" and ch: "ch \<noteq> ''''"
  shows "let g = RevokeChannelSubscription E u ch; hs' = cluster_op E net g i hs;
      m = Msg_Revoke \<lparr>re_OriginID = hb_id (hs ! i), re_UserID = u, re_ChannelID = ch, re_WorkspaceID = '''', re_ChannelIDs = []\<rparr> in
    revoked_once u ch (hs ! i) (g (hs ! i)) \<and>
    hs' ! i = (case net m i of None \<Rightarrow> g (hs ! i) | Some work \<Rightarrow> work (g (hs ! i))) \<and>
    (j \<noteq> i \<longrightarrow> (case net m j of None \<Rightarrow> hs' ! j = hs ! j | Some work \<Rightarrow> revoked_once u ch (work (hs ! j)) (hs' ! j)))"
proof -
  let ?h = "hs ! i" and ?g = "RevokeChannelSubscription E u ch"
  let ?m = "Msg_Revoke \<lparr>re_OriginID = hb_id ?h, re_UserID = u, re_ChannelID = ch, re_WorkspaceID = '''', re_ChannelIDs = []\<rparr>"
  have g: "?g ?h = nats_Publish E ''ws.revoke'' ?m (revokeLocal u ch ?h)"
    using nats by (simp add: RevokeChannelSubscription_def publishRevoke_def broadcast_fields)
  then have "hb_published (?g ?h) = hb_published ?h @ [(''ws.revoke'', ?m)]"
    using nats by (simp add: nats_Publish_def broadcast_fields)
  note c = cluster_op_publish [where g = ?g, OF ij(1) _ this]
  have "revoked_once u ch ?h (?g ?h)"
    using revokeLocal_revoked [OF inv [OF nth_mem [OF ij(1)]] ch] by (simp add: g revoked_once_def)
  moreover have "cluster_op E net ?g i hs ! i = (case net ?m i of None \<Rightarrow> ?g ?h | Some work \<Rightarrow> work (?g ?h))"
    unfolding c [OF ij(1)] using local_workD(1) [OF net]
    by (auto simp: arrive_def on_nats_def on_revoke_def g broadcast_fields split: option.split)
  moreover have "case net ?m j of None \<Rightarrow> cluster_op E net ?g i hs ! j = hs ! j
      | Some work \<Rightarrow> revoked_once u ch (work (hs ! j)) (cluster_op E net ?g i hs ! j)" if "j \<noteq> i"
    unfolding c [OF ij(2)]
    using that origin_differs [OF ids ij] local_workD [OF net] revokeLocal_revoked [OF _ ch] inv [OF nth_mem [OF ij(2)]]
    by (auto simp: arrive_def on_nats_def on_revoke_def split: option.split)
  ultimately show ?thesis by (simp add: Let_def)
qed

section \<open>Collaboration frames\<close>

lemma send_rooms [simp]:
  "cl_rooms (SendMessage t d c) = cl_rooms c" "cl_userID (SendMessage t d c) = cl_userID c" "cl_connID (SendMessage t d c) = cl_connID c"
  by (simp_all add: SendMessage_def sendFrame_def trySend_def kill_def close_client_def Let_def)

lemma rooms_ops [simp]:
  "cl_rooms (JoinRoom doc w c) = AList.update doc w (cl_rooms c)" "cl_userID (JoinRoom doc w c) = cl_userID c"
  "cl_connID (JoinRoom doc w c) = cl_connID c" "cl_rooms (LeaveRoom doc c) = AList.delete doc (cl_rooms c)"
  "cl_userID (LeaveRoom doc c) = cl_userID c" "cl_connID (LeaveRoom doc c) = cl_connID c"
  by (simp_all add: JoinRoom_def LeaveRoom_def)

lemma revoke_room_other:
  assumes "doc \<noteq> doc'"
  shows "map_of (cl_rooms (revoke_room doc c)) doc' = map_of (cl_rooms c) doc'" "ident (revoke_room doc c) = ident c"
  using assms by (simp_all add: revoke_room_def leave_revoked_def delete_conv' ident_def)

lemma RevokeRoom_other:
  assumes "doc \<noteq> doc'"
  shows "map_of (cl_rooms (get_client r (RevokeRoom E u doc h))) doc' = map_of (cl_rooms (get_client r h)) doc'"
    "ident (get_client r (RevokeRoom E u doc h)) = ident (get_client r h)" "hb_calls (RevokeRoom E u doc h) = hb_calls h"
proof -
  have "map_of (cl_rooms (get_client r (fold (\<lambda>r. upd_client r (revoke_room doc)) rs h))) doc' = map_of (cl_rooms (get_client r h)) doc' \<and>
      ident (get_client r (fold (\<lambda>r. upd_client r (revoke_room doc)) rs h)) = ident (get_client r h)" for rs
    by (induction rs arbitrary: h) (auto simp: get_upd revoke_room_other [OF assms])
  then show "map_of (cl_rooms (get_client r (RevokeRoom E u doc h))) doc' = map_of (cl_rooms (get_client r h)) doc'"
    "ident (get_client r (RevokeRoom E u doc h)) = ident (get_client r h)"
    by (auto simp: RevokeRoom_def publishRoomRevoke_def revokeRoomLocal_def)
  show "hb_calls (RevokeRoom E u doc h) = hb_calls h"
    by (simp add: RevokeRoom_def publishRoomRevoke_def revokeRoomLocal_def nats_Publish_def)
qed

definition join_data :: "string \<Rightarrow> RawMessage" where
  "join_data doc = Some (JObj [(''document_id'', JStr doc)])"

definition update_data :: "string \<Rightarrow> string \<Rightarrow> RawMessage" where
  "update_data doc enc = Some (JObj [(''document_id'', JStr doc), (''update'', JStr enc)])"

lemma decode_join: "CollabDocumentData (join_data doc) = Some doc"
  by (simp add: CollabDocumentData_def join_data_def Unmarshal_def field_for_def into_string_def)

lemma decode_update: "base64_std enc = Some p \<Longrightarrow> CollabUpdateData (update_data doc enc) = Some (doc, p)"
  by (simp add: CollabUpdateData_def update_data_def Unmarshal_def field_for_def into_string_def into_bytes_def)

text \<open>
  A room is keyed by the document id as the client spelled it, and \<open>uuid.Validate\<close> accepts several spellings of one id. A
  connection that joined with write access under one spelling keeps it through \<open>RevokeRoom\<close> of any other spelling, the canonical one
  included: its next update still reaches the collaboration layer, which relies on the room for authorization.
\<close>

theorem room_revocation_misses_other_spelling:
  assumes r: "r < length (hb_heap h)" and ok: "we_Validate E doc'" "doc \<noteq> doc'"
    and H: "we_roomHandler E = Some H" "rh_Join H doc' (cl_userID (get_client r h)) = Inr access" "ra_CanWrite access"
    and p: "base64_std enc = Some p" "p \<noteq> []" "length p \<le> maxCollabPayloadBytes"
  shows "hb_calls (handleCollabUpdate E r (update_data doc' enc) (RevokeRoom E u doc (handleCollabJoin E r (join_data doc') h))) =
    hb_calls h @ [Call_Update doc' (cl_userID (get_client r h)) (cl_connID (get_client r h)) p]"
proof -
  let ?h1 = "handleCollabJoin E r (join_data doc') h"
  let ?h2 = "RevokeRoom E u doc ?h1" and ?c = "get_client r h"
  have h1: "map_of (cl_rooms (get_client r ?h1)) doc' = Some True" "ident (get_client r ?h1) = ident ?c" "hb_calls ?h1 = hb_calls h"
    using r ok H by (simp_all add: handleCollabJoin_def documentArg_def decode_join get_upd update_conv' ident_def Let_def)
  then have h2: "map_of (cl_rooms (get_client r ?h2)) doc' = Some True" "ident (get_client r ?h2) = ident ?c" "hb_calls ?h2 = hb_calls h"
    using RevokeRoom_other(1,2) [OF ok(2), of r E u ?h1] RevokeRoom_other(3) [OF ok(2)] by simp_all
  then show ?thesis
    using ok H p
    by (simp add: handleCollabUpdate_def decode_update InRoom_def CanWriteRoom_def ident_def call_def Let_def split: option.split)
qed

lemma fanout_calls [simp]:
  "hb_calls (send_all rs f h) = hb_calls h" "hb_calls (nats_Publish E t m h) = hb_calls h"
  "hb_calls (BroadcastToChannel E ch t d x h) = hb_calls h" "hb_calls (BroadcastToWorkspaceLocal w t d x h) = hb_calls h"
  "hb_calls (BroadcastToUser u t d h) = hb_calls h" "hb_calls (BroadcastLocal ch t d x h) = hb_calls h"
  by (simp_all add: send_all_def nats_Publish_def BroadcastToChannel_def BroadcastToWorkspaceLocal_def BroadcastToUser_def
      BroadcastLocal_def publishToNATS_def localBroadcast_def Let_def)

lemma fold_calls: "(\<And>x h. hb_calls (g x h) = hb_calls h) \<Longrightarrow> hb_calls (fold g xs h) = hb_calls h"
  by (induction xs arbitrary: h) auto

lemma domain_calls [simp]:
  "hb_calls (dispatchEvent t d h) = hb_calls h" "hb_calls (publishDomain E w a b t p h) = hb_calls h"
  "hb_calls (PublishPresenceChanged E u st ws h) = hb_calls h"
proof -
  show d: "hb_calls (dispatchEvent t d h) = hb_calls h" for t d h
    by (simp add: dispatchEvent_def fold_calls split: option.split)
  show "hb_calls (publishDomain E w a b t p h) = hb_calls h" for w a b t p h
    by (simp add: publishDomain_def d)
  then show "hb_calls (PublishPresenceChanged E u st ws h) = hb_calls h"
    by (simp add: PublishPresenceChanged_def fold_calls)
qed

lemma call_calls [simp]: "hb_calls (call k h) = hb_calls h @ [k]"
  by (simp add: call_def)

lemma handler_calls:
  "hb_calls (handleSubscribe E r d h) = hb_calls h" "hb_calls (handleUnsubscribe E r d h) = hb_calls h"
  "hb_calls (handleCollabJoin E r d h) = hb_calls h" "hb_calls (handleCollabLeave E r d h) = hb_calls h"
  by (simp_all add: handleSubscribe_def handleUnsubscribe_def handleCollabJoin_def handleCollabLeave_def Let_def split: option.split prod.split)

definition update_admitted :: "ws_env \<Rightarrow> client \<Rightarrow> RawMessage \<Rightarrow> (string \<times> string) option" where
  "update_admitted E c raw =
     (case CollabUpdateData raw of
        None \<Rightarrow> None
      | Some (doc, p) \<Rightarrow>
          if we_Validate E doc \<and> we_roomHandler E \<noteq> None \<and> map_of (cl_rooms c) doc = Some True \<and> 0 < length p \<and>
            length p \<le> maxCollabPayloadBytes
          then Some (doc, p) else None)"

lemma update_calls:
  "hb_calls (handleCollabUpdate E r raw h) =
     hb_calls h @ (case update_admitted E (get_client r h) raw of
        None \<Rightarrow> [] | Some (doc, p) \<Rightarrow> [Call_Update doc (cl_userID (get_client r h)) (cl_connID (get_client r h)) p])"
  by (auto simp: handleCollabUpdate_def update_admitted_def InRoom_def CanWriteRoom_def Let_def split: option.splits prod.splits)

fun is_update :: "ws_call \<Rightarrow> bool" where
  "is_update (Call_Update _ _ _ _) = True"
| "is_update _ = False"

lemma other_calls:
  "filter is_update (hb_calls (handleCollabAwareness E r d h)) = filter is_update (hb_calls h)"
  "filter is_update (hb_calls (handleTyping E r d t h)) = filter is_update (hb_calls h)"
  "filter is_update (hb_calls (handlePresence E r d h)) = filter is_update (hb_calls h)"
  "filter is_update (hb_calls (refreshPresence E r h)) = filter is_update (hb_calls h)"
  by (simp_all add: handleCollabAwareness_def handleTyping_def handlePresence_def refreshPresence_def typing_broadcast_def Let_def
      split: option.split prod.split sum.split)

text \<open>
  C28. What reaches the collaboration log. Handling an inbound frame hands an update to the collaboration layer exactly when it is a
  \<open>collab.update\<close> frame that decodes, names a valid document id of a room this connection is in with write permission, and carries
  between 1 byte and 32 KiB; the call carries the connection's own user and connection id and the decoded bytes, and happens once.
\<close>

theorem updates_need_a_writable_room:
  "filter is_update (hb_calls (handleMessage E r msg h)) =
     filter is_update (hb_calls h) @
     (case (if im_Type msg = ''collab.update'' then update_admitted E (get_client r h) (im_Data msg) else None) of
        None \<Rightarrow> []
      | Some (doc, p) \<Rightarrow> [Call_Update doc (cl_userID (get_client r h)) (cl_connID (get_client r h)) p])"
  by (simp add: handleMessage_def Let_def handler_calls other_calls update_calls split: option.split prod.split)

section \<open>Instances\<close>

definition sample_channel :: string where "sample_channel = ''11111111-1111-1111-1111-111111111111''"
definition sample_document :: string where "sample_document = ''aaaaaaaa-aaaa-aaaa-aaaa-aaaaaaaaaaaa''"
definition sample_spelling :: string where "sample_spelling = ''AAAAAAAA-AAAA-AAAA-AAAA-AAAAAAAAAAAA''"

definition sample_room :: RoomHandler where
  "sample_room = \<lparr>rh_Join = (\<lambda>doc u. Inr \<lparr>ra_HeadSeq = 0, ra_CanWrite = True\<rparr>), rh_Recheck = (\<lambda>doc u. Inl ErrRoomForbidden),
     rh_Update = (\<lambda>_ _ _ _. None), rh_Awareness = (\<lambda>_ _ _ _. None)\<rparr>"

definition sample_ws :: ws_env where
  "sample_ws = \<lparr>we_Validate = (\<lambda>s. length s = 36 \<and> list_all (\<lambda>c. is_hex (to_lower_char c) \<or> c = CHR ''-'') s),
     we_isMember = Some (\<lambda>ch u. Inr True), we_roomHandler = Some sample_room, we_SetStatus = None, we_Publish = (\<lambda>_. True)\<rparr>"

definition sample_subscribe :: RawMessage where
  "sample_subscribe = Some (JObj [(''type'', JStr ''subscribe''), (''data'', JObj [(''channel_id'', JStr sample_channel)])])"

definition ws_sample_history :: "ws_op list" where
  "ws_sample_history = [Op_Accept ''ann'' ''c1'' [''w''] 0, Op_Register 0, Op_Accept ''bob'' ''c2'' [''w''] 0, Op_Register 1,
     Op_Frame sample_ws 1 0 sample_subscribe, Op_Write 0, Op_StartNATSBridge, Op_ReadError 1, Op_Unregister 1]"

definition sample_hub :: hub where
  "sample_hub = (case guarded_run ws_step ws_guard ws_sample_history (NewHub ''A'') of Some h \<Rightarrow> h | None \<Rightarrow> NewHub ''A'')"

lemma sample_hub_run: "guarded_run ws_step ws_guard ws_sample_history (NewHub ''A'') = Some sample_hub"
proof -
  have "guarded_run ws_step ws_guard ws_sample_history (NewHub ''A'') \<noteq> None" by code_simp
  then show ?thesis by (auto simp: sample_hub_def)
qed

lemma sample_hub_conns: "all_conns sample_hub = [0]" "cl_userID (get_client 0 sample_hub) = ''ann''"
  "IsSubscribed sample_channel (get_client 0 sample_hub)" "length (hb_heap sample_hub) = 2" "hb_calls sample_hub = []"
  "cl_connID (get_client 0 sample_hub) = ''c1''"
  by code_simp+

theorem ws_history_invariant_witness:
  "ConnectionCount sample_hub = 1 \<and> IsOnline ''ann'' sample_hub \<and> \<not> IsOnline ''bob'' sample_hub \<and>
   list_all client_ok (hb_heap sample_hub)"
  using ws_history_invariant [OF sample_hub_run, of "''ann''"] ws_history_invariant [OF sample_hub_run, of "''bob''"] sample_hub_conns
  by simp

definition sample_cluster :: "hub list" where
  "sample_cluster = [StartNATSBridge (NewHub ''B''), sample_hub, StartNATSBridge (NewHub ''C'')]"

definition sample_net :: network where
  \<comment> \<open>replica 2 gets nothing; replica 1 writes a queued frame first\<close>
  "sample_net m j = (if j = 2 then None else if j = 1 then Some (upd_client 0 write_next) else Some id)"

lemma sample_net_local: "local_work sample_net"
  by (auto simp: local_work_def sample_net_def keeps_upds)

lemma sample_net_work:
  defines "h \<equiv> upd_client 0 write_next sample_hub"
  shows "0 \<in> set (all_conns h)" "get_client 0 h = write_next (get_client 0 sample_hub)" "cl_userID (get_client 0 h) = ''ann''"
    "IsSubscribed sample_channel (get_client 0 h)"
  unfolding h_def by code_simp+

lemma sample_cluster_ok: "h \<in> set sample_cluster \<Longrightarrow> hub_inv h" "distinct (map hb_id sample_cluster)"
proof -
  show "hub_inv h" if "h \<in> set sample_cluster"
    using that ws.run_inv [OF NewHub_inv sample_hub_run] NewHub_inv by (auto simp: sample_cluster_def bridge_inv)
  show "distinct (map hb_id sample_cluster)" by code_simp
qed

lemma sample_ws_publish: "we_Publish sample_ws s" "we_roomHandler sample_ws = Some sample_room"
  by (simp_all add: sample_ws_def)

lemma sample_cluster_nth: "length sample_cluster = 3" "sample_cluster ! 0 = StartNATSBridge (NewHub ''B'')" "sample_cluster ! 1 = sample_hub"
  "sample_cluster ! Suc 0 = sample_hub" "hb_nats (StartNATSBridge h)"
  by (simp_all add: sample_cluster_def StartNATSBridge_def)

lemma sample_channel_ne: "sample_channel \<noteq> ''''"
  by (simp add: sample_channel_def)

theorem broadcast_exactly_once_witness:
  "get_client 0 (cluster_op sample_ws sample_net (BroadcastToChannel sample_ws sample_channel ''message.new'' (Some JNull) '''') 0 sample_cluster ! 1) =
   sendFrame (newFrame ''message.new'' (Some JNull)) (write_next (get_client 0 sample_hub))"
proof -
  have "sent_once sample_channel (newFrame ''message.new'' (Some JNull)) '''' (upd_client 0 write_next sample_hub)
      (cluster_op sample_ws sample_net (BroadcastToChannel sample_ws sample_channel ''message.new'' (Some JNull) '''') 0 sample_cluster ! 1)"
    using broadcast_exactly_once [where hs = sample_cluster and i = 0 and j = 1 and E = sample_ws and ch = sample_channel
        and t = "''message.new''" and d = "Some JNull" and x = "''''", OF sample_cluster_ok _ _ _ _ sample_net_local]
    by (simp add: sample_cluster_nth sample_ws_publish Let_def sample_net_def)
  then show ?thesis using sample_net_work by (simp add: sent_once_def)
qed

theorem revocation_reaches_every_replica_witness:
  "\<not> IsSubscribed sample_channel
      (get_client 0 (cluster_op sample_ws sample_net (RevokeChannelSubscription sample_ws ''ann'' sample_channel) 0 sample_cluster ! 1))"
proof -
  have "revoked_once ''ann'' sample_channel (upd_client 0 write_next sample_hub)
      (cluster_op sample_ws sample_net (RevokeChannelSubscription sample_ws ''ann'' sample_channel) 0 sample_cluster ! 1)"
    using revocation_reaches_every_replica [where hs = sample_cluster and i = 0 and j = 1 and E = sample_ws and u = "''ann''"
        and ch = sample_channel, OF sample_cluster_ok _ _ _ _ sample_net_local]
    by (simp add: sample_cluster_nth sample_ws_publish Let_def sample_net_def sample_channel_ne)
  then show ?thesis using sample_net_work by (auto simp: revoked_once_def Let_def)
qed

theorem room_revocation_misses_other_spelling_witness:
  "map to_lower_char sample_spelling = sample_document \<and>
   hb_calls (handleCollabUpdate sample_ws 0 (update_data sample_spelling ''TWFu'')
     (RevokeRoom sample_ws ''ann'' sample_document (handleCollabJoin sample_ws 0 (join_data sample_spelling) sample_hub))) =
   [Call_Update sample_spelling ''ann'' ''c1'' ''Man'']"
proof -
  have s: "map to_lower_char sample_spelling = sample_document" "sample_document \<noteq> sample_spelling" "we_Validate sample_ws sample_spelling"
    by code_simp+
  show ?thesis
    using room_revocation_misses_other_spelling [where r = 0 and h = sample_hub and E = sample_ws and H = sample_room and p = "''Man''"
        and enc = "''TWFu''" and u = "''ann''" and access = "\<lparr>ra_HeadSeq = 0, ra_CanWrite = True\<rparr>", OF _ s(3) s(2)]
      s(1) sample_hub_conns sample_ws_publish(2) base64_std_examples(1)
    by (simp add: sample_room_def maxCollabPayloadBytes_def)
qed

end
