(* ===== verification/Collab_Log.thy ===== *)
theory Collab_Log
  imports Authz_Mutation Ws_Hub "HOL-Library.Product_Lexorder"
begin

text \<open>
  The collaboration log: \<open>backend/internal/collab/repository.go\<close> and \<open>repair.go\<close> over the tables of \<open>migrations/015\<close>, \<open>025\<close>, \<open>035\<close>
  and \<open>064\<close>. Sequence numbers are integers, a generated document id is an argument of the operation that inserts the row, and the
  columns nothing here reads (\<open>created_at\<close>) are left out. \<open>Load\<close> issues three statements outside a transaction; \<open>load_at\<close> takes the
  tables each of them sees.
\<close>

section \<open>Tables\<close>

record Document =
  dc_id :: string
  dc_workspace :: string
  dc_rtype :: string
  dc_rid :: string
  dc_head :: int
  dc_snapshot :: int
  dc_created_by :: "string option"
  dc_updated_at :: int
  dc_repair_requested_at :: "int option"

record Update =
  up_document :: string
  up_seq :: int
  up_actor :: "string option"
  up_payload :: string

record Snapshot =
  sn_document :: string
  sn_seq :: int
  sn_actor :: "string option"
  sn_payload :: string

record collab_db =
  cd_acl :: database
  collab_documents :: "Document list"
  collab_updates :: "Update list"
  collab_snapshots :: "Snapshot list"
  file_projections :: "(string \<times> int) list"

record State =
  ls_DocumentID :: string
  ls_Snapshot :: "string option"
  ls_SnapshotSeq :: int
  ls_Updates :: "Update list"
  ls_ThroughSeq :: int
  ls_HeadSeq :: int
  ls_HasMore :: bool

datatype collab_error =
    Room room_error
  | ErrStaleSnapshot
  | ErrResourceConflict
  | LostInsertRace
  | CollabAuthz authz_error
  | CollabDb string

definition MaxUpdateBytes :: int where "MaxUpdateBytes = 1048576"
definition MaxSnapshotBytes :: int where "MaxSnapshotBytes = 16777216"
definition DefaultCompactionThreshold :: int where "DefaultCompactionThreshold = 256"
definition compactionCooldown :: int where "compactionCooldown = 60 * 1000000000"
definition snapshotRetention :: nat where "snapshotRetention = 3"
definition maxStateUpdates :: int where "maxStateUpdates = 2000"

section \<open>Statements\<close>

definition cd_sql :: "env \<Rightarrow> string \<Rightarrow> 'a \<Rightarrow> collab_error + 'a" where
  "cd_sql E l v = (if db_fault E l then Inl (CollabDb l) else Inr v)"

definition cd_uuid :: "env \<Rightarrow> string \<Rightarrow> string \<Rightarrow> (string \<Rightarrow> collab_error + 'a) \<Rightarrow> collab_error + 'a" where
  "cd_uuid E l s k = (case pg_uuid E s of None \<Rightarrow> Inl (CollabDb l) | Some u \<Rightarrow> k u)"

definition cd_uuid_opt :: "env \<Rightarrow> string \<Rightarrow> string option \<Rightarrow> (string option \<Rightarrow> collab_error + 'a) \<Rightarrow> collab_error + 'a" where
  "cd_uuid_opt E l s k = (case s of None \<Rightarrow> k None | Some t \<Rightarrow> cd_uuid E l t (\<lambda>u. k (Some u)))"

definition nullableID :: "string \<Rightarrow> string option" where
  "nullableID s = (if s = '''' then None else Some s)"

definition user_fk :: "collab_db \<Rightarrow> string option \<Rightarrow> bool" where
  "user_fk db u = (case u of None \<Rightarrow> True | Some x \<Rightarrow> x \<in> set (users (cd_acl db)))"

definition find_doc :: "collab_db \<Rightarrow> string \<Rightarrow> Document option" where
  "find_doc db i = find (\<lambda>d. dc_id d = i) (collab_documents db)"

definition find_resource :: "collab_db \<Rightarrow> string \<Rightarrow> string \<Rightarrow> Document option" where
  "find_resource db t i = find (\<lambda>d. dc_rtype d = t \<and> dc_rid d = i) (collab_documents db)"

definition set_doc :: "string \<Rightarrow> (Document \<Rightarrow> Document) \<Rightarrow> collab_db \<Rightarrow> collab_db" where
  "set_doc i f db = db\<lparr>collab_documents := map (\<lambda>d. if dc_id d = i then f d else d) (collab_documents db)\<rparr>"

definition isResourceType :: "string \<Rightarrow> bool" where
  "isResourceType s \<longleftrightarrow> 0 < length s \<and> length s \<le> 32 \<and> is_lower (hd s) \<and>
     list_all (\<lambda>c. is_lower c \<or> is_digit c \<or> c = CHR ''_'') (tl s)"

section \<open>Documents\<close>

definition Get :: "env \<Rightarrow> collab_db \<Rightarrow> string \<Rightarrow> collab_error + Document option" where
  "Get E db documentID =
     cd_uuid E ''get document'' documentID (\<lambda>i. cd_sql E ''get document'' (find_doc db i))"

definition GetByResource :: "env \<Rightarrow> collab_db \<Rightarrow> string \<Rightarrow> string \<Rightarrow> collab_error + Document option" where
  "GetByResource E db resourceType resourceID =
     cd_uuid E ''get by resource'' resourceID (\<lambda>i. cd_sql E ''get by resource'' (find_resource db resourceType i))"

text \<open>
  The insert into \<open>collab_documents\<close>: the check on the type comes first, a row with the same resource is a conflict (the existing row
  is handed to the caller), and only a row that goes in is checked against the tables it references.
\<close>

definition insert_document ::
  "env \<Rightarrow> string \<Rightarrow> string \<Rightarrow> string \<Rightarrow> string \<Rightarrow> string option \<Rightarrow> collab_db \<Rightarrow>
   collab_error + (Document + Document \<times> collab_db)" where
  "insert_document E newID w t i creator db =
     (if \<not> isResourceType t then Inl (CollabDb ''create document'')
      else case find_resource db t i of
        Some d \<Rightarrow> cd_sql E ''create document'' (Inl d)
      | None \<Rightarrow>
          if w \<notin> set (workspaces (cd_acl db)) \<or> i \<notin> set (map f_id (files (cd_acl db))) \<or> \<not> user_fk db creator
          then Inl (CollabDb ''create document'')
          else let d = \<lparr>dc_id = newID, dc_workspace = w, dc_rtype = t, dc_rid = i, dc_head = 0, dc_snapshot = 0, dc_created_by = creator,
                        dc_updated_at = now E, dc_repair_requested_at = None\<rparr> in
               cd_sql E ''create document'' (Inr (d, db\<lparr>collab_documents := collab_documents db @ [d]\<rparr>)))"

definition EnsureDocumentTx ::
  "env \<Rightarrow> string \<Rightarrow> string \<Rightarrow> string \<Rightarrow> string \<Rightarrow> string \<Rightarrow> collab_db \<Rightarrow> collab_error + collab_db" where
  "EnsureDocumentTx E newID workspaceID resourceType resourceID createdBy db =
     cd_uuid E ''create document'' workspaceID (\<lambda>w. cd_uuid E ''create document'' resourceID (\<lambda>i.
     cd_uuid_opt E ''create document'' (nullableID createdBy) (\<lambda>creator.
     bindR (insert_document E newID w resourceType i creator db) (\<lambda>r.
       let (d, db') = (case r of Inl d \<Rightarrow> (d, db) | Inr p \<Rightarrow> p) in
       if dc_workspace d \<noteq> workspaceID then Inl ErrResourceConflict else Inr db'))))"

definition EnsureDocument ::
  "env \<Rightarrow> string \<Rightarrow> string \<Rightarrow> string \<Rightarrow> string \<Rightarrow> string \<Rightarrow> collab_db \<Rightarrow> (collab_error + Document) \<times> collab_db" where
  "EnsureDocument E newID workspaceID resourceType resourceID createdBy db =
     (case cd_uuid E ''create document'' workspaceID (\<lambda>w. cd_uuid E ''create document'' resourceID (\<lambda>i.
           cd_uuid_opt E ''create document'' (nullableID createdBy) (\<lambda>creator. insert_document E newID w resourceType i creator db))) of
        Inl e \<Rightarrow> (Inl e, db)
      | Inr (Inr (d, db')) \<Rightarrow> (Inr d, db')
      | Inr (Inl _) \<Rightarrow>
          (bindR (GetByResource E db resourceType resourceID) (\<lambda>r.
             case r of
               None \<Rightarrow> Inl LostInsertRace
             | Some d \<Rightarrow> if dc_workspace d \<noteq> workspaceID then Inl ErrResourceConflict else Inr d), db))"

definition DeleteDocument :: "env \<Rightarrow> string \<Rightarrow> collab_db \<Rightarrow> (collab_error + bool) \<times> collab_db" where
  "DeleteDocument E documentID db =
     (case cd_uuid E ''delete document'' documentID (\<lambda>i. cd_sql E ''delete document'' i) of
        Inl e \<Rightarrow> (Inl e, db)
      | Inr i \<Rightarrow>
          (Inr (find_doc db i \<noteq> None),
           db\<lparr>collab_documents := filter (\<lambda>d. dc_id d \<noteq> i) (collab_documents db),
              collab_updates := filter (\<lambda>u. up_document u \<noteq> i) (collab_updates db),
              collab_snapshots := filter (\<lambda>s. sn_document s \<noteq> i) (collab_snapshots db)\<rparr>))"

definition DocumentIDsUnderPath :: "env \<Rightarrow> collab_db \<Rightarrow> string \<Rightarrow> nat \<Rightarrow> collab_error + string list" where
  "DocumentIDsUnderPath E db path limit =
     cd_sql E ''documents under path''
       (take limit [dc_id d. d \<leftarrow> collab_documents db, r \<leftarrow> acl_object (cd_acl db),
          ao_type r = ''file'' \<and> ao_id r = dc_rid d \<and> (ao_path r = path \<or> in_subtree path (ao_path r))])"

definition DocumentIDForResource :: "env \<Rightarrow> collab_db \<Rightarrow> string \<Rightarrow> string \<Rightarrow> collab_error + string" where
  "DocumentIDForResource E db resourceType resourceID =
     cd_uuid E ''document id for resource'' resourceID (\<lambda>i.
     bindR (cd_sql E ''document id for resource'' (find_resource db resourceType i)) (\<lambda>r.
       Inr (case r of None \<Rightarrow> '''' | Some d \<Rightarrow> dc_id d)))"

section \<open>Appending and compacting\<close>

definition insert_update :: "env \<Rightarrow> Update \<Rightarrow> collab_db \<Rightarrow> collab_error + collab_db" where
  "insert_update E u db =
     (if \<not> user_fk db (up_actor u) \<or> \<not> (1 \<le> int (length (up_payload u)) \<and> int (length (up_payload u)) \<le> MaxUpdateBytes) \<or>
         (\<exists>v \<in> set (collab_updates db). up_document v = up_document u \<and> up_seq v = up_seq u)
      then Inl (CollabDb ''append update'')
      else cd_sql E ''append update'' (db\<lparr>collab_updates := collab_updates db @ [u]\<rparr>))"

definition append_row :: "env \<Rightarrow> string \<Rightarrow> Document \<Rightarrow> string \<Rightarrow> string \<Rightarrow> collab_db \<Rightarrow> collab_error + collab_db \<times> int \<times> int" where
  "append_row E i d actorID payload db =
     (let seq = dc_head d + 1;
          db1 = set_doc i (\<lambda>d. d\<lparr>dc_head := dc_head d + 1, dc_updated_at := now E\<rparr>) db in
      cd_uuid_opt E ''append update'' (nullableID actorID) (\<lambda>actor.
      bindR (insert_update E \<lparr>up_document = i, up_seq = seq, up_actor = actor, up_payload = payload\<rparr> db1) (\<lambda>db2.
        Inr (db2, seq, dc_snapshot d))))"

definition append_tx :: "env \<Rightarrow> string \<Rightarrow> string \<Rightarrow> string \<Rightarrow> collab_db \<Rightarrow> collab_error + collab_db \<times> int \<times> int" where
  "append_tx E documentID actorID payload db =
     cd_uuid E ''advance head'' documentID (\<lambda>i.
     bindR (cd_sql E ''advance head'' (find_doc db i)) (\<lambda>r.
       case r of
         None \<Rightarrow> Inl (Room ErrRoomNotFound)
       | Some d \<Rightarrow> append_row E i d actorID payload db))"

definition AppendUpdate :: "env \<Rightarrow> string \<Rightarrow> string \<Rightarrow> string \<Rightarrow> collab_db \<Rightarrow> (collab_error + int \<times> int) \<times> collab_db" where
  "AppendUpdate E documentID actorID payload db = WithTx E CollabDb db (append_tx E documentID actorID payload)"

definition insert_snapshot :: "env \<Rightarrow> Snapshot \<Rightarrow> collab_db \<Rightarrow> collab_error + collab_db" where
  "insert_snapshot E s db =
     (if \<not> user_fk db (sn_actor s) \<or> \<not> (1 \<le> int (length (sn_payload s)) \<and> int (length (sn_payload s)) \<le> MaxSnapshotBytes) \<or>
         (\<exists>v \<in> set (collab_snapshots db). sn_document v = sn_document s \<and> sn_seq v = sn_seq s)
      then Inl (CollabDb ''store snapshot'')
      else cd_sql E ''store snapshot'' (db\<lparr>collab_snapshots := collab_snapshots db @ [s]\<rparr>))"

definition newest_seqs :: "collab_db \<Rightarrow> string \<Rightarrow> int list" where
  "newest_seqs db i =
     take snapshotRetention (rev (sort (map sn_seq (filter (\<lambda>s. sn_document s = i) (collab_snapshots db)))))"

definition prune_snapshots :: "string \<Rightarrow> collab_db \<Rightarrow> collab_db" where
  "prune_snapshots i db =
     db\<lparr>collab_snapshots := filter (\<lambda>s. sn_document s \<noteq> i \<or> sn_seq s \<in> set (newest_seqs db i)) (collab_snapshots db)\<rparr>"

definition compact_rows :: "env \<Rightarrow> string \<Rightarrow> int \<Rightarrow> collab_db \<Rightarrow> collab_error + collab_db \<times> int" where
  "compact_rows E i throughSeq db =
     bindR (cd_sql E ''advance snapshot''
              (set_doc i (\<lambda>d. d\<lparr>dc_snapshot := throughSeq, dc_updated_at := now E\<rparr>) db)) (\<lambda>db2.
     let covered = (\<lambda>u. up_document u = i \<and> up_seq u \<le> throughSeq) in
     bindR (cd_sql E ''compact log'' (db2\<lparr>collab_updates := filter (\<lambda>u. \<not> covered u) (collab_updates db2)\<rparr>)) (\<lambda>db3.
     bindR (cd_sql E ''prune snapshots'' (prune_snapshots i db3)) (\<lambda>db4.
       Inr (db4, int (length (filter covered (collab_updates db2)))))))"

definition snapshot_tx :: "env \<Rightarrow> string \<Rightarrow> int \<Rightarrow> string \<Rightarrow> string \<Rightarrow> collab_db \<Rightarrow> collab_error + collab_db \<times> int" where
  "snapshot_tx E documentID throughSeq actorID payload db =
     cd_uuid E ''lock document'' documentID (\<lambda>i.
     bindR (cd_sql E ''lock document'' (find_doc db i)) (\<lambda>r.
       case r of
         None \<Rightarrow> Inl (Room ErrRoomNotFound)
       | Some d \<Rightarrow>
           if throughSeq \<le> dc_snapshot d \<or> throughSeq > dc_head d then Inl ErrStaleSnapshot
           else cd_uuid_opt E ''store snapshot'' (nullableID actorID) (\<lambda>actor.
             bindR (insert_snapshot E \<lparr>sn_document = i, sn_seq = throughSeq, sn_actor = actor, sn_payload = payload\<rparr> db)
               (compact_rows E i throughSeq))))"

definition SaveSnapshot :: "env \<Rightarrow> string \<Rightarrow> int \<Rightarrow> string \<Rightarrow> string \<Rightarrow> collab_db \<Rightarrow> (collab_error + int) \<times> collab_db" where
  "SaveSnapshot E documentID throughSeq actorID payload db =
     (if throughSeq \<le> 0 then (Inl ErrStaleSnapshot, db)
      else WithTx E CollabDb db (snapshot_tx E documentID throughSeq actorID payload))"

section \<open>Loading\<close>

fun dropThrough :: "Update list \<Rightarrow> int \<Rightarrow> Update list" where
  "dropThrough [] seq = []"
| "dropThrough (u # us) seq = (if up_seq u > seq then u # us else dropThrough us seq)"

definition list_updates :: "collab_db \<Rightarrow> string \<Rightarrow> int \<Rightarrow> int \<Rightarrow> Update list" where
  "list_updates db i since limit =
     take (nat limit) (sort_key up_seq (filter (\<lambda>u. up_document u = i \<and> up_seq u > since) (collab_updates db)))"

definition newest_snapshot :: "collab_db \<Rightarrow> string \<Rightarrow> Snapshot option" where
  "newest_snapshot db i =
     (case rev (sort_key sn_seq (filter (\<lambda>s. sn_document s = i) (collab_snapshots db))) of [] \<Rightarrow> None | s # _ \<Rightarrow> Some s)"

definition page_state :: "string \<Rightarrow> int \<Rightarrow> int \<Rightarrow> Document \<Rightarrow> Update list \<Rightarrow> Snapshot option \<Rightarrow> State" where
  "page_state documentID since limit doc rows snap =
     (let hasMore = int (length rows) > limit;
          updates = (if hasMore then take (nat limit) rows else rows);
          st = \<lparr>ls_DocumentID = documentID, ls_Snapshot = None, ls_SnapshotSeq = 0, ls_Updates = updates, ls_ThroughSeq = since,
                ls_HeadSeq = dc_head doc, ls_HasMore = hasMore\<rparr>;
          st = (case snap of
                  None \<Rightarrow> st
                | Some s \<Rightarrow>
                    if sn_seq s > since
                    then st\<lparr>ls_Snapshot := Some (sn_payload s), ls_SnapshotSeq := sn_seq s, ls_ThroughSeq := sn_seq s,
                            ls_Updates := dropThrough updates (sn_seq s)\<rparr>
                    else st) in
      st\<lparr>ls_ThroughSeq := fold (\<lambda>u t. if up_seq u > t then up_seq u else t) (ls_Updates st) (ls_ThroughSeq st)\<rparr>)"

definition load_at :: "env \<Rightarrow> collab_db \<Rightarrow> collab_db \<Rightarrow> collab_db \<Rightarrow> string \<Rightarrow> int \<Rightarrow> int \<Rightarrow> collab_error + State" where
  "load_at E db1 db2 db3 documentID since limit0 =
     (let limit = (if limit0 \<le> 0 \<or> limit0 > maxStateUpdates then maxStateUpdates else limit0) in
      bindR (Get E db1 documentID) (\<lambda>r.
        case r of
          None \<Rightarrow> Inl (Room ErrRoomNotFound)
        | Some doc \<Rightarrow>
            cd_uuid E ''list updates'' documentID (\<lambda>i.
            bindR (cd_sql E ''list updates'' (list_updates db2 i since (limit + 1))) (\<lambda>rows.
            bindR (cd_sql E ''get snapshot'' (newest_snapshot db3 i)) (\<lambda>snap.
              Inr (page_state documentID since limit doc rows snap))))))"

definition Load :: "env \<Rightarrow> collab_db \<Rightarrow> string \<Rightarrow> int \<Rightarrow> int \<Rightarrow> collab_error + State" where
  "Load E db documentID since limit = load_at E db db db documentID since limit"

section \<open>Projection repair\<close>

record StaleProjection =
  sp_DocumentID :: string
  sp_HeadSeq :: int
  sp_ProjectionSeq :: int

definition Gap :: "StaleProjection \<Rightarrow> int" where
  "Gap s = sp_HeadSeq s - sp_ProjectionSeq s"

definition projection_seq :: "collab_db \<Rightarrow> Document \<Rightarrow> int" where
  "projection_seq db d = (case map_of (file_projections db) (dc_rid d) of None \<Rightarrow> 0 | Some n \<Rightarrow> n)"

definition projection_due :: "env \<Rightarrow> int \<Rightarrow> int \<Rightarrow> collab_db \<Rightarrow> Document \<Rightarrow> bool" where
  "projection_due E minGap minAge db d \<longleftrightarrow> dc_head d - projection_seq db d \<ge> minGap \<and> dc_updated_at d < now E - minAge"

text \<open>\<open>ASC NULLS FIRST\<close>, then \<open>updated_at\<close>.\<close>

definition repair_key :: "Document \<Rightarrow> bool \<times> int \<times> int" where
  "repair_key d = (case dc_repair_requested_at d of None \<Rightarrow> (False, 0, dc_updated_at d) | Some t \<Rightarrow> (True, t, dc_updated_at d))"

definition FindStaleProjections ::
  "env \<Rightarrow> int \<Rightarrow> int \<Rightarrow> nat \<Rightarrow> collab_db \<Rightarrow> (collab_error + StaleProjection list) \<times> collab_db" where
  "FindStaleProjections E minGap minAge limit db =
     (case cd_sql E ''stale projections''
             (take limit (sort_key repair_key (filter (projection_due E minGap minAge db) (collab_documents db)))) of
        Inl e \<Rightarrow> (Inl e, db)
      | Inr due \<Rightarrow>
          (Inr (map (\<lambda>d. \<lparr>sp_DocumentID = dc_id d, sp_HeadSeq = dc_head d, sp_ProjectionSeq = projection_seq db d\<rparr>) due),
           db\<lparr>collab_documents := map (\<lambda>d. if dc_id d \<in> set (map dc_id due) then d\<lparr>dc_repair_requested_at := Some (now E)\<rparr> else d)
                (collab_documents db)\<rparr>))"

end
