(* ===== verification/Collab_Invariant.thy ===== *)
theory Collab_Invariant
  imports Collab_Log Authz_Machine
begin

text \<open>
  What the collaboration tables keep: the log of a document is gap-free from its snapshot position to its head, the newest stored
  snapshot is the one the document names, at most \<open>snapshotRetention\<close> of them are kept, and no log row or snapshot is without its
  document.
\<close>

section \<open>The invariant\<close>

definition update_seqs :: "collab_db \<Rightarrow> string \<Rightarrow> int list" where
  "update_seqs db i = map up_seq (filter (\<lambda>u. up_document u = i) (collab_updates db))"

definition snap_seqs :: "collab_db \<Rightarrow> string \<Rightarrow> int list" where
  "snap_seqs db i = map sn_seq (filter (\<lambda>s. sn_document s = i) (collab_snapshots db))"

definition snaps_ok :: "int \<Rightarrow> int list \<Rightarrow> bool" where
  "snaps_ok m ss \<longleftrightarrow> sorted_wrt (<) ss \<and> length ss \<le> snapshotRetention \<and> list_all ((<) 0) ss \<and>
     (if ss = [] then m = 0 else m = last ss)"

definition doc_ok :: "collab_db \<Rightarrow> Document \<Rightarrow> bool" where
  "doc_ok db d \<longleftrightarrow> 0 \<le> dc_snapshot d \<and> dc_snapshot d \<le> dc_head d \<and>
     update_seqs db (dc_id d) = [dc_snapshot d + 1..dc_head d] \<and> snaps_ok (dc_snapshot d) (snap_seqs db (dc_id d))"

definition log_inv :: "collab_db \<Rightarrow> bool" where
  "log_inv db \<longleftrightarrow> distinct (map dc_id (collab_documents db)) \<and>
     distinct (map (\<lambda>d. (dc_rtype d, dc_rid d)) (collab_documents db)) \<and>
     (\<forall>d \<in> set (collab_documents db). doc_ok db d) \<and>
     (\<forall>u \<in> set (collab_updates db). up_document u \<in> set (map dc_id (collab_documents db))) \<and>
     (\<forall>s \<in> set (collab_snapshots db). sn_document s \<in> set (map dc_id (collab_documents db)))"

lemma cd_sql_Inr [result_simps]: "cd_sql E l v = Inr x \<longleftrightarrow> \<not> db_fault E l \<and> x = v"
  by (auto simp: cd_sql_def)

lemma cd_uuid_Inr [result_simps]: "cd_uuid E l s k = Inr x \<longleftrightarrow> (\<exists>u. pg_uuid E s = Some u \<and> k u = Inr x)"
  by (auto simp: cd_uuid_def split: option.splits)

lemma cd_uuid_opt_Inr [result_simps]:
  "cd_uuid_opt E l s k = Inr x \<longleftrightarrow> (s = None \<and> k None = Inr x \<or> (\<exists>t u. s = Some t \<and> pg_uuid E t = Some u \<and> k (Some u) = Inr x))"
  by (cases s) (auto simp: cd_uuid_opt_def result_simps)

lemma find_doc_Some: "find_doc db i = Some d \<Longrightarrow> d \<in> set (collab_documents db) \<and> dc_id d = i"
  unfolding find_doc_def by (auto dest: find_SomeD)

lemma find_doc_None: "find_doc db i = None \<longleftrightarrow> i \<notin> set (map dc_id (collab_documents db))"
  by (auto simp: find_doc_def find_None_iff)

lemma find_doc_eq:
  assumes "distinct (map dc_id (collab_documents db))" "d \<in> set (collab_documents db)"
  shows "find_doc db (dc_id d) = Some d"
  unfolding find_doc_def using assms(2)
  by (rule find_unique) (use assms in \<open>auto simp: distinct_map inj_on_def\<close>)

lemma log_invD:
  assumes "log_inv db" "find_doc db i = Some d"
  shows "doc_ok db d" "dc_id d = i" "d \<in> set (collab_documents db)" "distinct (map dc_id (collab_documents db))"
  using assms find_doc_Some [OF assms(2)] by (auto simp: log_inv_def)

section \<open>Appending\<close>

lemma set_doc_ids:
  assumes "\<And>d. dc_id (f d) = dc_id d" "\<And>d. dc_rtype (f d) = dc_rtype d" "\<And>d. dc_rid (f d) = dc_rid d"
  shows "map dc_id (collab_documents (set_doc i f db)) = map dc_id (collab_documents db)"
    "map (\<lambda>d. (dc_rtype d, dc_rid d)) (collab_documents (set_doc i f db)) =
       map (\<lambda>d. (dc_rtype d, dc_rid d)) (collab_documents db)"
  using assms by (simp_all add: set_doc_def)

lemma set_doc_tables [simp]:
  "collab_updates (set_doc i f db) = collab_updates db" "collab_snapshots (set_doc i f db) = collab_snapshots db"
  "cd_acl (set_doc i f db) = cd_acl db"
  by (simp_all add: set_doc_def)

lemma append_tx_Inr:
  assumes "append_tx E doc actor p db = Inr (db', seq, snap)"
  obtains i d a where "pg_uuid E doc = Some i" "find_doc db i = Some d" "seq = dc_head d + 1" "snap = dc_snapshot d"
    "db' = (set_doc i (\<lambda>d. d\<lparr>dc_head := dc_head d + 1, dc_updated_at := now E\<rparr>) db)
       \<lparr>collab_updates := collab_updates db @ [\<lparr>up_document = i, up_seq = seq, up_actor = a, up_payload = p\<rparr>]\<rparr>"
    "1 \<le> length p" "int (length p) \<le> MaxUpdateBytes"
proof -
  let ?db1 = "\<lambda>i. set_doc i (\<lambda>d. d\<lparr>dc_head := dc_head d + 1, dc_updated_at := now E\<rparr>) db"
  obtain i d where i: "pg_uuid E doc = Some i" "find_doc db i = Some d" and row: "append_row E i d actor p db = Inr (db', seq, snap)"
    using assms unfolding append_tx_def result_simps by (auto split: option.splits)
  have "\<exists>a. insert_update E \<lparr>up_document = i, up_seq = dc_head d + 1, up_actor = a, up_payload = p\<rparr> (?db1 i) = Inr db' \<and>
      seq = dc_head d + 1 \<and> snap = dc_snapshot d"
    using row unfolding append_row_def Let_def result_simps by auto
  then obtain a where ins: "insert_update E \<lparr>up_document = i, up_seq = dc_head d + 1, up_actor = a, up_payload = p\<rparr> (?db1 i) = Inr db'"
    and sq: "seq = dc_head d + 1" "snap = dc_snapshot d" by auto
  have "db' = (?db1 i)\<lparr>collab_updates := collab_updates (?db1 i) @ [\<lparr>up_document = i, up_seq = seq, up_actor = a, up_payload = p\<rparr>]\<rparr>"
    "1 \<le> length p" "int (length p) \<le> MaxUpdateBytes"
    using ins sq(1) by (simp_all add: insert_update_def result_simps split: if_splits)
  then show ?thesis using that [OF i sq] by simp
qed

lemma doc_ok_other:
  assumes "doc_ok db d" "update_seqs db' (dc_id d) = update_seqs db (dc_id d)" "snap_seqs db' (dc_id d) = snap_seqs db (dc_id d)"
  shows "doc_ok db' d"
  using assms by (simp add: doc_ok_def)

lemma append_tx_inv:
  assumes inv: "log_inv db" and tx: "append_tx E doc actor p db = Inr (db', r)"
  shows "log_inv db'"
proof -
  obtain seq snap where r: "r = (seq, snap)" by (cases r)
  obtain i d a where "pg_uuid E doc = Some i" and i: "find_doc db i = Some d" "seq = dc_head d + 1" and "snap = dc_snapshot d"
    and db': "db' = (set_doc i (\<lambda>d. d\<lparr>dc_head := dc_head d + 1, dc_updated_at := now E\<rparr>) db)
       \<lparr>collab_updates := collab_updates db @ [\<lparr>up_document = i, up_seq = seq, up_actor = a, up_payload = p\<rparr>]\<rparr>"
    and "1 \<le> length p" "int (length p) \<le> MaxUpdateBytes"
    by (rule append_tx_Inr [OF tx [unfolded r]])
  note d = log_invD [OF inv i(1)]
  let ?f = "\<lambda>d. d\<lparr>dc_head := dc_head d + 1, dc_updated_at := now E\<rparr>"
  have same: "map dc_id (collab_documents db') = map dc_id (collab_documents db)"
    "map (\<lambda>d. (dc_rtype d, dc_rid d)) (collab_documents db') = map (\<lambda>d. (dc_rtype d, dc_rid d)) (collab_documents db)"
    using set_doc_ids [of ?f i db] by (simp_all add: db')
  have seqs: "update_seqs db' j = update_seqs db j @ (if j = i then [seq] else [])" "snap_seqs db' j = snap_seqs db j" for j
    by (simp_all add: update_seqs_def snap_seqs_def db')
  have "doc_ok db' e'" if e': "e' \<in> set (collab_documents db')" for e'
  proof -
    obtain e where e: "e \<in> set (collab_documents db)" "e' = (if dc_id e = i then ?f e else e)"
      using e' by (auto simp: db' set_doc_def)
    have ok: "doc_ok db e" using inv e(1) by (simp add: log_inv_def)
    show ?thesis
    proof (cases "dc_id e = i")
      case True
      then have "e = d" using find_doc_eq [OF d(4) e(1)] i(1) by simp
      then show ?thesis
        using ok e(2) True i(2) by (simp add: doc_ok_def seqs upto_rec2)
    next
      case False
      then show ?thesis using ok e(2) by (auto intro: doc_ok_other simp: seqs)
    qed
  qed
  moreover have "i \<in> set (map dc_id (collab_documents db))" using d(2,3) by auto
  moreover have "collab_updates db' = collab_updates db @ [\<lparr>up_document = i, up_seq = seq, up_actor = a, up_payload = p\<rparr>]"
    "collab_snapshots db' = collab_snapshots db"
    by (simp_all add: db')
  ultimately show ?thesis
    using inv unfolding log_inv_def same by auto
qed

section \<open>Compacting\<close>

lemma insert_snapshot_Inr:
  assumes "insert_snapshot E s db = Inr db1"
  shows "db1 = db\<lparr>collab_snapshots := collab_snapshots db @ [s]\<rparr>"
  using assms by (simp add: insert_snapshot_def result_simps split: if_splits)

lemma compact_rows_Inr:
  assumes "compact_rows E i n db = Inr (db', c)"
  shows "db' = prune_snapshots i ((set_doc i (\<lambda>d. d\<lparr>dc_snapshot := n, dc_updated_at := now E\<rparr>) db)
      \<lparr>collab_updates := filter (\<lambda>u. \<not> (up_document u = i \<and> up_seq u \<le> n)) (collab_updates db)\<rparr>)"
    "c = int (length (filter (\<lambda>u. up_document u = i \<and> up_seq u \<le> n) (collab_updates db)))"
  using assms by (auto simp: compact_rows_def result_simps Let_def)

lemma snapshot_tx_Inr:
  assumes "snapshot_tx E doc n actor p db = Inr (db', c)"
  obtains i d a where "pg_uuid E doc = Some i" "find_doc db i = Some d" "dc_snapshot d < n" "n \<le> dc_head d"
    "db' = prune_snapshots i ((set_doc i (\<lambda>d. d\<lparr>dc_snapshot := n, dc_updated_at := now E\<rparr>) db)
      \<lparr>collab_updates := filter (\<lambda>u. \<not> (up_document u = i \<and> up_seq u \<le> n)) (collab_updates db),
       collab_snapshots := collab_snapshots db @ [\<lparr>sn_document = i, sn_seq = n, sn_actor = a, sn_payload = p\<rparr>]\<rparr>)"
proof -
  obtain i d where i: "pg_uuid E doc = Some i" "find_doc db i = Some d" "dc_snapshot d < n" "n \<le> dc_head d"
    and row: "cd_uuid_opt E ''store snapshot'' (nullableID actor) (\<lambda>a.
             bindR (insert_snapshot E \<lparr>sn_document = i, sn_seq = n, sn_actor = a, sn_payload = p\<rparr> db)
               (compact_rows E i n)) = Inr (db', c)"
    using assms unfolding snapshot_tx_def cd_uuid_Inr bindR_Inr_iff cd_sql_Inr by (auto split: option.splits if_splits)
  then obtain a db1 where a: "insert_snapshot E \<lparr>sn_document = i, sn_seq = n, sn_actor = a, sn_payload = p\<rparr> db = Inr db1"
    "compact_rows E i n db1 = Inr (db', c)"
    unfolding cd_uuid_opt_Inr bindR_Inr_iff by blast
  show ?thesis
    using that [OF i, of a] compact_rows_Inr(1) [OF a(2)] insert_snapshot_Inr [OF a(1)] by (cases db) (simp add: set_doc_def)
qed

lemma filter_newest:
  assumes "distinct xs"
  shows "filter (\<lambda>x. x \<in> set (take n (rev xs))) xs = drop (length xs - n) xs"
proof -
  let ?k = "length xs - n"
  have s: "set (take n (rev xs)) = set (drop ?k xs)"
    by (simp add: take_rev)
  have d: "set (take ?k xs) \<inter> set (drop ?k xs) = {}"
    using assms by (metis append_take_drop_id distinct_append)
  have "filter (\<lambda>x. x \<in> set (drop ?k xs)) (take ?k xs @ drop ?k xs) = drop ?k xs"
    unfolding filter_append using d by (auto simp: filter_empty_conv filter_id_conv)
  then show ?thesis unfolding s by (simp only: append_take_drop_id)
qed

lemma snap_seqs_prune:
  assumes "sorted_wrt (<) (snap_seqs db i)"
  shows "snap_seqs (prune_snapshots i db) j =
    (if j = i then drop (length (snap_seqs db i) - snapshotRetention) (snap_seqs db i) else snap_seqs db j)"
proof -
  have st: "sorted (snap_seqs db i)" "distinct (snap_seqs db i)"
    using assms by (simp_all add: strict_sorted_iff)
  have n: "newest_seqs db i = take snapshotRetention (rev (snap_seqs db i))"
    using st(1) by (simp add: newest_seqs_def snap_seqs_def sorted_sort_id)
  have "snap_seqs (prune_snapshots i db) i = filter (\<lambda>x. x \<in> set (newest_seqs db i)) (snap_seqs db i)"
    by (simp add: snap_seqs_def prune_snapshots_def filter_map comp_def conj_commute cong: conj_cong)
  moreover have "snap_seqs (prune_snapshots i db) j = snap_seqs db j" if "j \<noteq> i"
    using that by (auto simp: snap_seqs_def prune_snapshots_def intro!: arg_cong [where f = "map sn_seq"] filter_cong)
  ultimately show ?thesis
    using filter_newest [OF st(2)] n by simp
qed

lemma snaps_ok_store:
  assumes "snaps_ok m ss" "m < n" "0 \<le> m"
  shows "sorted_wrt (<) (ss @ [n])" "snaps_ok n (drop (length (ss @ [n]) - snapshotRetention) (ss @ [n]))"
proof -
  have below: "\<forall>x \<in> set ss. x < n"
  proof
    fix x assume x: "x \<in> set ss"
    then have s: "ss = butlast ss @ [last ss]" by (cases ss) auto
    then have "sorted_wrt (<) (butlast ss @ [last ss])" "x \<in> set (butlast ss @ [last ss])"
      using assms(1) x by (simp_all add: snaps_ok_def flip: s)
    then have "x \<le> last ss" by (auto simp: sorted_wrt_append)
    with x assms show "x < n" by (auto simp: snaps_ok_def split: if_splits)
  qed
  then show s: "sorted_wrt (<) (ss @ [n])"
    using assms(1) by (simp add: snaps_ok_def sorted_wrt_append)
  let ?k = "length (ss @ [n]) - snapshotRetention"
  have k: "?k < length (ss @ [n])" by (simp add: snapshotRetention_def)
  have "list_all ((<) 0) (ss @ [n])"
    using assms below by (auto simp: snaps_ok_def)
  then have "list_all ((<) 0) (drop ?k (ss @ [n]))"
    unfolding list_all_iff using set_drop_subset [of ?k "ss @ [n]"] by blast
  moreover have "last (drop ?k (ss @ [n])) = n" "drop ?k (ss @ [n]) \<noteq> []"
    using k last_drop [of ?k "ss @ [n]"] by (simp_all only: last_snoc drop_eq_Nil not_le not_False_eq_True)
  ultimately show "snaps_ok n (drop ?k (ss @ [n]))"
    using s sorted_wrt_drop [of "(<)" "ss @ [n]" ?k] by (simp only: snaps_ok_def length_drop) (simp add: snapshotRetention_def)
qed

lemma filter_upto_gt: "k \<le> n \<Longrightarrow> n \<le> m \<Longrightarrow> filter (\<lambda>x. \<not> x \<le> n) [k + 1..m] = [n + 1..m]" for k n m :: int
proof -
  assume a: "k \<le> n" "n \<le> m"
  have "[k + 1..m] = [k + 1..n] @ [n + 1..m]"
    using a upto_split1 [of "k + 1" "n + 1" m] by (cases "n = m") simp_all
  then show ?thesis by (simp add: filter_empty_conv filter_id_conv)
qed

lemma snapshot_tx_inv:
  assumes inv: "log_inv db" and tx: "snapshot_tx E doc n actor p db = Inr (db', c)"
  shows "log_inv db'"
proof -
  obtain i d a where "pg_uuid E doc = Some i" and i: "find_doc db i = Some d" "dc_snapshot d < n" "n \<le> dc_head d"
    and db': "db' = prune_snapshots i ((set_doc i (\<lambda>d. d\<lparr>dc_snapshot := n, dc_updated_at := now E\<rparr>) db)
      \<lparr>collab_updates := filter (\<lambda>u. \<not> (up_document u = i \<and> up_seq u \<le> n)) (collab_updates db),
       collab_snapshots := collab_snapshots db @ [\<lparr>sn_document = i, sn_seq = n, sn_actor = a, sn_payload = p\<rparr>]\<rparr>)"
    by (rule snapshot_tx_Inr [OF tx])
  note d = log_invD [OF inv i(1)]
  let ?f = "\<lambda>d. d\<lparr>dc_snapshot := n, dc_updated_at := now E\<rparr>"
  let ?db1 = "(set_doc i ?f db)\<lparr>collab_updates := filter (\<lambda>u. \<not> (up_document u = i \<and> up_seq u \<le> n)) (collab_updates db),
       collab_snapshots := collab_snapshots db @ [\<lparr>sn_document = i, sn_seq = n, sn_actor = a, sn_payload = p\<rparr>]\<rparr>"
  have docs: "collab_documents db' = collab_documents (set_doc i ?f db)" by (simp add: db' prune_snapshots_def)
  have same: "map dc_id (collab_documents db') = map dc_id (collab_documents db)"
    "map (\<lambda>d. (dc_rtype d, dc_rid d)) (collab_documents db') = map (\<lambda>d. (dc_rtype d, dc_rid d)) (collab_documents db)"
    using set_doc_ids [of ?f i db] by (simp_all add: docs)
  have s1: "snap_seqs ?db1 j = snap_seqs db j @ (if j = i then [n] else [])" for j
    by (simp add: snap_seqs_def)
  have dok: "snaps_ok (dc_snapshot d) (snap_seqs db i)" "0 \<le> dc_snapshot d" using d by (auto simp: doc_ok_def)
  note st = snaps_ok_store [OF dok(1) i(2) dok(2)]
  have snaps: "snap_seqs db' j = (if j = i then drop (length (snap_seqs db i @ [n]) - snapshotRetention) (snap_seqs db i @ [n])
      else snap_seqs db j)" for j
    using snap_seqs_prune [of ?db1 i j] st(1) s1 by (simp add: db')
  have upds: "update_seqs db' j = (if j = i then filter (\<lambda>x. \<not> x \<le> n) (update_seqs db i) else update_seqs db j)" for j
    by (auto simp: db' prune_snapshots_def update_seqs_def filter_map comp_def conj_commute intro!: arg_cong [where f = "map up_seq"] filter_cong)
  have "doc_ok db' e'" if e': "e' \<in> set (collab_documents db')" for e'
  proof -
    obtain e where e: "e \<in> set (collab_documents db)" "e' = (if dc_id e = i then ?f e else e)"
      using e' by (auto simp: docs set_doc_def)
    have ok: "doc_ok db e" using inv e(1) by (simp add: log_inv_def)
    show ?thesis
    proof (cases "dc_id e = i")
      case True
      then have "e = d" using find_doc_eq [OF d(4) e(1)] i(1) by simp
      then show ?thesis
        using ok e(2) True i st(2) filter_upto_gt [of "dc_snapshot d" n "dc_head d"] dok(2) by (simp add: doc_ok_def upds snaps)
    next
      case False
      then show ?thesis using ok e(2) by (auto intro: doc_ok_other simp: upds snaps)
    qed
  qed
  moreover have "i \<in> set (map dc_id (collab_documents db))" using d(2,3) by auto
  moreover have "set (collab_updates db') \<subseteq> set (collab_updates db)"
    "set (collab_snapshots db') \<subseteq> insert \<lparr>sn_document = i, sn_seq = n, sn_actor = a, sn_payload = p\<rparr> (set (collab_snapshots db))"
    by (auto simp: db' prune_snapshots_def)
  ultimately show ?thesis
    using inv unfolding log_inv_def same by auto
qed

section \<open>Opening, deleting, claiming\<close>

lemma insert_document_Inr:
  assumes "insert_document E newID w t i by_user db = Inr (Inr (d, db'))"
  shows "find_resource db t i = None" "db' = db\<lparr>collab_documents := collab_documents db @ [d]\<rparr>" "dc_id d = newID" "dc_rtype d = t"
    "dc_rid d = i" "dc_head d = 0" "dc_snapshot d = 0" "dc_workspace d = w"
  using assms by (auto simp: insert_document_def result_simps Let_def split: if_splits option.splits)

lemma insert_document_Inl: "insert_document E newID w t i by_user db = Inr (Inl d) \<Longrightarrow> find_resource db t i = Some d"
  by (auto simp: insert_document_def result_simps Let_def split: if_splits option.splits)

lemma new_document_inv:
  assumes inv: "log_inv db" and fresh: "newID \<notin> set (map dc_id (collab_documents db))"
    and ins: "insert_document E newID w t i by_user db = Inr (Inr (d, db'))"
  shows "log_inv db'"
proof -
  note f = insert_document_Inr [OF ins]
  have empty: "update_seqs db newID = []" "snap_seqs db newID = []"
    using inv fresh by (auto simp: log_inv_def update_seqs_def snap_seqs_def filter_empty_conv)
  have tables: "update_seqs db' j = update_seqs db j" "snap_seqs db' j = snap_seqs db j" for j
    by (simp_all add: f(2) update_seqs_def snap_seqs_def)
  have "doc_ok db' d"
    using empty f(3,6,7) by (simp add: doc_ok_def tables snaps_ok_def)
  moreover have "doc_ok db' e" if "e \<in> set (collab_documents db)" for e
    using inv that by (auto simp: log_inv_def tables intro: doc_ok_other)
  moreover have "(t, i) \<notin> set (map (\<lambda>d. (dc_rtype d, dc_rid d)) (collab_documents db))"
    using f(1) by (auto simp: find_resource_def find_None_iff)
  ultimately show ?thesis
    using inv fresh f(3-5) by (auto simp: log_inv_def f(2))
qed

lemma EnsureDocumentTx_Inr:
  assumes "EnsureDocumentTx E newID w t r u db = Inr db'"
  shows "db' = db \<or> (\<exists>w' i by_user d. insert_document E newID w' t i by_user db = Inr (Inr (d, db')))"
proof -
  obtain w' i c x where ins: "insert_document E newID w' t i c db = Inr x"
    and l: "(let (d, db') = (case x of Inl d \<Rightarrow> (d, db) | Inr p \<Rightarrow> p) in
       if dc_workspace d \<noteq> w then Inl ErrResourceConflict else Inr db') = Inr db'"
    using assms unfolding EnsureDocumentTx_def cd_uuid_Inr cd_uuid_opt_Inr bindR_Inr_iff by blast
  then show ?thesis
    by (cases x) (auto simp: Let_def split: if_splits prod.splits)
qed

lemma EnsureDocument_cases:
  assumes "EnsureDocument E newID w t r u db = (res, db')"
  shows "db' = db \<or> (\<exists>w' i by_user d. insert_document E newID w' t i by_user db = Inr (Inr (d, db')) \<and> res = Inr d)"
proof -
  let ?ins = "cd_uuid E ''create document'' w (\<lambda>w. cd_uuid E ''create document'' r (\<lambda>i.
       cd_uuid_opt E ''create document'' (nullableID u) (\<lambda>creator. insert_document E newID w t i creator db)))"
  have "\<exists>w' i by_user. insert_document E newID w' t i by_user db = Inr x" if "?ins = Inr x" for x
    using that unfolding cd_uuid_Inr cd_uuid_opt_Inr by blast
  then show ?thesis
    using assms by (auto simp: EnsureDocument_def split: sum.splits prod.splits)
qed

definition delete_rows :: "string \<Rightarrow> collab_db \<Rightarrow> collab_db" where
  "delete_rows i db = db\<lparr>collab_documents := filter (\<lambda>d. dc_id d \<noteq> i) (collab_documents db),
     collab_updates := filter (\<lambda>u. up_document u \<noteq> i) (collab_updates db),
     collab_snapshots := filter (\<lambda>s. sn_document s \<noteq> i) (collab_snapshots db)\<rparr>"

lemma DeleteDocument_cases:
  assumes "DeleteDocument E doc db = (res, db')"
  shows "db' = db \<or> (\<exists>i. pg_uuid E doc = Some i \<and> db' = delete_rows i db)"
  using assms by (auto simp: DeleteDocument_def delete_rows_def result_simps split: sum.splits)

lemma delete_inv:
  assumes "log_inv db"
  shows "log_inv (delete_rows i db)"
proof -
  have t: "update_seqs (delete_rows i db) j = update_seqs db j" "snap_seqs (delete_rows i db) j = snap_seqs db j" if "j \<noteq> i" for j
    using that by (auto simp: delete_rows_def update_seqs_def snap_seqs_def intro!: arg_cong [where f = "map _"] filter_cong)
  have "doc_ok (delete_rows i db) d" if "d \<in> set (collab_documents db)" "dc_id d \<noteq> i" for d
    using assms that by (auto simp: log_inv_def t intro: doc_ok_other)
  then show ?thesis
    using assms by (auto simp: log_inv_def delete_rows_def distinct_map_filter)
qed

lemma FindStale_cases:
  assumes "FindStaleProjections E g a n db = (res, db')"
  shows "\<exists>P. db' = db\<lparr>collab_documents := map (\<lambda>d. if P d then d\<lparr>dc_repair_requested_at := Some (now E)\<rparr> else d) (collab_documents db)\<rparr>"
proof (cases "db_fault E ''stale projections''")
  case True
  then show ?thesis using assms by (auto simp: FindStaleProjections_def cd_sql_def intro!: exI [where x = "\<lambda>_. False"])
next
  case False
  then show ?thesis using assms by (auto simp: FindStaleProjections_def cd_sql_def)
qed

lemma stamp_inv:
  assumes "log_inv db"
  shows "log_inv (db\<lparr>collab_documents := map (\<lambda>d. if P d then d\<lparr>dc_repair_requested_at := t\<rparr> else d) (collab_documents db)\<rparr>)"
proof -
  define g where "g d = (if P d then d\<lparr>dc_repair_requested_at := t\<rparr> else d)" for d
  have ids: "map dc_id (map g ds) = map dc_id ds"
    "map (\<lambda>d. (dc_rtype d, dc_rid d)) (map g ds) = map (\<lambda>d. (dc_rtype d, dc_rid d)) ds" for ds
    by (simp_all add: g_def)
  have ok: "doc_ok (db\<lparr>collab_documents := ds\<rparr>) (g d) = doc_ok db d" for d ds
    by (simp add: doc_ok_def update_seqs_def snap_seqs_def g_def)
  have "log_inv (db\<lparr>collab_documents := map g (collab_documents db)\<rparr>)"
    using assms ids [of "collab_documents db"] by (simp add: log_inv_def ok del: map_map)
  then show ?thesis by (simp only: g_def [abs_def])
qed

section \<open>Histories\<close>

datatype collab_op =
    Op_Ensure env string string string string string
  | Op_EnsureTx env string string string string string
  | Op_Append env string string string
  | Op_Snapshot env string int string string
  | Op_Delete env string
  | Op_Repair env int int nat

fun collab_step :: "collab_op \<Rightarrow> collab_db \<Rightarrow> collab_db" where
  "collab_step (Op_Ensure E newID w t r u) db = snd (EnsureDocument E newID w t r u db)"
| "collab_step (Op_EnsureTx E newID w t r u) db = (case EnsureDocumentTx E newID w t r u db of Inl _ \<Rightarrow> db | Inr db' \<Rightarrow> db')"
| "collab_step (Op_Append E doc u p) db = snd (AppendUpdate E doc u p db)"
| "collab_step (Op_Snapshot E doc n u p) db = snd (SaveSnapshot E doc n u p db)"
| "collab_step (Op_Delete E doc) db = snd (DeleteDocument E doc db)"
| "collab_step (Op_Repair E g a n) db = snd (FindStaleProjections E g a n db)"

fun collab_guard :: "collab_op \<Rightarrow> collab_db \<Rightarrow> bool" where
  "collab_guard (Op_Ensure E newID w t r u) db \<longleftrightarrow> newID \<notin> set (map dc_id (collab_documents db))"
| "collab_guard (Op_EnsureTx E newID w t r u) db \<longleftrightarrow> newID \<notin> set (map dc_id (collab_documents db))"
| "collab_guard _ db \<longleftrightarrow> True"

lemma SaveSnapshot_keeps:
  assumes "P db" "\<And>db1 c. snapshot_tx E doc n u p db = Inr (db1, c) \<Longrightarrow> P db1"
  shows "P (snd (SaveSnapshot E doc n u p db))"
  using assms WithTx_keeps [of E CollabDb db "snapshot_tx E doc n u p" _ _ P]
  by (simp add: SaveSnapshot_def) (metis prod.collapse)

lemma AppendUpdate_keeps:
  assumes "P db" "\<And>db1 r. append_tx E doc u p db = Inr (db1, r) \<Longrightarrow> P db1"
  shows "P (snd (AppendUpdate E doc u p db))"
  using assms WithTx_keeps [of E CollabDb db "append_tx E doc u p" _ _ P]
  by (simp add: AppendUpdate_def) (metis prod.collapse)

interpretation collab: guarded_machine collab_step collab_guard log_inv
proof
  fix db op
  assume inv: "log_inv db" and ok: "collab_guard op db"
  show "log_inv (collab_step op db)"
  proof (cases op)
    case (Op_Ensure E newID w t r u)
    then show ?thesis
      using EnsureDocument_cases [of E newID w t r u db] inv ok new_document_inv [OF inv]
      by (cases "EnsureDocument E newID w t r u db") auto
  next
    case (Op_EnsureTx E newID w t r u)
    then show ?thesis
      using EnsureDocumentTx_Inr [of E newID w t r u db] inv ok new_document_inv [OF inv] by (auto split: sum.split)
  next
    case (Op_Append E doc u p)
    then show ?thesis using AppendUpdate_keeps [of log_inv, OF inv append_tx_inv [OF inv]] by simp
  next
    case (Op_Snapshot E doc n u p)
    then show ?thesis using SaveSnapshot_keeps [of log_inv, OF inv snapshot_tx_inv [OF inv]] by simp
  next
    case (Op_Delete E doc)
    then show ?thesis
      using DeleteDocument_cases [of E doc db] inv delete_inv [OF inv] by (cases "DeleteDocument E doc db") auto
  next
    case (Op_Repair E g a n)
    then show ?thesis
      using FindStale_cases [of E g a n db] stamp_inv [OF inv] by (cases "FindStaleProjections E g a n db") auto
  qed
qed

end
