(* ===== verification/Collab_Properties.thy ===== *)
theory Collab_Properties
  imports Collab_Invariant Authz_Properties
begin

text \<open>
  What a client of the collaboration log can rely on: an acknowledged update stays in the log until a snapshot covers it, and a
  client that pages through \<open>Load\<close> receives every update exactly once and in order, whatever appends and compactions commit between
  the statements of a load.
\<close>

section \<open>Progress of one document\<close>

definition progress :: "string \<Rightarrow> collab_db \<Rightarrow> collab_db \<Rightarrow> bool" where
  "progress i db db' \<longleftrightarrow> (\<forall>d. find_doc db i = Some d \<longrightarrow>
     (\<exists>d'. find_doc db' i = Some d' \<and> dc_snapshot d \<le> dc_snapshot d' \<and> dc_head d \<le> dc_head d' \<and>
        (\<forall>u \<in> set (collab_updates db). up_document u = i \<longrightarrow> dc_snapshot d' < up_seq u \<longrightarrow> u \<in> set (collab_updates db'))))"

fun spares :: "string \<Rightarrow> collab_op \<Rightarrow> bool" where
  "spares i (Op_Delete E doc) \<longleftrightarrow> pg_uuid E doc \<noteq> Some i"
| "spares i _ \<longleftrightarrow> True"

lemma progress_refl [simp]: "progress i db db"
  by (simp add: progress_def)

lemma progress_trans:
  assumes "progress i a b" "progress i b c"
  shows "progress i a c"
  unfolding progress_def
proof (intro allI impI)
  fix d assume "find_doc a i = Some d"
  with assms(1) obtain d' where d': "find_doc b i = Some d'" "dc_snapshot d \<le> dc_snapshot d'" "dc_head d \<le> dc_head d'"
    "\<forall>u \<in> set (collab_updates a). up_document u = i \<longrightarrow> dc_snapshot d' < up_seq u \<longrightarrow> u \<in> set (collab_updates b)"
    by (auto simp: progress_def)
  with assms(2) obtain d'' where d'': "find_doc c i = Some d''" "dc_snapshot d' \<le> dc_snapshot d''" "dc_head d' \<le> dc_head d''"
    "\<forall>u \<in> set (collab_updates b). up_document u = i \<longrightarrow> dc_snapshot d'' < up_seq u \<longrightarrow> u \<in> set (collab_updates c)"
    by (auto simp: progress_def)
  have "u \<in> set (collab_updates c)" if "u \<in> set (collab_updates a)" "up_document u = i" "dc_snapshot d'' < up_seq u" for u
    using that d'(4) d''(2,4) by force
  with d' d'' show "\<exists>d''. find_doc c i = Some d'' \<and> dc_snapshot d \<le> dc_snapshot d'' \<and> dc_head d \<le> dc_head d'' \<and>
      (\<forall>u \<in> set (collab_updates a). up_document u = i \<longrightarrow> dc_snapshot d'' < up_seq u \<longrightarrow> u \<in> set (collab_updates c))"
    by (intro exI [of _ d'']) auto
qed

lemma find_doc_map:
  assumes "\<And>d. dc_id (g d) = dc_id d" "collab_documents db' = map g (collab_documents db)"
  shows "find_doc db' i = map_option g (find_doc db i)"
proof -
  have "find (\<lambda>d. dc_id d = i) (map g ds) = map_option g (find (\<lambda>d. dc_id d = i) ds)" for ds
    using assms(1) by (induction ds) auto
  then show ?thesis by (simp add: find_doc_def assms(2))
qed

lemma progress_map:
  assumes docs: "collab_documents db' = map g (collab_documents db)"
    and g: "\<And>d. dc_id (g d) = dc_id d" "\<And>d. find_doc db i = Some d \<Longrightarrow> dc_snapshot d \<le> dc_snapshot (g d) \<and> dc_head d \<le> dc_head (g d)"
    and rows: "\<And>d u. find_doc db i = Some d \<Longrightarrow> u \<in> set (collab_updates db) \<Longrightarrow> up_document u = i \<Longrightarrow>
      dc_snapshot (g d) < up_seq u \<Longrightarrow> u \<in> set (collab_updates db')"
  shows "progress i db db'"
  using find_doc_map [of g db' db i, OF g(1) docs] g(2) rows by (auto simp: progress_def)

lemma append_progress:
  assumes "append_tx E doc u p db = Inr (db', r)"
  shows "progress i db db'"
proof -
  obtain seq snap where r: "r = (seq, snap)" by (cases r)
  obtain j d a where "pg_uuid E doc = Some j" "find_doc db j = Some d" "seq = dc_head d + 1" "snap = dc_snapshot d"
    and db': "db' = (set_doc j (\<lambda>d. d\<lparr>dc_head := dc_head d + 1, dc_updated_at := now E\<rparr>) db)
       \<lparr>collab_updates := collab_updates db @ [\<lparr>up_document = j, up_seq = seq, up_actor = a, up_payload = p\<rparr>]\<rparr>"
    and "1 \<le> length p" "int (length p) \<le> MaxUpdateBytes"
    by (rule append_tx_Inr [OF assms [unfolded r]])
  show ?thesis
    unfolding db' by (rule progress_map [where g = "\<lambda>d. if dc_id d = j then d\<lparr>dc_head := dc_head d + 1, dc_updated_at := now E\<rparr> else d"])
      (auto simp: set_doc_def)
qed

lemma snapshot_progress:
  assumes "snapshot_tx E doc n u p db = Inr (db', c)" "distinct (map dc_id (collab_documents db))"
  shows "progress i db db'"
proof -
  obtain j d a where "pg_uuid E doc = Some j" and j: "find_doc db j = Some d" "dc_snapshot d < n" "n \<le> dc_head d"
    and db': "db' = prune_snapshots j ((set_doc j (\<lambda>d. d\<lparr>dc_snapshot := n, dc_updated_at := now E\<rparr>) db)
      \<lparr>collab_updates := filter (\<lambda>u. \<not> (up_document u = j \<and> up_seq u \<le> n)) (collab_updates db),
       collab_snapshots := collab_snapshots db @ [\<lparr>sn_document = j, sn_seq = n, sn_actor = a, sn_payload = p\<rparr>]\<rparr>)"
    by (rule snapshot_tx_Inr [OF assms(1)])
  have "e = d" if "find_doc db i = Some e" "dc_id e = j" for e
    using that j(1) find_doc_Some [of db i e] by auto
  then show ?thesis
    unfolding db'
    by (intro progress_map [where g = "\<lambda>d. if dc_id d = j then d\<lparr>dc_snapshot := n, dc_updated_at := now E\<rparr> else d"])
      (use j in \<open>auto simp: set_doc_def prune_snapshots_def dest: find_doc_Some\<close>)
qed

lemma new_document_progress:
  assumes "insert_document E newID w t r c db = Inr (Inr (d, db'))" "newID \<notin> set (map dc_id (collab_documents db))"
  shows "progress i db db'"
proof -
  have "find P ds = Some e \<Longrightarrow> find P (ds @ es) = Some e" for P and ds es :: "Document list" and e
    by (induction ds) auto
  then have "find_doc db' i = Some e" if "find_doc db i = Some e" for e
    using that insert_document_Inr(2) [OF assms(1)] by (simp add: find_doc_def)
  then show ?thesis using insert_document_Inr(2) [OF assms(1)] by (simp add: progress_def)
qed

lemma delete_progress: "j \<noteq> i \<Longrightarrow> progress i db (delete_rows j db)"
proof -
  assume j: "j \<noteq> i"
  have "find (\<lambda>d. dc_id d = i) (filter (\<lambda>d. dc_id d \<noteq> j) ds) = find (\<lambda>d. dc_id d = i) ds" for ds :: "Document list"
    using j by (induction ds) auto
  then have "find_doc (delete_rows j db) i = find_doc db i"
    by (simp add: find_doc_def delete_rows_def)
  then show ?thesis using j by (simp add: progress_def) (simp add: delete_rows_def)
qed

lemma step_progress:
  assumes inv: "log_inv db" and ok: "collab_guard op db" and sp: "spares i op"
  shows "progress i db (collab_step op db)"
proof (cases op)
  case (Op_Ensure E newID w t r u)
  then show ?thesis
    using EnsureDocument_cases [of E newID w t r u db] ok new_document_progress
    by (cases "EnsureDocument E newID w t r u db") fastforce
next
  case (Op_EnsureTx E newID w t r u)
  then show ?thesis
    using EnsureDocumentTx_Inr [of E newID w t r u db] ok new_document_progress by (fastforce split: sum.split)
next
  case (Op_Append E doc u p)
  then show ?thesis using AppendUpdate_keeps [of "progress i db", OF progress_refl append_progress] by simp
next
  case (Op_Snapshot E doc n u p)
  have "distinct (map dc_id (collab_documents db))" using inv by (simp add: log_inv_def)
  with Op_Snapshot show ?thesis
    using SaveSnapshot_keeps [of "progress i db", OF progress_refl snapshot_progress] by simp
next
  case (Op_Delete E doc)
  then show ?thesis
    using DeleteDocument_cases [of E doc db] sp delete_progress by (cases "DeleteDocument E doc db") auto
next
  case (Op_Repair E g a n)
  obtain P where P: "collab_step op db =
      db\<lparr>collab_documents := map (\<lambda>d. if P d then d\<lparr>dc_repair_requested_at := Some (now E)\<rparr> else d) (collab_documents db)\<rparr>"
    using FindStale_cases [of E g a n db] Op_Repair by (cases "FindStaleProjections E g a n db") auto
  show ?thesis
    unfolding P by (rule progress_map [where g = "\<lambda>d. if P d then d\<lparr>dc_repair_requested_at := Some (now E)\<rparr> else d"]) auto
qed

lemma run_progress:
  assumes "log_inv db" "guarded_run collab_step collab_guard ops db = Some db'" "list_all (spares i) ops"
  shows "progress i db db'"
  using assms
proof (induction ops arbitrary: db)
  case (Cons op ops)
  then have ok: "collab_guard op db" "guarded_run collab_step collab_guard ops (collab_step op db) = Some db'"
    by (auto split: if_splits)
  have "progress i db (collab_step op db)"
    using step_progress Cons.prems ok(1) by simp
  moreover have "progress i (collab_step op db) db'"
    using Cons.IH [OF collab.step_inv [OF Cons.prems(1) ok(1)] ok(2)] Cons.prems(3) by simp
  ultimately show ?case by (rule progress_trans)
qed simp

section \<open>Acknowledged updates\<close>

lemma newest_snapshot_ok:
  assumes "log_inv db" "find_doc db i = Some d"
  shows "dc_snapshot d = 0 \<Longrightarrow> newest_snapshot db i = None"
    "dc_snapshot d \<noteq> 0 \<Longrightarrow> \<exists>s. newest_snapshot db i = Some s \<and> sn_seq s = dc_snapshot d \<and> s \<in> set (collab_snapshots db) \<and> sn_document s = i"
proof -
  let ?rows = "filter (\<lambda>s. sn_document s = i) (collab_snapshots db)"
  have ok: "snaps_ok (dc_snapshot d) (map sn_seq ?rows)"
    using log_invD [OF assms] by (simp add: doc_ok_def snap_seqs_def)
  then have "sorted (map sn_seq ?rows)" by (simp add: snaps_ok_def strict_sorted_imp_sorted)
  then have n: "newest_snapshot db i = (case rev ?rows of [] \<Rightarrow> None | s # _ \<Rightarrow> Some s)"
    by (simp add: newest_snapshot_def sorted_sort_id sort_key_id_if_sorted)
  show "newest_snapshot db i = None" if "dc_snapshot d = 0"
  proof -
    have "?rows = []"
      using ok that by (cases ?rows rule: rev_cases) (auto simp: snaps_ok_def)
    with n show ?thesis by simp
  qed
  show "\<exists>s. newest_snapshot db i = Some s \<and> sn_seq s = dc_snapshot d \<and> s \<in> set (collab_snapshots db) \<and> sn_document s = i"
    if "dc_snapshot d \<noteq> 0"
  proof -
    have "?rows \<noteq> []" using ok that by (auto simp: snaps_ok_def)
    then obtain xs s where r: "?rows = xs @ [s]" by (cases ?rows rule: rev_cases) auto
    then have "s \<in> set ?rows" by simp
    then have "s \<in> set (collab_snapshots db)" "sn_document s = i" unfolding set_filter by simp_all
    with r n ok show ?thesis by (auto simp: snaps_ok_def)
  qed
qed

lemma AppendUpdate_Inr:
  assumes "AppendUpdate E doc u p db = (Inr (seq, snap), db1)"
  obtains i d a where "pg_uuid E doc = Some i" "find_doc db i = Some d" "seq = dc_head d + 1"
    "\<lparr>up_document = i, up_seq = seq, up_actor = a, up_payload = p\<rparr> \<in> set (collab_updates db1)"
    "\<exists>d1. find_doc db1 i = Some d1 \<and> dc_head d1 = seq"
proof -
  have tx: "append_tx E doc u p db = Inr (db1, seq, snap)"
    using WithTx_Inr assms unfolding AppendUpdate_def by fastforce
  obtain i d a where i: "pg_uuid E doc = Some i" "find_doc db i = Some d" "seq = dc_head d + 1" and "snap = dc_snapshot d"
    and db1: "db1 = (set_doc i (\<lambda>d. d\<lparr>dc_head := dc_head d + 1, dc_updated_at := now E\<rparr>) db)
       \<lparr>collab_updates := collab_updates db @ [\<lparr>up_document = i, up_seq = seq, up_actor = a, up_payload = p\<rparr>]\<rparr>"
    and "1 \<le> length p" "int (length p) \<le> MaxUpdateBytes"
    by (rule append_tx_Inr [OF tx])
  let ?g = "\<lambda>d. if dc_id d = i then d\<lparr>dc_head := dc_head d + 1, dc_updated_at := now E\<rparr> else d"
  have "find_doc db1 i = map_option ?g (find_doc db i)"
    by (rule find_doc_map) (auto simp: db1 set_doc_def)
  then have "\<exists>d1. find_doc db1 i = Some d1 \<and> dc_head d1 = seq"
    using i find_doc_Some [OF i(2)] by simp
  moreover have "\<lparr>up_document = i, up_seq = seq, up_actor = a, up_payload = p\<rparr> \<in> set (collab_updates db1)"
    by (simp add: db1)
  ultimately show ?thesis using that i by blast
qed

text \<open>
  C29. An acknowledged update is never lost: once \<open>AppendUpdate\<close> has returned a sequence number, then after any later history of appends,
  snapshots, opens, repairs and deletions of other documents, the row with that number and that payload is still in the log, unless
  a stored snapshot of the document covers it.
\<close>

theorem acknowledged_update_survives:
  assumes inv: "log_inv db" and ack: "AppendUpdate E doc u p db = (Inr (seq, snap), db1)" and i: "pg_uuid E doc = Some i"
    and run: "guarded_run collab_step collab_guard ops db1 = Some db2" and sp: "list_all (spares i) ops"
  shows "(\<exists>a. \<lparr>up_document = i, up_seq = seq, up_actor = a, up_payload = p\<rparr> \<in> set (collab_updates db2)) \<or>
    (\<exists>s. newest_snapshot db2 i = Some s \<and> seq \<le> sn_seq s)"
proof -
  obtain i' d a where a: "pg_uuid E doc = Some i'" "find_doc db i' = Some d" "seq = dc_head d + 1"
    "\<lparr>up_document = i', up_seq = seq, up_actor = a, up_payload = p\<rparr> \<in> set (collab_updates db1)"
    "\<exists>d1. find_doc db1 i' = Some d1 \<and> dc_head d1 = seq"
    by (rule AppendUpdate_Inr [OF ack])
  have i': "i' = i" using a(1) i by simp
  have inv1: "log_inv db1"
    using AppendUpdate_keeps [of log_inv db E doc u p, OF inv append_tx_inv [OF inv]] ack by simp
  have inv2: "log_inv db2" by (rule collab.run_inv [OF inv1 run])
  obtain d1 where d1: "find_doc db1 i = Some d1" using a(5) i' by auto
  obtain d2 where d2: "find_doc db2 i = Some d2"
    and keep: "\<forall>u \<in> set (collab_updates db1). up_document u = i \<longrightarrow> dc_snapshot d2 < up_seq u \<longrightarrow> u \<in> set (collab_updates db2)"
    using run_progress [OF inv1 run sp] d1 by (auto simp: progress_def)
  show ?thesis
  proof (cases "dc_snapshot d2 < seq")
    case True
    then show ?thesis using keep a(4) i' by auto
  next
    case False
    have "0 \<le> dc_head d" using log_invD [OF inv a(2)] by (simp add: doc_ok_def)
    with False a(3) have "dc_snapshot d2 \<noteq> 0" by simp
    from newest_snapshot_ok(2) [OF inv2 d2 this] show ?thesis using False by auto
  qed
qed

section \<open>Loading\<close>

lemma take_upto_int: "take n [i..j] = [i..min j (i + int n - 1)]"
proof (induction n arbitrary: i)
  case (Suc n)
  show ?case
  proof (cases "i \<le> j")
    case True
    then have "take (Suc n) [i..j] = i # [i + 1..min j (i + int (Suc n) - 1)]"
      using Suc.IH [of "i + 1"] by (simp add: upto_rec1)
    then show ?thesis using True by (simp add: upto_rec1 [of i])
  qed simp
qed simp

lemma filter_gt_upto: "filter (\<lambda>x. s < x) [k + 1..m] = [max k s + 1..m]" for k s m :: int
proof (cases "s \<le> m \<and> k \<le> s")
  case True
  then show ?thesis using filter_upto_gt [of k s m] by (simp add: not_le max_def)
next
  case False
  then show ?thesis by (auto simp: filter_empty_conv filter_id_conv max_def)
qed

lemma list_updates_seqs:
  assumes "log_inv db" "find_doc db i = Some d"
  shows "map up_seq (list_updates db i since n) = take (nat n) [max (dc_snapshot d) since + 1..dc_head d]"
    "set (list_updates db i since n) \<subseteq> {u \<in> set (collab_updates db). up_document u = i}"
proof -
  let ?rows = "filter (\<lambda>u. up_document u = i \<and> up_seq u > since) (collab_updates db)"
  have "map up_seq ?rows = filter (\<lambda>x. since < x) (update_seqs db i)"
    by (simp add: update_seqs_def filter_map comp_def conj_commute)
  then have rows: "map up_seq ?rows = [max (dc_snapshot d) since + 1..dc_head d]"
    using log_invD [OF assms] by (simp add: doc_ok_def filter_gt_upto)
  then have "sort_key up_seq ?rows = ?rows"
    by (intro sort_key_id_if_sorted) simp
  then have l: "list_updates db i since n = take (nat n) ?rows"
    by (simp add: list_updates_def)
  then show "map up_seq (list_updates db i since n) = take (nat n) [max (dc_snapshot d) since + 1..dc_head d]"
    by (simp add: rows flip: take_map)
  show "set (list_updates db i since n) \<subseteq> {u \<in> set (collab_updates db). up_document u = i}"
    unfolding l using set_take_subset [of "nat n" ?rows] by auto
qed

lemma upto_eq_Cons: "[a..b] = x # xs \<longleftrightarrow> a \<le> b \<and> x = a \<and> xs = [a + 1..b]" for a b x :: int
  by (cases "a \<le> b") (auto simp: upto_rec1)

lemma dropThrough_seqs:
  assumes "map up_seq us = [a + 1..b]"
  shows "map up_seq (dropThrough us q) = [max a q + 1..b]" "set (dropThrough us q) \<subseteq> set us"
proof -
  show "map up_seq (dropThrough us q) = [max a q + 1..b]"
    using assms
  proof (induction us arbitrary: a)
    case (Cons u us)
    then have u: "up_seq u = a + 1" "map up_seq us = [a + 1 + 1..b]" "a + 1 \<le> b"
      by (auto simp: upto_eq_Cons [THEN eq_iff_swap])
    show ?case
      using Cons.IH [OF u(2)] u Cons.prems by (auto simp: max_def)
  qed auto
  show "set (dropThrough us q) \<subseteq> set us"
    by (induction us) auto
qed

lemma through_fold:
  assumes "map up_seq us = [b + 1..e]"
  shows "fold (\<lambda>u t. if up_seq u > t then up_seq u else t) us b = max b e"
  using assms
proof (induction us arbitrary: b)
  case (Cons u us)
  then have u: "up_seq u = b + 1" "map up_seq us = [b + 1 + 1..e]" "b + 1 \<le> e"
    by (auto simp: upto_eq_Cons [THEN eq_iff_swap])
  then show ?case using Cons.IH [OF u(2)] by simp
qed simp

text \<open>The pure part: what \<open>page_state\<close> makes of a gap-free run of rows and the newest snapshot.\<close>

lemma page_state_run:
  fixes doc d
  assumes rows: "map up_seq rows = take (nat (limit + 1)) [max s2 since + 1..h2]" and lim: "1 \<le> limit"
    and snap: "case snap of None \<Rightarrow> s2 \<le> since | Some s \<Rightarrow> s2 \<le> sn_seq s"
  defines "st \<equiv> page_state doc since limit d rows snap"
  defines "base \<equiv> (if ls_Snapshot st = None then since else ls_SnapshotSeq st)"
  shows "map up_seq (ls_Updates st) = [base + 1..ls_ThroughSeq st]" "since \<le> base" "base \<le> ls_ThroughSeq st"
    "ls_HasMore st \<Longrightarrow> since < ls_ThroughSeq st" "\<not> ls_HasMore st \<Longrightarrow> h2 \<le> ls_ThroughSeq st"
    "set (ls_Updates st) \<subseteq> set rows" "base = (case snap of None \<Rightarrow> since | Some s \<Rightarrow> max since (sn_seq s))"
    "ls_ThroughSeq st \<le> max base h2"
proof -
  define m where "m = max s2 since"
  define more_rows where "more_rows \<longleftrightarrow> int (length rows) > limit"
  define us where "us = (if more_rows then take (nat limit) rows else rows)"
  define b where "b = (case snap of None \<Rightarrow> since | Some s \<Rightarrow> if sn_seq s > since then sn_seq s else since)"
  define t where "t = min h2 (m + limit)"
  have len: "int (length rows) = max 0 (min (limit + 1) (h2 - m))"
    using arg_cong [OF rows, of length] lim by (auto simp: m_def min_def max_def)
  then have more: "more_rows \<longleftrightarrow> h2 - m > limit" using lim by (auto simp: more_rows_def)
  have us: "map up_seq us = [m + 1..t]"
  proof (cases more_rows)
    case True
    then have "map up_seq us = take (nat limit) [m + 1..h2]"
      using rows lim by (simp add: us_def m_def flip: take_map)
    then show ?thesis using lim by (simp add: take_upto_int t_def)
  next
    case False
    then show ?thesis
      using rows more lim by (simp add: us_def take_upto_int t_def m_def)
  qed
  have b: "since \<le> b" "s2 \<le> b \<or> s2 \<le> since" "m \<le> b \<or> b = since \<and> m = since"
    using snap by (auto simp: b_def m_def split: option.splits)
  have st: "ls_Snapshot st = None \<longleftrightarrow> b = since" "b \<noteq> since \<Longrightarrow> ls_SnapshotSeq st = b" "ls_HasMore st = more_rows"
    "ls_Updates st = (if b = since then us else dropThrough us b)"
    "ls_ThroughSeq st = fold (\<lambda>u t. if up_seq u > t then up_seq u else t) (ls_Updates st) b"
    by (auto simp: st_def page_state_def b_def us_def more_rows_def Let_def split: option.splits)
  have base: "base = b" using st(1,2) by (auto simp: base_def)
  have upd: "map up_seq (ls_Updates st) = [b + 1..t]"
  proof -
    have "since \<le> m" by (simp add: m_def)
    then show ?thesis using us b dropThrough_seqs(1) [OF us, of b] by (cases "b = since") (auto simp: st(4) max_def)
  qed
  have th: "ls_ThroughSeq st = max b t" using through_fold [OF upd] st(5) by simp
  show "map up_seq (ls_Updates st) = [base + 1..ls_ThroughSeq st]"
    using upd th base by (cases "b \<le> t") (simp_all add: max_def)
  show "since \<le> base" "base \<le> ls_ThroughSeq st" using b th base by simp_all
  show "base = (case snap of None \<Rightarrow> since | Some s \<Rightarrow> max since (sn_seq s))"
    unfolding base b_def by (auto split: option.splits)
  show "ls_ThroughSeq st \<le> max base h2" using th base by (auto simp: t_def)
  show "since < ls_ThroughSeq st" if "ls_HasMore st"
    using that st(3) more th b lim by (auto simp: t_def m_def)
  show "h2 \<le> ls_ThroughSeq st" if "\<not> ls_HasMore st"
    using that st(3) more th by (auto simp: t_def)
  show "set (ls_Updates st) \<subseteq> set rows"
    using dropThrough_seqs(2) [OF us, of b] set_take_subset [of "nat limit" rows] by (auto simp: st(4) us_def split: if_splits)
qed

lemma load_at_Inr:
  assumes "load_at E db1 db2 db3 doc since limit = Inr st" "pg_uuid E doc = Some i"
  obtains d where "find_doc db1 i = Some d" "1 \<le> (if limit \<le> 0 \<or> limit > maxStateUpdates then maxStateUpdates else limit)"
    "st = page_state doc since (if limit \<le> 0 \<or> limit > maxStateUpdates then maxStateUpdates else limit) d
       (list_updates db2 i since ((if limit \<le> 0 \<or> limit > maxStateUpdates then maxStateUpdates else limit) + 1)) (newest_snapshot db3 i)"
proof -
  define n where "n = (if limit \<le> 0 \<or> limit > maxStateUpdates then maxStateUpdates else limit)"
  have n: "1 \<le> n" by (simp add: n_def maxStateUpdates_def)
  obtain d where "find_doc db1 i = Some d" "st = page_state doc since n d (list_updates db2 i since (n + 1)) (newest_snapshot db3 i)"
    using assms unfolding load_at_def n_def [symmetric] Let_def bindR_Inr_iff Get_def cd_uuid_Inr cd_sql_Inr
    by (auto split: option.splits simp: result_simps)
  then show ?thesis using that n unfolding n_def by blast
qed

lemma load_run:
  assumes inv: "log_inv db2" "log_inv db3" and pr: "progress i db2 db3" and d2: "find_doc db2 i = Some d2" and since: "0 \<le> since"
    and ld: "load_at E db1 db2 db3 doc since limit = Inr st" "pg_uuid E doc = Some i"
  defines "base \<equiv> (if ls_Snapshot st = None then since else ls_SnapshotSeq st)"
  shows "map up_seq (ls_Updates st) = [base + 1..ls_ThroughSeq st]" "since \<le> base" "base \<le> ls_ThroughSeq st"
    "ls_HasMore st \<Longrightarrow> since < ls_ThroughSeq st" "\<not> ls_HasMore st \<Longrightarrow> dc_head d2 \<le> ls_ThroughSeq st"
    "set (ls_Updates st) \<subseteq> {u \<in> set (collab_updates db2). up_document u = i}"
    "\<exists>d3. find_doc db3 i = Some d3 \<and> base = max since (dc_snapshot d3)" "ls_ThroughSeq st \<le> max base (dc_head d2)"
proof -
  define n where "n = (if limit \<le> 0 \<or> limit > maxStateUpdates then maxStateUpdates else limit)"
  define rows where "rows = list_updates db2 i since (n + 1)"
  obtain d where d: "1 \<le> n" "st = page_state doc since n d rows (newest_snapshot db3 i)"
    using load_at_Inr [OF ld] unfolding n_def rows_def by blast
  obtain d3 where d3: "find_doc db3 i = Some d3" "dc_snapshot d2 \<le> dc_snapshot d3"
    using pr d2 by (auto simp: progress_def)
  have "0 \<le> dc_snapshot d2" using log_invD [OF inv(1) d2] by (simp add: doc_ok_def)
  then have snap: "case newest_snapshot db3 i of None \<Rightarrow> dc_snapshot d2 \<le> since | Some s \<Rightarrow> dc_snapshot d2 \<le> sn_seq s"
    using newest_snapshot_ok [OF inv(2) d3(1)] d3(2) since by (cases "dc_snapshot d3 = 0") auto
  note rows = list_updates_seqs [OF inv(1) d2, of since "n + 1", folded rows_def]
  note p = page_state_run [OF rows(1) d(1) snap, of doc d, folded d(2), folded base_def]
  show "map up_seq (ls_Updates st) = [base + 1..ls_ThroughSeq st]" "since \<le> base" "base \<le> ls_ThroughSeq st"
    "ls_HasMore st \<Longrightarrow> since < ls_ThroughSeq st" "\<not> ls_HasMore st \<Longrightarrow> dc_head d2 \<le> ls_ThroughSeq st"
    using p(1-5) by simp_all
  show "set (ls_Updates st) \<subseteq> {u \<in> set (collab_updates db2). up_document u = i}"
    using p(6) rows(2) by blast
  have "base = max since (dc_snapshot d3)"
    using p(7) newest_snapshot_ok [OF inv(2) d3(1)] since by (cases "dc_snapshot d3 = 0") auto
  with d3(1) show "\<exists>d3. find_doc db3 i = Some d3 \<and> base = max since (dc_snapshot d3)" by blast
  show "ls_ThroughSeq st \<le> max base (dc_head d2)" by (rule p(8))
qed


section \<open>Catching up\<close>

text \<open>
  The client's loop: ask from the watermark until an answer is not truncated. Fuel bounds the number of requests; an answer that
  returns a snapshot replaces what was collected before it, as the client applies it.
\<close>

fun catch_up :: "nat \<Rightarrow> env \<Rightarrow> collab_db \<Rightarrow> string \<Rightarrow> int \<Rightarrow> int \<Rightarrow> (int \<times> Update list) option" where
  "catch_up 0 E db doc since limit = None"
| "catch_up (Suc n) E db doc since limit =
     (case Load E db doc since limit of
        Inl _ \<Rightarrow> None
      | Inr st \<Rightarrow>
          (let base = (if ls_Snapshot st = None then since else ls_SnapshotSeq st) in
           if \<not> ls_HasMore st then Some (base, ls_Updates st)
           else case catch_up n E db doc (ls_ThroughSeq st) limit of
                  None \<Rightarrow> None
                | Some (base', us) \<Rightarrow> if base' = ls_ThroughSeq st then Some (base, ls_Updates st @ us) else Some (base', us)))"

lemma Load_total:
  assumes "no_faults E" "pg_uuid E doc = Some i" "find_doc db i = Some d"
  shows "\<exists>st. Load E db doc since limit = Inr st"
  using assms by (simp add: Load_def load_at_def Get_def cd_uuid_def cd_sql_def no_faults_def Let_def)

text \<open>The loop ends: with one request per missing update as fuel, it returns the gap-free tail up to the head.\<close>

lemma catch_up_run:
  assumes inv: "log_inv db" and E: "no_faults E" "pg_uuid E doc = Some i" and d: "find_doc db i = Some d"
    and since: "0 \<le> since" "since \<le> dc_head d" and fuel: "nat (dc_head d - since) < n"
  shows "\<exists>base us. catch_up n E db doc since limit = Some (base, us) \<and> since \<le> base \<and> dc_snapshot d \<le> base \<and>
    map up_seq us = [base + 1..dc_head d] \<and> set us \<subseteq> {u \<in> set (collab_updates db). up_document u = i}"
  using since fuel
proof (induction n arbitrary: since)
  case (Suc n)
  obtain st where st: "Load E db doc since limit = Inr st" using Load_total [OF E d] by blast
  define base where "base = (if ls_Snapshot st = None then since else ls_SnapshotSeq st)"
  note l = load_run [OF inv inv progress_refl d Suc.prems(1) st [unfolded Load_def] E(2), folded base_def]
  have base: "base = max since (dc_snapshot d)" using l(7) d by simp
  have "dc_snapshot d \<le> dc_head d" using log_invD [OF inv d] by (simp add: doc_ok_def)
  then have top: "ls_ThroughSeq st \<le> dc_head d" using l(8) base Suc.prems(2) by simp
  show ?case
  proof (cases "ls_HasMore st")
    case False
    then have "ls_ThroughSeq st = dc_head d" using l(5) top by simp
    then show ?thesis using st False base l(1,2,6) by (simp add: base_def [symmetric])
  next
    case True
    have t: "0 \<le> ls_ThroughSeq st" "nat (dc_head d - ls_ThroughSeq st) < n"
      using l(4) [OF True] Suc.prems top by auto
    obtain base' us where r: "catch_up n E db doc (ls_ThroughSeq st) limit = Some (base', us)" "ls_ThroughSeq st \<le> base'"
      "dc_snapshot d \<le> base'" "map up_seq us = [base' + 1..dc_head d]" "set us \<subseteq> {u \<in> set (collab_updates db). up_document u = i}"
      using Suc.IH [OF t(1) top t(2)] by blast
    show ?thesis
    proof (cases "base' = ls_ThroughSeq st")
      case True
      have "[base + 1..ls_ThroughSeq st] @ [ls_ThroughSeq st + 1..dc_head d] = [base + 1..dc_head d]"
        using l(3) top upto_split2 [of "base + 1" "ls_ThroughSeq st" "dc_head d"]
        by (cases "base = ls_ThroughSeq st") auto
      then show ?thesis using st \<open>ls_HasMore st\<close> r True base l(1,2,6) by (simp add: base_def [symmetric])
    next
      case False
      then show ?thesis using st \<open>ls_HasMore st\<close> r l(2,3) by (simp add: base_def [symmetric])
    qed
  qed
qed simp

text \<open>
  C31. A client catches up. On a document without concurrent writers, the client's loop ends and returns a gap-free run of updates from
  its watermark, or from a snapshot at or past it, up to the head of the log; one request per missing update is enough.
\<close>

theorem client_catches_up:
  assumes "log_inv db" "no_faults E" "pg_uuid E doc = Some i" "find_doc db i = Some d" "0 \<le> since" "since \<le> dc_head d"
  shows "\<exists>base us. catch_up (Suc (nat (dc_head d - since))) E db doc since limit = Some (base, us) \<and> since \<le> base \<and>
    dc_snapshot d \<le> base \<and> map up_seq us = [base + 1..dc_head d] \<and> set us \<subseteq> {u \<in> set (collab_updates db). up_document u = i}"
  by (rule catch_up_run [OF assms]) simp

section \<open>Instances\<close>

definition sample_collab :: collab_db where
  "sample_collab =
     \<lparr>cd_acl = sample_db\<lparr>files := [\<lparr>f_id = uid CHR ''f'', f_workspace = uid CHR ''a'', f_user = uid CHR ''1'',
        f_folder = Some (uid CHR ''b''), f_message = None, f_mail_message = None\<rparr>]\<rparr>,
      collab_documents = [\<lparr>dc_id = uid CHR ''5'', dc_workspace = uid CHR ''a'', dc_rtype = ''document'', dc_rid = uid CHR ''f'',
        dc_head = 4, dc_snapshot = 1, dc_created_by = None, dc_updated_at = 0, dc_repair_requested_at = None\<rparr>],
      collab_updates = map (\<lambda>n. \<lparr>up_document = uid CHR ''5'', up_seq = n, up_actor = None, up_payload = ''u''\<rparr>) [2, 3, 4],
      collab_snapshots = [\<lparr>sn_document = uid CHR ''5'', sn_seq = 1, sn_actor = None, sn_payload = ''s''\<rparr>],
      file_projections = []\<rparr>"

lemma sample_collab_inv: "log_inv sample_collab" by code_simp

lemma sample_collab_doc: "find_doc sample_collab (uid CHR ''5'') = Some (collab_documents sample_collab ! 0)"
  "dc_head (collab_documents sample_collab ! 0) = 4" "dc_snapshot (collab_documents sample_collab ! 0) = 1"
  by code_simp+

lemma sample_collab_id: "pg_uuid sample_env (uid CHR ''5'') = Some (uid CHR ''5'')" by code_simp

definition sample_ack :: collab_db where
  "sample_ack = snd (AppendUpdate sample_env (uid CHR ''5'') (uid CHR ''1'') ''x'' sample_collab)"

definition sample_later :: "collab_op list" where
  "sample_later = [Op_Append sample_env (uid CHR ''5'') (uid CHR ''2'') ''y'', Op_Snapshot sample_env (uid CHR ''5'') 3 (uid CHR ''2'') ''t'']"

definition sample_end :: collab_db where
  "sample_end = fold collab_step sample_later sample_ack"

lemma sample_ack_result: "AppendUpdate sample_env (uid CHR ''5'') (uid CHR ''1'') ''x'' sample_collab = (Inr (5, 1), sample_ack)"
proof -
  have "fst (AppendUpdate sample_env (uid CHR ''5'') (uid CHR ''1'') ''x'' sample_collab) = Inr (5, 1)" by code_simp
  then show ?thesis unfolding sample_ack_def by (metis prod.collapse)
qed

lemma sample_later_run: "guarded_run collab_step collab_guard sample_later sample_ack = Some sample_end"
  by (simp add: sample_end_def sample_later_def)

lemma sample_spares: "list_all (spares (uid CHR ''5'')) sample_later"
  by (simp add: sample_later_def)

theorem acknowledged_update_survives_witness:
  "(\<exists>a. \<lparr>up_document = uid CHR ''5'', up_seq = 5, up_actor = a, up_payload = ''x''\<rparr> \<in> set (collab_updates sample_end)) \<or>
   (\<exists>s. newest_snapshot sample_end (uid CHR ''5'') = Some s \<and> 5 \<le> sn_seq s)"
  by (rule acknowledged_update_survives [OF sample_collab_inv sample_ack_result sample_collab_id sample_later_run sample_spares])


theorem client_catches_up_witness:
  "\<exists>base us. catch_up 5 sample_env sample_collab (uid CHR ''5'') 0 2 = Some (base, us) \<and> 1 \<le> base \<and> map up_seq us = [base + 1..4]"
proof -
  have five: "Suc (nat (dc_head (collab_documents sample_collab ! 0) - 0)) = 5" by (simp add: sample_collab_doc)
  show ?thesis
    using client_catches_up [OF sample_collab_inv sample_env_ok(2) sample_collab_id sample_collab_doc(1), of 0 2, unfolded five]
    unfolding sample_collab_doc by auto
qed

end
