(* ===== verification/Go_Base64.thy ===== *)
theory Go_Base64
  imports Go_Json
begin

text \<open>
  Go's \<open>encoding/base64\<close>, the encoders: \<open>StdEncoding\<close>, which \<open>encoding/json\<close> uses for a \<open>[]byte\<close>, and \<open>URLEncoding\<close>, which the cursors
  use, both with padding. Decoding what was encoded gives the bytes back.
\<close>

section \<open>Encoding\<close>

definition b64_char :: "nat \<Rightarrow> char" where
  "b64_char n =
     (if n < 26 then char_of (n + 65)
      else if n < 52 then char_of (n + 71)
      else if n < 62 then char_of (n - 4)
      else if n = 62 then CHR ''+'' else CHR ''/'')"

definition byte :: "char \<Rightarrow> nat" where
  "byte c = of_char c"

fun b64_encode :: "string \<Rightarrow> string" where
  "b64_encode [] = []"
| "b64_encode [a] = [b64_char (byte a div 4), b64_char (byte a mod 4 * 16), CHR ''='', CHR ''='']"
| "b64_encode [a, b] =
     [b64_char (byte a div 4), b64_char (byte a mod 4 * 16 + byte b div 16), b64_char (byte b mod 16 * 4), CHR ''='']"
| "b64_encode (a # b # c # s) =
     b64_char (byte a div 4) # b64_char (byte a mod 4 * 16 + byte b div 16) #
     b64_char (byte b mod 16 * 4 + byte c div 64) # b64_char (byte c mod 64) # b64_encode s"

definition to_url :: "char \<Rightarrow> char" where
  "to_url c = (if c = CHR ''+'' then CHR ''-'' else if c = CHR ''/'' then CHR ''_'' else c)"

definition of_url :: "char \<Rightarrow> char" where
  "of_url c = (if c = CHR ''-'' then CHR ''+'' else if c = CHR ''_'' then CHR ''/''
               else if c = CHR ''+'' \<or> c = CHR ''/'' then CHR ''*'' else c)"

definition base64_url_encode :: "string \<Rightarrow> string" where
  "base64_url_encode s = map to_url (b64_encode s)"

definition base64_url :: "string \<Rightarrow> string option" where
  "base64_url s = base64_std (map of_url s)"

section \<open>Round trip\<close>

lemma byte_less [simp]: "byte c < 256"
  by (simp add: byte_def)

lemma char_of_byte [simp]: "char_of (byte c) = c"
  by (simp add: byte_def)

lemma b64_char_facts:
  assumes "n < 64"
  shows "b64_value (b64_char n) = Some n" "b64_char n \<noteq> CHR ''=''" "b64_char n \<noteq> CHR 0x0A" "b64_char n \<noteq> CHR 0x0D"
    "of_url (to_url (b64_char n)) = b64_char n"
proof -
  have b: "byte (b64_char n) = (if n < 26 then n + 65 else if n < 52 then n + 71 else if n < 62 then n - 4 else if n = 62 then 43 else 47)"
    using assms by (simp add: b64_char_def byte_def)
  have eq: "c = d \<longleftrightarrow> byte c = byte d" for c d
    by (metis char_of_byte)
  have k: "byte CHR ''+'' = 43" "byte CHR ''/'' = 47" "byte CHR ''='' = 61" "byte CHR 0x0A = 10" "byte CHR 0x0D = 13" "byte CHR ''-'' = 45"
    "byte CHR ''_'' = 95" "byte CHR ''*'' = 42"
    by (simp_all add: byte_def)
  have r: "is_upper c \<longleftrightarrow> 65 \<le> byte c \<and> byte c \<le> 90" "is_lower c \<longleftrightarrow> 97 \<le> byte c \<and> byte c \<le> 122" "is_digit c \<longleftrightarrow> 48 \<le> byte c \<and> byte c \<le> 57"
    for c by (simp_all add: is_upper_def is_lower_def is_digit_def less_eq_char_def byte_def)
  consider "n < 26" | "26 \<le> n" "n < 52" | "52 \<le> n" "n < 62" | "n = 62" | "n = 63" using assms by linarith
  note range = this
  have v: "b64_value c = (if 65 \<le> byte c \<and> byte c \<le> 90 then Some (byte c - 65) else if 97 \<le> byte c \<and> byte c \<le> 122 then Some (byte c - 71)
      else if 48 \<le> byte c \<and> byte c \<le> 57 then Some (byte c + 4) else if byte c = 43 then Some 62 else if byte c = 47 then Some 63 else None)" for c
    unfolding b64_value_def r Let_def eq [of c] k byte_def [symmetric] ..
  show "b64_value (b64_char n) = Some n"
    unfolding v b by (cases rule: range) (simp_all, linarith)
  show "b64_char n \<noteq> CHR ''=''" "b64_char n \<noteq> CHR 0x0A" "b64_char n \<noteq> CHR 0x0D"
    unfolding eq k b by (cases rule: range; simp)+
  show "of_url (to_url (b64_char n)) = b64_char n"
  proof (cases "n < 62")
    case True
    then have "byte (b64_char n) \<notin> {43, 45, 47, 95}" unfolding b by auto
    then have "b64_char n \<noteq> CHR ''+''" "b64_char n \<noteq> CHR ''-''" "b64_char n \<noteq> CHR ''/''" "b64_char n \<noteq> CHR ''_''"
      using k by auto
    then show ?thesis by (simp add: of_url_def to_url_def)
  next
    case False
    with assms have "n = 62 \<or> n = 63" by linarith
    then show ?thesis by (auto simp: of_url_def to_url_def b64_char_def)
  qed
qed

lemma sextets [simp]:
  "byte a div 4 < 64" "byte a mod 4 * 16 < 64" "byte a mod 4 * 16 + byte b div 16 < 64" "byte b mod 16 * 4 < 64"
  "byte b mod 16 * 4 + byte c div 64 < 64" "byte c mod 64 < 64"
proof -
  have "byte b div 16 < 16" "byte c div 64 < 4" "byte a div 4 < 64"
    by (simp_all add: less_mult_imp_div_less)
  moreover have "byte a mod 4 < 4" "byte b mod 16 < 16" by simp_all
  ultimately show "byte a div 4 < 64" "byte a mod 4 * 16 < 64" "byte a mod 4 * 16 + byte b div 16 < 64" "byte b mod 16 * 4 < 64"
    "byte b mod 16 * 4 + byte c div 64 < 64" "byte c mod 64 < 64" by (linarith, linarith, linarith, linarith, linarith, simp)
qed

lemma rejoin:
  fixes a b c :: nat
  shows "a div 4 * 4 + a mod 4 * 16 div 16 = a"
    "b < 256 \<Longrightarrow> a div 4 * 4 + (a mod 4 * 16 + b div 16) div 16 = a"
    "b < 256 \<Longrightarrow> (a mod 4 * 16 + b div 16) mod 16 * 16 + b mod 16 * 4 div 4 = b"
    "b < 256 \<Longrightarrow> c < 256 \<Longrightarrow> (a mod 4 * 16 + b div 16) mod 16 * 16 + (b mod 16 * 4 + c div 64) div 4 = b"
    "c < 256 \<Longrightarrow> (b mod 16 * 4 + c div 64) mod 4 * 64 + c mod 64 = c"
proof -
  show "a div 4 * 4 + a mod 4 * 16 div 16 = a" by simp
  assume b: "b < 256"
  then have "b div 16 < 16" by (simp add: less_mult_imp_div_less)
  then have "(a mod 4 * 16 + b div 16) div 16 = a mod 4" "(a mod 4 * 16 + b div 16) mod 16 = b div 16" by simp_all
  then show "a div 4 * 4 + (a mod 4 * 16 + b div 16) div 16 = a"
    "(a mod 4 * 16 + b div 16) mod 16 * 16 + b mod 16 * 4 div 4 = b" by simp_all
next
  assume b: "b < 256" and c: "c < 256"
  then have "b div 16 < 16" "c div 64 < 4" by (simp_all add: less_mult_imp_div_less)
  then have "(a mod 4 * 16 + b div 16) mod 16 = b div 16" "(b mod 16 * 4 + c div 64) div 4 = b mod 16" by simp_all
  then show "(a mod 4 * 16 + b div 16) mod 16 * 16 + (b mod 16 * 4 + c div 64) div 4 = b" by simp
next
  assume c: "c < 256"
  then have "c div 64 < 4" by (simp add: less_mult_imp_div_less)
  then have "(b mod 16 * 4 + c div 64) mod 4 = c div 64" by simp
  then show "(b mod 16 * 4 + c div 64) mod 4 * 64 + c mod 64 = c" by simp
qed

lemma b64_encode_not_nil [simp]: "b64_encode s = [] \<longleftrightarrow> s = []"
  by (cases s rule: b64_encode.cases) auto

lemma b64_encode_length: "s \<noteq> [] \<Longrightarrow> \<exists>a b c d t. b64_encode s = a # b # c # d # t"
  by (cases s rule: b64_encode.cases) auto

lemma b64_chunk_encode:
  "b64_chunk [b64_char (byte a div 4), b64_char (byte a mod 4 * 16)] = Some [a]"
  "b64_chunk [b64_char (byte a div 4), b64_char (byte a mod 4 * 16 + byte b div 16), b64_char (byte b mod 16 * 4)] = Some [a, b]"
  "b64_chunk [b64_char (byte a div 4), b64_char (byte a mod 4 * 16 + byte b div 16), b64_char (byte b mod 16 * 4 + byte c div 64),
     b64_char (byte c mod 64)] = Some [a, b, c]"
proof -
  have "b64_bytes [byte a div 4, byte a mod 4 * 16] = [a]"
    "b64_bytes [byte a div 4, byte a mod 4 * 16 + byte b div 16, byte b mod 16 * 4] = [a, b]"
    "b64_bytes [byte a div 4, byte a mod 4 * 16 + byte b div 16, byte b mod 16 * 4 + byte c div 64, byte c mod 64] = [a, b, c]"
    by (simp_all only: b64_bytes_def list.case rejoin byte_less char_of_byte)
  then show "b64_chunk [b64_char (byte a div 4), b64_char (byte a mod 4 * 16)] = Some [a]"
    "b64_chunk [b64_char (byte a div 4), b64_char (byte a mod 4 * 16 + byte b div 16), b64_char (byte b mod 16 * 4)] = Some [a, b]"
    "b64_chunk [b64_char (byte a div 4), b64_char (byte a mod 4 * 16 + byte b div 16), b64_char (byte b mod 16 * 4 + byte c div 64),
       b64_char (byte c mod 64)] = Some [a, b, c]"
    by (simp_all add: b64_chunk_def b64_char_facts)
qed

lemma b64_decode_encode: "b64_decode (b64_encode s) = Some s"
proof (induction s rule: b64_encode.induct)
  case (4 a b c s)
  then show ?case
  proof (cases "s = []")
    case False
    then obtain e f g h t where "b64_encode s = e # f # g # h # t" using b64_encode_length by blast
    then show ?thesis using "4.IH" by (simp add: b64_char_facts b64_chunk_encode)
  qed (simp add: b64_char_facts b64_chunk_encode)
qed (simp_all add: b64_char_facts b64_chunk_encode)

lemma b64_encode_chars: "c \<in> set (b64_encode s) \<Longrightarrow> (\<exists>n < 64. c = b64_char n) \<or> c = CHR ''=''"
  by (induction s rule: b64_encode.induct) (auto intro: sextets)

lemma base64_std_encode [simp]: "base64_std (b64_encode s) = Some s"
proof -
  have "filter (\<lambda>c. c \<noteq> CHR 0x0A \<and> c \<noteq> CHR 0x0D) (b64_encode s) = b64_encode s"
    using b64_encode_chars [of _ s] b64_char_facts(3,4) by (fastforce simp: filter_id_conv)
  then show ?thesis by (simp add: base64_std_def b64_decode_encode)
qed

lemma base64_url_round_trip [simp]: "base64_url (base64_url_encode s) = Some s"
proof -
  have "map of_url (map to_url (b64_encode s)) = b64_encode s"
  proof -
    have "of_url (to_url c) = c" if "c \<in> set (b64_encode s)" for c
    proof (cases "c = CHR ''=''")
      case True
      then show ?thesis by (simp add: to_url_def of_url_def)
    next
      case False
      with b64_encode_chars [OF that] b64_char_facts(5) show ?thesis by blast
    qed
    then show ?thesis by (simp add: comp_def map_idI)
  qed
  then show ?thesis by (simp add: base64_url_def base64_url_encode_def)
qed

end
