(* ===== verification/Go_Time.thy ===== *)
theory Go_Time
  imports Go_Base64
begin

text \<open>
  Times as text: \<open>time.Time.Format\<close> and \<open>time.Parse\<close> with the layout \<open>RFC3339Nano\<close>. A time is its instant in nanoseconds since the
  epoch, with the offset of its location as a separate argument where it shows. The parser is Go's general one on this layout: the hour
  may have one digit, a fraction may follow a comma, digits beyond the ninth are dropped, an offset may be 24 hours or 60 minutes.
\<close>

text \<open>The zero \<open>time.Time\<close>, 1 January of year 1.\<close>

definition zero_time :: int where
  "zero_time = - 62135596800 * 1000000000"

section \<open>Formatting\<close>

definition RFC3339Nano_at :: "int \<Rightarrow> int \<Rightarrow> string" where
  "RFC3339Nano_at off t =
     (let ns = t mod 1000000000; f = rev (dropWhile ((=) CHR ''0'') (rev (pad_dec 9 ns)));
          zone = \<bar>off\<bar> div 60 in
      format_seconds (t div 1000000000 + off) @ (if ns = 0 then '''' else ''.'' @ f) @
      (if off = 0 then ''Z''
       else (if off \<le> - 60 then ''-'' else ''+'') @ pad_dec 2 (zone div 60) @ '':'' @ pad_dec 2 (zone mod 60)))"

section \<open>Parsing\<close>

definition digit_value :: "char \<Rightarrow> int" where
  "digit_value c = of_char c - 48"

fun getnum :: "bool \<Rightarrow> string \<Rightarrow> (int \<times> string) option" where
  "getnum fixed (a # b # s) =
     (if \<not> is_digit a then None
      else if \<not> is_digit b then (if fixed then None else Some (digit_value a, b # s))
      else Some (10 * digit_value a + digit_value b, s))"
| "getnum fixed [a] = (if is_digit a \<and> \<not> fixed then Some (digit_value a, []) else None)"
| "getnum fixed [] = None"

fun getyear :: "string \<Rightarrow> (int \<times> string) option" where
  "getyear (a # b # c # d # s) = (if list_all is_digit [a, b, c, d] then Some (undec 0 [a, b, c, d], s) else None)"
| "getyear _ = None"

definition skip_char :: "char \<Rightarrow> string \<Rightarrow> string option" where
  "skip_char c s = (case s of x # r \<Rightarrow> if x = c then Some r else None | [] \<Rightarrow> None)"

definition getfrac :: "string \<Rightarrow> int \<times> string" where
  "getfrac s =
     (case s of
        p # d # _ \<Rightarrow>
          if (p = CHR ''.'' \<or> p = CHR '','') \<and> is_digit d
          then let ds = take 9 (takeWhile is_digit (tl s)) in (undec 0 ds * 10 ^ (9 - length ds), dropWhile is_digit (tl s))
          else (0, s)
      | _ \<Rightarrow> (0, s))"

definition getzone :: "string \<Rightarrow> (int \<times> string) option" where
  "getzone s =
     (case s of
        CHR ''Z'' # r \<Rightarrow> Some (0, r)
      | sg # a # b # c # d # e # r \<Rightarrow>
          if c \<noteq> CHR '':'' then None
          else (case (getnum True [a, b], getnum True [d, e]) of
                  (Some (hr, _), Some (mm, _)) \<Rightarrow>
                    if hr > 24 \<or> mm > 60 then None
                    else if sg = CHR ''+'' then Some ((hr * 60 + mm) * 60, r)
                    else if sg = CHR ''-'' then Some (- ((hr * 60 + mm) * 60), r)
                    else None
                | _ \<Rightarrow> None)
      | _ \<Rightarrow> None)"

definition month_lengths :: "int \<Rightarrow> int list" where
  "month_lengths y = [31, if leap_year y then 29 else 28, 31, 30, 31, 30, 31, 31, 30, 31, 30, 31]"

definition days_of :: "int \<Rightarrow> int \<Rightarrow> int \<Rightarrow> int" where
  \<comment> \<open>days from 1 January 1970 to a date\<close>
  "days_of y m d =
     365 * (y - 1) + (y - 1) div 4 - (y - 1) div 100 + (y - 1) div 400 - 719162 + sum_list (take (nat (m - 1)) (month_lengths y)) + d - 1"

definition Parse_RFC3339Nano :: "string \<Rightarrow> int option" where
  "Parse_RFC3339Nano s0 =
     Option.bind (getyear s0) (\<lambda>(y, s). Option.bind (skip_char CHR ''-'' s) (\<lambda>s.
     Option.bind (getnum True s) (\<lambda>(m, s). Option.bind (skip_char CHR ''-'' s) (\<lambda>s.
     Option.bind (getnum True s) (\<lambda>(d, s). Option.bind (skip_char CHR ''T'' s) (\<lambda>s.
     Option.bind (getnum False s) (\<lambda>(hh, s). Option.bind (skip_char CHR '':'' s) (\<lambda>s.
     Option.bind (getnum True s) (\<lambda>(mi, s). Option.bind (skip_char CHR '':'' s) (\<lambda>s.
     Option.bind (getnum True s) (\<lambda>(sec, s).
       let (ns, s) = getfrac s in
       Option.bind (getzone s) (\<lambda>(off, s).
         if s \<noteq> [] \<or> m \<le> 0 \<or> m > 12 \<or> d < 1 \<or> d > month_lengths y ! nat (m - 1) \<or> hh \<ge> 24 \<or> mi \<ge> 60 \<or> sec \<ge> 60 then None
         else Some ((days_of y m d * 86400 + hh * 3600 + mi * 60 + sec - off) * 1000000000 + ns)))))))))))))"

lemma Parse_examples:
  "Parse_RFC3339Nano ''2024-02-29T12:34:56.5Z'' = Some 1709210096500000000"
  "Parse_RFC3339Nano ''1970-01-01T09:00:00+09:00'' = Some 0"
  "Parse_RFC3339Nano ''2023-02-29T00:00:00Z'' = None"
  "Parse_RFC3339Nano ''1970-01-01T0:00:00,25Z'' = Some 250000000"
  by code_simp+

section \<open>Dates\<close>

lemma month_day_run:
  assumes "month_day ls m0 d = (m, dd)" "0 \<le> d" "d < sum_list ls"
  shows "m0 \<le> m" "m < m0 + int (length ls)" "sum_list (take (nat (m - m0)) ls) + dd - 1 = d" "1 \<le> dd" "dd \<le> ls ! nat (m - m0)"
proof -
  have "m0 \<le> m \<and> m < m0 + int (length ls) \<and> sum_list (take (nat (m - m0)) ls) + dd - 1 = d \<and> 1 \<le> dd \<and> dd \<le> ls ! nat (m - m0)"
    using assms
  proof (induction ls m0 d rule: month_day.induct)
    case (2 l ls m0 d)
    show ?case
    proof (cases "d < l")
      case False
      then have IH: "m0 + 1 \<le> m" "m < m0 + 1 + int (length ls)" "sum_list (take (nat (m - (m0 + 1))) ls) + dd - 1 = d - l" "1 \<le> dd"
        "dd \<le> ls ! nat (m - (m0 + 1))"
        using 2 by auto
      have n: "nat (m - m0) = Suc (nat (m - (m0 + 1)))" using IH(1) by simp
      show ?thesis using IH unfolding n by simp
    qed (use 2 in auto)
  qed simp
  then show "m0 \<le> m" "m < m0 + int (length ls)" "sum_list (take (nat (m - m0)) ls) + dd - 1 = d" "1 \<le> dd" "dd \<le> ls ! nat (m - m0)"
    by blast+
qed

lemma year_day_run:
  assumes "year_day n = (y, yd)"
  shows "365 * (y - 1) + (y - 1) div 4 - (y - 1) div 100 + (y - 1) div 400 - 719162 + yd = n" "0 \<le> yd" "yd < (if leap_year y then 366 else 365)"
proof -
  define d where "d = n + 719162"
  define a where "a = d div 146097"
  define d1 where "d1 = d mod 146097"
  define b where "b = min 3 (d1 div 36524)"
  define d2 where "d2 = d1 - 36524 * b"
  define c where "c = d2 div 1461"
  define d3 where "d3 = d2 mod 1461"
  define e where "e = min 3 (d3 div 365)"
  have y: "y = 400 * a + 100 * b + 4 * c + e + 1" and yd: "yd = d3 - 365 * e"
  proof -
    have dd: "n + 719528 - 366 = d" by (simp add: d_def)
    have "year_day n = (400 * a + 100 * b + 4 * c + e + 1, d3 - 365 * e)"
      unfolding year_day_def Let_def dd e_def d3_def c_def d2_def b_def d1_def a_def by (rule refl)
    then show "y = 400 * a + 100 * b + 4 * c + e + 1" "yd = d3 - 365 * e" using assms by simp_all
  qed
  have d1: "0 \<le> d1" "d1 < 146097" "d = 146097 * a + d1" by (simp_all add: d1_def a_def)
  have b: "0 \<le> b" "b \<le> 3" "0 \<le> d2" "d2 < 36524 \<or> b = 3 \<and> d2 \<le> 36524"
    using d1 by (auto simp: b_def d2_def min_def split: if_splits)
  have d3: "0 \<le> d3" "d3 < 1461" "d2 = 1461 * c + d3" by (simp_all add: d3_def c_def)
  have c: "0 \<le> c" "c \<le> 24" using b d3 by linarith+
  have e: "0 \<le> e" "e \<le> 3" "0 \<le> yd" "yd < 365 \<or> e = 3 \<and> yd = 365"
    using d3 by (auto simp: e_def yd min_def split: if_splits)
  have "(y - 1) div 4 = 100 * a + 25 * b + c" "(y - 1) div 100 = 4 * a + b" "(y - 1) div 400 = a"
    using b c e unfolding y by linarith+
  then show "365 * (y - 1) + (y - 1) div 4 - (y - 1) div 100 + (y - 1) div 400 - 719162 + yd = n"
    using d1(3) d3(3) unfolding y yd by (simp add: d_def d2_def)
  show "0 \<le> yd" by (rule e(3))
  show "yd < (if leap_year y then 366 else 365)"
  proof (cases "yd = 365")
    case True
    then have e3: "e = 3" "d3 = 1460" using e yd by auto
    then have c24: "c < 24 \<or> b = 3" using b(4) d3(3) c by linarith
    have y4: "y = 4 * (100 * a + 25 * b + c + 1)" using y e3 by simp
    have "y mod 100 \<noteq> 0 \<or> y mod 400 = 0"
    proof (cases "c = 24")
      case True
      then have "y = 400 * (a + 1)" using c24 y e3 by simp
      then show ?thesis by simp
    next
      case False
      have "y = 100 * (4 * a + b) + (4 * c + 4)" using y e3 by simp
      then have "y mod 100 = (4 * c + 4) mod 100" by (metis mod_mult_self4)
      then show ?thesis using c False by simp
    qed
    with y4 have "leap_year y" by (simp add: leap_year_def)
    then show ?thesis using True by simp
  qed (use e in auto)
qed

lemma civil_date_inverse:
  assumes "civil_date n = (y, m, d)"
  shows "days_of y m d = n" "1 \<le> m" "m \<le> 12" "1 \<le> d" "d \<le> month_lengths y ! nat (m - 1)"
proof -
  obtain yd where yd: "year_day n = (y, yd)" "month_day (month_lengths y) 1 yd = (m, d)"
    using assms by (auto simp: civil_date_def month_lengths_def Let_def split: prod.splits)
  note r = year_day_run [OF yd(1)]
  have "yd < sum_list (month_lengths y)" using r(3) by (cases "leap_year y") (simp_all add: month_lengths_def)
  note q = month_day_run [OF yd(2) r(2) this]
  show "days_of y m d = n" using r(1) q(3) by (simp add: days_of_def)
  show "1 \<le> m" "1 \<le> d" "d \<le> month_lengths y ! nat (m - 1)" by (rule q)+
  show "m \<le> 12" using q(2) by (simp add: month_lengths_def)
qed

lemma month_length_bound: "m < 12 \<Longrightarrow> month_lengths y ! m \<le> 31"
  by (simp add: month_lengths_def nth_Cons split: nat.splits)

section \<open>Digits\<close>

lemma is_digit_iff: "is_digit c \<longleftrightarrow> 48 \<le> (of_char c :: int) \<and> (of_char c :: int) \<le> 57"
proof -
  have "(of_char c :: int) = int (of_char c)" by (simp add: of_nat_of_char)
  then show ?thesis by (auto simp: is_digit_def less_eq_char_def)
qed

lemma undec_zeros: "undec 0 (replicate k CHR ''0'' @ s) = undec 0 s"
  by (induction k) simp_all

lemma dec_length: "0 \<le> n \<Longrightarrow> n < 10 ^ w \<Longrightarrow> 0 < w \<Longrightarrow> length (dec n) \<le> w"
proof (induction n arbitrary: w rule: dec.induct)
  case (1 n)
  show ?case
  proof (cases "n < 10")
    case False
    obtain v where v: "w = Suc v" using 1(4) by (cases w) auto
    have "0 < v" using False 1(3) v by (cases v) auto
    moreover have "n div 10 < 10 ^ v" using 1(3) v by (simp add: div_less_iff_less_mult mult.commute)
    ultimately have "length (dec (n div 10)) \<le> v" using 1(1,2) False by simp
    then show ?thesis using False v by (simp add: dec.simps [of n])
  qed (use 1 in \<open>simp add: dec.simps [of n]\<close>)
qed

lemma pad_dec_facts:
  assumes "0 \<le> n" "n < 10 ^ w" "0 < w"
  shows "length (pad_dec w n) = w" "list_all is_digit (pad_dec w n)" "undec 0 (pad_dec w n) = n"
proof -
  show "length (pad_dec w n) = w" using dec_length [OF assms] by (simp add: pad_dec_def Let_def)
  show "undec 0 (pad_dec w n) = n" using undec_dec [OF assms(1)] by (simp add: pad_dec_def Let_def undec_zeros)
  show "list_all is_digit (pad_dec w n)"
    using dec_digits [OF assms(1)] by (auto simp: pad_dec_def Let_def list_all_iff is_digit_iff)
qed

lemma pad2:
  assumes "0 \<le> n" "n < 100"
  obtains a b where "pad_dec 2 n = [a, b]" "is_digit a" "is_digit b" "10 * digit_value a + digit_value b = n"
proof -
  note f = pad_dec_facts [of n 2]
  obtain a b where ab: "pad_dec 2 n = [a, b]"
    using f(1) assms by (auto simp: numeral_2_eq_2 length_Suc_conv)
  have "10 * digit_value a + digit_value b = n" using f(3) assms ab by (simp add: digit_value_def)
  then show ?thesis using that ab f(2) assms by simp
qed

lemma pad4:
  assumes "0 \<le> n" "n < 10000"
  obtains a b c d where "pad_dec 4 n = [a, b, c, d]" "list_all is_digit [a, b, c, d]" "undec 0 [a, b, c, d] = n"
proof -
  note f = pad_dec_facts [of n 4]
  obtain a b c d where "pad_dec 4 n = [a, b, c, d]"
    using f(1) assms by (auto simp: numeral_eq_Suc length_Suc_conv)
  then show ?thesis using that f(2,3) assms by simp
qed

section \<open>Round trip\<close>

lemma trim_zeros:
  fixes p :: string
  defines "f \<equiv> rev (dropWhile ((=) CHR ''0'') (rev p))"
  shows "p = f @ replicate (length p - length f) CHR ''0''" "length f \<le> length p"
proof -
  define z where "z = takeWhile ((=) CHR ''0'') (rev p)"
  have z: "z = replicate (length z) CHR ''0''"
    by (auto simp: z_def intro!: replicate_eqI dest: set_takeWhileD)
  have p: "p = f @ rev z"
    using takeWhile_dropWhile_id [of "(=) CHR ''0''" "rev p"] unfolding f_def z_def by (metis rev_append rev_rev_ident)
  have "rev z = replicate (length z) CHR ''0''" by (subst z) simp
  moreover have "length p - length f = length z" by (subst p) simp
  ultimately show "p = f @ replicate (length p - length f) CHR ''0''" using p by simp
  show "length f \<le> length p" by (subst p) simp
qed

lemma undec_shift: "undec a (replicate k CHR ''0'') = a * 10 ^ k"
  by (induction k arbitrary: a) (simp_all add: algebra_simps)

lemma getfrac_trim:
  assumes ns: "0 < ns" "ns < 1000000000" and z: "z \<noteq> []" "\<not> is_digit (hd z)"
  shows "getfrac (CHR ''.'' # rev (dropWhile ((=) CHR ''0'') (rev (pad_dec 9 ns))) @ z) = (ns, z)"
proof -
  let ?p = "pad_dec 9 ns"
  define f where "f = rev (dropWhile ((=) CHR ''0'') (rev ?p))"
  note p = pad_dec_facts [of ns 9]
  have len: "length ?p = 9" and dig: "list_all is_digit ?p" and val: "undec 0 ?p = ns" using p ns by simp_all
  have f: "?p = f @ replicate (9 - length f) CHR ''0''" "length f \<le> 9"
    using trim_zeros [of ?p] len unfolding f_def by simp_all
  have v: "undec 0 f * 10 ^ (9 - length f) = ns"
    using val by (subst (asm) f(1)) (simp add: undec_append undec_shift)
  then have ne: "f \<noteq> []" using ns by auto
  have fd: "\<forall>c \<in> set f. is_digit c" using dig by (subst (asm) f(1)) (simp add: list_all_iff)
  obtain c f' where cf: "f = c # f'" using ne by (cases f) auto
  have tw: "takeWhile is_digit (f @ z) = f" "dropWhile is_digit (f @ z) = z"
    using fd z by (cases z; simp add: takeWhile_append2 dropWhile_append2)+
  have "getfrac (CHR ''.'' # f @ z) = (undec 0 (take 9 f) * 10 ^ (9 - length (take 9 f)), z)"
    using fd tw cf by (simp add: getfrac_def)
  then show ?thesis using v f(2) by (simp add: f_def)
qed

lemma getfrac_none: "z = CHR ''Z'' # r \<or> z = CHR ''+'' # r \<or> z = CHR ''-'' # r \<Longrightarrow> getfrac z = (0, z)"
  by (auto simp: getfrac_def split: list.split)

definition zone_text :: "int \<Rightarrow> string" where
  "zone_text off =
     (if off = 0 then ''Z''
      else (if off \<le> - 60 then ''-'' else ''+'') @ pad_dec 2 (\<bar>off\<bar> div 60 div 60) @ '':'' @ pad_dec 2 (\<bar>off\<bar> div 60 mod 60))"

lemma zone_round_trip:
  assumes "60 dvd off" "\<bar>off\<bar> \<le> 86400"
  shows "getzone (zone_text off) = Some (off, [])"
    "zone_text off \<noteq> []" "hd (zone_text off) = CHR ''Z'' \<or> hd (zone_text off) = CHR ''+'' \<or> hd (zone_text off) = CHR ''-''"
proof -
  obtain k where k: "off = 60 * k" using assms(1) by (auto elim: dvdE)
  have z: "\<bar>off\<bar> div 60 = \<bar>k\<bar>" "\<bar>k\<bar> \<le> 1440" using assms(2) by (simp_all add: k abs_mult)
  obtain a b where ab: "pad_dec 2 (\<bar>k\<bar> div 60) = [a, b]" "is_digit a" "is_digit b" "10 * digit_value a + digit_value b = \<bar>k\<bar> div 60"
    by (rule pad2 [of "\<bar>k\<bar> div 60"]) (use z in auto)
  obtain c d where cd: "pad_dec 2 (\<bar>k\<bar> mod 60) = [c, d]" "is_digit c" "is_digit d" "10 * digit_value c + digit_value d = \<bar>k\<bar> mod 60"
    by (rule pad2 [of "\<bar>k\<bar> mod 60"]) (auto simp: order.strict_trans [OF pos_mod_bound])
  have hm: "\<bar>k\<bar> div 60 \<le> 24" "\<bar>k\<bar> mod 60 \<le> 60" "(\<bar>k\<bar> div 60 * 60 + \<bar>k\<bar> mod 60) * 60 = \<bar>off\<bar>"
    using z(2) by (auto simp: k abs_mult intro: less_imp_le)
  show "getzone (zone_text off) = Some (off, [])"
  proof (cases "off = 0")
    case False
    then have "(off \<le> - 60) = (off < 0)" by (auto simp: k)
    then show ?thesis
      using False ab cd hm by (auto simp: zone_text_def z(1) getzone_def)
  qed (simp add: zone_text_def getzone_def)
  show "zone_text off \<noteq> []" "hd (zone_text off) = CHR ''Z'' \<or> hd (zone_text off) = CHR ''+'' \<or> hd (zone_text off) = CHR ''-''"
    by (simp_all add: zone_text_def)
qed

lemma RFC3339Nano_round_trip:
  assumes off: "60 dvd off" "\<bar>off\<bar> \<le> 86400"
    and year: "0 \<le> fst (civil_date ((t div 1000000000 + off) div 86400))" "fst (civil_date ((t div 1000000000 + off) div 86400)) \<le> 9999"
  shows "Parse_RFC3339Nano (RFC3339Nano_at off t) = Some t"
proof -
  define secs where "secs = t div 1000000000 + off"
  define ns where "ns = t mod 1000000000"
  define s where "s = secs mod 86400"
  obtain y m d where ymd: "civil_date (secs div 86400) = (y, m, d)" by (metis prod_cases3)
  have y: "0 \<le> y" "y < 10000" using year ymd by (simp_all add: secs_def)
  note c = civil_date_inverse [OF ymd]
  have "d \<le> 31" using c(3,5) month_length_bound [of "nat (m - 1)" y] by linarith
  have s: "0 \<le> s" "s < 86400" by (simp_all add: s_def)
  have clock: "s div 3600 < 24" "s mod 3600 div 60 < 60" "s mod 60 < 60" "s div 3600 * 3600 + s mod 3600 div 60 * 60 + s mod 60 = s"
  proof -
    show "s div 3600 < 24" "s mod 3600 div 60 < 60" "s mod 60 < 60" using s by (simp_all add: div_less_iff_less_mult)
    have "s mod 60 = s mod 3600 mod 60" by (simp add: mod_mod_cancel)
    then show "s div 3600 * 3600 + s mod 3600 div 60 * 60 + s mod 60 = s" by (simp add: div_mult_mod_eq)
  qed
  have nn: "0 \<le> s div 3600" "0 \<le> s mod 3600 div 60" "0 \<le> s mod 60" using s(1) by (simp_all add: pos_imp_zdiv_nonneg_iff)
  obtain y1 y2 y3 y4 where Y: "pad_dec 4 y = [y1, y2, y3, y4]" "list_all is_digit [y1, y2, y3, y4]" "undec 0 [y1, y2, y3, y4] = y"
    by (rule pad4 [OF y])
  obtain m1 m2 where M: "pad_dec 2 m = [m1, m2]" "is_digit m1" "is_digit m2" "10 * digit_value m1 + digit_value m2 = m"
    by (rule pad2 [of m]) (use c in simp_all)
  obtain d1 d2 where D: "pad_dec 2 d = [d1, d2]" "is_digit d1" "is_digit d2" "10 * digit_value d1 + digit_value d2 = d"
    by (rule pad2 [of d]) (use c \<open>d \<le> 31\<close> in simp_all)
  obtain h1 h2 where H: "pad_dec 2 (s div 3600) = [h1, h2]" "is_digit h1" "is_digit h2" "10 * digit_value h1 + digit_value h2 = s div 3600"
    by (rule pad2 [OF nn(1)]) (use clock(1) in linarith)
  obtain i1 i2 where I: "pad_dec 2 (s mod 3600 div 60) = [i1, i2]" "is_digit i1" "is_digit i2"
      "10 * digit_value i1 + digit_value i2 = s mod 3600 div 60"
    by (rule pad2 [OF nn(2)]) (use clock(2) in linarith)
  obtain k1 k2 where K: "pad_dec 2 (s mod 60) = [k1, k2]" "is_digit k1" "is_digit k2" "10 * digit_value k1 + digit_value k2 = s mod 60"
    by (rule pad2 [OF nn(3)]) (use clock(3) in linarith)
  let ?tail = "(if ns = 0 then [] else CHR ''.'' # rev (dropWhile ((=) CHR ''0'') (rev (pad_dec 9 ns)))) @ zone_text off"
  have shape: "RFC3339Nano_at off t = y1 # y2 # y3 # y4 # CHR ''-'' # m1 # m2 # CHR ''-'' # d1 # d2 # CHR ''T'' # h1 # h2 # CHR '':'' #
      i1 # i2 # CHR '':'' # k1 # k2 # ?tail"
    using y(1) ymd Y(1) M(1) D(1) H(1) I(1) K(1)
    by (simp add: RFC3339Nano_at_def format_seconds_def Let_def zone_text_def flip: secs_def s_def ns_def)
  have frac: "getfrac ?tail = (ns, zone_text off)"
  proof (cases "ns = 0")
    case True
    obtain x r where "zone_text off = x # r" using zone_round_trip(2) [OF off] by (cases "zone_text off") auto
    with zone_round_trip(3) [OF off] True show ?thesis using getfrac_none [of "zone_text off" r] by simp
  next
    case False
    have "0 \<le> ns" "ns < 1000000000" by (simp_all add: ns_def)
    with False have "0 < ns" "ns < 1000000000" by simp_all
    moreover have "\<not> is_digit (hd (zone_text off))"
      using zone_round_trip(3) [OF off] by (auto simp: is_digit_iff)
    ultimately show ?thesis using getfrac_trim [OF _ _ zone_round_trip(2) [OF off]] False by simp
  qed
  have total: "(days_of y m d * 86400 + s div 3600 * 3600 + s mod 3600 div 60 * 60 + s mod 60 - off) * 1000000000 + ns = t"
  proof -
    have "days_of y m d * 86400 + s = secs" using c(1) by (simp add: s_def)
    then have "days_of y m d * 86400 + s div 3600 * 3600 + s mod 3600 div 60 * 60 + s mod 60 - off = t div 1000000000"
      using clock(4) by (simp add: secs_def)
    then show ?thesis by (simp add: ns_def)
  qed
  have valid: "\<not> (m \<le> 0 \<or> m > 12 \<or> d < 1 \<or> d > month_lengths y ! nat (m - 1) \<or> s div 3600 \<ge> 24 \<or> s mod 3600 div 60 \<ge> 60 \<or> s mod 60 \<ge> 60)"
    using c clock(1-3) by linarith
  show ?thesis
    unfolding shape Parse_RFC3339Nano_def
    by (simp only: getyear.simps getnum.simps Y(2,3) M(2-) D(2-) H(2-) I(2-) K(2-) skip_char_def list.case bind.bind_lunit prod.case
        if_True if_False not_True_eq_False simp_thms Let_def frac zone_round_trip(1) [OF off] valid total)
qed

end
