(* ===== verification/Http_Util.thy ===== *)
theory Http_Util
  imports Go_Time
begin

text \<open>
  The parts of \<open>backend/pkg/httputil\<close> every handler goes through: application errors and their replies, the bounded JSON body with
  unknown fields rejected, the check on identifier path parameters. A request body is the value its first JSON text denotes and the
  number of bytes a decoder must read to know it; \<open>uuid.Validate\<close>, the pattern the mux matched and the escaped path are arguments.
\<close>

section \<open>Errors and replies\<close>

record AppError =
  ae_Status :: int
  ae_Code :: string
  ae_Message :: string

definition NewBadRequest :: "string \<Rightarrow> AppError" where
  "NewBadRequest m = \<lparr>ae_Status = 400, ae_Code = ''BAD_REQUEST'', ae_Message = m\<rparr>"

definition NewUnauthorized :: "string \<Rightarrow> AppError" where
  "NewUnauthorized m = \<lparr>ae_Status = 401, ae_Code = ''UNAUTHORIZED'', ae_Message = m\<rparr>"

definition NewForbidden :: "string \<Rightarrow> AppError" where
  "NewForbidden m = \<lparr>ae_Status = 403, ae_Code = ''FORBIDDEN'', ae_Message = m\<rparr>"

definition NewNotFound :: "string \<Rightarrow> AppError" where
  "NewNotFound m = \<lparr>ae_Status = 404, ae_Code = ''NOT_FOUND'', ae_Message = m\<rparr>"

definition NewConflict :: "string \<Rightarrow> AppError" where
  "NewConflict m = \<lparr>ae_Status = 409, ae_Code = ''CONFLICT'', ae_Message = m\<rparr>"

definition NewInternal :: AppError where
  "NewInternal = \<lparr>ae_Status = 500, ae_Code = ''INTERNAL_ERROR'', ae_Message = ''internal server error''\<rparr>"

definition NewPayloadTooLarge :: "string \<Rightarrow> AppError" where
  "NewPayloadTooLarge m = \<lparr>ae_Status = 413, ae_Code = ''PAYLOAD_TOO_LARGE'', ae_Message = m\<rparr>"

datatype 'a response =
    JSON int 'a
  | JSONList int 'a string bool
  | JSONError int string string

fun response_status :: "'a response \<Rightarrow> int" where
  "response_status (JSON s _) = s"
| "response_status (JSONList s _ _ _) = s"
| "response_status (JSONError s _ _) = s"

text \<open>\<open>HandleError\<close>: an error that is not an application error is answered as an internal one.\<close>

definition HandleError :: "AppError option \<Rightarrow> 'a response" where
  "HandleError e =
     (case e of
        Some a \<Rightarrow> JSONError (ae_Status a) (ae_Code a) (ae_Message a)
      | None \<Rightarrow> JSONError 500 ''INTERNAL_ERROR'' ''internal server error'')"

section \<open>Request bodies\<close>

definition MaxRequestBodyBytes :: int where "MaxRequestBodyBytes = 2 ^ 20"

record body =
  bd_json :: "json option"
  bd_read :: int

fun decode_strict :: "(string \<times> 'a field_decoder) list \<Rightarrow> (string \<times> json) list \<Rightarrow> 'a \<Rightarrow> 'a option" where
  "decode_strict fs [] x = Some x"
| "decode_strict fs ((k, v) # kvs) x =
     (case field_for fs k of
        None \<Rightarrow> None
      | Some d \<Rightarrow> (case d v x of None \<Rightarrow> None | Some x' \<Rightarrow> decode_strict fs kvs x'))"

definition removeNUL :: "string \<Rightarrow> string" where
  "removeNUL s = filter (\<lambda>c. c \<noteq> CHR 0x00) s"

text \<open>
  \<open>decodeJSON\<close> into a struct with the fields \<open>fs\<close>; \<open>strip\<close> is what \<open>stripNUL\<close> does to a value of that struct (its string fields lose
  U+0000, its byte slices are left alone).
\<close>

definition decodeJSON :: "body \<Rightarrow> (string \<times> 'a field_decoder) list \<Rightarrow> 'a \<Rightarrow> ('a \<Rightarrow> 'a) \<Rightarrow> int \<Rightarrow> AppError + 'a" where
  "decodeJSON b fs zero strip limit =
     (if bd_read b > limit then Inl (NewPayloadTooLarge (''request body exceeds '' @ FormatInt limit @ '' bytes''))
      else case (case bd_json b of
                   Some JNull \<Rightarrow> Some zero
                 | Some (JObj kvs) \<Rightarrow> decode_strict fs kvs zero
                 | _ \<Rightarrow> None) of
             None \<Rightarrow> Inl \<lparr>ae_Status = 400, ae_Code = ''INVALID_BODY'', ae_Message = ''malformed JSON body''\<rparr>
           | Some v \<Rightarrow> Inr (strip v))"

definition into_int64 :: "(int \<Rightarrow> 'a \<Rightarrow> 'a) \<Rightarrow> 'a field_decoder" where
  "into_int64 put v x =
     (case v of
        JNull \<Rightarrow> Some x
      | JNum s \<Rightarrow>
          (let (neg, ds) = (case s of c # r \<Rightarrow> if c = CHR ''-'' then (True, r) else (False, s) | [] \<Rightarrow> (False, [])) in
           if ds \<noteq> [] \<and> list_all is_digit ds
           then let n = (if neg then - undec 0 ds else undec 0 ds) in
                if - (2 ^ 63) \<le> n \<and> n < 2 ^ 63 then Some (put n x) else None
           else None)
      | _ \<Rightarrow> None)"

section \<open>Numbers in a query string\<close>

text \<open>\<open>strconv.ParseInt (_, 10, 64)\<close>, and \<open>Atoi\<close> on a 64-bit machine: an optional sign and decimal digits, in range.\<close>

definition ParseInt64 :: "string \<Rightarrow> int option" where
  "ParseInt64 s =
     (let (neg, ds) = (case s of c # r \<Rightarrow> if c = CHR ''-'' then (True, r) else if c = CHR ''+'' then (False, r) else (False, s)
                       | [] \<Rightarrow> (False, [])) in
      if ds = [] \<or> \<not> list_all is_digit ds then None
      else let n = (if neg then - undec 0 ds else undec 0 ds) in
           if - (2 ^ 63) \<le> n \<and> n < 2 ^ 63 then Some n else None)"

section \<open>Path parameters\<close>

definition nextSegment :: "string \<Rightarrow> string \<times> string" where
  "nextSegment s = (takeWhile ((\<noteq>) CHR ''/'') s, drop 1 (dropWhile ((\<noteq>) CHR ''/'') s))"

definition hex_value :: "char \<Rightarrow> nat option" where
  "hex_value c =
     (let n = of_char c :: nat in
      if is_digit c then Some (n - 48)
      else if CHR ''a'' \<le> c \<and> c \<le> CHR ''f'' then Some (n - 87)
      else if CHR ''A'' \<le> c \<and> c \<le> CHR ''F'' then Some (n - 55) else None)"

fun PathUnescape :: "string \<Rightarrow> string option" where
  "PathUnescape [] = Some []"
| "PathUnescape (c # s) =
     (if c \<noteq> CHR ''%'' then map_option ((#) c) (PathUnescape s)
      else case s of
        a # b # t \<Rightarrow>
          (case (hex_value a, hex_value b) of
             (Some x, Some y) \<Rightarrow> map_option ((#) (char_of (16 * x + y))) (PathUnescape t)
           | _ \<Rightarrow> None)
      | _ \<Rightarrow> None)"

definition TrimPrefix :: "string \<Rightarrow> string \<Rightarrow> string" where
  "TrimPrefix s p = (if prefix p s then drop (length p) s else s)"

definition is_param :: "string \<Rightarrow> bool" where
  "is_param seg \<longleftrightarrow> \<not> (length seg < 2 \<or> hd seg \<noteq> CHR ''{'' \<or> last seg \<noteq> CHR ''}'')"

definition param_name :: "string \<Rightarrow> string" where
  "param_name seg = butlast (tl seg)"

lemma nextSegment_shorter: "(seg, r) = nextSegment s \<Longrightarrow> s \<noteq> [] \<Longrightarrow> length r < length s"
  using length_dropWhile_le [of "(\<noteq>) CHR ''/''" s] by (cases s) (auto simp: nextSegment_def)

function bad_loop :: "(string \<Rightarrow> bool) \<Rightarrow> string \<Rightarrow> string \<Rightarrow> string option" where
  "bad_loop Validate pat path =
     (if pat = [] then None
      else
        let (seg, pat') = nextSegment pat; (v, path') = nextSegment path in
        if \<not> is_param seg \<or> \<not> suffix ''_id'' (param_name seg) then bad_loop Validate pat' path'
        else case PathUnescape v of
          None \<Rightarrow> Some (param_name seg)
        | Some d \<Rightarrow> if \<not> Validate d then Some (param_name seg) else bad_loop Validate pat' path')"
  by pat_completeness auto
termination
  by (relation "measure (\<lambda>(_, pat, _). length pat)") (auto intro: nextSegment_shorter)

definition badIDParam :: "(string \<Rightarrow> bool) \<Rightarrow> string \<Rightarrow> string \<Rightarrow> string option" where
  "badIDParam Validate pattern escapedPath =
     (if CHR ''{'' \<notin> set pattern then None
      else let pattern = dropWhile ((\<noteq>) CHR ''/'') pattern @ (if CHR ''/'' \<in> set pattern then [] else pattern) in
           bad_loop Validate (TrimPrefix pattern ''/'') (TrimPrefix escapedPath ''/''))"

text \<open>The loop against its meaning: every parameter named \<open>*_id\<close> of the pattern stands over a segment that decodes to a UUID.\<close>

definition id_param_ok :: "(string \<Rightarrow> bool) \<Rightarrow> string \<Rightarrow> string \<Rightarrow> bool" where
  "id_param_ok Validate seg v \<longleftrightarrow>
     (is_param seg \<and> suffix ''_id'' (param_name seg) \<longrightarrow> (\<exists>d. PathUnescape v = Some d \<and> Validate d))"

declare bad_loop.simps [simp del]

fun pad_zip :: "string list \<Rightarrow> string list \<Rightarrow> (string \<times> string) list" where
  "pad_zip [] vs = []"
| "pad_zip (s # ss) [] = (s, []) # pad_zip ss []"
| "pad_zip (s # ss) (v # vs) = (s, v) # pad_zip ss vs"

lemma split_nextSegment:
  "split_on CHR ''/'' s = (case nextSegment s of (seg, r) \<Rightarrow> if CHR ''/'' \<in> set s then seg # split_on CHR ''/'' r else [s])"
proof (induction s)
  case (Cons c s)
  then show ?case by (auto simp: nextSegment_def split: list.splits)
qed (simp add: nextSegment_def)

lemma nextSegment_none: "CHR ''/'' \<notin> set s \<Longrightarrow> nextSegment s = (s, [])"
proof -
  assume "CHR ''/'' \<notin> set s"
  then have "\<forall>c \<in> set s. CHR ''/'' \<noteq> c" by auto
  then have "takeWhile ((\<noteq>) CHR ''/'') s = s" "dropWhile ((\<noteq>) CHR ''/'') s = []"
    by (simp_all only: takeWhile_eq_all_conv dropWhile_eq_Nil_conv)
  then show ?thesis by (simp only: nextSegment_def drop_Nil)
qed

lemma pad_zip_empty: "pad_zip ss [[]] = pad_zip ss []"
  by (cases ss) simp_all

lemma pad_zip_step:
  "nextSegment path = (v, path') \<Longrightarrow> pad_zip (s # ss) (split_on CHR ''/'' path) = (s, v) # pad_zip ss (split_on CHR ''/'' path')"
  using split_nextSegment [of path] nextSegment_none [of path] by (cases "CHR ''/'' \<in> set path") (simp_all add: pad_zip_empty)

lemma bad_loop_None:
  "bad_loop V pat path = None \<longleftrightarrow>
     list_all (\<lambda>(s, v). id_param_ok V s v) (pad_zip (split_on CHR ''/'' pat) (split_on CHR ''/'' path))"
proof (induction V pat path rule: bad_loop.induct)
  case (1 V pat path)
  obtain seg pat' where p: "nextSegment pat = (seg, pat')" by fastforce
  obtain v path' where q: "nextSegment path = (v, path')" by fastforce
  have empty: "bad_loop V [] p = None" "id_param_ok V [] w" for p w
    by (simp_all add: bad_loop.simps id_param_ok_def is_param_def)
  have split: "pad_zip (split_on CHR ''/'' pat) (split_on CHR ''/'' path) =
      (if CHR ''/'' \<in> set pat then (seg, v) # pad_zip (split_on CHR ''/'' pat') (split_on CHR ''/'' path') else [(seg, v)])"
    using split_nextSegment [of pat] p pad_zip_step [OF q] nextSegment_none [of pat] by auto
  have stop: "pat' = []" if "CHR ''/'' \<notin> set pat"
    using nextSegment_none [OF that] p by simp
  have IH: "bad_loop V pat' path' = None \<longleftrightarrow>
      list_all (\<lambda>(s, v). id_param_ok V s v) (pad_zip (split_on CHR ''/'' pat') (split_on CHR ''/'' path'))"
    if "pat \<noteq> []" "id_param_ok V seg v"
    using that "1.IH"(1) [OF that(1) p [symmetric] refl q [symmetric] refl] "1.IH"(2) [OF that(1) p [symmetric] refl q [symmetric] refl]
    by (auto simp: id_param_ok_def)
  show ?case
  proof (cases "pat = []")
    case True
    then show ?thesis using pad_zip_step [OF q, of "[]" "[]"] by (simp add: empty)
  next
    case False
    have step: "bad_loop V pat path = None \<longleftrightarrow> id_param_ok V seg v \<and> bad_loop V pat' path' = None"
      using False p q by (subst bad_loop.simps) (auto simp: id_param_ok_def split: option.splits)
    show ?thesis
      unfolding step split using IH [OF False] stop empty(1) by auto
  qed
qed

definition ValidateIDPathParams :: "(string \<Rightarrow> bool) \<Rightarrow> string \<Rightarrow> string \<Rightarrow> 'a response \<Rightarrow> 'a response" where
  "ValidateIDPathParams Validate pattern escapedPath next_reply =
     (case badIDParam Validate pattern escapedPath of
        Some name \<Rightarrow> JSONError 400 ''BAD_REQUEST'' (name @ '' must be a UUID'')
      | None \<Rightarrow> next_reply)"

end
