(* ===== verification/Http_Page.thy ===== *)
theory Http_Page
  imports Http_Util
begin

text \<open>
  Keyset cursors: \<open>backend/pkg/httputil/pagination.go\<close>. A cursor is a position in the order on (creation time, id); on the wire it is
  the base64url text of the time, a bar and the id. The offset of the time's location is an argument of the encoder.
\<close>

section \<open>Cursors\<close>

record Cursor =
  cu_CreatedAt :: int
  cu_ID :: string

record PaginationParams =
  pp_Cursor :: Cursor
  pp_Limit :: int

definition DefaultPageSize :: int where "DefaultPageSize = 50"
definition MaxPageSize :: int where "MaxPageSize = 100"

definition zero_cursor :: Cursor where
  "zero_cursor = \<lparr>cu_CreatedAt = zero_time, cu_ID = ''''\<rparr>"

definition IsZero :: "Cursor \<Rightarrow> bool" where
  "IsZero c \<longleftrightarrow> cu_CreatedAt c = zero_time"

definition EncodeCursor :: "int \<Rightarrow> int \<Rightarrow> string \<Rightarrow> string" where
  "EncodeCursor off t i = base64_url_encode (RFC3339Nano_at off t @ ''|'' @ i)"

definition Cut :: "char \<Rightarrow> string \<Rightarrow> string \<times> string" where
  "Cut sep s = (takeWhile ((\<noteq>) sep) s, tl (dropWhile ((\<noteq>) sep) s))"

definition DecodeCursor :: "string \<Rightarrow> Cursor option" where
  "DecodeCursor raw =
     (case base64_url raw of
        None \<Rightarrow> None
      | Some decoded \<Rightarrow>
          let (ts, i) = Cut CHR ''|'' decoded in
          (case Parse_RFC3339Nano ts of None \<Rightarrow> None | Some t \<Rightarrow> Some \<lparr>cu_CreatedAt = t, cu_ID = i\<rparr>))"

definition ErrBadCursor :: AppError where
  "ErrBadCursor = NewBadRequest ''invalid pagination parameter''"

definition ParsePagination :: "string \<Rightarrow> string \<Rightarrow> AppError + PaginationParams" where
  "ParsePagination cursor_raw limit_raw =
     bindR (if cursor_raw = '''' then Inr zero_cursor
            else case DecodeCursor cursor_raw of None \<Rightarrow> Inl ErrBadCursor | Some c \<Rightarrow> Inr c) (\<lambda>c.
     bindR (if limit_raw = '''' then Inr DefaultPageSize
            else case ParseInt64 limit_raw of
                   None \<Rightarrow> Inl (NewBadRequest (''limit must be between 1 and '' @ FormatInt MaxPageSize))
                 | Some l \<Rightarrow>
                     if l \<le> 0 \<or> l > MaxPageSize then Inl (NewBadRequest (''limit must be between 1 and '' @ FormatInt MaxPageSize))
                     else Inr l) (\<lambda>l.
       Inr \<lparr>pp_Cursor = c, pp_Limit = l\<rparr>))"

section \<open>Round trip\<close>

lemma pad_dec_digit: "0 \<le> n \<Longrightarrow> c \<in> set (pad_dec w n) \<Longrightarrow> is_digit c"
  using dec_digits [of n c] by (auto simp: pad_dec_def Let_def is_digit_iff)

lemma no_bar: "0 \<le> n \<Longrightarrow> CHR ''|'' \<notin> set (pad_dec w n)"
  using pad_dec_digit [of n "CHR ''|''" w] by (auto simp: is_digit_iff)

lemma no_bar_in_time: "CHR ''|'' \<notin> set (RFC3339Nano_at off t)"
proof -
  define secs where "secs = t div 1000000000 + off"
  obtain y m d where ymd: "civil_date (secs div 86400) = (y, m, d)" by (metis prod_cases3)
  have "0 \<le> m" "0 \<le> d" using civil_date_inverse [OF ymd] by simp_all
  then have "CHR ''|'' \<notin> set (format_seconds secs)"
    using ymd no_bar by (auto simp: format_seconds_def Let_def pos_imp_zdiv_nonneg_iff)
  moreover have "CHR ''|'' \<notin> set (rev (dropWhile ((=) CHR ''0'') (rev (pad_dec 9 (t mod 1000000000)))))"
    using no_bar [of "t mod 1000000000" 9] set_dropWhileD [of "CHR ''|''" "(=) CHR ''0''" "rev (pad_dec 9 (t mod 1000000000))"] by auto
  ultimately show ?thesis
    using no_bar by (auto simp: RFC3339Nano_at_def Let_def pos_imp_zdiv_nonneg_iff simp flip: secs_def)
qed

lemma Cut_first: "sep \<notin> set a \<Longrightarrow> Cut sep (a @ sep # b) = (a, b)"
  by (induction a) (auto simp: Cut_def)

text \<open>
  A cursor survives the wire: decoding the token made from a position gives back exactly that instant and that id, whatever
  characters the id has, for every location whose offset is a whole number of minutes up to a day and every time of the years 0 to 9999
  in that location.
\<close>

theorem cursor_round_trip:
  assumes "60 dvd off" "\<bar>off\<bar> \<le> 86400"
    and "0 \<le> fst (civil_date ((t div 1000000000 + off) div 86400))" "fst (civil_date ((t div 1000000000 + off) div 86400)) \<le> 9999"
  shows "DecodeCursor (EncodeCursor off t i) = Some \<lparr>cu_CreatedAt = t, cu_ID = i\<rparr>"
  using Cut_first [OF no_bar_in_time, of off t i] RFC3339Nano_round_trip [OF assms]
  by (simp add: DecodeCursor_def EncodeCursor_def)

theorem cursor_round_trip_witness:
  "DecodeCursor (EncodeCursor 32400 1709210096500000000 ''a|b'') = Some \<lparr>cu_CreatedAt = 1709210096500000000, cu_ID = ''a|b''\<rparr>"
proof (rule cursor_round_trip)
  have "civil_date ((1709210096500000000 div 1000000000 + 32400) div 86400) = (2024, 2, 29)" by code_simp
  then show "0 \<le> fst (civil_date ((1709210096500000000 div 1000000000 + 32400) div 86400))"
    "fst (civil_date ((1709210096500000000 div 1000000000 + 32400) div 86400)) \<le> 9999" by simp_all
qed simp_all

text \<open>What a handler sees: a limit between 1 and the maximum, the default without one, and nothing malformed let through.\<close>

lemma ParsePagination_limit: "ParsePagination c l = Inr p \<Longrightarrow> 1 \<le> pp_Limit p \<and> pp_Limit p \<le> MaxPageSize"
  by (auto simp: ParsePagination_def bindR_Inr_iff DefaultPageSize_def MaxPageSize_def split: if_splits option.splits)

end
