(* ===== verification/Collab_Service.thy ===== *)
theory Collab_Service
  imports Collab_Properties Ws_Properties Http_Util
begin

text \<open>
  The collaboration layer: \<open>backend/internal/collab/authorizer.go\<close>, \<open>service.go\<close> and \<open>handler.go\<close>. It decides with the authorization
  checker, writes through the log of \<open>Collab_Log\<close>, and fans out through the hub of \<open>Ws_Hub\<close>; the world holds the tables, the service's
  own bookkeeping and this replica's hub. The clock of the environment is both \<open>NOW()\<close> and \<open>time.Now\<close>, in nanoseconds. Logging is
  left out. A socket frame runs through \<open>read_frame\<close> with the service as its room handler and then performs the call it made.
\<close>

section \<open>Authorizer\<close>

definition authz_result :: "authz_error + 'a \<Rightarrow> collab_error + 'a" where
  "authz_result r = (case r of Inl e \<Rightarrow> Inl (CollabAuthz e) | Inr b \<Rightarrow> Inr b)"

definition canEdit :: "env \<Rightarrow> collab_db \<Rightarrow> string \<Rightarrow> string \<Rightarrow> collab_error + bool" where
  "canEdit E db workspaceID userID =
     authz_result (Can E (cd_acl db) (UserSubject userID) (WorkspaceObject workspaceID) CapWrite)"

definition CanRead :: "env \<Rightarrow> collab_db \<Rightarrow> Document option \<Rightarrow> string \<Rightarrow> collab_error + bool" where
  "CanRead E db doc userID =
     (case doc of
        None \<Rightarrow> Inr False
      | Some d \<Rightarrow>
          if dc_rid d \<noteq> '''' then authz_result (Can E (cd_acl db) (UserSubject userID) (FileObject (dc_rid d)) CapRead)
          else authz_result (Can E (cd_acl db) (UserSubject userID) (WorkspaceObject (dc_workspace d)) CapRead))"

definition CanWrite :: "env \<Rightarrow> collab_db \<Rightarrow> Document option \<Rightarrow> string \<Rightarrow> collab_error + bool" where
  "CanWrite E db doc userID =
     (case doc of
        None \<Rightarrow> Inr False
      | Some d \<Rightarrow>
          if dc_rid d \<noteq> '''' then authz_result (Can E (cd_acl db) (UserSubject userID) (FileObject (dc_rid d)) CapWrite)
          else canEdit E db (dc_workspace d) userID)"

definition CanCreate :: "env \<Rightarrow> collab_db \<Rightarrow> string \<Rightarrow> string \<Rightarrow> collab_error + bool" where
  "CanCreate E db workspaceID userID = canEdit E db workspaceID userID"

definition CanOpenResource :: "env \<Rightarrow> collab_db \<Rightarrow> string \<Rightarrow> string \<Rightarrow> collab_error + bool" where
  "CanOpenResource E db resourceID userID =
     authz_result (Can E (cd_acl db) (UserSubject userID) (FileObject resourceID) CapRead)"

section \<open>Service state\<close>

record Service =
  sv_compactionThreshold :: int
  sv_asked :: "(string \<times> int) list"
  sv_askedTrim :: int

record collab_world =
  cw_db :: collab_db
  cw_svc :: Service
  cw_hub :: hub

definition NewService :: Service where
  "NewService = \<lparr>sv_compactionThreshold = DefaultCompactionThreshold, sv_asked = [], sv_askedTrim = zero_time\<rparr>"

definition SetCompactionThreshold :: "int \<Rightarrow> Service \<Rightarrow> Service" where
  "SetCompactionThreshold n s = (if n > 0 then s\<lparr>sv_compactionThreshold := n\<rparr> else s)"

definition asked_put :: "string \<Rightarrow> int \<Rightarrow> (string \<times> int) list \<Rightarrow> (string \<times> int) list" where
  "asked_put k t m = (k, t) # filter (\<lambda>e. fst e \<noteq> k) m"

definition asked_delete :: "string \<Rightarrow> (string \<times> int) list \<Rightarrow> (string \<times> int) list" where
  "asked_delete k m = filter (\<lambda>e. fst e \<noteq> k) m"

section \<open>Authorization\<close>

definition Authorize :: "env \<Rightarrow> collab_db \<Rightarrow> string \<Rightarrow> string \<Rightarrow> bool \<Rightarrow> collab_error + Document \<times> RoomAccess" where
  "Authorize E db documentID userID needWrite =
     bindR (Get E db documentID) (\<lambda>doc.
       case doc of
         None \<Rightarrow> Inl (Room ErrRoomNotFound)
       | Some d \<Rightarrow>
           bindR (CanRead E db doc userID) (\<lambda>rd.
           if \<not> rd then Inl (Room ErrRoomForbidden)
           else bindR (CanWrite E db doc userID) (\<lambda>wr.
             if needWrite \<and> \<not> wr then Inl (Room ErrRoomReadOnly)
             else Inr (d, \<lparr>ra_HeadSeq = dc_head d, ra_CanWrite = wr\<rparr>))))"

definition access :: "env \<Rightarrow> collab_db \<Rightarrow> string \<Rightarrow> string \<Rightarrow> collab_error + RoomAccess" where
  "access E db documentID userID = bindR (Authorize E db documentID userID False) (\<lambda>(_, a). Inr a)"

definition OpenDocument ::
  "env \<Rightarrow> string \<Rightarrow> string \<Rightarrow> string \<Rightarrow> string \<Rightarrow> string \<Rightarrow> collab_world \<Rightarrow> (collab_error + Document) \<times> collab_world" where
  "OpenDocument E newID workspaceID resourceType resourceID userID w =
     (case bindR (CanCreate E (cw_db w) workspaceID userID) (\<lambda>ok.
           if \<not> ok then Inl (Room ErrRoomForbidden)
           else bindR (CanOpenResource E (cw_db w) resourceID userID) (\<lambda>ok.
             if \<not> ok then Inl (Room ErrRoomForbidden) else Inr ())) of
        Inl e \<Rightarrow> (Inl e, w)
      | Inr _ \<Rightarrow>
          let (r, db) = EnsureDocument E newID workspaceID resourceType resourceID userID (cw_db w) in (r, w\<lparr>cw_db := db\<rparr>))"

section \<open>Append, awareness and compaction\<close>

definition claimCompaction :: "string \<Rightarrow> int \<Rightarrow> Service \<Rightarrow> bool \<times> Service" where
  "claimCompaction documentID t s =
     (if (case map_of (sv_asked s) documentID of None \<Rightarrow> False | Some prev \<Rightarrow> time_Sub t prev < compactionCooldown) then (False, s)
      else
        let s = (if time_Sub t (sv_askedTrim s) \<ge> compactionCooldown
                 then s\<lparr>sv_asked := filter (\<lambda>(_, t0). \<not> time_Sub t t0 \<ge> compactionCooldown) (sv_asked s), sv_askedTrim := t\<rparr>
                 else s)
        in (True, s\<lparr>sv_asked := asked_put documentID t (sv_asked s)\<rparr>))"

definition compact_request :: "string \<Rightarrow> int \<Rightarrow> int \<Rightarrow> RawMessage" where
  "compact_request documentID headSeq snapshotSeq =
     Some (JObj [(''document_id'', JStr documentID), (''head_seq'', JInt headSeq), (''snapshot_seq'', JInt snapshotSeq)])"

definition maybeRequestCompaction :: "env \<Rightarrow> ws_env \<Rightarrow> string \<Rightarrow> int \<Rightarrow> int \<Rightarrow> collab_world \<Rightarrow> collab_world" where
  "maybeRequestCompaction E W documentID headSeq snapshotSeq w =
     (if headSeq - snapshotSeq < sv_compactionThreshold (cw_svc w) then w
      else
        let (ok, s) = claimCompaction documentID (now E) (cw_svc w); w = w\<lparr>cw_svc := s\<rparr> in
        if \<not> ok then w
        else w\<lparr>cw_hub := snd (AskRoomLeader W documentID ''collab.compact'' (compact_request documentID headSeq snapshotSeq) (cw_hub w))\<rparr>)"

definition update_event :: "string \<Rightarrow> int \<Rightarrow> string \<Rightarrow> string \<Rightarrow> string \<Rightarrow> RawMessage" where
  "update_event documentID seq userID connID payload =
     Some (JObj [(''document_id'', JStr documentID), (''seq'', JInt seq), (''actor_id'', JStr userID), (''origin_conn'', JStr connID),
                 (''update'', JStr (b64_encode payload))])"

definition Append ::
  "env \<Rightarrow> ws_env \<Rightarrow> string \<Rightarrow> string \<Rightarrow> string \<Rightarrow> string \<Rightarrow> collab_world \<Rightarrow> (collab_error + int) \<times> collab_world" where
  "Append E W documentID userID connID payload w =
     (if length payload = 0 then (Inl (Room ErrRoomInvalidPayload), w)
      else if int (length payload) > MaxUpdateBytes then (Inl (Room ErrRoomPayloadTooLarge), w)
      else case AppendUpdate E documentID userID payload (cw_db w) of
        (Inl e, db) \<Rightarrow> (Inl e, w\<lparr>cw_db := db\<rparr>)
      | (Inr (seq, snapshotSeq), db) \<Rightarrow>
          let w = w\<lparr>cw_db := db\<rparr>;
              w = w\<lparr>cw_hub := BroadcastToRoom W documentID ''collab.update'' (update_event documentID seq userID connID payload) (cw_hub w)\<rparr>
          in (Inr seq, maybeRequestCompaction E W documentID seq snapshotSeq w))"

definition awareness_event :: "string \<Rightarrow> string \<Rightarrow> string \<Rightarrow> string \<Rightarrow> RawMessage" where
  "awareness_event documentID userID connID payload =
     Some (JObj [(''document_id'', JStr documentID), (''actor_id'', JStr userID), (''origin_conn'', JStr connID),
                 (''state'', JStr (b64_encode payload))])"

definition Awareness ::
  "ws_env \<Rightarrow> string \<Rightarrow> string \<Rightarrow> string \<Rightarrow> string \<Rightarrow> collab_world \<Rightarrow> room_error option \<times> collab_world" where
  "Awareness W documentID userID connID payload w =
     (if length payload = 0 \<or> int (length payload) > MaxUpdateBytes then (Some ErrRoomInvalidPayload, w)
      else (None, w\<lparr>cw_hub := BroadcastToRoom W documentID ''collab.awareness'' (awareness_event documentID userID connID payload) (cw_hub w)\<rparr>))"

definition Service_SaveSnapshot ::
  "env \<Rightarrow> string \<Rightarrow> int \<Rightarrow> string \<Rightarrow> string \<Rightarrow> collab_world \<Rightarrow> (collab_error + int) \<times> collab_world" where
  "Service_SaveSnapshot E documentID throughSeq userID payload w =
     (if length payload = 0 then (Inl (Room ErrRoomInvalidPayload), w)
      else if int (length payload) > MaxSnapshotBytes then (Inl (Room ErrRoomPayloadTooLarge), w)
      else case SaveSnapshot E documentID throughSeq userID payload (cw_db w) of
        (Inl e, db) \<Rightarrow> (Inl e, w\<lparr>cw_db := db\<rparr>)
      | (Inr compacted, db) \<Rightarrow>
          (Inr compacted, w\<lparr>cw_db := db, cw_svc := (cw_svc w)\<lparr>sv_asked := asked_delete documentID (sv_asked (cw_svc w))\<rparr>\<rparr>))"

definition Service_Load :: "env \<Rightarrow> collab_world \<Rightarrow> string \<Rightarrow> int \<Rightarrow> collab_error + State" where
  "Service_Load E w documentID since = Load E (cw_db w) documentID since maxStateUpdates"

section \<open>Revocation\<close>

definition maxRevokedRooms :: nat where "maxRevokedRooms = 512"

definition RevokeAccess :: "ws_env \<Rightarrow> string \<Rightarrow> string \<Rightarrow> collab_world \<Rightarrow> collab_world" where
  "RevokeAccess W userID documentID w = w\<lparr>cw_hub := RevokeRoom W userID documentID (cw_hub w)\<rparr>"

definition RevokeDocument :: "ws_env \<Rightarrow> string \<Rightarrow> collab_world \<Rightarrow> collab_world" where
  "RevokeDocument W documentID w = w\<lparr>cw_hub := RevokeRoomForAll W documentID (cw_hub w)\<rparr>"

definition RevokeFileAccess :: "env \<Rightarrow> ws_env \<Rightarrow> string \<Rightarrow> string \<Rightarrow> collab_world \<Rightarrow> (nat \<times> bool) \<times> collab_world" where
  "RevokeFileAccess E W userID path w =
     (case DocumentIDsUnderPath E (cw_db w) path (maxRevokedRooms + 1) of
        Inl _ \<Rightarrow> ((0, False), w)
      | Inr ids \<Rightarrow>
          let truncated = length ids > maxRevokedRooms; ids = (if truncated then take maxRevokedRooms ids else ids) in
          ((length ids, truncated),
           w\<lparr>cw_hub := fold (\<lambda>i. if userID = '''' then RevokeRoomForAll W i else RevokeRoom W userID i) ids (cw_hub w)\<rparr>))"

section \<open>The socket\<close>

fun room_failure :: "collab_error \<Rightarrow> room_error" where
  "room_failure (Room e) = e"
| "room_failure ErrStaleSnapshot = RoomFailure ''stale''"
| "room_failure ErrResourceConflict = RoomFailure ''conflict''"
| "room_failure LostInsertRace = RoomFailure ''race''"
| "room_failure (CollabAuthz _) = RoomFailure ''authz''"
| "room_failure (CollabDb l) = RoomFailure l"

definition room_result :: "collab_error + 'a \<Rightarrow> room_error + 'a" where
  "room_result r = (case r of Inl e \<Rightarrow> Inl (room_failure e) | Inr a \<Rightarrow> Inr a)"

definition service_handler :: "env \<Rightarrow> ws_env \<Rightarrow> collab_world \<Rightarrow> RoomHandler" where
  "service_handler E W w =
     \<lparr>rh_Join = (\<lambda>d u. room_result (access E (cw_db w) d u)),
      rh_Recheck = (\<lambda>d u. room_result (access E (cw_db w) d u)),
      rh_Update = (\<lambda>d u c p. case fst (Append E W d u c p w) of Inl e \<Rightarrow> Some (room_failure e) | Inr _ \<Rightarrow> None),
      rh_Awareness = (\<lambda>d u c p. fst (Awareness W d u c p w))\<rparr>"

fun serve_call :: "env \<Rightarrow> ws_env \<Rightarrow> ws_call \<Rightarrow> collab_world \<Rightarrow> collab_world" where
  "serve_call E W (Call_Update d u c p) w = snd (Append E W d u c p w)"
| "serve_call E W (Call_Awareness d u c p) w = snd (Awareness W d u c p w)"
| "serve_call E W _ w = w"

definition serve_frame :: "env \<Rightarrow> ws_env \<Rightarrow> cref \<Rightarrow> RawMessage \<Rightarrow> collab_world \<Rightarrow> collab_world" where
  "serve_frame E W r raw w =
     (let h = read_frame (W\<lparr>we_roomHandler := Some (service_handler E W w)\<rparr>) (now E) r raw (cw_hub w) in
      fold (serve_call E W) (drop (length (hb_calls (cw_hub w))) (hb_calls h)) (w\<lparr>cw_hub := h\<rparr>))"

section \<open>HTTP\<close>

definition base64BodyLimit :: "int \<Rightarrow> int" where
  "base64BodyLimit raw = raw * 4 div 3 + 4096"

fun writeError :: "collab_error \<Rightarrow> 'a response" where
  "writeError (Room ErrRoomNotFound) = JSONError 404 ''NOT_FOUND'' ''collaboration document not found''"
| "writeError (Room ErrRoomForbidden) = JSONError 403 ''FORBIDDEN'' ''not allowed to open this collaboration document''"
| "writeError (Room ErrRoomReadOnly) = JSONError 403 ''FORBIDDEN'' ''read-only access to this collaboration document''"
| "writeError (Room ErrRoomInvalidPayload) = JSONError 400 ''BAD_REQUEST'' ''invalid collaboration payload''"
| "writeError (Room ErrRoomPayloadTooLarge) = JSONError 413 ''PAYLOAD_TOO_LARGE'' ''collaboration payload too large''"
| "writeError ErrStaleSnapshot =
     JSONError 409 ''STALE_SNAPSHOT'' ''another snapshot has already compacted past this position''"
| "writeError ErrResourceConflict =
     JSONError 409 ''CONFLICT'' ''this object already has a collaboration document in another workspace''"
| "writeError _ = HandleError (Some NewInternal)"

definition with_documentID :: "ws_env \<Rightarrow> string \<Rightarrow> 's \<Rightarrow> (string \<Rightarrow> 'a response \<times> 's) \<Rightarrow> 'a response \<times> 's" where
  "with_documentID W i s k =
     (if \<not> we_Validate W i then (JSONError 400 ''BAD_REQUEST'' ''document_id must be a UUID'', s) else k i)"

record open_input =
  oi_ResourceType :: string
  oi_ResourceID :: string

definition decode_open :: "body \<Rightarrow> AppError + open_input" where
  "decode_open b =
     decodeJSON b [(''resource_type'', into_string (\<lambda>s x. x\<lparr>oi_ResourceType := s\<rparr>)),
                   (''resource_id'', into_string (\<lambda>s x. x\<lparr>oi_ResourceID := s\<rparr>))]
       \<lparr>oi_ResourceType = '''', oi_ResourceID = ''''\<rparr>
       (\<lambda>x. \<lparr>oi_ResourceType = removeNUL (oi_ResourceType x), oi_ResourceID = removeNUL (oi_ResourceID x)\<rparr>) MaxRequestBodyBytes"

definition Handler_Open :: "env \<Rightarrow> ws_env \<Rightarrow> string \<Rightarrow> string \<Rightarrow> string \<Rightarrow> body \<Rightarrow> collab_world \<Rightarrow> Document response \<times> collab_world" where
  "Handler_Open E W newID userID workspaceID b w =
     (if \<not> we_Validate W workspaceID then (JSONError 400 ''BAD_REQUEST'' ''workspace_id must be a UUID'', w)
      else case decode_open b of
        Inl e \<Rightarrow> (HandleError (Some e), w)
      | Inr input \<Rightarrow>
          if \<not> isResourceType (oi_ResourceType input)
          then (JSONError 400 ''BAD_REQUEST'' ''resource_type must be lowercase alphanumeric, 1-32 characters'', w)
          else if \<not> we_Validate W (oi_ResourceID input) then (JSONError 400 ''BAD_REQUEST'' ''resource_id must be a UUID'', w)
          else case OpenDocument E newID workspaceID (oi_ResourceType input) (oi_ResourceID input) userID w of
            (Inl e, w) \<Rightarrow> (writeError e, w)
          | (Inr d, w) \<Rightarrow> (JSON 200 d, w))"

definition Handler_Get :: "env \<Rightarrow> ws_env \<Rightarrow> string \<Rightarrow> string \<Rightarrow> collab_world \<Rightarrow> (Document \<times> bool) response \<times> collab_world" where
  "Handler_Get E W userID document_id w =
     with_documentID W document_id w (\<lambda>i.
       (case Authorize E (cw_db w) i userID False of
          Inl e \<Rightarrow> writeError e
        | Inr (d, a) \<Rightarrow> JSON 200 (d, ra_CanWrite a), w))"

definition Handler_State :: "env \<Rightarrow> ws_env \<Rightarrow> string \<Rightarrow> string \<Rightarrow> string \<Rightarrow> collab_world \<Rightarrow> State response \<times> collab_world" where
  "Handler_State E W userID document_id since_raw w =
     with_documentID W document_id w (\<lambda>i.
       (case (if since_raw = '''' then Some 0 else ParseInt64 since_raw) of
          None \<Rightarrow> JSONError 400 ''BAD_REQUEST'' ''since must be a non-negative integer''
        | Some since \<Rightarrow>
            if since < 0 then JSONError 400 ''BAD_REQUEST'' ''since must be a non-negative integer''
            else case Authorize E (cw_db w) i userID False of
              Inl e \<Rightarrow> writeError e
            | Inr (d, _) \<Rightarrow>
                if since > dc_head d then JSONError 400 ''BAD_REQUEST'' ''since is ahead of the document''
                else case Service_Load E w i since of Inl e \<Rightarrow> writeError e | Inr st \<Rightarrow> JSON 200 st, w))"

definition decode_append :: "body \<Rightarrow> AppError + string" where
  "decode_append b = decodeJSON b [(''update'', into_bytes (\<lambda>p _. p))] '''' (\<lambda>x. x) (base64BodyLimit MaxUpdateBytes)"

definition Handler_Append :: "env \<Rightarrow> ws_env \<Rightarrow> string \<Rightarrow> string \<Rightarrow> body \<Rightarrow> collab_world \<Rightarrow> int response \<times> collab_world" where
  "Handler_Append E W userID document_id b w =
     with_documentID W document_id w (\<lambda>i.
       case decode_append b of
         Inl e \<Rightarrow> (HandleError (Some e), w)
       | Inr update \<Rightarrow>
           (case Authorize E (cw_db w) i userID True of
              Inl e \<Rightarrow> (writeError e, w)
            | Inr _ \<Rightarrow>
                (case Append E W i userID '''' update w of
                   (Inl e, w) \<Rightarrow> (writeError e, w)
                 | (Inr seq, w) \<Rightarrow> (JSON 201 seq, w))))"

definition decode_snapshot :: "body \<Rightarrow> AppError + int \<times> string" where
  "decode_snapshot b =
     decodeJSON b [(''through_seq'', into_int64 (\<lambda>n x. (n, snd x))), (''snapshot'', into_bytes (\<lambda>p x. (fst x, p)))] (0, '''') (\<lambda>x. x)
       (base64BodyLimit MaxSnapshotBytes)"

definition Handler_Snapshot ::
  "env \<Rightarrow> ws_env \<Rightarrow> string \<Rightarrow> string \<Rightarrow> body \<Rightarrow> collab_world \<Rightarrow> (int \<times> int) response \<times> collab_world" where
  "Handler_Snapshot E W userID document_id b w =
     with_documentID W document_id w (\<lambda>i.
       case decode_snapshot b of
         Inl e \<Rightarrow> (HandleError (Some e), w)
       | Inr (throughSeq, payload) \<Rightarrow>
           if throughSeq \<le> 0 then (JSONError 400 ''BAD_REQUEST'' ''through_seq must be positive'', w)
           else (case Authorize E (cw_db w) i userID True of
              Inl e \<Rightarrow> (writeError e, w)
            | Inr _ \<Rightarrow>
                (case Service_SaveSnapshot E i throughSeq userID payload w of
                   (Inl e, w) \<Rightarrow> (writeError e, w)
                 | (Inr n, w) \<Rightarrow> (JSON 200 (throughSeq, n), w))))"

section \<open>Compaction requests\<close>

lemma sub_ge: "time_Sub t u \<ge> compactionCooldown \<longleftrightarrow> t - u \<ge> compactionCooldown"
  by (auto simp: time_Sub_def compactionCooldown_def)

text \<open>The times at which \<open>claimCompaction\<close> of a document said yes, in a history of claims (document, time).\<close>

fun granted_claims :: "string \<Rightarrow> (string \<times> int) list \<Rightarrow> Service \<Rightarrow> int list" where
  "granted_claims d [] s = []"
| "granted_claims d ((e, t) # cs) s =
     (let (ok, s') = claimCompaction e t s in (if ok \<and> e = d then [t] else []) @ granted_claims d cs s')"

definition claims_after :: "(string \<times> int) list \<Rightarrow> Service \<Rightarrow> Service" where
  "claims_after cs s = fold (\<lambda>(e, t) s. snd (claimCompaction e t s)) cs s"

definition asked_ok :: "int \<Rightarrow> Service \<Rightarrow> bool" where
  "asked_ok t s \<longleftrightarrow> sv_askedTrim s \<le> t \<and> (\<forall>(e, a) \<in> set (sv_asked s). sv_askedTrim s - compactionCooldown < a \<and> a \<le> t) \<and>
     distinct (map fst (sv_asked s))"

lemma map_of_asked_put [simp]: "map_of (asked_put k t m) e = (if e = k then Some t else map_of m e)"
  by (induction m) (auto simp: asked_put_def)

lemma map_of_filter_val:
  "distinct (map fst m) \<Longrightarrow> map_of (filter (\<lambda>(_, a). P a) m) e = (case map_of m e of None \<Rightarrow> None | Some a \<Rightarrow> if P a then Some a else None)"
proof (induction m)
  case (Cons x m)
  obtain k v where x: "x = (k, v)" by fastforce
  have "map_of m k = None" using Cons.prems x by (simp add: map_of_eq_None_iff)
  then show ?case using Cons x by (auto split: option.splits)
qed simp

lemma distinct_filter_keys: "distinct (map fst m) \<Longrightarrow> distinct (map fst (filter P m))"
  by (induction m) auto

lemma distinct_asked_put: "distinct (map fst m) \<Longrightarrow> distinct (map fst (asked_put k t m))"
  by (induction m) (auto simp: asked_put_def)

text \<open>What one claim leaves behind: the invariant, and for every document either the old time or one at least the cooldown away.\<close>

lemma claim_step:
  assumes ok: "asked_ok t0 s" "t0 \<le> t"
  shows "asked_ok t (snd (claimCompaction e t s))"
    "fst (claimCompaction e t s) \<Longrightarrow> map_of (sv_asked (snd (claimCompaction e t s))) e = Some t"
    "fst (claimCompaction e t s) \<Longrightarrow> map_of (sv_asked s) e = Some a \<Longrightarrow> a + compactionCooldown \<le> t"
    "\<not> (fst (claimCompaction e t s) \<and> d = e) \<Longrightarrow> map_of (sv_asked s) d = Some a \<Longrightarrow> t < a + compactionCooldown \<Longrightarrow>
       map_of (sv_asked (snd (claimCompaction e t s))) d = Some a"
proof -
  define early where "early \<longleftrightarrow> (case map_of (sv_asked s) e of None \<Rightarrow> False | Some prev \<Rightarrow> time_Sub t prev < compactionCooldown)"
  define s1 where "s1 = (if time_Sub t (sv_askedTrim s) \<ge> compactionCooldown
                 then s\<lparr>sv_asked := filter (\<lambda>(_, t0). \<not> time_Sub t t0 \<ge> compactionCooldown) (sv_asked s), sv_askedTrim := t\<rparr>
                 else s)"
  have c: "claimCompaction e t s = (if early then (False, s) else (True, s1\<lparr>sv_asked := asked_put e t (sv_asked s1)\<rparr>))"
    by (simp add: claimCompaction_def early_def s1_def Let_def)
  have d: "distinct (map fst (sv_asked s))" using ok by (simp add: asked_ok_def)
  have s1: "asked_ok t s1"
    using ok by (auto simp: asked_ok_def s1_def sub_ge distinct_filter_keys)
  have keep: "map_of (sv_asked s1) d = Some a" if "map_of (sv_asked s) d = Some a" "t < a + compactionCooldown" for a d
    using that map_of_filter_val [OF d] by (simp add: s1_def sub_ge)
  have "compactionCooldown > 0" by (simp add: compactionCooldown_def)
  then show "asked_ok t (snd (claimCompaction e t s))"
    using s1 ok unfolding c by (auto simp: asked_ok_def distinct_asked_put) (auto simp: asked_put_def)
  show "map_of (sv_asked (snd (claimCompaction e t s))) e = Some t" if "fst (claimCompaction e t s)"
    using that unfolding c by (simp split: if_splits)
  show "a + compactionCooldown \<le> t" if "fst (claimCompaction e t s)" "map_of (sv_asked s) e = Some a"
    using that sub_ge [of t a] unfolding c by (auto simp: early_def split: if_splits)
  show "map_of (sv_asked (snd (claimCompaction e t s))) d = Some a"
    if "\<not> (fst (claimCompaction e t s) \<and> d = e)" "map_of (sv_asked s) d = Some a" "t < a + compactionCooldown"
    using that keep unfolding c by auto
qed

lemma asked_ok_mono: "asked_ok t s \<Longrightarrow> t \<le> t' \<Longrightarrow> asked_ok t' s"
  by (force simp: asked_ok_def)

lemma granted_claims_Cons:
  "granted_claims d ((e, t) # cs) s =
     (if fst (claimCompaction e t s) \<and> e = d then [t] else []) @ granted_claims d cs (snd (claimCompaction e t s))"
  by (cases "claimCompaction e t s") simp

lemma granted_claims_times: "set (granted_claims d cs s) \<subseteq> set (map snd cs)"
proof (induction cs arbitrary: s)
  case (Cons c cs)
  obtain e t where c: "c = (e, t)" by fastforce
  show ?case using Cons.IH [of "snd (claimCompaction e t s)"] unfolding c granted_claims_Cons by auto
qed simp

lemma claims_spaced:
  assumes "asked_ok t0 s" "sorted (t0 # map snd cs)"
  shows "sorted_wrt (\<lambda>a b. a + compactionCooldown \<le> b) (granted_claims d cs s) \<and>
    (\<forall>a. map_of (sv_asked s) d = Some a \<longrightarrow> (\<forall>b \<in> set (granted_claims d cs s). a + compactionCooldown \<le> b)) \<and>
    asked_ok (last (t0 # map snd cs)) (claims_after cs s)"
  using assms
proof (induction cs arbitrary: s t0)
  case (Cons c cs)
  obtain e t where c: "c = (e, t)" by fastforce
  let ?s = "snd (claimCompaction e t s)" and ?yes = "fst (claimCompaction e t s) \<and> e = d"
  have t: "t0 \<le> t" "sorted (t # map snd cs)" using Cons.prems(2) c by auto
  note st = claim_step [OF Cons.prems(1) t(1)]
  note IH = Cons.IH [OF st(1) t(2), of e]
  have times: "t \<le> b" if "b \<in> set (granted_claims d cs ?s)" for b
    using that granted_claims_times [of d cs ?s] t(2) by auto
  have gap: "a + compactionCooldown \<le> b" if a: "map_of (sv_asked s) d = Some a" and b: "b \<in> set (granted_claims d (c # cs) s)" for a b
  proof (cases "?yes \<or> a + compactionCooldown \<le> t")
    case True
    then have "a + compactionCooldown \<le> t" using st(3) a by blast
    moreover have "t \<le> b" using b times unfolding c granted_claims_Cons by (auto split: if_splits)
    ultimately show ?thesis by simp
  next
    case False
    then have "t < a + compactionCooldown" "\<not> (fst (claimCompaction e t s) \<and> d = e)" by auto
    then have "map_of (sv_asked ?s) d = Some a" using st(4) [OF _ a] by blast
    moreover have "b \<in> set (granted_claims d cs ?s)" using b False unfolding c granted_claims_Cons by auto
    ultimately show ?thesis using IH by blast
  qed
  have "sorted_wrt (\<lambda>a b. a + compactionCooldown \<le> b) (granted_claims d (c # cs) s)"
  proof (cases ?yes)
    case True
    then have "map_of (sv_asked ?s) d = Some t" using st(2) by blast
    with IH True show ?thesis unfolding c granted_claims_Cons by simp
  next
    case False
    with IH show ?thesis unfolding c granted_claims_Cons by (simp only: if_False append_Nil)
  qed
  moreover have "asked_ok (last (t0 # map snd (c # cs))) (claims_after (c # cs) s)"
    using IH by (simp add: claims_after_def c)
  ultimately show ?case using gap by blast
qed (simp add: claims_after_def)

end
