(* ===== verification/Collab_Session.thy ===== *)
theory Collab_Session
  imports Collab_Service
begin

text \<open>
  What the collaboration layer promises its clients: an update that commits reaches every connection in the room with the bytes that
  were logged, an update that does not commit reaches nobody, requests for a snapshot are spaced, and no request over HTTP has an effect
  or an answer the permission model does not allow.
\<close>

section \<open>Fan-out to a room\<close>

lemma mem_roomTargets: "r \<in> set (roomTargets d h) \<longleftrightarrow> r \<in> set (all_conns h) \<and> InRoom d (get_client r h)"
  by (simp add: roomTargets_def)

lemma roomBroadcast_get:
  assumes "hub_inv h"
  shows "get_client r (roomBroadcast d f h) =
    (if r \<in> set (all_conns h) \<and> InRoom d (get_client r h) then sendFrame f (get_client r h) else get_client r h)"
proof -
  have "distinct (roomTargets d h)" using registry_refs(1) [OF assms] by (simp add: roomTargets_def)
  from get_fold_upd [OF this] show ?thesis
    using mem_conns(1) [OF assms] by (auto simp: roomBroadcast_def send_all_def mem_roomTargets)
qed

lemma BroadcastToRoom_get:
  assumes "hub_inv h"
  shows "get_client r (BroadcastToRoom W d t data h) =
    (if r \<in> set (all_conns h) \<and> InRoom d (get_client r h) then sendFrame (newFrame t data) (get_client r h) else get_client r h)"
proof -
  have "get_client r (BroadcastToRoom W d t data h) = get_client r (roomBroadcast d (newFrame t data) h)"
    by (simp add: BroadcastToRoom_def publishRoomToNATS_def Let_def)
  then show ?thesis using roomBroadcast_get [OF assms] by simp
qed

lemma BroadcastToRoom_fields:
  "hb_published (BroadcastToRoom W d t data h) = hb_published h @
     (if hb_nats h \<and> we_Publish W (''ws.room.'' @ d)
      then [(''ws.room.'' @ d, Msg_Room \<lparr>rm_OriginID = hb_id h, rm_DocumentID = d, rm_Type = t, rm_Data = data\<rparr>)] else [])"
  "all_conns (BroadcastToRoom W d t data h) = all_conns h"
  by (simp_all add: BroadcastToRoom_def publishRoomToNATS_def nats_Publish_def roomBroadcast_def send_all_def newFrame_def Let_def all_conns_def)

lemma update_event_decodes: "CollabUpdateData (update_event d seq u c p) = Some (d, p)"
proof -
  let ?fs = "[(''document_id'', into_string (\<lambda>s x. (s, snd x))), (''update'', into_bytes (\<lambda>b x. (fst x, b)))]
    :: (string \<times> (string \<times> string) field_decoder) list"
  have "to_lower ''document_id'' = ''document_id''" "to_lower ''update'' = ''update''" "to_lower ''seq'' = ''seq''"
    "to_lower ''actor_id'' = ''actor_id''" "to_lower ''origin_conn'' = ''origin_conn''"
    by code_simp+
  then have "field_for ?fs ''document_id'' = Some (into_string (\<lambda>s x. (s, snd x)))"
    "field_for ?fs ''update'' = Some (into_bytes (\<lambda>b x. (fst x, b)))"
    "field_for ?fs ''seq'' = None" "field_for ?fs ''actor_id'' = None" "field_for ?fs ''origin_conn'' = None"
    by (simp_all add: field_for_def)
  then show ?thesis
    by (simp add: CollabUpdateData_def update_event_def Unmarshal_def into_string_def into_bytes_def)
qed

lemma Append_cases:
  assumes "1 \<le> length p" "int (length p) \<le> MaxUpdateBytes"
  shows "Append E W d u c p w =
    (case AppendUpdate E d u p (cw_db w) of
       (Inl e, db) \<Rightarrow> (Inl e, w)
     | (Inr (seq, snap), db) \<Rightarrow>
         (Inr seq, maybeRequestCompaction E W d seq snap
           (w\<lparr>cw_db := db, cw_hub := BroadcastToRoom W d ''collab.update'' (update_event d seq u c p) (cw_hub w)\<rparr>)))"
proof -
  have "db' = cw_db w" if "AppendUpdate E d u p (cw_db w) = (Inl e, db')" for e db'
    by (rule WithTx_Inl [OF that [unfolded AppendUpdate_def]])
  then show ?thesis
    using assms by (auto simp: Append_def Let_def split: prod.split sum.split)
qed

lemma fst_Append: "fst (Append E W d u c p (w\<lparr>cw_hub := h\<rparr>)) = fst (Append E W d u c p w)"
  by (auto simp: Append_def Let_def split: prod.split sum.split)

lemma charge_allowed:
  assumes "allow t (cl_collabLimiter (get_client r h)) = (True, b)"
  shows "charge True t r h = ((True, False), upd_client r (\<lambda>_. (get_client r h)\<lparr>cl_collabLimiter := b\<rparr>) h)"
  using assms by (simp add: charge_def chargeInbound_def limiter_of_def put_limiter_def)

text \<open>An admitted update frame is one charge on the connection, one call into the service, and the service's answer.\<close>

lemma serve_update_frame:
  assumes msg: "parse_inbound raw = Some msg" "im_Type msg = ''collab.update''" "CollabUpdateData (im_Data msg) = Some (d, p)"
    and c: "c = get_client r (cw_hub w)" "r < length (hb_heap (cw_hub w))" "allow (now E) (cl_collabLimiter c) = (True, b)"
    and room: "InRoom d c" "CanWriteRoom d c" "we_Validate W d" "1 \<le> length p" "length p \<le> maxCollabPayloadBytes"
  defines "h \<equiv> call (Call_Update d (cl_userID c) (cl_connID c) p) (upd_client r (\<lambda>_. c\<lparr>cl_collabLimiter := b\<rparr>) (cw_hub w))"
  shows "serve_frame E W r raw w =
    (case fst (Append E W d (cl_userID c) (cl_connID c) p w) of
       Inl e \<Rightarrow> w\<lparr>cw_hub := upd_client r (sendRoomError ''update'' d (room_failure e)) h\<rparr>
     | Inr seq \<Rightarrow> snd (Append E W d (cl_userID c) (cl_connID c) p (w\<lparr>cw_hub := h\<rparr>)))"
proof -
  let ?W = "W\<lparr>we_roomHandler := Some (service_handler E W w)\<rparr>" and ?A = "Append E W d (cl_userID c) (cl_connID c) p"
  let ?h1 = "upd_client r (\<lambda>_. c\<lparr>cl_collabLimiter := b\<rparr>) (cw_hub w)"
  have ne: "p \<noteq> []" using room(4) by auto
  have c1: "get_client r ?h1 = c\<lparr>cl_collabLimiter := b\<rparr>" using c(2) by (simp add: get_upd)
  have room1: "InRoom d (c\<lparr>cl_collabLimiter := b\<rparr>)" "CanWriteRoom d (c\<lparr>cl_collabLimiter := b\<rparr>)"
    using room(1,2) by (simp_all add: InRoom_def CanWriteRoom_def)
  have rd: "read_frame ?W (now E) r raw (cw_hub w) =
      (case fst (?A w) of Inl e \<Rightarrow> upd_client r (sendRoomError ''update'' d (room_failure e)) h | Inr _ \<Rightarrow> h)"
    using msg charge_allowed [of "now E" r "cw_hub w" b] c room1 room(3,5) ne c1
    by (simp add: read_frame_def handleMessage_def handleCollabUpdate_def Let_def isCollabStreamType_def service_handler_def h_def
        split: sum.split)
  have calls: "hb_calls (read_frame ?W (now E) r raw (cw_hub w)) =
      hb_calls (cw_hub w) @ [Call_Update d (cl_userID c) (cl_connID c) p]"
    unfolding rd by (simp add: h_def call_def split: sum.split)
  have sv: "serve_frame E W r raw w = snd (?A (w\<lparr>cw_hub := read_frame ?W (now E) r raw (cw_hub w)\<rparr>))"
    by (simp add: serve_frame_def calls Let_def)
  have lim: "int (length p) \<le> MaxUpdateBytes"
    using room(5) by (simp add: maxCollabPayloadBytes_def MaxUpdateBytes_def)
  show ?thesis
  proof (cases "fst (?A w)")
    case (Inl e)
    then have "snd (?A (w\<lparr>cw_hub := h'\<rparr>)) = w\<lparr>cw_hub := h'\<rparr>" for h'
      using fst_Append [of E W d "cl_userID c" "cl_connID c" p h' w] Append_cases [OF room(4) lim, of E W d "cl_userID c" "cl_connID c" "w\<lparr>cw_hub := h'\<rparr>"]
      by (auto split: prod.splits sum.splits)
    then show ?thesis using sv rd Inl by simp
  next
    case (Inr seq)
    then show ?thesis using sv rd by simp
  qed
qed

lemma call_fields [simp]:
  "get_client q (call k h) = get_client q h" "all_conns (call k h) = all_conns h" "length (hb_heap (call k h)) = length (hb_heap h)"
  by (simp_all add: call_def get_client_def all_conns_def)

lemma MaxUpdate_covers_socket: "length p \<le> maxCollabPayloadBytes \<Longrightarrow> int (length p) \<le> MaxUpdateBytes"
  by (simp add: maxCollabPayloadBytes_def MaxUpdateBytes_def)

lemma hub_inv_limiter:
  assumes "hub_inv h" "allow t (cl_collabLimiter (get_client r h)) = (True, b)"
  shows "hub_inv (upd_client r (\<lambda>_. (get_client r h)\<lparr>cl_collabLimiter := b\<rparr>) h)"
proof (rule hub_inv_upd [OF assms(1)])
  assume r: "r < length (hb_heap h)"
  show "ident ((get_client r h)\<lparr>cl_collabLimiter := b\<rparr>) = ident (hb_heap h ! r)" by (simp add: ident_def get_client_def)
  have "client_ok (get_client r h)" using assms(1) r by (simp add: hub_inv_def get_client_def)
  moreover have "bucket_ok b" if "bucket_ok (cl_collabLimiter (get_client r h))"
    using bucket_ok_allow [OF that, of t] assms(2) by simp
  ultimately show "client_ok ((get_client r h)\<lparr>cl_collabLimiter := b\<rparr>)" by (simp add: client_ok_defs)
qed

lemma maybeRequestCompaction_world:
  "cw_db (maybeRequestCompaction E W d seq snap w) = cw_db w"
  "cw_hub (maybeRequestCompaction E W d seq snap w) =
     (if seq - snap < sv_compactionThreshold (cw_svc w) \<or> \<not> fst (claimCompaction d (now E) (cw_svc w)) then cw_hub w
      else snd (AskRoomLeader W d ''collab.compact'' (compact_request d seq snap) (cw_hub w)))"
  by (simp_all add: maybeRequestCompaction_def Let_def split: prod.split)

text \<open>
  C32. From socket to log to room. When a connection with write permission in a document's room sends a well-formed update frame
  within its rate budget, then either the write commits: the tables become exactly what \<open>AppendUpdate\<close> makes of them, every connection
  registered on this replica and in the room, the sender included, is sent one frame that carries the new sequence number and decodes to
  the logged bytes, nobody else is sent anything, and with a bridge the same frame is published once, for the rooms of the other
  replicas; only after that, if a snapshot is due and none was asked for lately, the leader of the room is asked for one. Or it does not
  commit: the tables are unchanged, only the sender is told, and nothing is broadcast or published. Whether another replica gets the
  published frame is up to NATS, and \<open>sendFrame\<close> drops a frame when the buffer of the connection is full.
\<close>

theorem socket_update_reaches_the_room:
  assumes inv: "hub_inv (cw_hub w)"
    and msg: "parse_inbound raw = Some msg" "im_Type msg = ''collab.update''" "CollabUpdateData (im_Data msg) = Some (d, p)"
    and c: "c = get_client r (cw_hub w)" "r < length (hb_heap (cw_hub w))" "allow (now E) (cl_collabLimiter c) = (True, b)"
    and room: "InRoom d c" "CanWriteRoom d c" "we_Validate W d" "1 \<le> length p" "length p \<le> maxCollabPayloadBytes"
  shows "let w' = serve_frame E W r raw w; h = cw_hub w; c0 = (\<lambda>q. if q = r then c\<lparr>cl_collabLimiter := b\<rparr> else get_client q h) in
    case AppendUpdate E d (cl_userID c) p (cw_db w) of
      (Inr (seq, snap), db) \<Rightarrow>
        (let F = newFrame ''collab.update'' (update_event d seq (cl_userID c) (cl_connID c) p) in
         cw_db w' = db \<and> CollabUpdateData (fr_data F) = Some (d, p) \<and>
         (\<exists>h'. (\<forall>q. get_client q h' = (if q \<in> set (all_conns h) \<and> InRoom d (c0 q) then sendFrame F (c0 q) else c0 q)) \<and>
            hb_published h' = hb_published h @ (if hb_nats h \<and> we_Publish W (''ws.room.'' @ d)
              then [(''ws.room.'' @ d, Msg_Room \<lparr>rm_OriginID = hb_id h, rm_DocumentID = d, rm_Type = fr_msgType F, rm_Data = fr_data F\<rparr>)]
              else []) \<and>
            cw_hub w' = (if seq - snap < sv_compactionThreshold (cw_svc w) \<or> \<not> fst (claimCompaction d (now E) (cw_svc w)) then h'
              else snd (AskRoomLeader W d ''collab.compact'' (compact_request d seq snap) h'))))
    | (Inl e, _) \<Rightarrow>
        cw_db w' = cw_db w \<and> hb_published (cw_hub w') = hb_published h \<and>
        (\<forall>q. get_client q (cw_hub w') = (if q = r then sendRoomError ''update'' d (room_failure e) (c0 q) else get_client q h))"
proof -
  let ?h1 = "upd_client r (\<lambda>_. c\<lparr>cl_collabLimiter := b\<rparr>) (cw_hub w)"
  define h where "h = call (Call_Update d (cl_userID c) (cl_connID c) p) ?h1"
  note sv = serve_update_frame [OF msg c room, folded h_def]
  note ap = Append_cases [OF room(4) MaxUpdate_covers_socket [OF room(5)]]
  have h: "hub_inv h" using hub_inv_limiter [OF inv] c by (simp add: h_def keeps_publish)
  have hq: "get_client q h = (if q = r then c\<lparr>cl_collabLimiter := b\<rparr> else get_client q (cw_hub w))" for q
    using c(2) by (simp add: h_def get_upd)
  have conns: "all_conns h = all_conns (cw_hub w)" "r < length (hb_heap h)" using c(2) by (simp_all add: h_def)
  have flags: "hb_published h = hb_published (cw_hub w)" "hb_nats h = hb_nats (cw_hub w)" "hb_id h = hb_id (cw_hub w)"
    by (simp_all add: h_def call_def)
  show ?thesis
  proof (cases "fst (AppendUpdate E d (cl_userID c) p (cw_db w))")
    case (Inl e)
    then obtain db where r: "AppendUpdate E d (cl_userID c) p (cw_db w) = (Inl e, db)" by (metis prod.collapse)
    show ?thesis
      unfolding sv ap r using conns flags by (simp add: get_upd hq)
  next
    case (Inr s)
    then obtain seq snap db where r: "AppendUpdate E d (cl_userID c) p (cw_db w) = (Inr (seq, snap), db)"
      by (metis prod.collapse)
    let ?h' = "BroadcastToRoom W d ''collab.update'' (update_event d seq (cl_userID c) (cl_connID c) p) h"
    have "get_client q ?h' = (if q \<in> set (all_conns (cw_hub w)) \<and> InRoom d (get_client q h)
        then sendFrame (newFrame ''collab.update'' (update_event d seq (cl_userID c) (cl_connID c) p)) (get_client q h) else get_client q h)" for q
      by (simp add: BroadcastToRoom_get [OF h] conns)
    note get = this [unfolded hq]
    show ?thesis
      unfolding sv ap r Let_def
      by (auto simp: r maybeRequestCompaction_world get flags BroadcastToRoom_fields newFrame_def update_event_decodes
          intro!: exI [of _ ?h'])
  qed
qed

section \<open>Spacing of snapshot requests\<close>

lemma claim_recent:
  assumes "asked_ok t0 s" "t0 \<le> t" "fst (claimCompaction e t s)"
  shows "\<forall>(k, a) \<in> set (sv_asked (snd (claimCompaction e t s))). t - 2 * compactionCooldown < a \<and> a \<le> t"
proof -
  have "t - sv_askedTrim (snd (claimCompaction e t s)) < compactionCooldown"
  proof -
    have "0 < compactionCooldown" by (simp add: compactionCooldown_def)
    then show ?thesis using assms(3) sub_ge [of t "sv_askedTrim s"] by (auto simp: claimCompaction_def Let_def split: if_splits)
  qed
  then show ?thesis using claim_step(1) [OF assms(1,2), of e] by (fastforce simp: asked_ok_def)
qed

text \<open>
  Clients are not asked for snapshots in a storm. In any history of claims of one replica, with a clock that does not run
  backwards, two requests for the same document are at least the cooldown of sixty seconds apart; and whenever a request is made, the
  bookkeeping behind it only remembers documents asked within the last two cooldowns, so it does not grow with the documents served.
\<close>

theorem compaction_requests_spaced:
  assumes "sorted (zero_time # map snd (cs @ [(e, t)]))"
  shows "sorted_wrt (\<lambda>a b. a + compactionCooldown \<le> b) (granted_claims d (cs @ [(e, t)]) NewService) \<and>
    (fst (claimCompaction e t (claims_after cs NewService)) \<longrightarrow>
      (\<forall>(k, a) \<in> set (sv_asked (claims_after (cs @ [(e, t)]) NewService)). t - 2 * compactionCooldown < a \<and> a \<le> t))"
proof -
  have new: "asked_ok zero_time NewService" by (simp add: asked_ok_def NewService_def)
  have s: "sorted (zero_time # map snd cs)" "last (zero_time # map snd cs) \<le> t"
    using assms by (cases cs rule: rev_cases; auto simp: sorted_append)+
  have "asked_ok (last (zero_time # map snd cs)) (claims_after cs NewService)" using claims_spaced [OF new s(1)] by blast
  moreover have "claims_after (cs @ [(e, t)]) NewService = snd (claimCompaction e t (claims_after cs NewService))"
    by (simp add: claims_after_def)
  ultimately show ?thesis
    using claims_spaced [OF new assms] claim_recent [OF _ s(2)] by simp
qed

section \<open>Requests\<close>

datatype collab_request =
    Req_Open string body
  | Req_Get string
  | Req_State string string
  | Req_Append string body
  | Req_Snapshot string body

fun serve_http :: "env \<Rightarrow> ws_env \<Rightarrow> string \<Rightarrow> string \<Rightarrow> collab_request \<Rightarrow> collab_world \<Rightarrow> int \<times> collab_world" where
  "serve_http E W newID u (Req_Open ws b) w = (let (r, w) = Handler_Open E W newID u ws b w in (response_status r, w))"
| "serve_http E W newID u (Req_Get d) w = (let (r, w) = Handler_Get E W u d w in (response_status r, w))"
| "serve_http E W newID u (Req_State d since) w = (let (r, w) = Handler_State E W u d since w in (response_status r, w))"
| "serve_http E W newID u (Req_Append d b) w = (let (r, w) = Handler_Append E W u d b w in (response_status r, w))"
| "serve_http E W newID u (Req_Snapshot d b) w = (let (r, w) = Handler_Snapshot E W u d b w in (response_status r, w))"

text \<open>
  What the permission model has to say for a request to be served. The object asked about is the document's file; a document without a
  resource, as every row from before the file tree has, is asked about as its workspace (\<open>CanRead\<close>, \<open>CanWrite\<close>).
\<close>

definition document_allows :: "env \<Rightarrow> collab_db \<Rightarrow> string \<Rightarrow> string \<Rightarrow> capability \<Rightarrow> bool" where
  "document_allows E db u d cap \<longleftrightarrow>
     (\<exists>i doc. pg_uuid E d = Some i \<and> find_doc db i = Some doc \<and>
        Can E (cd_acl db) (UserSubject u)
          (if dc_rid doc \<noteq> '''' then FileObject (dc_rid doc) else WorkspaceObject (dc_workspace doc)) cap = Inr True)"

fun permitted :: "env \<Rightarrow> collab_db \<Rightarrow> string \<Rightarrow> collab_request \<Rightarrow> bool" where
  "permitted E db u (Req_Open ws b) \<longleftrightarrow>
     (\<exists>x. decode_open b = Inr x \<and> Can E (cd_acl db) (UserSubject u) (WorkspaceObject ws) CapWrite = Inr True \<and>
        Can E (cd_acl db) (UserSubject u) (FileObject (oi_ResourceID x)) CapRead = Inr True)"
| "permitted E db u (Req_Get d) \<longleftrightarrow> document_allows E db u d CapRead"
| "permitted E db u (Req_State d _) \<longleftrightarrow> document_allows E db u d CapRead"
| "permitted E db u (Req_Append d _) \<longleftrightarrow> document_allows E db u d CapRead \<and> document_allows E db u d CapWrite"
| "permitted E db u (Req_Snapshot d _) \<longleftrightarrow> document_allows E db u d CapRead \<and> document_allows E db u d CapWrite"

lemma status_writeError: "response_status (writeError e) \<ge> 400"
  by (cases e rule: writeError.cases) (auto simp: HandleError_def NewInternal_def)

lemma status_decode:
  "decodeJSON b fs z f n = Inl e \<Longrightarrow> response_status (HandleError (Some e)) \<ge> 400"
  by (auto simp: decodeJSON_def HandleError_def NewPayloadTooLarge_def split: if_splits option.splits json.splits)

lemma authz_result_Inr: "authz_result r = Inr b \<longleftrightarrow> r = Inr b"
  by (auto simp: authz_result_def split: sum.splits)

lemma Authorize_Inr:
  assumes "Authorize E db d u wr = Inr (doc, a)"
  shows "document_allows E db u d CapRead" "wr \<Longrightarrow> document_allows E db u d CapWrite"
proof -
  obtain x where g: "Get E db d = Inr (Some x)" "CanRead E db (Some x) u = Inr True" "CanWrite E db (Some x) u = Inr (ra_CanWrite a)"
    "wr \<longrightarrow> ra_CanWrite a"
    using assms unfolding Authorize_def bindR_Inr_iff by (auto split: option.splits if_splits simp: bindR_Inr_iff)
  obtain i where i: "pg_uuid E d = Some i" "find_doc db i = Some x"
    using g(1) unfolding Get_def cd_uuid_Inr cd_sql_Inr by auto
  show "document_allows E db u d CapRead"
    using i g(2) unfolding document_allows_def CanRead_def by (auto simp: authz_result_Inr split: if_splits)
  show "document_allows E db u d CapWrite" if wr
    using that i g(3,4) unfolding document_allows_def CanWrite_def canEdit_def by (auto simp: authz_result_Inr split: if_splits)
qed

lemma open_permitted:
  assumes "OpenDocument E newID ws t i u w = (r, w')" "\<not> isl r \<or> w' \<noteq> w"
  shows "Can E (cd_acl (cw_db w)) (UserSubject u) (WorkspaceObject ws) CapWrite = Inr True \<and>
    Can E (cd_acl (cw_db w)) (UserSubject u) (FileObject i) CapRead = Inr True"
  using assms
  by (auto simp: OpenDocument_def CanCreate_def canEdit_def CanOpenResource_def authz_result_Inr bindR_Inr_iff
      split: sum.splits if_splits prod.splits)

lemma not_isl_Inl: "\<not> isl (Inl e :: 'a + 'b) \<Longrightarrow> P"
  by simp

text \<open>
  C33. Every HTTP request of the collaboration API is authorized. If a request is answered with success, or changes anything (the
  tables, the service or a socket), then the authorization checker granted the caller what it needs on the document's own file, or on
  its workspace when the document has no resource: read for reading its state, read and write for an append or a snapshot; and for
  opening one, write on the workspace and read on the file the request body names.
\<close>

theorem collab_requests_authorized:
  assumes "serve_http E W newID u req w = (status, w')" "status < 400 \<or> w' \<noteq> w"
  shows "permitted E (cw_db w) u req"
proof (cases req)
  case (Req_Open ws b)
  obtain r where h: "Handler_Open E W newID u ws b w = (r, w')" "response_status r < 400 \<or> w' \<noteq> w"
    using assms Req_Open by (auto split: prod.splits)
  obtain x where x: "decode_open b = Inr x"
  proof (cases "decode_open b")
    case (Inl e)
    then have "400 \<le> response_status (HandleError (Some e) :: Document response)"
      unfolding decode_open_def by (rule status_decode)
    then show ?thesis using h Inl by (auto simp: Handler_Open_def split: if_splits)
  qed blast
  obtain q where q: "OpenDocument E newID ws (oi_ResourceType x) (oi_ResourceID x) u w = (q, w')" "\<not> isl q \<or> w' \<noteq> w"
    using h x status_writeError by (auto simp: Handler_Open_def not_le [symmetric] split: if_splits prod.splits sum.splits)
  show ?thesis using open_permitted [OF q] x Req_Open by simp
next
  case (Req_Get d)
  then show ?thesis
    using assms status_writeError Authorize_Inr(1)
    by (fastforce simp: Handler_Get_def with_documentID_def not_le [symmetric] split: if_splits sum.splits)
next
  case (Req_State d since)
  then show ?thesis
    using assms status_writeError Authorize_Inr(1)
    by (fastforce simp: Handler_State_def with_documentID_def not_le [symmetric] split: if_splits sum.splits option.splits)
next
  case (Req_Append d b)
  then show ?thesis
    using assms status_writeError Authorize_Inr [of E "cw_db w" d u True]
    by (fastforce simp: Handler_Append_def with_documentID_def not_le [symmetric] decode_append_def dest: status_decode
        split: if_splits sum.splits prod.splits)
next
  case (Req_Snapshot d b)
  then show ?thesis
    using assms status_writeError Authorize_Inr [of E "cw_db w" d u True]
    by (fastforce simp: Handler_Snapshot_def with_documentID_def not_le [symmetric] decode_snapshot_def dest: status_decode
        split: if_splits sum.splits prod.splits)
qed

section \<open>Instances\<close>

definition session_ws :: ws_env where
  "session_ws = sample_ws\<lparr>we_roomHandler := None\<rparr>"

definition session_hub :: hub where
  "session_hub = StartNATSBridge (run_register 1 (run_register 0 (accept_client (uid CHR ''2'') ''c2'' [] 0 (accept_client (uid CHR ''1'') ''c1'' [] 0 (NewHub ''A'')))))"

definition session_world :: collab_world where
  "session_world =
     (let h = fold (\<lambda>r. upd_client r (JoinRoom (uid CHR ''5'') True)) [0, 1] session_hub in
      \<lparr>cw_db = sample_collab, cw_svc = NewService, cw_hub = h\<rparr>)"

definition session_frame :: RawMessage where
  "session_frame = Some (JObj [(''type'', JStr ''collab.update''),
     (''data'', JObj [(''document_id'', JStr (uid CHR ''5'')), (''update'', JStr ''TWFu'')])])"

lemma session_inv: "hub_inv (cw_hub session_world)"
proof -
  have "hub_inv session_hub" by code_simp
  then show ?thesis
    using keepsD [OF keeps_upd [OF safe_maps(4)]] by (simp add: session_world_def Let_def)
qed

theorem socket_update_reaches_the_room_witness:
  "let w' = serve_frame sample_env session_ws 0 session_frame session_world;
       F = newFrame ''collab.update'' (update_event (uid CHR ''5'') 5 (uid CHR ''1'') ''c1'' ''Man'') in
   get_client 1 (cw_hub w') = sendFrame F (get_client 1 (cw_hub session_world)) \<and> length (collab_updates (cw_db w')) = 4 \<and>
   length (hb_published (cw_hub w')) = 1"
proof -
  let ?c = "get_client 0 (cw_hub session_world)"
  obtain b where b: "allow (now sample_env) (cl_collabLimiter ?c) = (True, b)"
  proof -
    have "fst (allow (now sample_env) (cl_collabLimiter ?c))" by code_simp
    then show ?thesis using that by (cases "allow (now sample_env) (cl_collabLimiter ?c)") auto
  qed
  have msg: "parse_inbound session_frame = Some \<lparr>im_Type = ''collab.update'', im_Data = Some (JObj [(''document_id'', JStr (uid CHR ''5'')), (''update'', JStr ''TWFu'')])\<rparr>"
    "CollabUpdateData (Some (JObj [(''document_id'', JStr (uid CHR ''5'')), (''update'', JStr ''TWFu'')])) = Some (uid CHR ''5'', ''Man'')"
    by code_simp+
  have room: "0 < length (hb_heap (cw_hub session_world))" "InRoom (uid CHR ''5'') ?c" "CanWriteRoom (uid CHR ''5'') ?c"
    "we_Validate session_ws (uid CHR ''5'')" "length ''Man'' \<le> maxCollabPayloadBytes" "cl_userID ?c = uid CHR ''1''" "cl_connID ?c = ''c1''"
    "1 \<in> set (all_conns (cw_hub session_world))" "InRoom (uid CHR ''5'') (get_client 1 (cw_hub session_world))"
    by code_simp+
  have ack: "fst (AppendUpdate sample_env (uid CHR ''5'') (uid CHR ''1'') ''Man'' (cw_db session_world)) = Inr (5, 1)"
    "length (collab_updates (snd (AppendUpdate sample_env (uid CHR ''5'') (uid CHR ''1'') ''Man'' (cw_db session_world)))) = 4"
    "5 - 1 < sv_compactionThreshold (cw_svc session_world)"
    by code_simp+
  have pub: "hb_nats (cw_hub session_world)" "we_Publish session_ws s" "hb_published (cw_hub session_world) = []" for s
    by (code_simp, simp add: session_ws_def sample_ws_def, code_simp)
  obtain db where db: "AppendUpdate sample_env (uid CHR ''5'') (uid CHR ''1'') ''Man'' (cw_db session_world) = (Inr (5, 1), db)"
    using ack(1) by (metis prod.collapse)
  show ?thesis
    using socket_update_reaches_the_room [OF session_inv msg(1) _ _ refl room(1) b room(2-4) _ room(5)] msg(2) room(6-9) ack(2,3) db pub
    by (auto simp: Let_def)
qed

theorem compaction_requests_spaced_witness:
  "granted_claims ''d'' [(''d'', 0), (''e'', 1), (''d'', 2), (''d'', 60000000000)] NewService = [0, 60000000000] \<and>
   sorted_wrt (\<lambda>a b. a + compactionCooldown \<le> b)
     (granted_claims ''d'' ([(''d'', 0), (''e'', 1), (''d'', 2)] @ [(''d'', 60000000000)]) NewService)"
proof -
  have "granted_claims ''d'' [(''d'', 0), (''e'', 1), (''d'', 2), (''d'', 60000000000)] NewService = [0, 60000000000]" by code_simp
  moreover have "sorted (zero_time # map snd ([(''d'', 0), (''e'', 1), (''d'', 2)] @ [(''d'', 60000000000)]))"
    by (simp add: zero_time_def)
  ultimately show ?thesis using compaction_requests_spaced by blast
qed

theorem collab_requests_authorized_witness:
  "fst (serve_http sample_env session_ws '''' (uid CHR ''1'') (Req_State (uid CHR ''5'') ''2'') session_world) = 200 \<and>
   document_allows sample_env (cw_db session_world) (uid CHR ''1'') (uid CHR ''5'') CapRead"
proof -
  let ?r = "serve_http sample_env session_ws '''' (uid CHR ''1'') (Req_State (uid CHR ''5'') ''2'') session_world"
  have s: "fst ?r = 200" by code_simp
  have "permitted sample_env (cw_db session_world) (uid CHR ''1'') (Req_State (uid CHR ''5'') ''2'')"
    using collab_requests_authorized [OF prod.collapse [of ?r, symmetric]] s by simp
  with s show ?thesis by simp
qed

section \<open>The spelling of a workspace id\<close>

text \<open>
  Postgres reads a uuid in either case and stores one spelling; the repository compares the stored one with the text of the request.
  Opening a document with an upper-case workspace id therefore creates it, and opening it again the same way is refused as belonging to
  another workspace.
\<close>

definition folding_env :: env where
  "folding_env = sample_env\<lparr>pg_uuid := (\<lambda>s. if uuid_shape (to_lower s) then Some (to_lower s) else None)\<rparr>"

lemma open_twice_conflicts:
  "let open_it = EnsureDocument folding_env (uid CHR ''6'') (uid CHR ''A'') ''sheet'' (uid CHR ''f'') (uid CHR ''1'') in
   \<not> isl (fst (open_it sample_collab)) \<and> fst (open_it (snd (open_it sample_collab))) = Inl ErrResourceConflict \<and>
   pg_uuid folding_env (uid CHR ''A'') = Some (uid CHR ''a'')"
  unfolding Let_def by (intro conjI; code_simp)

end
