(* ===== verification/Drive_Quota.thy ===== *)
theory Drive_Quota
  imports Collab_Log
begin

text \<open>
  Drive's tables (\<open>migrations/025\<close> to \<open>027\<close>) and the storage quota, \<open>backend/internal/quota/quota.go\<close>. The table \<open>files\<close> is one
  list here; the authorization checker sees its own columns of it through \<open>acl_view\<close>, and so does the collaboration log.
  \<open>workspace_storage\<close> and \<open>storage_quota\<close> are association lists by workspace, without an entry where the column has its default or
  the row does not exist. Left out: \<open>updated_at\<close>, \<open>checksum\<close> and the collab half of the usage, which a job of another package writes.
\<close>

section \<open>Tables\<close>

record Folder =
  fo_id :: string
  fo_workspace :: string
  fo_parent :: "string option"
  fo_name :: string
  fo_root :: bool
  fo_created_by :: "string option"
  fo_trashed_at :: "int option"
  fo_trashed_by :: "string option"
  fo_purge_after :: "int option"
  fo_created_at :: int

record File =
  fi_id :: string
  fi_workspace :: string
  fi_user :: string
  fi_folder :: "string option"
  fi_message :: "string option"
  fi_mail_message :: "string option"
  fi_name :: string
  fi_type :: string
  fi_content_type :: string
  fi_size :: int
  fi_version :: int
  fi_thumbnail :: "string option"
  fi_storage_key :: string
  fi_updated_by :: "string option"
  fi_trashed_at :: "int option"
  fi_trashed_by :: "string option"
  fi_purge_after :: "int option"
  fi_created_at :: int

record Version =
  fv_file :: string
  fv_version :: int
  fv_key :: string
  fv_size :: int
  fv_content_type :: string
  fv_created_by :: "string option"
  fv_created_at :: int

record drive_db =
  dv_collab :: collab_db
  drive_folders :: "Folder list"
  drive_files :: "File list"
  file_versions :: "Version list"
  workspace_storage :: "(string \<times> int) list"
  storage_quota :: "(string \<times> int) list"

datatype drive_error =
    ErrNotFound
  | ErrCycle
  | ErrTooDeep
  | ErrCrossWorkspace
  | ErrNoRoot
  | ErrTrashed
  | ErrNotVersioned
  | ErrUnknownType
  | BadInput string
  | ErrExceeded
  | QuotaMisuse
  | DriveAuthz authz_error
  | DriveCollab collab_error
  | DriveDb string

definition dr_sql :: "env \<Rightarrow> string \<Rightarrow> 'a \<Rightarrow> drive_error + 'a" where
  "dr_sql E l v = (if db_fault E l then Inl (DriveDb l) else Inr v)"

definition dr_uuid :: "env \<Rightarrow> string \<Rightarrow> string \<Rightarrow> (string \<Rightarrow> drive_error + 'a) \<Rightarrow> drive_error + 'a" where
  "dr_uuid E l s k = (case pg_uuid E s of None \<Rightarrow> Inl (DriveDb l) | Some u \<Rightarrow> k u)"

definition dr_uuid_opt :: "env \<Rightarrow> string \<Rightarrow> string option \<Rightarrow> (string option \<Rightarrow> drive_error + 'a) \<Rightarrow> drive_error + 'a" where
  "dr_uuid_opt E l s k = (case s of None \<Rightarrow> k None | Some t \<Rightarrow> dr_uuid E l t (\<lambda>u. k (Some u)))"

definition nullable_str :: "string \<Rightarrow> string option" where
  "nullable_str s = (if s = '''' then None else Some s)"

definition file_columns :: "File \<Rightarrow> file_row" where
  "file_columns f = \<lparr>f_id = fi_id f, f_workspace = fi_workspace f, f_user = fi_user f, f_folder = fi_folder f,
     f_message = fi_message f, f_mail_message = fi_mail_message f\<rparr>"

definition acl_view :: "drive_db \<Rightarrow> database" where
  "acl_view db = (cd_acl (dv_collab db))\<lparr>files := map file_columns (drive_files db)\<rparr>"

definition put_acl :: "database \<Rightarrow> drive_db \<Rightarrow> drive_db" where
  "put_acl a db = db\<lparr>dv_collab := (dv_collab db)\<lparr>cd_acl := a\<rparr>\<rparr>"

definition dr_authz :: "drive_db \<Rightarrow> (database \<Rightarrow> authz_error + database) \<Rightarrow> drive_error + drive_db" where
  "dr_authz db f = (case f (acl_view db) of Inl e \<Rightarrow> Inl (DriveAuthz e) | Inr a \<Rightarrow> Inr (put_acl a db))"

section \<open>Quota\<close>

record Usage =
  us_WorkspaceID :: string
  us_QuotaBytes :: int
  us_BytesUsed :: int

definition Available :: "Usage \<Rightarrow> int" where
  "Available u =
     (if us_QuotaBytes u = 0 then -1
      else let free = us_QuotaBytes u - us_BytesUsed u in if free > 0 then free else 0)"

definition bytes_used :: "drive_db \<Rightarrow> string \<Rightarrow> int" where
  "bytes_used db w = (case map_of (workspace_storage db) w of None \<Rightarrow> 0 | Some n \<Rightarrow> n)"

definition quota_of :: "drive_db \<Rightarrow> string \<Rightarrow> int" where
  "quota_of db w = (case map_of (storage_quota db) w of None \<Rightarrow> 0 | Some n \<Rightarrow> n)"

definition alist_put :: "'k \<Rightarrow> 'v \<Rightarrow> ('k \<times> 'v) list \<Rightarrow> ('k \<times> 'v) list" where
  "alist_put k v m = (k, v) # filter (\<lambda>e. fst e \<noteq> k) m"

definition workspace_exists :: "drive_db \<Rightarrow> string \<Rightarrow> bool" where
  "workspace_exists db w \<longleftrightarrow> w \<in> set (workspaces (cd_acl (dv_collab db)))"

definition Read_usage :: "env \<Rightarrow> drive_db \<Rightarrow> string \<Rightarrow> drive_error + Usage" where
  "Read_usage E db workspaceID =
     dr_uuid E ''read storage usage'' workspaceID (\<lambda>w.
     bindR (dr_sql E ''read storage usage'' (workspace_exists db w)) (\<lambda>ok.
       if \<not> ok then Inl (DriveDb ''workspace does not exist'')
       else Inr \<lparr>us_WorkspaceID = workspaceID, us_QuotaBytes = quota_of db w, us_BytesUsed = bytes_used db w\<rparr>))"

definition ChargeTx :: "env \<Rightarrow> string \<Rightarrow> int \<Rightarrow> drive_db \<Rightarrow> drive_error + drive_db \<times> int" where
  "ChargeTx E workspaceID delta db =
     (if delta < 0 then Inl QuotaMisuse
      else if delta = 0 then bindR (Read_usage E db workspaceID) (\<lambda>u. Inr (db, us_BytesUsed u))
      else dr_uuid E ''charge storage quota'' workspaceID (\<lambda>w.
        if \<not> workspace_exists db w \<or> \<not> (quota_of db w = 0 \<or> delta \<le> quota_of db w)
        then bindR (dr_sql E ''charge storage quota'' ()) (\<lambda>_. Inl ErrExceeded)
        else case map_of (workspace_storage db) w of
          None \<Rightarrow> dr_sql E ''charge storage quota'' (db\<lparr>workspace_storage := alist_put w delta (workspace_storage db)\<rparr>, delta)
        | Some used \<Rightarrow>
            if quota_of db w = 0 \<or> used + delta \<le> quota_of db w
            then dr_sql E ''charge storage quota''
                   (db\<lparr>workspace_storage := alist_put w (used + delta) (workspace_storage db)\<rparr>, used + delta)
            else bindR (dr_sql E ''charge storage quota'' ()) (\<lambda>_. Inl ErrExceeded)))"

definition refund :: "(string \<Rightarrow> int) \<Rightarrow> (string \<times> int) list \<Rightarrow> (string \<times> int) list" where
  "refund owed m = map (\<lambda>(w, n). (w, max 0 (n - owed w))) m"

definition RefundTx :: "env \<Rightarrow> string \<Rightarrow> int \<Rightarrow> drive_db \<Rightarrow> drive_error + drive_db" where
  "RefundTx E workspaceID delta db =
     (if delta \<le> 0 then Inr db
      else dr_uuid E ''refund storage quota'' workspaceID (\<lambda>w.
        dr_sql E ''refund storage quota''
          (db\<lparr>workspace_storage := refund (\<lambda>x. if x = w then delta else 0) (workspace_storage db)\<rparr>)))"

definition version_bytes :: "drive_db \<Rightarrow> (File \<Rightarrow> bool) \<Rightarrow> int" where
  "version_bytes db P =
     sum_list [fv_size v. f \<leftarrow> drive_files db, P f, v \<leftarrow> file_versions db, fv_file v = fi_id f]"

definition RefundForFilesTx :: "env \<Rightarrow> string list \<Rightarrow> drive_db \<Rightarrow> drive_error + drive_db" where
  "RefundForFilesTx E fileIDs db =
     (if fileIDs = [] then Inr db
      else dr_sql E ''refund storage for files''
        (db\<lparr>workspace_storage :=
              refund (\<lambda>w. version_bytes db (\<lambda>f. fi_workspace f = w \<and> fi_id f \<in> set fileIDs)) (workspace_storage db)\<rparr>))"

record Breakdown =
  bd_Live :: int
  bd_Trashed :: int
  bd_Versions :: int
  bd_Recomputed :: int
  bd_Drift :: int

definition version_sum :: "drive_db \<Rightarrow> string \<Rightarrow> (File \<Rightarrow> Version \<Rightarrow> bool) \<Rightarrow> int" where
  "version_sum db w P =
     sum_list [fv_size v. f \<leftarrow> drive_files db, fi_workspace f = w, v \<leftarrow> file_versions db, fv_file v = fi_id f \<and> P f v]"

definition ReadBreakdown :: "env \<Rightarrow> drive_db \<Rightarrow> string \<Rightarrow> drive_error + Breakdown" where
  "ReadBreakdown E db workspaceID =
     dr_uuid E ''read storage breakdown'' workspaceID (\<lambda>w.
     bindR (dr_sql E ''read storage breakdown'' ()) (\<lambda>_.
     bindR (Read_usage E db workspaceID) (\<lambda>stored.
       let total = version_sum db w (\<lambda>_ _. True) in
       Inr \<lparr>bd_Live = version_sum db w (\<lambda>f v. fi_trashed_at f = None \<and> fv_version v = fi_version f),
            bd_Trashed = version_sum db w (\<lambda>f v. fi_trashed_at f \<noteq> None),
            bd_Versions = version_sum db w (\<lambda>f v. fi_trashed_at f = None \<and> fv_version v \<noteq> fi_version f),
            bd_Recomputed = total, bd_Drift = us_BytesUsed stored - total\<rparr>)))"

definition SetQuota :: "env \<Rightarrow> string \<Rightarrow> int \<Rightarrow> drive_db \<Rightarrow> (drive_error + unit) \<times> drive_db" where
  "SetQuota E workspaceID bytes db =
     (if bytes < 0 then (Inl QuotaMisuse, db)
      else case dr_uuid E ''set storage quota'' workspaceID (\<lambda>w. dr_sql E ''set storage quota'' w) of
        Inl e \<Rightarrow> (Inl e, db)
      | Inr w \<Rightarrow>
          if \<not> workspace_exists db w then (Inl (DriveDb ''workspace does not exist''), db)
          else (Inr (), db\<lparr>storage_quota := alist_put w bytes (storage_quota db)\<rparr>))"

definition Recompute :: "env \<Rightarrow> string \<Rightarrow> drive_db \<Rightarrow> (drive_error + int \<times> int) \<times> drive_db" where
  "Recompute E workspaceID db =
     (case dr_uuid E ''recompute storage usage'' workspaceID (\<lambda>w. dr_sql E ''recompute storage usage'' w) of
        Inl e \<Rightarrow> (Inl e, db)
      | Inr w \<Rightarrow>
          let truth = version_bytes db (\<lambda>f. fi_workspace f = w) in
          if \<not> workspace_exists db w then (Inl (DriveDb ''recompute storage usage''), db)
          else (Inr (bytes_used db w, truth), db\<lparr>workspace_storage := alist_put w truth (workspace_storage db)\<rparr>))"

section \<open>Lookups that answer\<close>

lemma dr_uuid_Inr: "dr_uuid E l s k = Inr x \<longleftrightarrow> (\<exists>u. pg_uuid E s = Some u \<and> k u = Inr x)"
  by (auto simp: dr_uuid_def split: option.splits)

lemma dr_uuid_opt_Inr: "dr_uuid_opt E l s k = Inr x \<Longrightarrow> \<exists>u. k u = Inr x"
  by (auto simp: dr_uuid_opt_def dr_uuid_Inr split: option.splits)

end
