(* ===== verification/Drive_Tree.thy ===== *)
theory Drive_Tree
  imports Drive_Quota Http_Page
begin

text \<open>
  Drive's repository: \<open>backend/internal/drive/repository.go\<close>, \<open>mutations.go\<close>, the repository half of \<open>trash.go\<close> and \<open>versions.go\<close>, and
  the transactions of \<open>upload.go\<close>. A generated id is an argument of the operation that inserts the row, the clock is the environment's
  (\<open>NOW()\<close> and \<open>time.Now\<close>), a registered kind is a record with its constructor. Object storage is a set of keys that a transaction
  does not touch; which deletes fail is an argument.
\<close>

section \<open>Names\<close>

definition MaxFolderDepth :: int where "MaxFolderDepth = 30"
definition MaxNameLength :: nat where "MaxNameLength = 255"

text \<open>White space as \<open>unicode.IsSpace\<close> has it, in UTF-8; the number of runes of a UTF-8 text.\<close>

definition spaces :: "string list" where
  "spaces = [[CHR 0x09], [CHR 0x0A], [CHR 0x0B], [CHR 0x0C], [CHR 0x0D], [CHR 0x20], [CHR 0xC2, CHR 0x85], [CHR 0xC2, CHR 0xA0],
     [CHR 0xE1, CHR 0x9A, CHR 0x80], [CHR 0xE2, CHR 0x80, CHR 0xA8], [CHR 0xE2, CHR 0x80, CHR 0xA9], [CHR 0xE2, CHR 0x80, CHR 0xAF],
     [CHR 0xE2, CHR 0x81, CHR 0x9F], [CHR 0xE3, CHR 0x80, CHR 0x80]] @
     map (\<lambda>n. [CHR 0xE2, CHR 0x80, char_of (128 + n)]) [0..<11]"

definition rune_count :: "string \<Rightarrow> nat" where
  "rune_count s = length (filter (\<lambda>c. \<not> (CHR 0x80 \<le> c \<and> c \<le> CHR 0xBF)) s)"

lemma spaces_nonempty: "p \<in> set spaces \<Longrightarrow> 0 < length p"
  by (auto simp: spaces_def)

function TrimLeft :: "string \<Rightarrow> string" where
  "TrimLeft s = (case find (\<lambda>p. prefix p s) spaces of None \<Rightarrow> s | Some p \<Rightarrow> TrimLeft (drop (length p) s))"
  by pat_completeness auto
termination
proof (relation "measure length")
  fix s p
  assume "find (\<lambda>p. prefix p s) spaces = Some p"
  then have "p \<in> set spaces" "prefix p s" by (auto simp: find_Some_iff)
  then have "0 < length p" "length p \<le> length s" using spaces_nonempty prefix_length_le by blast+
  then have "length s - length p < length s" by linarith
  then show "(drop (length p) s, s) \<in> measure length" by simp
qed simp

function TrimRight :: "string \<Rightarrow> string" where
  "TrimRight s = (case find (\<lambda>p. suffix p s) spaces of None \<Rightarrow> s | Some p \<Rightarrow> TrimRight (take (length s - length p) s))"
  by pat_completeness auto
termination
proof (relation "measure length")
  fix s p
  assume "find (\<lambda>p. suffix p s) spaces = Some p"
  then have "p \<in> set spaces" "suffix p s" by (auto simp: find_Some_iff)
  then have "0 < length p" "length p \<le> length s" using spaces_nonempty suffix_length_le by blast+
  then have "length s - length p < length s" by linarith
  then show "(take (length s - length p) s, s) \<in> measure length" by simp
qed simp

declare TrimLeft.simps [simp del] TrimRight.simps [simp del]

definition TrimSpace :: "string \<Rightarrow> string" where
  "TrimSpace s = TrimRight (TrimLeft s)"

definition bad_name :: "string \<Rightarrow> bool" where
  "bad_name name \<longleftrightarrow> name = '''' \<or> rune_count name > MaxNameLength"

section \<open>Reads\<close>

definition find_folder :: "drive_db \<Rightarrow> string \<Rightarrow> Folder option" where
  "find_folder db i = find (\<lambda>f. fo_id f = i) (drive_folders db)"

definition find_file :: "drive_db \<Rightarrow> string \<Rightarrow> File option" where
  "find_file db i = find (\<lambda>f. fi_id f = i) (drive_files db)"

definition Repo_Folder :: "env \<Rightarrow> drive_db \<Rightarrow> string \<Rightarrow> drive_error + Folder option" where
  "Repo_Folder E db i = dr_uuid E ''scan folder'' i (\<lambda>u. dr_sql E ''scan folder'' (find_folder db u))"

definition Repo_File :: "env \<Rightarrow> drive_db \<Rightarrow> string \<Rightarrow> drive_error + File option" where
  "Repo_File E db i = dr_uuid E ''scan file'' i (\<lambda>u. dr_sql E ''scan file'' (find_file db u))"

definition find_root :: "drive_db \<Rightarrow> string \<Rightarrow> Folder option" where
  "find_root db w = find (\<lambda>f. fo_workspace f = w \<and> fo_root f) (drive_folders db)"

definition Root :: "env \<Rightarrow> drive_db \<Rightarrow> string \<Rightarrow> drive_error + Folder option" where
  "Root E db workspaceID = dr_uuid E ''scan folder'' workspaceID (\<lambda>w. dr_sql E ''scan folder'' (find_root db w))"

definition folder_path :: "drive_db \<Rightarrow> string \<Rightarrow> string option" where
  "folder_path db i =
     map_option ao_path (find (\<lambda>r. ao_type r = ''folder'' \<and> ao_id r = i) (acl_object (cd_acl (dv_collab db))))"

definition depthOf :: "env \<Rightarrow> drive_db \<Rightarrow> string \<Rightarrow> drive_error + int" where
  "depthOf E db folderID =
     dr_uuid E ''read folder depth'' folderID (\<lambda>i.
     bindR (dr_sql E ''read folder depth'' (folder_path db i)) (\<lambda>p.
       case p of None \<Rightarrow> Inl ErrNotFound | Some path \<Rightarrow> Inr (int (length (filter ((=) CHR ''/'') path)) - 2)))"

fun ancestors :: "nat \<Rightarrow> drive_db \<Rightarrow> string option \<Rightarrow> Folder list" where
  "ancestors 0 db i = []"
| "ancestors (Suc n) db i =
     (case i of None \<Rightarrow> []
      | Some j \<Rightarrow> (case find_folder db j of None \<Rightarrow> [] | Some f \<Rightarrow> f # ancestors n db (fo_parent f)))"

definition Breadcrumb :: "env \<Rightarrow> drive_db \<Rightarrow> string \<Rightarrow> drive_error + Folder list" where
  "Breadcrumb E db i =
     dr_uuid E ''read breadcrumb'' i (\<lambda>u.
       dr_sql E ''read breadcrumb'' (rev (ancestors (nat (MaxFolderDepth + 2)) db (Some u))))"

section \<open>Folders\<close>

definition user_ok :: "drive_db \<Rightarrow> string option \<Rightarrow> bool" where
  "user_ok db u = (case u of None \<Rightarrow> True | Some x \<Rightarrow> x \<in> set (users (cd_acl (dv_collab db))))"

definition insert_folder :: "env \<Rightarrow> string \<Rightarrow> Folder \<Rightarrow> drive_db \<Rightarrow> drive_error + drive_db" where
  "insert_folder E l f db =
     (if \<not> workspace_exists db (fo_workspace f) \<or> \<not> user_ok db (fo_created_by f) \<or>
         (case fo_parent f of None \<Rightarrow> \<not> fo_root f | Some p \<Rightarrow> find_folder db p = None \<or> p = fo_id f) \<or>
         bad_name (fo_name f) \<or> find_folder db (fo_id f) \<noteq> None
      then Inl (DriveDb l)
      else dr_sql E l (db\<lparr>drive_folders := drive_folders db @ [f]\<rparr>))"

definition new_folder :: "env \<Rightarrow> string \<Rightarrow> string \<Rightarrow> string option \<Rightarrow> string \<Rightarrow> bool \<Rightarrow> string option \<Rightarrow> Folder" where
  "new_folder E i w p name is_root creator =
     \<lparr>fo_id = i, fo_workspace = w, fo_parent = p, fo_name = name, fo_root = is_root, fo_created_by = creator, fo_trashed_at = None,
      fo_trashed_by = None, fo_purge_after = None, fo_created_at = now E\<rparr>"

definition ensure_root_tx :: "env \<Rightarrow> string \<Rightarrow> string \<Rightarrow> string \<Rightarrow> drive_db \<Rightarrow> drive_error + drive_db \<times> unit" where
  "ensure_root_tx E newID workspaceID actorID db =
     dr_uuid E ''create drive root'' workspaceID (\<lambda>w.
     dr_uuid_opt E ''create drive root'' (nullable_str actorID) (\<lambda>creator.
       if find_root db w \<noteq> None then dr_sql E ''create drive root'' (db, ())
       else bindR (insert_folder E ''create drive root'' (new_folder E newID w None ''Drive'' True creator) db) (\<lambda>db.
            bindR (dr_authz db (\<lambda>a. RegisterTx E a (FolderObject newID) (WorkspaceObject workspaceID))) (\<lambda>db.
            bindR (dr_authz db (\<lambda>a. GrantTx E a (UserSubject actorID) (WorkspaceSubject workspaceID) (FolderObject newID) CapAdmin))
              (\<lambda>db. Inr (db, ()))))))"

definition EnsureRoot :: "env \<Rightarrow> string \<Rightarrow> string \<Rightarrow> string \<Rightarrow> drive_db \<Rightarrow> (drive_error + Folder option) \<times> drive_db" where
  "EnsureRoot E newID workspaceID actorID db =
     (case Root E db workspaceID of
        Inl e \<Rightarrow> (Inl e, db)
      | Inr (Some f) \<Rightarrow> (Inr (Some f), db)
      | Inr None \<Rightarrow>
          (case WithTx E DriveDb db (ensure_root_tx E newID workspaceID actorID) of
             (Inl e, db) \<Rightarrow> (Inl e, db)
           | (Inr _, db) \<Rightarrow> (Root E db workspaceID, db)))"

definition folder_checks :: "env \<Rightarrow> drive_db \<Rightarrow> string \<Rightarrow> string \<Rightarrow> drive_error + Folder" where
  "folder_checks E db workspaceID folderID =
     bindR (Repo_Folder E db folderID) (\<lambda>r.
       case r of
         None \<Rightarrow> Inl ErrNotFound
       | Some f \<Rightarrow>
           if fo_workspace f \<noteq> workspaceID then Inl ErrCrossWorkspace
           else if fo_trashed_at f \<noteq> None then Inl ErrTrashed
           else Inr f)"

definition create_folder_tx :: "env \<Rightarrow> string \<Rightarrow> string \<Rightarrow> string \<Rightarrow> string \<Rightarrow> string \<Rightarrow> drive_db \<Rightarrow> drive_error + drive_db \<times> Folder option" where
  "create_folder_tx E newID workspaceID parentID name actorID db =
     dr_uuid E ''create folder'' workspaceID (\<lambda>w. dr_uuid E ''create folder'' parentID (\<lambda>p.
     dr_uuid_opt E ''create folder'' (nullable_str actorID) (\<lambda>creator.
     bindR (insert_folder E ''create folder'' (new_folder E newID w (Some p) name False creator) db) (\<lambda>db.
     bindR (dr_authz db (\<lambda>a. RegisterTx E a (FolderObject newID) (FolderObject parentID))) (\<lambda>db.
     bindR (dr_sql E ''scan folder'' (find_folder db newID)) (\<lambda>f. Inr (db, f)))))))"

definition CreateFolder ::
  "env \<Rightarrow> string \<Rightarrow> string \<Rightarrow> string \<Rightarrow> string \<Rightarrow> string \<Rightarrow> drive_db \<Rightarrow> (drive_error + Folder option) \<times> drive_db" where
  "CreateFolder E newID workspaceID parentID name0 actorID db =
     (let name = TrimSpace name0 in
      if bad_name name then (Inl (BadInput ''folder name''), db)
      else case bindR (folder_checks E db workspaceID parentID) (\<lambda>_.
                bindR (depthOf E db parentID) (\<lambda>depth.
                  if depth + 1 > MaxFolderDepth then Inl ErrTooDeep else Inr ())) of
             Inl e \<Rightarrow> (Inl e, db)
           | Inr _ \<Rightarrow> WithTx E DriveDb db (create_folder_tx E newID workspaceID parentID name actorID))"

definition set_folder :: "(Folder \<Rightarrow> bool) \<Rightarrow> (Folder \<Rightarrow> Folder) \<Rightarrow> drive_db \<Rightarrow> drive_db" where
  "set_folder P g db = db\<lparr>drive_folders := map (\<lambda>f. if P f then g f else f) (drive_folders db)\<rparr>"

definition set_file :: "(File \<Rightarrow> bool) \<Rightarrow> (File \<Rightarrow> File) \<Rightarrow> drive_db \<Rightarrow> drive_db" where
  "set_file P g db = db\<lparr>drive_files := map (\<lambda>f. if P f then g f else f) (drive_files db)\<rparr>"

definition RenameFolder :: "env \<Rightarrow> string \<Rightarrow> string \<Rightarrow> drive_db \<Rightarrow> (drive_error + Folder) \<times> drive_db" where
  "RenameFolder E i name0 db =
     (let name = TrimSpace name0 in
      if bad_name name then (Inl (BadInput ''folder name''), db)
      else case dr_uuid E ''scan folder'' i (\<lambda>u. dr_sql E ''scan folder'' u) of
        Inl e \<Rightarrow> (Inl e, db)
      | Inr u \<Rightarrow>
          let db' = set_folder (\<lambda>f. fo_id f = u \<and> fo_trashed_at f = None) (\<lambda>f. f\<lparr>fo_name := name\<rparr>) db in
          (case find (\<lambda>f. fo_id f = u \<and> fo_trashed_at f = None) (drive_folders db') of
             None \<Rightarrow> (Inl ErrNotFound, db')
           | Some f \<Rightarrow> (Inr f, db')))"

definition RenameFile :: "env \<Rightarrow> string \<Rightarrow> string \<Rightarrow> string \<Rightarrow> drive_db \<Rightarrow> (drive_error + File) \<times> drive_db" where
  "RenameFile E i name0 actorID db =
     (let name = TrimSpace name0 in
      if bad_name name then (Inl (BadInput ''file name''), db)
      else case dr_uuid E ''scan file'' i (\<lambda>u. dr_uuid_opt E ''scan file'' (nullable_str actorID) (\<lambda>a. dr_sql E ''scan file'' (u, a))) of
        Inl e \<Rightarrow> (Inl e, db)
      | Inr (u, a) \<Rightarrow>
          let live = (\<lambda>f. fi_id f = u \<and> fi_trashed_at f = None);
              db' = set_file live (\<lambda>f. f\<lparr>fi_name := name, fi_updated_by := a\<rparr>) db in
          (case find live (drive_files db') of
             None \<Rightarrow> (Inl ErrNotFound, db')
           | Some f \<Rightarrow> if \<not> user_ok db a then (Inl (DriveDb ''scan file''), db) else (Inr f, db')))"

section \<open>Moving\<close>

fun translateMoveError :: "authz_error \<Rightarrow> drive_error" where
  "translateMoveError ErrMoveCycle = ErrCycle"
| "translateMoveError ErrMoveTooDeep = ErrTooDeep"
| "translateMoveError ErrCrossWorkspaceMove = ErrCrossWorkspace"
| "translateMoveError ErrNotRegistered = ErrNotFound"
| "translateMoveError e = DriveAuthz e"

definition lock_folder :: "env \<Rightarrow> drive_db \<Rightarrow> string \<Rightarrow> drive_error + Folder option" where
  "lock_folder E db i = Repo_Folder E db i"

definition move_folder_checks :: "Folder option \<Rightarrow> Folder option \<Rightarrow> drive_error + Folder \<times> Folder" where
  "move_folder_checks folder parent =
     (case folder of
        None \<Rightarrow> Inl ErrNotFound
      | Some f \<Rightarrow>
          if fo_root f then Inl (BadInput ''the Drive root cannot be moved'')
          else if fo_trashed_at f \<noteq> None then Inl ErrTrashed
          else case parent of
            None \<Rightarrow> Inl ErrNotFound
          | Some p \<Rightarrow>
              if fo_workspace p \<noteq> fo_workspace f then Inl ErrCrossWorkspace
              else if fo_trashed_at p \<noteq> None then Inl ErrTrashed
              else Inr (f, p))"

definition move_folder_tx ::
  "env \<Rightarrow> string \<Rightarrow> string \<Rightarrow> string \<Rightarrow> drive_db \<Rightarrow> drive_error + drive_db \<times> Folder \<times> effect list" where
  "move_folder_tx E actorID i newParentID db =
     (let (first, second) = (if i > newParentID then (newParentID, i) else (i, newParentID)) in
      bindR (lock_folder E db first) (\<lambda>a. bindR (lock_folder E db second) (\<lambda>b.
      let (folder, parent) = (if first = i then (a, b) else (b, a)) in
      bindR (move_folder_checks folder parent) (\<lambda>(f, p).
      case MoveInTx E (acl_view db) (FolderObject i) (FolderObject newParentID) of
        Inl e \<Rightarrow> Inl (translateMoveError e)
      | Inr (a', ref, parentRef, live, truncated) \<Rightarrow>
          let db1 = put_acl a' db;
              db2 = set_folder (\<lambda>x. fo_id x = fo_id f \<and> fo_trashed_at x = None) (\<lambda>x. x\<lparr>fo_parent := Some (fo_id p)\<rparr>) db1;
              fx = revokeLive E None live truncated @
                   audit E (acl_view db2) (UserSubject actorID) ''acl.moved'' ref None
                     [(''new_parent_type'', obj_type parentRef), (''new_parent_id'', obj_id parentRef)] in
          bindR (dr_sql E ''move folder'' (find (\<lambda>x. fo_id x = fo_id f \<and> fo_trashed_at x = None) (drive_folders db2))) (\<lambda>r.
            case r of None \<Rightarrow> Inl ErrTrashed | Some x \<Rightarrow> Inr (db2, x, fx))))))"

definition MoveFolder ::
  "env \<Rightarrow> string \<Rightarrow> string \<Rightarrow> string \<Rightarrow> drive_db \<Rightarrow> (drive_error + Folder \<times> effect list) \<times> drive_db" where
  "MoveFolder E actorID i newParentID db =
     (if i = newParentID then (Inl ErrCycle, db) else WithTx E DriveDb db (move_folder_tx E actorID i newParentID))"

definition move_file_tx :: "env \<Rightarrow> string \<Rightarrow> string \<Rightarrow> string \<Rightarrow> drive_db \<Rightarrow> drive_error + drive_db \<times> File" where
  "move_file_tx E i newFolderID actorID db =
     dr_uuid E ''scan file'' i (\<lambda>u. dr_uuid E ''scan file'' newFolderID (\<lambda>d.
     dr_uuid_opt E ''scan file'' (nullable_str actorID) (\<lambda>a.
       let live = (\<lambda>f. fi_id f = u \<and> fi_trashed_at f = None);
           db' = set_file live (\<lambda>f. f\<lparr>fi_folder := Some d, fi_updated_by := a\<rparr>) db in
       bindR (dr_sql E ''scan file'' (find live (drive_files db'))) (\<lambda>r.
         case r of
           None \<Rightarrow> Inl ErrTrashed
         | Some f \<Rightarrow>
             if find_folder db d = None \<or> \<not> user_ok db a then Inl (DriveDb ''scan file'')
             else bindR (dr_authz db' (\<lambda>v. MaterializeTx E v (FileObject i))) (\<lambda>db''. Inr (db'', f))))))"

definition MoveFile :: "env \<Rightarrow> string \<Rightarrow> string \<Rightarrow> string \<Rightarrow> drive_db \<Rightarrow> (drive_error + File) \<times> drive_db" where
  "MoveFile E i newFolderID actorID db =
     (case bindR (Repo_File E db i) (\<lambda>r.
           case r of
             None \<Rightarrow> Inl ErrNotFound
           | Some f \<Rightarrow>
               bindR (Repo_Folder E db newFolderID) (\<lambda>s.
                 case s of
                   None \<Rightarrow> Inl ErrNotFound
                 | Some d \<Rightarrow>
                     if fo_workspace d \<noteq> fi_workspace f then Inl ErrCrossWorkspace
                     else if fo_trashed_at d \<noteq> None then Inl ErrTrashed else Inr ())) of
        Inl e \<Rightarrow> (Inl e, db)
      | Inr _ \<Rightarrow> WithTx E DriveDb db (move_file_tx E i newFolderID actorID))"

end
