(* ===== verification/Drive_Registry.thy ===== *)
theory Drive_Registry
  imports Drive_Tree
begin

text \<open>
  The editor registry: \<open>backend/internal/drive/registry/registry.go\<close>, the kinds of \<open>backend/internal/drive/kinds.go\<close> and their
  registration in \<open>backend/internal/app/app.go\<close>. A kind's constructor runs in the caller's transaction; of its \<open>Text\<close> and \<open>Thumb\<close>
  functions only their presence matters here. Registration and lookup hold the registry's lock, so each is one step.
\<close>

section \<open>Kinds\<close>

definition StorageBlob :: string where "StorageBlob = ''blob''"
definition StorageCollab :: string where "StorageCollab = ''collab''"
definition TypeFile_kind :: string where "TypeFile_kind = ''file''"

record NewRequest =
  nr_WorkspaceID :: string
  nr_FileID :: string
  nr_FolderID :: string
  nr_ActorID :: string
  nr_Name :: string

record Kind =
  ki_Type :: string
  ki_DisplayName :: string
  ki_Storage :: string
  ki_Extensions :: "string list"
  ki_MimeTypes :: "string list"
  ki_New :: "(NewRequest \<Rightarrow> drive_db \<Rightarrow> drive_error + drive_db) option"
  ki_Text :: bool
  ki_Thumb :: bool
  ki_Versioned :: bool
  ki_ClientProjected :: bool

datatype registry_error =
    BadType
  | NoDisplayName
  | BadStorage
  | CollabVersioned
  | CollabText
  | BlobProjected
  | CollabNoNew
  | BadExtension
  | DuplicateKind

definition validate_kind :: "Kind \<Rightarrow> registry_error option" where
  "validate_kind k =
     (if \<not> isResourceType (ki_Type k) then Some BadType
      else if ki_DisplayName k = '''' then Some NoDisplayName
      else if ki_Storage k \<noteq> StorageBlob \<and> ki_Storage k \<noteq> StorageCollab then Some BadStorage
      else if ki_Storage k = StorageCollab \<and> ki_Versioned k then Some CollabVersioned
      else if ki_Storage k = StorageCollab \<and> ki_Text k then Some CollabText
      else if ki_ClientProjected k \<and> ki_Storage k \<noteq> StorageCollab then Some BlobProjected
      else if ki_Storage k = StorageCollab \<and> ki_New k = None then Some CollabNoNew
      else if \<exists>ext \<in> set (ki_Extensions k). \<not> prefix ''.'' ext then Some BadExtension
      else None)"

section \<open>The registry\<close>

record Registry =
  rg_kinds :: "(string \<times> Kind) list"
  rg_order :: "string list"

definition Lookup :: "Registry \<Rightarrow> string \<Rightarrow> Kind option" where
  "Lookup r t = map_of (rg_kinds r) t"

definition Register_kind :: "Kind \<Rightarrow> Registry \<Rightarrow> registry_error + Registry" where
  "Register_kind k r =
     (case validate_kind k of
        Some e \<Rightarrow> Inl e
      | None \<Rightarrow>
          if Lookup r (ki_Type k) \<noteq> None \<and> ki_Type k \<noteq> TypeFile_kind then Inl DuplicateKind
          else Inr \<lparr>rg_kinds = alist_put (ki_Type k) k (rg_kinds r),
                    rg_order = (if Lookup r (ki_Type k) = None then rg_order r @ [ki_Type k] else rg_order r)\<rparr>)"

definition file_kind :: Kind where
  "file_kind = \<lparr>ki_Type = TypeFile_kind, ki_DisplayName = ''File'', ki_Storage = StorageBlob, ki_Extensions = [], ki_MimeTypes = [],
     ki_New = None, ki_Text = False, ki_Thumb = False, ki_Versioned = True, ki_ClientProjected = False\<rparr>"

text \<open>\<open>New\<close>; its \<open>must\<close> panics on an error, which is the value \<open>Inl\<close> here.\<close>

definition New_registry :: "registry_error + Registry" where
  "New_registry = Register_kind file_kind \<lparr>rg_kinds = [], rg_order = []\<rparr>"

definition All_kinds :: "Registry \<Rightarrow> Kind list" where
  "All_kinds r = List.map_filter (Lookup r) (rg_order r)"

record Descriptor =
  de_Type :: string
  de_DisplayName :: string
  de_StorageMode :: string
  de_Extensions :: "string list"
  de_MimeTypes :: "string list"
  de_Creatable :: bool
  de_Versioned :: bool
  de_Previewable :: bool
  de_ClientProjected :: bool

definition Descriptors :: "Registry \<Rightarrow> Descriptor list" where
  "Descriptors r =
     map (\<lambda>k. \<lparr>de_Type = ki_Type k, de_DisplayName = ki_DisplayName k, de_StorageMode = ki_Storage k,
                de_Extensions = sort (ki_Extensions k), de_MimeTypes = sort (ki_MimeTypes k), de_Creatable = ki_New k \<noteq> None,
                de_Versioned = ki_Versioned k, de_Previewable = ki_Thumb k, de_ClientProjected = ki_ClientProjected k\<rparr>) (All_kinds r)"

section \<open>The editors\<close>

text \<open>The constructor makes the collaborative document in the caller's transaction.\<close>

definition collab_kind :: "env \<Rightarrow> string \<Rightarrow> string \<Rightarrow> string \<Rightarrow> Kind" where
  "collab_kind E newDoc t title =
     \<lparr>ki_Type = t, ki_DisplayName = title, ki_Storage = StorageCollab, ki_Extensions = [], ki_MimeTypes = [],
      ki_New = Some (\<lambda>req db.
        let c = (dv_collab db)\<lparr>cd_acl := acl_view db\<rparr> in
        case EnsureDocumentTx E newDoc (nr_WorkspaceID req) t (nr_FileID req) (nr_ActorID req) c of
          Inl e \<Rightarrow> Inl (DriveCollab e)
        | Inr c' \<Rightarrow> Inr (db\<lparr>dv_collab := c'\<rparr>)),
      ki_Text = False, ki_Thumb = False, ki_Versioned = False, ki_ClientProjected = True\<rparr>"

definition DocumentKind :: "env \<Rightarrow> string \<Rightarrow> Kind" where
  "DocumentKind E newDoc = collab_kind E newDoc ''document'' ''Document''"

definition SpreadsheetKind :: "env \<Rightarrow> string \<Rightarrow> Kind" where
  "SpreadsheetKind E newDoc = collab_kind E newDoc ''spreadsheet'' ''Spreadsheet''"

definition DesignKind :: "env \<Rightarrow> string \<Rightarrow> Kind" where
  "DesignKind E newDoc = collab_kind E newDoc ''design'' ''Design''"

fun register_all :: "Kind list \<Rightarrow> Registry \<Rightarrow> registry_error + Registry" where
  "register_all [] r = Inr r"
| "register_all (k # ks) r = bindR (Register_kind k r) (register_all ks)"

definition driveKinds :: "env \<Rightarrow> string \<Rightarrow> registry_error + Registry" where
  "driveKinds E newDoc = bindR New_registry (register_all [DocumentKind E newDoc, SpreadsheetKind E newDoc, DesignKind E newDoc])"

section \<open>What registration guarantees\<close>

definition registry_ok :: "Registry \<Rightarrow> bool" where
  "registry_ok r \<longleftrightarrow>
     distinct (rg_order r) \<and> (\<forall>t. t \<in> set (rg_order r) \<longleftrightarrow> Lookup r t \<noteq> None) \<and>
     (\<forall>t k. Lookup r t = Some k \<longrightarrow> ki_Type k = t \<and> validate_kind k = None)"

lemma map_of_alist_put [simp]: "map_of (alist_put k v m) x = (if x = k then Some v else map_of m x)"
  by (induction m) (auto simp: alist_put_def)



lemma Register_ok:
  assumes "registry_ok r" "Register_kind k r = Inr r'"
  shows "registry_ok r' \<and> Lookup r' (ki_Type k) = Some k"
  using assms by (auto simp: registry_ok_def Register_kind_def Lookup_def split: option.splits if_splits)

lemma register_all_ok: "registry_ok r \<Longrightarrow> register_all ks r = Inr r' \<Longrightarrow> registry_ok r'"
  by (induction ks arbitrary: r) (auto simp: bindR_Inr_iff dest: Register_ok)

lemma New_registry_ok: "New_registry = Inr r \<Longrightarrow> registry_ok r"
  unfolding New_registry_def by (rule conjunct1 [OF Register_ok]) (auto simp: registry_ok_def Lookup_def)

text \<open>The server starts: every built-in kind passes the checks, so that registration cannot fail.\<close>

lemma driveKinds_boots: "\<exists>r. driveKinds E newDoc = Inr r"
proof -
  have v: "validate_kind file_kind = None" by code_simp
  have w: "validate_kind (collab_kind E newDoc t title) = None" if "isResourceType t" "title \<noteq> ''''" for t title
    using that by (simp add: validate_kind_def collab_kind_def StorageBlob_def StorageCollab_def)
  have t: "isResourceType ''document''" "isResourceType ''spreadsheet''" "isResourceType ''design''" by code_simp+
  show ?thesis
    using v w [OF t(1)] w [OF t(2)] w [OF t(3)]
    by (simp add: driveKinds_def New_registry_def Register_kind_def bindR_def DocumentKind_def SpreadsheetKind_def DesignKind_def
        file_kind_def collab_kind_def alist_put_def TypeFile_kind_def Lookup_def)
qed

lemma driveKinds_ok: "driveKinds E newDoc = Inr r \<Longrightarrow> registry_ok r"
  unfolding driveKinds_def bindR_Inr_iff by (blast intro: New_registry_ok register_all_ok)

text \<open>Bytes are never accepted for an object whose content is a collaborative log.\<close>

lemma validate_kind_versioned: "validate_kind k = None \<Longrightarrow> ki_Versioned k \<Longrightarrow> ki_Storage k = StorageBlob"
  by (auto simp: validate_kind_def split: if_splits)

lemma versioned_is_blob: "registry_ok r \<Longrightarrow> Lookup r t = Some k \<Longrightarrow> ki_Versioned k \<Longrightarrow> ki_Storage k = StorageBlob"
  using validate_kind_versioned unfolding registry_ok_def by blast

end
