(* ===== verification/Drive_Trash.thy ===== *)
theory Drive_Trash
  imports Drive_Registry
begin

text \<open>
  The life of a Drive object: creating files, uploading and restoring versions, trash, restore and purge
  (\<open>backend/internal/drive/mutations.go\<close>, \<open>upload.go\<close>, \<open>versions.go\<close>, \<open>trash.go\<close>) and the listing of a folder
  (\<open>repository.go\<close>). The rows a purge selects under its batch limit are the first ones in table order.
\<close>

section \<open>Creating files\<close>

definition contentTypeFor :: "Kind \<Rightarrow> string" where
  "contentTypeFor k = (if ki_Storage k = StorageCollab then ''application/vnd.superops.'' @ ki_Type k else ''application/octet-stream'')"

definition insert_file :: "env \<Rightarrow> string \<Rightarrow> File \<Rightarrow> drive_db \<Rightarrow> drive_error + drive_db" where
  "insert_file E l f db =
     (if \<not> workspace_exists db (fi_workspace f) \<or> \<not> user_ok db (Some (fi_user f)) \<or>
         (case fi_folder f of None \<Rightarrow> False | Some d \<Rightarrow> find_folder db d = None) \<or> \<not> isResourceType (fi_type f) \<or>
         fi_size f < 0 \<or> find_file db (fi_id f) \<noteq> None
      then Inl (DriveDb l)
      else dr_sql E l (db\<lparr>drive_files := drive_files db @ [f]\<rparr>))"

definition new_file :: "env \<Rightarrow> string \<Rightarrow> string \<Rightarrow> string \<Rightarrow> string \<Rightarrow> string \<Rightarrow> string \<Rightarrow> string \<Rightarrow> int \<Rightarrow> string \<Rightarrow> File" where
  "new_file E i w u d name t ct sz key =
     \<lparr>fi_id = i, fi_workspace = w, fi_user = u, fi_folder = Some d, fi_message = None, fi_mail_message = None, fi_name = name,
      fi_type = t, fi_content_type = ct, fi_size = sz, fi_version = 1, fi_thumbnail = None, fi_storage_key = key,
      fi_updated_by = Some u, fi_trashed_at = None, fi_trashed_by = None, fi_purge_after = None, fi_created_at = now E\<rparr>"

definition create_file_tx ::
  "env \<Rightarrow> string \<Rightarrow> Kind \<Rightarrow> (NewRequest \<Rightarrow> drive_db \<Rightarrow> drive_error + drive_db) \<Rightarrow> string \<Rightarrow> string \<Rightarrow> string \<Rightarrow> string \<Rightarrow> drive_db \<Rightarrow>
   drive_error + drive_db \<times> File option" where
  "create_file_tx E newID kind mk workspaceID folderID name actorID db =
     dr_uuid E ''create drive file'' workspaceID (\<lambda>w. dr_uuid E ''create drive file'' actorID (\<lambda>u.
     dr_uuid E ''create drive file'' folderID (\<lambda>d.
     bindR (insert_file E ''create drive file'' (new_file E newID w u d name (ki_Type kind) (contentTypeFor kind) 0 '''') db) (\<lambda>db.
     bindR (mk \<lparr>nr_WorkspaceID = workspaceID, nr_FileID = newID, nr_FolderID = folderID, nr_ActorID = actorID, nr_Name = name\<rparr> db) (\<lambda>db.
     bindR (dr_authz db (\<lambda>a. MaterializeTx E a (FileObject newID))) (\<lambda>db.
     bindR (dr_sql E ''scan file'' (find_file db newID)) (\<lambda>f. Inr (db, f))))))))"

definition CreateFile ::
  "env \<Rightarrow> Registry \<Rightarrow> string \<Rightarrow> string \<Rightarrow> string \<Rightarrow> string \<Rightarrow> string \<Rightarrow> string \<Rightarrow> drive_db \<Rightarrow>
   (drive_error + File option) \<times> drive_db" where
  "CreateFile E kinds newID workspaceID folderID name0 fileType actorID db =
     (let name = TrimSpace name0 in
      if bad_name name then (Inl (BadInput ''file name''), db)
      else case Lookup kinds fileType of
        None \<Rightarrow> (Inl ErrUnknownType, db)
      | Some kind \<Rightarrow>
          (case ki_New kind of
             None \<Rightarrow> (Inl (BadInput ''uploaded, not created''), db)
           | Some mk \<Rightarrow>
               (case folder_checks E db workspaceID folderID of
                  Inl e \<Rightarrow> (Inl e, db)
                | Inr _ \<Rightarrow> WithTx E DriveDb db (create_file_tx E newID kind mk workspaceID folderID name actorID))))"

section \<open>Bytes\<close>

definition insert_version :: "env \<Rightarrow> string \<Rightarrow> Version \<Rightarrow> drive_db \<Rightarrow> drive_error + drive_db" where
  "insert_version E l v db =
     (if find_file db (fv_file v) = None \<or> fv_version v \<le> 0 \<or> fv_size v < 0 \<or> \<not> user_ok db (fv_created_by v) \<or>
         (\<exists>x \<in> set (file_versions db). fv_file x = fv_file v \<and> fv_version x = fv_version v)
      then Inl (DriveDb l)
      else dr_sql E l (db\<lparr>file_versions := file_versions db @ [v]\<rparr>))"

definition new_version :: "env \<Rightarrow> string \<Rightarrow> int \<Rightarrow> string \<Rightarrow> int \<Rightarrow> string \<Rightarrow> string \<Rightarrow> Version" where
  "new_version E i n key sz ct u =
     \<lparr>fv_file = i, fv_version = n, fv_key = key, fv_size = sz, fv_content_type = ct, fv_created_by = Some u, fv_created_at = now E\<rparr>"

definition upload_tx ::
  "env \<Rightarrow> string \<Rightarrow> string \<Rightarrow> string \<Rightarrow> string \<Rightarrow> string \<Rightarrow> string \<Rightarrow> int \<Rightarrow> string \<Rightarrow> drive_db \<Rightarrow> drive_error + drive_db \<times> File option" where
  "upload_tx E fileID workspaceID folderID name contentType actor sz storageKey db =
     bindR (ChargeTx E workspaceID sz db) (\<lambda>(db, _).
     dr_uuid E ''insert file'' workspaceID (\<lambda>w. dr_uuid E ''insert file'' actor (\<lambda>u. dr_uuid E ''insert file'' folderID (\<lambda>d.
     bindR (insert_file E ''insert file'' (new_file E fileID w u d name ''file'' contentType sz storageKey) db) (\<lambda>db.
     bindR (insert_version E ''insert version'' (new_version E fileID 1 storageKey sz contentType u) db) (\<lambda>db.
     bindR (dr_authz db (\<lambda>a. MaterializeTx E a (FileObject fileID))) (\<lambda>db.
     bindR (dr_sql E ''scan file'' (find_file db fileID)) (\<lambda>f. Inr (db, f)))))))))"

definition set_head :: "string \<Rightarrow> string \<Rightarrow> int \<Rightarrow> string \<Rightarrow> int \<Rightarrow> string \<Rightarrow> drive_db \<Rightarrow> drive_db" where
  "set_head i key sz contentType n u =
     set_file (\<lambda>f. fi_id f = i)
       (\<lambda>f. f\<lparr>fi_storage_key := key, fi_size := sz, fi_content_type := contentType, fi_version := n, fi_thumbnail := None,
              fi_updated_by := Some u\<rparr>)"

definition max_version :: "drive_db \<Rightarrow> string \<Rightarrow> int" where
  "max_version db i = foldr max (map fv_version (filter (\<lambda>v. fv_file v = i) (file_versions db))) 0"

definition replace_tx :: "env \<Rightarrow> File \<Rightarrow> string \<Rightarrow> string \<Rightarrow> int \<Rightarrow> string \<Rightarrow> drive_db \<Rightarrow> drive_error + drive_db \<times> File option" where
  "replace_tx E f contentType actor sz storageKey db =
     bindR (dr_sql E ''next version'' (find_file db (fi_id f))) (\<lambda>r.
       if r = None then Inl (DriveDb ''next version'')
       else let next_version = max_version db (fi_id f) + 1 in
         bindR (ChargeTx E (fi_workspace f) sz db) (\<lambda>(db, _).
         dr_uuid E ''insert version'' actor (\<lambda>u.
         bindR (insert_version E ''insert version'' (new_version E (fi_id f) next_version storageKey sz contentType u) db) (\<lambda>db.
         bindR (dr_sql E ''update head'' (set_head (fi_id f) storageKey sz contentType next_version u db)) (\<lambda>db.
         bindR (dr_sql E ''scan file'' (find_file db (fi_id f))) (\<lambda>out. Inr (db, out)))))))"

definition find_version :: "drive_db \<Rightarrow> string \<Rightarrow> int \<Rightarrow> Version option" where
  "find_version db i n = find (\<lambda>v. fv_file v = i \<and> fv_version v = n) (file_versions db)"

definition restore_version_tx :: "env \<Rightarrow> File \<Rightarrow> int \<Rightarrow> string \<Rightarrow> drive_db \<Rightarrow> drive_error + drive_db \<times> File option" where
  "restore_version_tx E f n actor db =
     bindR (dr_sql E ''read version'' (if find_file db (fi_id f) = None then None else find_version db (fi_id f) n)) (\<lambda>r.
       case r of
         None \<Rightarrow> Inl ErrNotFound
       | Some v \<Rightarrow>
           dr_uuid E ''update head'' actor (\<lambda>u.
             if \<not> user_ok db (Some u) then Inl (DriveDb ''update head'')
             else bindR (dr_sql E ''update head'' (set_head (fi_id f) (fv_key v) (fv_size v) (fv_content_type v) n u db)) (\<lambda>db.
                  bindR (dr_sql E ''scan file'' (find_file db (fi_id f))) (\<lambda>out. Inr (db, out)))))"

definition Versions :: "env \<Rightarrow> drive_db \<Rightarrow> string \<Rightarrow> drive_error + (Version \<times> bool) list" where
  "Versions E db fileID =
     dr_uuid E ''list file versions'' fileID (\<lambda>i.
       dr_sql E ''list file versions''
         (case find_file db i of
            None \<Rightarrow> []
          | Some f \<Rightarrow> map (\<lambda>v. (v, fv_version v = fi_version f))
              (rev (sort_key fv_version (filter (\<lambda>v. fv_file v = i) (file_versions db))))))"

section \<open>Trash\<close>

definition DefaultRetention :: int where "DefaultRetention = 30 * 24 * 3600 * 1000000000"

definition purgeAfter :: "env \<Rightarrow> int \<Rightarrow> int option" where
  "purgeAfter E retention = (if retention \<le> 0 then None else Some (now E + retention))"

definition under_path :: "drive_db \<Rightarrow> string \<Rightarrow> string \<Rightarrow> bool" where
  "under_path db path i \<longleftrightarrow>
     (\<exists>r \<in> set (acl_object (cd_acl (dv_collab db))). ao_type r = ''folder'' \<and> ao_id r = i \<and> in_subtree path (ao_path r))"

record FileRef =
  fr_ID :: string
  fr_FileType :: string
  fr_WorkspaceID :: string
  fr_Revision :: string

definition trash_folder_tx :: "env \<Rightarrow> int \<Rightarrow> string \<Rightarrow> string \<Rightarrow> drive_db \<Rightarrow> drive_error + drive_db \<times> FileRef list" where
  "trash_folder_tx E retention i actorID db =
     dr_uuid E ''read folder path'' i (\<lambda>u.
     bindR (dr_sql E ''read folder path'' (folder_path db u)) (\<lambda>p.
       case p of
         None \<Rightarrow> Inl ErrNotFound
       | Some path \<Rightarrow>
           let due = purgeAfter E retention in
           dr_uuid_opt E ''trash folder subtree'' (nullable_str actorID) (\<lambda>a.
             let hit = (\<lambda>f. fi_trashed_at f = None \<and> (case fi_folder f of None \<Rightarrow> False | Some d \<Rightarrow> under_path db path d));
                 db1 = set_folder (\<lambda>f. fo_trashed_at f = None \<and> under_path db path (fo_id f))
                         (\<lambda>f. f\<lparr>fo_trashed_at := Some (now E), fo_trashed_by := a, fo_purge_after := due\<rparr>) db;
                 db2 = set_file hit
                         (\<lambda>f. f\<lparr>fi_trashed_at := Some (now E), fi_trashed_by := a, fi_updated_by := a, fi_purge_after := due\<rparr>) db1 in
             if \<not> user_ok db a \<and>
                ((\<exists>f \<in> set (drive_folders db). fo_trashed_at f = None \<and> under_path db path (fo_id f)) \<or> (\<exists>f \<in> set (drive_files db). hit f))
             then Inl (DriveDb ''trash folder subtree'')
             else bindR (dr_sql E ''trash folder subtree'' ()) (\<lambda>_. bindR (dr_sql E ''trash folder contents'' ()) (\<lambda>_.
               Inr (db2, map (\<lambda>f. \<lparr>fr_ID = fi_id f, fr_FileType = fi_type f, fr_WorkspaceID = fi_workspace f,
                                   fr_Revision = ''trash-'' @ FormatInt (now E)\<rparr>) (filter hit (drive_files db))))))))"

definition TrashFolder :: "env \<Rightarrow> int \<Rightarrow> string \<Rightarrow> string \<Rightarrow> drive_db \<Rightarrow> (drive_error + FileRef list) \<times> drive_db" where
  "TrashFolder E retention i actorID db =
     (case Repo_Folder E db i of
        Inl e \<Rightarrow> (Inl e, db)
      | Inr None \<Rightarrow> (Inl ErrNotFound, db)
      | Inr (Some f) \<Rightarrow>
          if fo_root f then (Inl (BadInput ''the Drive root cannot be trashed''), db)
          else WithTx E DriveDb db (trash_folder_tx E retention i actorID))"

definition TrashFile :: "env \<Rightarrow> int \<Rightarrow> string \<Rightarrow> string \<Rightarrow> drive_db \<Rightarrow> (drive_error + unit) \<times> drive_db" where
  "TrashFile E retention i actorID db =
     (case dr_uuid E ''trash file'' i (\<lambda>u. dr_uuid_opt E ''trash file'' (nullable_str actorID) (\<lambda>a.
             if \<not> user_ok db a \<and> (\<exists>f \<in> set (drive_files db). fi_id f = u \<and> fi_trashed_at f = None)
             then Inl (DriveDb ''trash file'') else dr_sql E ''trash file'' (u, a))) of
        Inl e \<Rightarrow> (Inl e, db)
      | Inr (u, a) \<Rightarrow>
          if \<not> (\<exists>f \<in> set (drive_files db). fi_id f = u \<and> fi_trashed_at f = None) then (Inl ErrNotFound, db)
          else (Inr (), set_file (\<lambda>f. fi_id f = u \<and> fi_trashed_at f = None)
                  (\<lambda>f. f\<lparr>fi_trashed_at := Some (now E), fi_trashed_by := a, fi_updated_by := a, fi_purge_after := purgeAfter E retention\<rparr>) db))"

section \<open>Restore\<close>

record RestoreResult =
  rr_WorkspaceID :: string
  rr_ParentID :: string
  rr_Relocated :: bool
  rr_Note :: string
  rr_Restored :: "string list"

definition derefStr :: "string option \<Rightarrow> string" where
  "derefStr p = (case p of None \<Rightarrow> '''' | Some s \<Rightarrow> s)"

text \<open>Where a restored object goes: its parent when that is there and live, otherwise the Drive root.\<close>

definition restore_target :: "env \<Rightarrow> drive_db \<Rightarrow> string \<Rightarrow> string \<Rightarrow> drive_error + string \<times> bool" where
  "restore_target E db workspaceID target =
     bindR (if target = '''' then Inr False
            else dr_sql E ''read parent'' (case find_folder db target of None \<Rightarrow> False | Some p \<Rightarrow> fo_trashed_at p = None)) (\<lambda>usable.
       if usable then Inr (target, False)
       else if db_fault E ''read root'' then Inl ErrNoRoot
       else case find_root db workspaceID of None \<Rightarrow> Inl ErrNoRoot | Some r \<Rightarrow> Inr (fo_id r, True))"

definition relocated_note :: string where
  "relocated_note = ''the original folder is gone, so this was restored to the Drive root''"

definition restore_file_tx :: "env \<Rightarrow> string \<Rightarrow> string \<Rightarrow> drive_db \<Rightarrow> drive_error + drive_db \<times> RestoreResult" where
  "restore_file_tx E i actorID db =
     dr_uuid E ''lock file'' i (\<lambda>u.
     bindR (dr_sql E ''lock file'' (find_file db u)) (\<lambda>r.
       case r of
         None \<Rightarrow> Inl ErrNotFound
       | Some f \<Rightarrow>
           if fi_trashed_at f = None
           then Inr (db, \<lparr>rr_WorkspaceID = fi_workspace f, rr_ParentID = derefStr (fi_folder f), rr_Relocated = False, rr_Note = '''', rr_Restored = []\<rparr>)
           else bindR (restore_target E db (fi_workspace f) (derefStr (fi_folder f))) (\<lambda>(target, relocated).
             dr_uuid_opt E ''restore file'' (nullable_str actorID) (\<lambda>a.
               if \<not> user_ok db a then Inl (DriveDb ''restore file'')
               else bindR (dr_sql E ''restore file''
                      (set_file (\<lambda>x. fi_id x = u) (\<lambda>x. x\<lparr>fi_trashed_at := None, fi_trashed_by := None, fi_purge_after := None,
                         fi_folder := Some target, fi_updated_by := a\<rparr>) db)) (\<lambda>db1.
                    bindR (dr_authz db1 (\<lambda>v. MaterializeTx E v (FileObject i))) (\<lambda>db2.
                      Inr (db2, \<lparr>rr_WorkspaceID = fi_workspace f, rr_ParentID = target, rr_Relocated = relocated,
                        rr_Note = (if relocated then relocated_note else ''''), rr_Restored = [i]\<rparr>)))))))"

definition restore_subtree :: "string \<Rightarrow> string option \<Rightarrow> drive_db \<Rightarrow> drive_db" where
  "restore_subtree path a db =
     set_file (\<lambda>f. fi_trashed_at f \<noteq> None \<and> (case fi_folder f of None \<Rightarrow> False | Some d \<Rightarrow> under_path db path d))
       (\<lambda>f. f\<lparr>fi_trashed_at := None, fi_trashed_by := None, fi_purge_after := None, fi_updated_by := a\<rparr>)
       (set_folder (\<lambda>f. fo_trashed_at f \<noteq> None \<and> under_path db path (fo_id f))
          (\<lambda>f. f\<lparr>fo_trashed_at := None, fo_trashed_by := None, fo_purge_after := None\<rparr>) db)"

definition restore_folder_tx :: "env \<Rightarrow> string \<Rightarrow> string \<Rightarrow> drive_db \<Rightarrow> drive_error + drive_db \<times> RestoreResult" where
  "restore_folder_tx E i actorID db =
     dr_uuid E ''lock folder'' i (\<lambda>u.
     bindR (dr_sql E ''lock folder'' (find_folder db u)) (\<lambda>r.
       case r of
         None \<Rightarrow> Inl ErrNotFound
       | Some f \<Rightarrow>
           if fo_trashed_at f = None
           then Inr (db, \<lparr>rr_WorkspaceID = fo_workspace f, rr_ParentID = derefStr (fo_parent f), rr_Relocated = False, rr_Note = '''', rr_Restored = []\<rparr>)
           else bindR (restore_target E db (fo_workspace f) (derefStr (fo_parent f))) (\<lambda>(target, relocated).
             (case (if db_fault E ''read folder path'' then None else folder_path db u) of
                None \<Rightarrow> Inl ErrNotFound
              | Some path \<Rightarrow>
                  bindR (dr_sql E ''restore folder subtree'' ()) (\<lambda>_.
                  dr_uuid_opt E ''restore folder contents'' (nullable_str actorID) (\<lambda>a.
                  let restored = map fi_id (filter (\<lambda>x. fi_trashed_at x \<noteq> None \<and>
                        (case fi_folder x of None \<Rightarrow> False | Some d \<Rightarrow> under_path db path d)) (drive_files db)) in
                  if \<not> user_ok db a \<and> restored \<noteq> [] then Inl (DriveDb ''restore folder contents'')
                  else
                  bindR (dr_sql E ''restore folder contents'' (restore_subtree path a db)) (\<lambda>db1.
                  bindR (dr_sql E ''reparent restored folder''
                           (set_folder (\<lambda>x. fo_id x = u) (\<lambda>x. x\<lparr>fo_parent := Some target\<rparr>) db1)) (\<lambda>db2.
                  bindR (if relocated then dr_authz db2 (\<lambda>v. MoveTx E v (FolderObject i) (FolderObject target)) else Inr db2) (\<lambda>db3.
                    Inr (db3, \<lparr>rr_WorkspaceID = fo_workspace f, rr_ParentID = target, rr_Relocated = relocated,
                      rr_Note = (if relocated then relocated_note else ''''), rr_Restored = restored\<rparr>))))))))))"

text \<open>The route admits only the types \<open>folder\<close> and \<open>file\<close>.\<close>

definition Restore :: "env \<Rightarrow> string \<Rightarrow> string \<Rightarrow> string \<Rightarrow> drive_db \<Rightarrow> (drive_error + RestoreResult) \<times> drive_db" where
  "Restore E objectType i actorID db =
     WithTx E DriveDb db (if objectType = ''folder'' then restore_folder_tx E i actorID else restore_file_tx E i actorID)"

section \<open>Purge\<close>

record PurgeOptions =
  po_WorkspaceID :: string
  po_Now :: int
  po_IgnoreSchedule :: bool
  po_Batch :: int

record PurgeResult =
  pr_Files :: nat
  pr_Folders :: nat
  pr_BytesFreed :: int
  pr_ObjectFailures :: nat
  pr_Removed :: "FileRef list"

definition nullableUUID :: "string \<Rightarrow> string option" where
  "nullableUUID s = (if s = '''' then None else Some s)"

definition purge_defaults :: "env \<Rightarrow> PurgeOptions \<Rightarrow> PurgeOptions" where
  "purge_defaults E opts =
     (let o1 = (if po_Now opts = zero_time then opts\<lparr>po_Now := now E\<rparr> else opts) in
      if po_Batch o1 \<le> 0 then o1\<lparr>po_Batch := 500\<rparr> else o1)"

text \<open>\<open>$1 IS NULL OR workspace_id = $1\<close> and \<open>$2 OR (purge_after IS NOT NULL AND purge_after <= $3)\<close>.\<close>

definition due :: "PurgeOptions \<Rightarrow> string option \<Rightarrow> string \<Rightarrow> int option \<Rightarrow> int option \<Rightarrow> bool" where
  "due opts w workspace trashed_at purge_after \<longleftrightarrow>
     trashed_at \<noteq> None \<and> (w = None \<or> w = Some workspace) \<and>
     (po_IgnoreSchedule opts \<or> (case purge_after of None \<Rightarrow> False | Some p \<Rightarrow> p \<le> po_Now opts))"

definition file_due :: "PurgeOptions \<Rightarrow> string option \<Rightarrow> File \<Rightarrow> bool" where
  "file_due opts w f = due opts w (fi_workspace f) (fi_trashed_at f) (fi_purge_after f)"

definition folder_leaf :: "drive_db \<Rightarrow> Folder \<Rightarrow> bool" where
  "folder_leaf db f \<longleftrightarrow>
     \<not> (\<exists>c \<in> set (drive_folders db). fo_parent c = Some (fo_id f)) \<and> \<not> (\<exists>x \<in> set (drive_files db). fi_folder x = Some (fo_id f))"

definition folder_due :: "PurgeOptions \<Rightarrow> string option \<Rightarrow> Folder \<Rightarrow> bool" where
  "folder_due opts w f \<longleftrightarrow> due opts w (fo_workspace f) (fo_trashed_at f) (fo_purge_after f) \<and> \<not> fo_root f"

text \<open>The distinct non-empty object keys of a file: its versions, its head and its thumbnail.\<close>

definition object_keys :: "drive_db \<Rightarrow> File \<Rightarrow> string list" where
  "object_keys db f =
     remdups (filter (\<lambda>k. k \<noteq> '''')
       (map fv_key (filter (\<lambda>v. fv_file v = fi_id f) (file_versions db)) @ [fi_storage_key f, derefStr (fi_thumbnail f)]))"

text \<open>Deleting file rows takes their versions, their collaborative documents and their projections along (\<open>ON DELETE CASCADE\<close>).\<close>

definition cascade_collab :: "string list \<Rightarrow> collab_db \<Rightarrow> collab_db" where
  "cascade_collab ids c =
     (let gone = map dc_id (filter (\<lambda>d. dc_rid d \<in> set ids) (collab_documents c)) in
      c\<lparr>collab_documents := filter (\<lambda>d. dc_rid d \<notin> set ids) (collab_documents c),
        collab_updates := filter (\<lambda>u. up_document u \<notin> set gone) (collab_updates c),
        collab_snapshots := filter (\<lambda>s. sn_document s \<notin> set gone) (collab_snapshots c),
        file_projections := filter (\<lambda>p. fst p \<notin> set ids) (file_projections c)\<rparr>)"

definition delete_files :: "string list \<Rightarrow> drive_db \<Rightarrow> drive_db" where
  "delete_files ids db =
     db\<lparr>dv_collab := cascade_collab ids (dv_collab db),
        drive_files := filter (\<lambda>f. fi_id f \<notin> set ids) (drive_files db),
        file_versions := filter (\<lambda>v. fv_file v \<notin> set ids) (file_versions db)\<rparr>"

definition purge_files_tx ::
  "env \<Rightarrow> PurgeOptions \<Rightarrow> drive_db \<Rightarrow> drive_error + drive_db \<times> PurgeResult \<times> (string list) list" where
  "purge_files_tx E opts db =
     dr_uuid_opt E ''list purgeable files'' (nullableUUID (po_WorkspaceID opts)) (\<lambda>w.
     bindR (dr_sql E ''list purgeable files'' (take (nat (po_Batch opts)) (filter (file_due opts w) (drive_files db)))) (\<lambda>files.
     let res = \<lparr>pr_Files = 0, pr_Folders = 0, pr_BytesFreed = 0, pr_ObjectFailures = 0, pr_Removed = []\<rparr> in
     if files = [] then Inr (db, res, [])
     else let ids = map fi_id files in
       bindR (dr_sql E ''measure purged bytes'' (sum_list (map fv_size (filter (\<lambda>v. fv_file v \<in> set ids) (file_versions db))))) (\<lambda>freed.
       bindR (RefundForFilesTx E ids db) (\<lambda>db1.
       bindR (dr_sql E ''purge files'' (delete_files ids db1)) (\<lambda>db2.
         Inr (db2,
              res\<lparr>pr_BytesFreed := freed, pr_Files := length (drive_files db1) - length (drive_files db2),
                  pr_Removed := map (\<lambda>f. \<lparr>fr_ID = fi_id f, fr_FileType = fi_type f, fr_WorkspaceID = fi_workspace f,
                                          fr_Revision = ''purge''\<rparr>) files\<rparr>,
              map (object_keys db) files))))))"

fun unregister_all :: "env \<Rightarrow> string list \<Rightarrow> drive_db \<Rightarrow> drive_error + drive_db" where
  "unregister_all E [] db = Inr db"
| "unregister_all E (i # ids) db =
     bindR (dr_authz db (\<lambda>a. UnregisterTx E a (FolderObject i))) (\<lambda>db'. unregister_all E ids db')"

definition purge_folders_tx :: "env \<Rightarrow> PurgeOptions \<Rightarrow> drive_db \<Rightarrow> drive_error + drive_db \<times> nat" where
  "purge_folders_tx E opts db =
     dr_uuid_opt E ''list purgeable folders'' (nullableUUID (po_WorkspaceID opts)) (\<lambda>w.
     bindR (dr_sql E ''list purgeable folders''
              (map fo_id (take (nat (po_Batch opts)) (filter (\<lambda>f. folder_due opts w f \<and> folder_leaf db f) (drive_folders db))))) (\<lambda>ids.
       if ids = [] then Inr (db, 0)
       else
         bindR (unregister_all E ids db) (\<lambda>db1.
         bindR (dr_sql E ''purge folders'' (db1\<lparr>drive_folders := filter (\<lambda>f. fo_id f \<notin> set ids) (drive_folders db1)\<rparr>)) (\<lambda>db2.
           Inr (db2, length (drive_folders db1) - length (drive_folders db2))))))"

text \<open>The loop over folder depths: \<open>n\<close> rounds are left.\<close>

fun purge_rounds :: "env \<Rightarrow> PurgeOptions \<Rightarrow> nat \<Rightarrow> PurgeResult \<Rightarrow> drive_db \<Rightarrow> (drive_error + PurgeResult) \<times> drive_db" where
  "purge_rounds E opts 0 res db = (Inr res, db)"
| "purge_rounds E opts (Suc n) res db =
     (case WithTx E DriveDb db (purge_folders_tx E opts) of
        (Inl e, db') \<Rightarrow> (Inl e, db')
      | (Inr removed, db') \<Rightarrow>
          if removed = 0 then (Inr res, db')
          else purge_rounds E opts n (res\<lparr>pr_Folders := pr_Folders res + removed\<rparr>) db')"

text \<open>The object store is the list of its keys; \<open>None\<close> for the deployment without one. The argument says which deletes fail.\<close>

definition Delete_object :: "(string \<Rightarrow> bool) \<Rightarrow> string \<Rightarrow> string list \<Rightarrow> bool \<times> string list" where
  "Delete_object broken key store = (if broken key then (False, store) else (True, filter (\<lambda>k. k \<noteq> key) store))"

fun purge_objects :: "(string \<Rightarrow> bool) \<Rightarrow> string list \<Rightarrow> string list option \<Rightarrow> nat \<times> string list option" where
  "purge_objects broken keys None = (0, None)"
| "purge_objects broken [] (Some store) = (0, Some store)"
| "purge_objects broken (key # keys) (Some store) =
     (let (ok, store') = Delete_object broken key store; (n, s) = purge_objects broken keys (Some store')
      in ((if ok then n else n + 1), s))"

definition Purge ::
  "env \<Rightarrow> (string \<Rightarrow> bool) \<Rightarrow> PurgeOptions \<Rightarrow> drive_db \<Rightarrow> string list option \<Rightarrow>
   (drive_error + PurgeResult) \<times> drive_db \<times> string list option" where
  "Purge E broken opts0 db store =
     (let opts = purge_defaults E opts0 in
      case WithTx E DriveDb db (purge_files_tx E opts) of
        (Inl e, db1) \<Rightarrow> (Inl e, db1, store)
      | (Inr (res, keys), db1) \<Rightarrow>
          let (failures, store1) = purge_objects broken (concat keys) store;
              (r, db2) = purge_rounds E opts (nat (MaxFolderDepth + 2)) (res\<lparr>pr_ObjectFailures := failures\<rparr>) db1
          in (r, db2, store1))"

end
