(* ===== verification/Drive_List.thy ===== *)
theory Drive_List
  imports Drive_Trash Collab_Properties "HOL-Library.Product_Lexorder"
begin

text \<open>
  The listings of Drive: the contents of a folder page by page (\<open>Children\<close>, \<open>cursorKind\<close>, \<open>encodeEntryCursor\<close> in
  \<open>backend/internal/drive/repository.go\<close>) and the trash (\<open>Trash\<close> in \<open>trash.go\<close>). Times are stored to the microsecond. The ids of
  one query are compared as texts, in the order of the code points.
\<close>

section \<open>Contents of a folder\<close>

definition EntryFolder :: string where "EntryFolder = ''folder''"
definition EntryFile :: string where "EntryFile = ''file''"

record DriveEntry =
  en_Kind :: string
  en_Folder :: "Folder option"
  en_File :: "File option"
  en_sortAt :: int
  en_sortID :: string

definition folder_entry :: "Folder \<Rightarrow> DriveEntry" where
  "folder_entry f = \<lparr>en_Kind = EntryFolder, en_Folder = Some f, en_File = None, en_sortAt = fo_created_at f, en_sortID = fo_id f\<rparr>"

definition file_entry :: "File \<Rightarrow> DriveEntry" where
  "file_entry f = \<lparr>en_Kind = EntryFile, en_Folder = None, en_File = Some f, en_sortAt = fi_created_at f, en_sortID = fi_id f\<rparr>"

definition has_key :: "drive_db \<Rightarrow> string \<Rightarrow> string \<Rightarrow> string list \<Rightarrow> bool" where
  "has_key db t i keys \<longleftrightarrow>
     (\<exists>k \<in> set (acl_key (cd_acl (dv_collab db))). ak_type k = t \<and> ak_id k = i \<and> ak_key k \<in> set keys)"

definition visible_folders :: "drive_db \<Rightarrow> string \<Rightarrow> string list \<Rightarrow> Folder list" where
  "visible_folders db d keys =
     filter (\<lambda>f. fo_parent f = Some d \<and> fo_trashed_at f = None \<and> has_key db ''folder'' (fo_id f) keys) (drive_folders db)"

definition visible_files :: "drive_db \<Rightarrow> string \<Rightarrow> string list \<Rightarrow> File list" where
  "visible_files db d keys =
     filter (\<lambda>f. fi_folder f = Some d \<and> fi_trashed_at f = None \<and> has_key db ''file'' (fi_id f) keys) (drive_files db)"

text \<open>\<open>ORDER BY e.kind ASC, e.created_at DESC, e.id DESC\<close>: a stable sort on the kind after a descending one on the rest.\<close>

definition entry_order :: "DriveEntry list \<Rightarrow> DriveEntry list" where
  "entry_order es = sort_key en_Kind (rev (sort_key (\<lambda>e. (en_sortAt e, en_sortID e)) es))"

definition listing :: "drive_db \<Rightarrow> string \<Rightarrow> string list \<Rightarrow> DriveEntry list" where
  "listing db d keys = entry_order (map folder_entry (visible_folders db d keys) @ map file_entry (visible_files db d keys))"

definition pg_time :: "int \<Rightarrow> int" where
  "pg_time t = t div 1000 * 1000"

definition nullableTime :: "int \<Rightarrow> int option" where
  "nullableTime t = (if t = zero_time then None else Some t)"

text \<open>\<open>strings.Cut\<close> on the colon of \<open><kind>:<uuid>\<close>.\<close>

definition cursorKind :: "PaginationParams \<Rightarrow> string" where
  "cursorKind page =
     (if IsZero (pp_Cursor page) then ''''
      else if CHR '':'' \<in> set (cu_ID (pp_Cursor page)) then fst (Cut CHR '':'' (cu_ID (pp_Cursor page)))
      else EntryFolder)"

definition cursor_id :: "PaginationParams \<Rightarrow> string" where
  "cursor_id page =
     (if IsZero (pp_Cursor page) then ''''
      else if CHR '':'' \<in> set (cu_ID (pp_Cursor page)) then snd (Cut CHR '':'' (cu_ID (pp_Cursor page)))
      else cu_ID (pp_Cursor page))"

definition encodeEntryCursor :: "int \<Rightarrow> DriveEntry \<Rightarrow> string" where
  "encodeEntryCursor off e = EncodeCursor off (en_sortAt e) (en_Kind e @ '':'' @ en_sortID e)"

definition after_entry :: "int option \<Rightarrow> string \<Rightarrow> string \<Rightarrow> DriveEntry \<Rightarrow> bool" where
  "after_entry at_time i kind e \<longleftrightarrow>
     (case at_time of
        None \<Rightarrow> True
      | Some t \<Rightarrow> en_Kind e > kind \<or> (en_Kind e = kind \<and> (en_sortAt e, en_sortID e) < (pg_time t, i)))"

text \<open>A folder's creator is scanned into a plain string, so that the row of a folder without one is an error.\<close>

definition scans :: "DriveEntry \<Rightarrow> bool" where
  "scans e = (case en_Folder e of None \<Rightarrow> True | Some f \<Rightarrow> fo_created_by f \<noteq> None)"

definition Children ::
  "env \<Rightarrow> int \<Rightarrow> drive_db \<Rightarrow> string \<Rightarrow> string list \<Rightarrow> PaginationParams \<Rightarrow> drive_error + DriveEntry list \<times> string \<times> bool" where
  "Children E off db folderID keys page =
     (if keys = [] then Inr ([], '''', False)
      else
        let limit = pp_Limit page + 1;
            cursorAt = (if IsZero (pp_Cursor page) then zero_time else cu_CreatedAt (pp_Cursor page)) in
        dr_uuid E ''list folder children'' folderID (\<lambda>d.
        bindR (dr_sql E ''list folder children''
                 (take (nat limit)
                    (filter (after_entry (nullableTime cursorAt) (cursor_id page) (cursorKind page)) (listing db d keys)))) (\<lambda>entries.
          if \<not> list_all scans entries then Inl (DriveDb ''scan folder child'')
          else
            let hasMore = int (length entries) > pp_Limit page;
                shown = (if hasMore then take (nat (pp_Limit page)) entries else entries);
                cursor = (if hasMore \<and> shown \<noteq> [] then encodeEntryCursor off (last shown) else '''')
            in Inr (shown, cursor, hasMore))))"

text \<open>A caller who follows the cursors: \<open>n\<close> requests are left, \<open>None\<close> when they do not suffice.\<close>

fun follow_pages ::
  "env \<Rightarrow> int \<Rightarrow> drive_db \<Rightarrow> string \<Rightarrow> string list \<Rightarrow> string \<Rightarrow> nat \<Rightarrow> string \<Rightarrow> DriveEntry list option" where
  "follow_pages E off db d keys limit 0 cursor = None"
| "follow_pages E off db d keys limit (Suc n) cursor =
     (case ParsePagination cursor limit of
        Inl e \<Rightarrow> None
      | Inr page \<Rightarrow>
          (case Children E off db d keys page of
             Inl e \<Rightarrow> None
           | Inr (es, next_cursor, False) \<Rightarrow> Some es
           | Inr (es, next_cursor, True) \<Rightarrow> map_option ((@) es) (follow_pages E off db d keys limit n next_cursor)))"

section \<open>Trash\<close>

record TrashEntry =
  te_Kind :: string
  te_ID :: string
  te_Name :: string
  te_TrashedAt :: int
  te_TrashedBy :: "string option"
  te_PurgeAfter :: "int option"
  te_SizeBytes :: int
  te_ItemCount :: int

definition with_ancestor :: "drive_db \<Rightarrow> string option \<Rightarrow> bool" where
  "with_ancestor db p \<longleftrightarrow> (\<exists>f \<in> set (drive_folders db). p = Some (fo_id f) \<and> fo_trashed_at f \<noteq> None)"

definition item_count :: "drive_db \<Rightarrow> string \<Rightarrow> int" where
  "item_count db i =
     (case folder_path db i of
        None \<Rightarrow> 0
      | Some path \<Rightarrow> int (length (filter (\<lambda>r. in_subtree path (ao_path r)) (acl_object (cd_acl (dv_collab db)))))) - 1"

definition the_time :: "int option \<Rightarrow> int" where
  "the_time t = (case t of None \<Rightarrow> zero_time | Some x \<Rightarrow> x)"

definition trash_rows :: "drive_db \<Rightarrow> string \<Rightarrow> string list \<Rightarrow> TrashEntry list" where
  "trash_rows db w keys =
     map (\<lambda>f. \<lparr>te_Kind = EntryFolder, te_ID = fo_id f, te_Name = fo_name f, te_TrashedAt = the_time (fo_trashed_at f),
                te_TrashedBy = fo_trashed_by f, te_PurgeAfter = fo_purge_after f, te_SizeBytes = 0, te_ItemCount = item_count db (fo_id f)\<rparr>)
       (filter (\<lambda>f. fo_workspace f = w \<and> fo_trashed_at f \<noteq> None \<and> \<not> with_ancestor db (fo_parent f) \<and>
                    has_key db ''folder'' (fo_id f) keys) (drive_folders db)) @
     map (\<lambda>f. \<lparr>te_Kind = EntryFile, te_ID = fi_id f, te_Name = fi_name f, te_TrashedAt = the_time (fi_trashed_at f),
                te_TrashedBy = fi_trashed_by f, te_PurgeAfter = fi_purge_after f,
                te_SizeBytes = sum_list (map fv_size (filter (\<lambda>v. fv_file v = fi_id f) (file_versions db))), te_ItemCount = 0\<rparr>)
       (filter (\<lambda>f. fi_workspace f = w \<and> fi_trashed_at f \<noteq> None \<and> \<not> with_ancestor db (fi_folder f) \<and>
                    has_key db ''file'' (fi_id f) keys) (drive_files db))"

definition Trash :: "env \<Rightarrow> drive_db \<Rightarrow> string \<Rightarrow> string list \<Rightarrow> drive_error + TrashEntry list" where
  "Trash E db workspaceID keys =
     (if keys = [] then Inr []
      else dr_uuid E ''list trash'' workspaceID (\<lambda>w.
        dr_sql E ''list trash'' (rev (sort_key te_TrashedAt (trash_rows db w keys)))))"

section \<open>Keyset paging\<close>

text \<open>
  What paging needs of an order: two rows are never each before the other, and the rows are listed in it. Then the rows after the last
  one of a page are the rest of the list.
\<close>

locale keyset =
  fixes before :: "'a \<Rightarrow> 'a \<Rightarrow> bool"
  assumes asym: "before x y \<Longrightarrow> \<not> before y x"
begin

lemma rest_after_last:
  assumes "sorted_wrt before xs" "0 < n" "n \<le> length xs"
  shows "filter (before (last (take n xs))) xs = drop n xs"
proof -
  define a where "a = last (take n xs)"
  have ne: "take n xs \<noteq> []" using assms by auto
  then have a: "a \<in> set (take n xs)" "a = xs ! (n - 1)"
    using last_conv_nth [OF ne] last_in_set [OF ne] assms(2,3) by (simp_all add: a_def min_def)
  have "sorted_wrt before (take n xs @ drop n xs)" using assms(1) by simp
  then have split: "sorted_wrt before (take n xs)" "\<forall>x \<in> set (take n xs). \<forall>y \<in> set (drop n xs). before x y"
    unfolding sorted_wrt_append by blast+
  have "\<not> before a x" if mem: "x \<in> set (take n xs)" for x
  proof -
    obtain j where "j < length (take n xs)" "x = take n xs ! j" using mem by (metis in_set_conv_nth)
    then have j: "j < n" "j < length xs" "x = xs ! j" by simp_all
    show ?thesis
    proof (cases "j = n - 1")
      case True
      then show ?thesis using j a asym by blast
    next
      case False
      then have "before x a" using j a assms sorted_wrt_nth_less [OF assms(1), of j "n - 1"] by simp
      then show ?thesis by (rule asym)
    qed
  qed
  then have "filter (before a) (take n xs) = []" by (simp add: filter_empty_conv)
  moreover have "filter (before a) (drop n xs) = drop n xs" using split(2) a(1) by (simp add: filter_id_conv)
  ultimately have "filter (before a) (take n xs @ drop n xs) = drop n xs" by (simp only: filter_append append_Nil)
  then show ?thesis by (simp add: a_def)
qed

end

definition entry_before :: "DriveEntry \<Rightarrow> DriveEntry \<Rightarrow> bool" where
  "entry_before x y \<longleftrightarrow> en_Kind x < en_Kind y \<or> (en_Kind x = en_Kind y \<and> (en_sortAt y, en_sortID y) < (en_sortAt x, en_sortID x))"

interpretation entries: keyset entry_before
  by unfold_locales (auto simp: entry_before_def)

lemma length_entry_order [simp]: "length (entry_order es) = length es"
  by (simp add: entry_order_def)

lemma distinct_entry_order [simp]: "distinct (entry_order es) = distinct es"
  by (simp add: entry_order_def)

lemma set_entry_order [simp]: "set (entry_order es) = set es"
  by (simp add: entry_order_def)

lemma stable_sort_pairs:
  assumes "sorted_wrt R xs"
  shows "sorted_wrt (\<lambda>x y. k x < k y \<or> (k x = k y \<and> R x y)) (sort_key k xs)"
proof -
  have "sorted_wrt (\<lambda>x y. k x < k y \<or> (k x = k y \<and> R x y)) (insort_key k a ys)"
    if "sorted_wrt (\<lambda>x y. k x < k y \<or> (k x = k y \<and> R x y)) ys" "\<forall>y \<in> set ys. R a y" for a ys
    using that by (induction ys) (auto simp: set_insort_key)
  then show ?thesis using assms by (induction xs) auto
qed

text \<open>Rows with different positions are listed in the order, each once.\<close>

lemma entry_order_sorted:
  assumes "distinct (map (\<lambda>e. (en_sortAt e, en_sortID e)) es)"
  shows "sorted_wrt entry_before (entry_order es)"
proof -
  define p where "p = (\<lambda>e :: DriveEntry. (en_sortAt e, en_sortID e))"
  have "sorted_wrt (<) (map p (sort_key p es))"
    using assms by (simp add: strict_sorted_iff p_def distinct_map inj_on_def)
  then have "sorted_wrt (\<lambda>x y. p y < p x) (rev (sort_key p es))" by (simp add: sorted_wrt_rev sorted_wrt_map)
  from stable_sort_pairs [OF this, of en_Kind] show ?thesis
    unfolding entry_order_def p_def [symmetric]
    by (rule sorted_wrt_mono_rel [rotated]) (simp add: entry_before_def p_def)
qed

section \<open>Reading a folder page by page\<close>

text \<open>The times a cursor carries faithfully, and the rows a listing can return.\<close>

definition pageable :: "int \<Rightarrow> DriveEntry \<Rightarrow> bool" where
  "pageable off e \<longleftrightarrow>
     scans e \<and> en_sortAt e mod 1000 = 0 \<and> en_sortAt e \<noteq> zero_time \<and>
     0 \<le> fst (civil_date ((en_sortAt e div 1000000000 + off) div 86400)) \<and>
     fst (civil_date ((en_sortAt e div 1000000000 + off) div 86400)) \<le> 9999"

definition cursor_page :: "PaginationParams \<Rightarrow> DriveEntry \<Rightarrow> PaginationParams" where
  "cursor_page page e = page\<lparr>pp_Cursor := \<lparr>cu_CreatedAt = en_sortAt e, cu_ID = en_Kind e @ '':'' @ en_sortID e\<rparr>\<rparr>"

lemma DecodeCursor_encode:
  assumes "60 dvd off" "\<bar>off\<bar> \<le> 86400" "pageable off e"
  shows "DecodeCursor (encodeEntryCursor off e) = Some \<lparr>cu_CreatedAt = en_sortAt e, cu_ID = en_Kind e @ '':'' @ en_sortID e\<rparr>"
  using Cut_first [OF no_bar_in_time, of off "en_sortAt e" "en_Kind e @ '':'' @ en_sortID e"] assms
    RFC3339Nano_round_trip [of off "en_sortAt e"]
  by (simp add: DecodeCursor_def EncodeCursor_def encodeEntryCursor_def pageable_def)

lemma RFC3339Nano_nonempty: "RFC3339Nano_at off t \<noteq> []"
  by (simp add: RFC3339Nano_at_def Let_def)

lemma encodeEntryCursor_nonempty: "encodeEntryCursor off e \<noteq> ''''"
proof
  assume "encodeEntryCursor off e = ''''"
  then have "base64_url '''' = Some (RFC3339Nano_at off (en_sortAt e) @ ''|'' @ en_Kind e @ '':'' @ en_sortID e)"
    unfolding encodeEntryCursor_def EncodeCursor_def by (metis base64_url_round_trip append.assoc)
  moreover have "base64_url '''' = Some ''''" by code_simp
  ultimately show False by simp
qed

lemma ParsePagination_entry:
  assumes "60 dvd off" "\<bar>off\<bar> \<le> 86400" "pageable off e" "ParsePagination '''' limit = Inr page"
  shows "ParsePagination (encodeEntryCursor off e) limit = Inr (cursor_page page e)"
  using assms(4) DecodeCursor_encode [OF assms(1-3)] encodeEntryCursor_nonempty [of off e]
  by (auto simp: ParsePagination_def bindR_Inr_iff cursor_page_def split: if_splits option.splits)

lemma listing_kind: "e \<in> set (listing db d keys) \<Longrightarrow> en_Kind e = ''folder'' \<or> en_Kind e = ''file''"
  by (auto simp: listing_def folder_entry_def file_entry_def EntryFolder_def EntryFile_def)

lemma after_entry_page:
  assumes "pageable off e" "en_Kind e = ''folder'' \<or> en_Kind e = ''file''"
  shows "after_entry (nullableTime (cu_CreatedAt (pp_Cursor (cursor_page page e)))) (cursor_id (cursor_page page e))
           (cursorKind (cursor_page page e)) = entry_before e"
proof -
  have time: "pg_time (en_sortAt e) = en_sortAt e" "en_sortAt e \<noteq> zero_time"
    using assms(1) by (auto simp: pageable_def pg_time_def)
  have "CHR '':'' \<notin> set (en_Kind e)" using assms(2) by auto
  then have "Cut CHR '':'' (en_Kind e @ '':'' @ en_sortID e) = (en_Kind e, en_sortID e)" using Cut_first by simp
  then show ?thesis
    using time by (auto simp: fun_eq_iff after_entry_def nullableTime_def cursor_id_def cursorKind_def cursor_page_def IsZero_def entry_before_def)
qed

text \<open>One request, when the rows left after its cursor are known.\<close>

lemma Children_page:
  assumes "pg_uuid E i = Some d" "\<not> db_fault E ''list folder children''" "keys \<noteq> []" "1 \<le> pp_Limit page"
    and "filter (after_entry (nullableTime (if IsZero (pp_Cursor page) then zero_time else cu_CreatedAt (pp_Cursor page)))
           (cursor_id page) (cursorKind page)) (listing db d keys) = rest"
    and "\<forall>e \<in> set rest. scans e" and "l = nat (pp_Limit page)"
  shows "Children E off db i keys page =
           Inr (take l rest, if length rest > l then encodeEntryCursor off (last (take l rest)) else '''', length rest > l)"
proof -
  have l: "nat (pp_Limit page + 1) = Suc l" "pp_Limit page = int l" "0 < l" using assms(4,7) by auto
  have "list_all scans (take (Suc l) rest)" using assms(6) by (auto simp: list_all_iff dest: in_set_takeD)
  moreover have "rest = [] \<longrightarrow> \<not> length rest > l" by simp
  ultimately show ?thesis
    using assms(1-3) l
    by (auto simp: Children_def Let_def dr_uuid_def dr_sql_def bindR_def assms(5) min_def)
qed

lemma drop_last_take:
  assumes "0 < l" "l < length (drop m xs)"
  shows "last (take l (drop m xs)) = last (take (m + l) xs)" "m + l < length xs"
proof -
  have "take (m + l) xs = take m xs @ take l (drop m xs)" by (simp add: take_add)
  then show "last (take l (drop m xs)) = last (take (m + l) xs)" using assms by auto
  show "m + l < length xs" using assms by simp
qed

lemma follow_from:
  assumes env: "pg_uuid E i = Some d" "\<not> db_fault E ''list folder children''" "keys \<noteq> []" "60 dvd off" "\<bar>off\<bar> \<le> 86400"
    and parsed: "ParsePagination '''' limit = Inr page"
    and ok: "\<forall>e \<in> set (listing db d keys). pageable off e"
    and order: "sorted_wrt entry_before (listing db d keys)"
    and cur: "0 < m" "m \<le> length (listing db d keys)" "cursor = encodeEntryCursor off (last (take m (listing db d keys)))"
    and fuel: "length (listing db d keys) - m < n"
  shows "follow_pages E off db i keys limit n cursor = Some (drop m (listing db d keys))"
  using cur fuel
proof (induction n arbitrary: m cursor)
  case (Suc n)
  define L where "L = listing db d keys"
  define l where "l = nat (pp_Limit page)"
  define e where "e = last (take m L)"
  have lim: "1 \<le> pp_Limit page" "0 < l" using ParsePagination_limit [OF parsed] by (auto simp: l_def)
  have ne: "take m L \<noteq> []" using Suc.prems by (auto simp: L_def)
  then have "e \<in> set L" unfolding e_def by (metis in_set_takeD last_in_set)
  then have e: "pageable off e" "en_Kind e = ''folder'' \<or> en_Kind e = ''file''"
    using ok listing_kind unfolding L_def by blast+
  have parse: "ParsePagination cursor limit = Inr (cursor_page page e)"
    using ParsePagination_entry [OF env(4,5) e(1) parsed] Suc.prems(3) by (simp add: e_def L_def)
  have rest: "filter (entry_before e) L = drop m L"
    unfolding e_def using entries.rest_after_last [of L m] order Suc.prems by (simp add: L_def)
  have zero: "\<not> IsZero (pp_Cursor (cursor_page page e))" using e(1) by (simp add: pageable_def cursor_page_def IsZero_def)
  have kids: "Children E off db i keys (cursor_page page e) =
      Inr (take l (drop m L), if length (drop m L) > l then encodeEntryCursor off (last (take l (drop m L))) else '''', length (drop m L) > l)"
  proof (rule Children_page [OF env(1-3)])
    show "1 \<le> pp_Limit (cursor_page page e)" "l = nat (pp_Limit (cursor_page page e))" using lim by (simp_all add: cursor_page_def l_def)
    show "\<forall>e \<in> set (drop m L). scans e" using ok by (auto simp: L_def pageable_def dest: in_set_dropD)
  qed (use zero rest after_entry_page [OF e] in \<open>simp add: L_def\<close>)
  show ?case
  proof (cases "l < length (drop m L)")
    case True
    note step = drop_last_take [OF lim(2) True]
    have "follow_pages E off db i keys limit n (encodeEntryCursor off (last (take (m + l) L))) = Some (drop (m + l) L)"
      unfolding L_def using Suc.prems lim step(2) by (intro Suc.IH) (auto simp: L_def)
    then show ?thesis
      using parse kids True step(1) append_take_drop_id [of l "drop m L"] by (simp add: L_def [symmetric] add.commute)
  next
    case False
    then show ?thesis using parse kids by (simp add: L_def [symmetric])
  qed
qed simp

text \<open>
  C36. Reading a folder page by page misses nothing and repeats nothing. Suppose every row shown can be returned and paged over
  (\<open>pageable\<close>): a folder still has its creator (one whose creator was deleted makes the listing fail, \<open>orphan_folder_blocks_listing\<close>), and
  its time is in whole microseconds, in the years 0 to 9999 and not the zero time; no two rows share a time and an id; the caller has a
  key, and the query does not fail. Then a caller who follows the cursors from the first page, with any page size the API accepts,
  collects exactly the visible, live contents of the folder, and needs at most one request more than there are rows. The order is the
  one of the query, files before folders and the newest first within each kind, where the comment on \<open>Children\<close> says folders first.
\<close>

theorem pages_cover_the_folder:
  assumes "pg_uuid E i = Some d" "\<not> db_fault E ''list folder children''" "keys \<noteq> []" "60 dvd off" "\<bar>off\<bar> \<le> 86400"
    and "ParsePagination '''' limit = Inr page"
    and "\<forall>e \<in> set (listing db d keys). pageable off e"
    and "distinct (map (\<lambda>e. (en_sortAt e, en_sortID e))
           (map folder_entry (visible_folders db d keys) @ map file_entry (visible_files db d keys)))"
    and "length (listing db d keys) < n"
  shows "follow_pages E off db i keys limit n '''' = Some (listing db d keys) \<and>
    distinct (listing db d keys) \<and> sorted_wrt entry_before (listing db d keys) \<and>
    set (listing db d keys) = folder_entry ` set (visible_folders db d keys) \<union> file_entry ` set (visible_files db d keys)"
proof -
  define L where "L = listing db d keys"
  define l where "l = nat (pp_Limit page)"
  have lim: "1 \<le> pp_Limit page" "0 < l" using ParsePagination_limit [OF assms(6)] by (auto simp: l_def)
  have order: "sorted_wrt entry_before (listing db d keys)"
    unfolding listing_def by (rule entry_order_sorted [OF assms(8)])
  have "IsZero (pp_Cursor page)"
    using assms(6) by (auto simp: ParsePagination_def bindR_Inr_iff zero_cursor_def IsZero_def)
  then have kids: "Children E off db i keys page =
      Inr (take l L, if length L > l then encodeEntryCursor off (last (take l L)) else '''', length L > l)"
    using assms(7) by (intro Children_page [OF assms(1-3) lim(1)])
      (auto simp: nullableTime_def after_entry_def L_def l_def pageable_def filter_True)
  obtain m where n: "n = Suc m" using assms(9) by (cases n) auto
  have "follow_pages E off db i keys limit n '''' = Some L"
  proof (cases "l < length L")
    case True
    have "follow_pages E off db i keys limit m (encodeEntryCursor off (last (take l L))) = Some (drop l L)"
      unfolding L_def using True lim assms(9) n by (intro follow_from [OF assms(1-7) order]) (auto simp: L_def)
    then show ?thesis using kids True assms(6) n by simp
  next
    case False
    then show ?thesis using kids assms(6) n by simp
  qed
  moreover have "distinct (map folder_entry (visible_folders db d keys) @ map file_entry (visible_files db d keys))"
    using assms(8) unfolding distinct_map by blast
  ultimately show ?thesis using order by (simp add: L_def listing_def)
qed

section \<open>A concrete Drive\<close>

definition drive_folder :: "char \<Rightarrow> string option \<Rightarrow> bool \<Rightarrow> Folder" where
  "drive_folder c p is_root =
     \<lparr>fo_id = uid c, fo_workspace = uid CHR ''a'', fo_parent = p, fo_name = [c], fo_root = is_root, fo_created_by = Some (uid CHR ''2''),
      fo_trashed_at = None, fo_trashed_by = None, fo_purge_after = None, fo_created_at = 1709210096500000000\<rparr>"

definition drive_file :: "char \<Rightarrow> string \<Rightarrow> int \<Rightarrow> File" where
  "drive_file c d sz =
     \<lparr>fi_id = uid c, fi_workspace = uid CHR ''a'', fi_user = uid CHR ''1'', fi_folder = Some d, fi_message = None,
      fi_mail_message = None, fi_name = [c], fi_type = ''file'', fi_content_type = ''text/plain'', fi_size = sz, fi_version = 1,
      fi_thumbnail = None, fi_storage_key = [c, CHR ''1''], fi_updated_by = Some (uid CHR ''1''), fi_trashed_at = None,
      fi_trashed_by = None, fi_purge_after = None, fi_created_at = 1709210096600000000\<rparr>"

definition drive_version :: "char \<Rightarrow> int \<Rightarrow> int \<Rightarrow> Version" where
  "drive_version c n sz =
     \<lparr>fv_file = uid c, fv_version = n, fv_key = [c, CHR ''0''], fv_size = sz, fv_content_type = ''text/plain'',
      fv_created_by = None, fv_created_at = 1709210096600000000\<rparr>"

text \<open>A root 9 that holds the folder b and the file f; b holds the folder c and the file 7.\<close>

definition sample_drive :: drive_db where
  "sample_drive =
     (let w = uid CHR ''a''; r = uid CHR ''9''; top = ''/workspace:'' @ w @ ''/''; p = top @ ''folder:'' @ r @ ''/'';
          b = p @ ''folder:'' @ uid CHR ''b'' @ ''/''; obj = (\<lambda>t i q. \<lparr>ao_type = t, ao_id = i, ao_workspace = w, ao_path = q\<rparr>);
          fs = [drive_file CHR ''f'' r 10, drive_file CHR ''7'' (uid CHR ''b'') 5];
          key = (\<lambda>t c k. \<lparr>ak_type = t, ak_id = uid c, ak_key = k\<rparr>); wk = ''w-'' @ w;
          acl = sample_db\<lparr>files := map file_columns fs, channels := [],
            acl_object := [obj ''workspace'' w top, obj ''folder'' r p, obj ''folder'' (uid CHR ''b'') b,
              obj ''folder'' (uid CHR ''c'') (b @ ''folder:'' @ uid CHR ''c'' @ ''/''),
              obj ''file'' (uid CHR ''f'') (p @ ''file:'' @ uid CHR ''f'' @ ''/''), obj ''file'' (uid CHR ''7'') (b @ ''file:'' @ uid CHR ''7'' @ ''/'')],
            acl_grant := [\<lparr>ag_otype = ''folder'', ag_oid = r, ag_stype = ''workspace'', ag_sid = w,
              ag_capability = ''admin'', ag_granted_by = Some (uid CHR ''2''), ag_created_at = 0\<rparr>],
            acl_key := [key ''workspace'' CHR ''a'' wk, key ''folder'' CHR ''b'' (''f-'' @ r), key ''folder'' CHR ''c'' (''f-'' @ uid CHR ''b''),
              key ''file'' CHR ''f'' (''f-'' @ r), key ''file'' CHR ''7'' (''f-'' @ uid CHR ''b''), key ''folder'' CHR ''9'' wk,
              key ''folder'' CHR ''b'' wk, key ''folder'' CHR ''c'' wk, key ''file'' CHR ''f'' wk, key ''file'' CHR ''7'' wk]\<rparr>
      in \<lparr>dv_collab = sample_collab\<lparr>cd_acl := acl, collab_documents := [], collab_updates := [], collab_snapshots := []\<rparr>,
          drive_folders = [drive_folder CHR ''9'' None True, drive_folder CHR ''b'' (Some r) False, drive_folder CHR ''c'' (Some (uid CHR ''b'')) False],
          drive_files = fs, file_versions = [drive_version CHR ''f'' 1 10, drive_version CHR ''7'' 1 5],
          workspace_storage = [(w, 15)], storage_quota = [(w, 20)]\<rparr>)"


theorem pages_cover_the_folder_witness:
  "follow_pages sample_env 32400 sample_drive (uid CHR ''9'') [''w-'' @ uid CHR ''a''] ''1'' 3 '''' =
     Some [file_entry (drive_file CHR ''f'' (uid CHR ''9'') 10), folder_entry (drive_folder CHR ''b'' (Some (uid CHR ''9'')) False)]"
proof -
  let ?keys = "[''w-'' @ uid CHR ''a'']"
  have page: "ParsePagination '''' ''1'' = Inr \<lparr>pp_Cursor = zero_cursor, pp_Limit = 1\<rparr>" by code_simp
  have l: "listing sample_drive (uid CHR ''9'') ?keys =
    [file_entry (drive_file CHR ''f'' (uid CHR ''9'') 10), folder_entry (drive_folder CHR ''b'' (Some (uid CHR ''9'')) False)]" by code_simp
  have ok: "\<forall>e \<in> set (listing sample_drive (uid CHR ''9'') ?keys). pageable 32400 e" unfolding l by code_simp
  have "distinct (map (\<lambda>e. (en_sortAt e, en_sortID e)) (map folder_entry (visible_folders sample_drive (uid CHR ''9'') ?keys) @
    map file_entry (visible_files sample_drive (uid CHR ''9'') ?keys)))" by code_simp
  moreover have "pg_uuid sample_env (uid CHR ''9'') = Some (uid CHR ''9'')" "\<not> db_fault sample_env ''list folder children''" by code_simp+
  ultimately show ?thesis
    using pages_cover_the_folder [OF _ _ _ _ _ page ok, of sample_env "uid CHR ''9''" 3] unfolding l by simp
qed

text \<open>
  Two consequences of the order and of the scan. \<open>file\<close> precedes \<open>folder\<close> in the ascending order of the kinds, so that the files of a
  folder are listed before its folders; and one folder whose creator is gone makes the listing of its parent fail for everybody.
\<close>

lemma files_listed_first:
  "map en_Kind (listing sample_drive (uid CHR ''9'') [''w-'' @ uid CHR ''a'']) = [''file'', ''folder'']"
  by code_simp

lemma orphan_folder_blocks_listing:
  "Children sample_env 0
     (sample_drive\<lparr>drive_folders := map (\<lambda>f. f\<lparr>fo_created_by := None\<rparr>) (drive_folders sample_drive)\<rparr>)
     (uid CHR ''9'') [''w-'' @ uid CHR ''a''] \<lparr>pp_Cursor = zero_cursor, pp_Limit = 50\<rparr> = Inl (DriveDb ''scan folder child'')"
  by code_simp

end
