(* ===== verification/Drive_Invariant.thy ===== *)
theory Drive_Invariant
  imports Drive_List
begin

text \<open>
  The storage ledger: what every operation of Drive does to the bytes charged to a workspace, and that they stay the sum of the sizes of
  the stored versions (the invariant I1 of \<open>backend/internal/quota/quota.go\<close>). An operation that does not touch the ledger is recognised
  by the part of the tables the invariant reads.
\<close>

section \<open>The ledger\<close>

definition ledger :: "drive_db \<Rightarrow> (string \<times> string) list \<times> Version list \<times> (string \<times> int) list \<times> (string \<times> int) list" where
  "ledger db = (map (\<lambda>f. (fi_id f, fi_workspace f)) (drive_files db), file_versions db, workspace_storage db, storage_quota db)"

definition file_bytes :: "Version list \<Rightarrow> string \<Rightarrow> int" where
  "file_bytes vs i = sum_list (map fv_size (filter (\<lambda>v. fv_file v = i) vs))"

definition workspace_bytes :: "drive_db \<Rightarrow> string \<Rightarrow> int" where
  "workspace_bytes db w = version_bytes db (\<lambda>f. fi_workspace f = w)"

definition rows_ok :: "drive_db \<Rightarrow> bool" where
  "rows_ok db \<longleftrightarrow>
     distinct (map fi_id (drive_files db)) \<and> list_all uuid_shape (map fi_workspace (drive_files db)) \<and>
     (\<forall>v \<in> set (file_versions db). fv_file v \<in> set (map fi_id (drive_files db)) \<and> 0 \<le> fv_size v)"

definition ledger_exact :: "drive_db \<Rightarrow> bool" where
  "ledger_exact db \<longleftrightarrow> (\<forall>w. bytes_used db w = workspace_bytes db w)"

definition ledger_inv :: "drive_db \<Rightarrow> bool" where
  "ledger_inv db \<longleftrightarrow> rows_ok db \<and> ledger_exact db"

lemma version_bytes_eq: "version_bytes db P = sum_list (map (\<lambda>f. file_bytes (file_versions db) (fi_id f)) (filter P (drive_files db)))"
proof -
  have inner: "[fv_size v. v \<leftarrow> vs, fv_file v = i] = map fv_size (filter (\<lambda>v. fv_file v = i) vs)" for vs :: "Version list" and i
    by (induction vs) auto
  have "sum_list [fv_size v. f \<leftarrow> fs, P f, v \<leftarrow> vs, fv_file v = fi_id f] = sum_list (map (\<lambda>f. file_bytes vs (fi_id f)) (filter P fs))"
    for fs and vs :: "Version list"
    by (induction fs) (auto simp: file_bytes_def inner)
  then show ?thesis by (simp add: version_bytes_def)
qed

lemma workspace_bytes_ledger:
  "workspace_bytes db w = (let (fs, vs, _) = ledger db in sum_list (map (\<lambda>(i, _). file_bytes vs i) (filter (\<lambda>(_, x). x = w) fs)))"
  by (simp add: workspace_bytes_def version_bytes_eq ledger_def filter_map comp_def)

lemma ledger_inv_cong: "ledger db' = ledger db \<Longrightarrow> ledger_inv db' = ledger_inv db"
proof -
  assume eq: "ledger db' = ledger db"
  then have cols: "map (\<lambda>f. (fi_id f, fi_workspace f)) (drive_files db') = map (\<lambda>f. (fi_id f, fi_workspace f)) (drive_files db)"
    "file_versions db' = file_versions db" "workspace_storage db' = workspace_storage db" by (simp_all add: ledger_def)
  from arg_cong [OF cols(1), of "map fst"] arg_cong [OF cols(1), of "map snd"]
  have lists: "map fi_id (drive_files db') = map fi_id (drive_files db)" "map fi_workspace (drive_files db') = map fi_workspace (drive_files db)"
    by (simp_all add: comp_def)
  show ?thesis
    unfolding ledger_inv_def rows_ok_def ledger_exact_def bytes_used_def workspace_bytes_ledger eq lists cols(2,3) by (rule refl)
qed

lemma file_bytes_nonneg: "\<forall>v \<in> set vs. 0 \<le> fv_size v \<Longrightarrow> 0 \<le> file_bytes vs i"
  by (auto simp: file_bytes_def intro!: sum_list_nonneg)

lemma file_bytes_append [simp]: "file_bytes (vs @ us) i = file_bytes vs i + file_bytes us i"
  by (simp add: file_bytes_def)

lemma file_bytes_single [simp]: "file_bytes [v] i = (if fv_file v = i then fv_size v else 0)"
  by (simp add: file_bytes_def)

lemma file_bytes_none: "\<forall>v \<in> set vs. fv_file v \<noteq> i \<Longrightarrow> file_bytes vs i = 0"
  by (simp add: file_bytes_def)

section \<open>Charging and refunding\<close>

lemma bytes_used_put: "bytes_used (db\<lparr>workspace_storage := alist_put w n m\<rparr>) x = (if x = w then n else bytes_used (db\<lparr>workspace_storage := m\<rparr>) x)"
  by (simp add: bytes_used_def)

lemma same_storage [simp]: "db\<lparr>workspace_storage := workspace_storage db\<rparr> = db"
  by simp

text \<open>A charge adds exactly what was asked, to that workspace only, and never above a quota that is set.\<close>

lemma ChargeTx_charges:
  assumes "ChargeTx E workspaceID delta db = Inr (db', tot)" "\<And>w. 0 \<le> bytes_used db w"
  shows "\<exists>w. pg_uuid E workspaceID = Some w \<and> 0 \<le> delta \<and> tot = bytes_used db w + delta \<and>
    (\<forall>x. bytes_used db' x = bytes_used db x + (if x = w then delta else 0)) \<and>
    (0 < delta \<longrightarrow> quota_of db w = 0 \<or> tot \<le> quota_of db w) \<and>
    (\<exists>m. db' = db\<lparr>workspace_storage := m\<rparr>)"
proof (cases "delta = 0")
  case True
  then have "\<exists>w. pg_uuid E workspaceID = Some w \<and> tot = bytes_used db w \<and> db' = db"
    using assms(1) by (auto simp: ChargeTx_def Read_usage_def dr_uuid_def bindR_Inr_iff split: option.splits if_splits)
  moreover have "\<exists>m. db = db\<lparr>workspace_storage := m\<rparr>" by (rule exI [of _ "workspace_storage db"]) simp
  ultimately show ?thesis using True by auto
next
  case False
  then have pos: "0 < delta" using assms(1) by (auto simp: ChargeTx_def split: if_splits)
  then obtain w where w: "pg_uuid E workspaceID = Some w" using assms(1) by (auto simp: ChargeTx_def dr_uuid_def split: option.splits)
  have "db' = db\<lparr>workspace_storage := alist_put w (bytes_used db w + delta) (workspace_storage db)\<rparr>"
    "tot = bytes_used db w + delta" "quota_of db w = 0 \<or> tot \<le> quota_of db w"
    using assms(1) pos w
    by (auto simp: ChargeTx_def dr_uuid_def dr_sql_def bytes_used_def bindR_def split: if_splits option.splits)
  then show ?thesis using w pos by (intro exI [of _ w]) (auto simp: bytes_used_put)
qed

lemma bytes_used_refund:
  "bytes_used (db\<lparr>workspace_storage := refund owed (workspace_storage db)\<rparr>) w =
     (if map_of (workspace_storage db) w = None then 0 else max 0 (bytes_used db w - owed w))"
proof -
  have "map_of (refund owed m) w = map_option (\<lambda>n. max 0 (n - owed w)) (map_of m w)" for m
    by (induction m) (auto simp: refund_def)
  then show ?thesis by (auto simp: bytes_used_def split: option.splits)
qed

lemma bytes_used_refund_exact:
  assumes "0 \<le> owed w" "owed w \<le> bytes_used db w"
  shows "bytes_used (db\<lparr>workspace_storage := refund owed (workspace_storage db)\<rparr>) w = bytes_used db w - owed w"
  using assms by (auto simp: bytes_used_refund) (auto simp: bytes_used_def)

lemma ledger_inv_nonneg: "ledger_inv db \<Longrightarrow> 0 \<le> bytes_used db w"
  by (auto simp: ledger_inv_def ledger_exact_def workspace_bytes_def version_bytes_eq rows_ok_def intro!: sum_list_nonneg file_bytes_nonneg)

section \<open>Operations that leave the ledger alone\<close>

lemma ledger_put_acl [simp]: "ledger (put_acl a db) = ledger db"
  by (simp add: ledger_def put_acl_def)

lemma ledger_set_folder [simp]: "ledger (set_folder P g db) = ledger db"
  by (simp add: ledger_def set_folder_def)

lemma ledger_collab [simp]: "ledger (db\<lparr>dv_collab := c\<rparr>) = ledger db"
  by (simp add: ledger_def)

lemma ledger_folders [simp]: "ledger (db\<lparr>drive_folders := fs\<rparr>) = ledger db"
  by (simp add: ledger_def)

lemma ledger_set_file:
  "(\<And>f. fi_id (g f) = fi_id f) \<Longrightarrow> (\<And>f. fi_workspace (g f) = fi_workspace f) \<Longrightarrow> ledger (set_file P g db) = ledger db"
  by (auto simp: ledger_def set_file_def)

lemma ledger_dr_authz: "dr_authz db f = Inr db' \<Longrightarrow> ledger db' = ledger db"
  by (auto simp: dr_authz_def split: sum.splits)

lemma ledger_dr_sql: "dr_sql E l v = Inr x \<longleftrightarrow> \<not> db_fault E l \<and> x = v"
  by (auto simp: dr_sql_def)

lemma WithTx_cases:
  assumes "WithTx E h db f = (r, db')"
  obtains "db' = db" | x where "f db = Inr (db', x)" "r = Inr x"
  using assms by (auto simp: WithTx_def split: if_splits sum.splits prod.splits)

lemmas tx_simps = bindR_Inr_iff ledger_dr_sql dr_uuid_Inr

text \<open>
  What a transaction's body yields when it succeeds. The rules follow its text: a bind, the reading of an identifier, a condition, a match.
\<close>

definition yields :: "('b \<Rightarrow> bool) \<Rightarrow> 'a + 'b \<Rightarrow> bool" where
  "yields Q r \<longleftrightarrow> (\<forall>x. r = Inr x \<longrightarrow> Q x)"

lemma yieldsD: "yields Q r \<Longrightarrow> r = Inr x \<Longrightarrow> Q x"
  by (simp add: yields_def)

lemma yields_Inl: "yields Q (Inl e)" and yields_Inr: "Q x \<Longrightarrow> yields Q (Inr x)"
  by (simp_all add: yields_def)

lemma yields_bind: "(\<And>v. r = Inr v \<Longrightarrow> yields Q (k v)) \<Longrightarrow> yields Q (bindR r k)"
  by (auto simp: yields_def bindR_Inr_iff)

lemma yields_uuid: "(\<And>u. pg_uuid E s = Some u \<Longrightarrow> yields Q (k u)) \<Longrightarrow> yields Q (dr_uuid E l s k)"
  by (auto simp: yields_def dr_uuid_Inr)

lemma yields_uuid_opt: "(\<And>u. yields Q (k u)) \<Longrightarrow> yields Q (dr_uuid_opt E l s k)"
  by (auto simp: yields_def dest: dr_uuid_opt_Inr)

lemma yields_if: "(b \<Longrightarrow> yields Q r) \<Longrightarrow> (\<not> b \<Longrightarrow> yields Q s) \<Longrightarrow> yields Q (if b then r else s)"
  by simp

lemma yields_option: "(o1 = None \<Longrightarrow> yields Q r) \<Longrightarrow> (\<And>x. o1 = Some x \<Longrightarrow> yields Q (k x)) \<Longrightarrow> yields Q (case o1 of None \<Rightarrow> r | Some x \<Rightarrow> k x)"
  by (cases o1) auto

lemma yields_sum: "(\<And>e. s = Inl e \<Longrightarrow> yields Q (h e)) \<Longrightarrow> (\<And>x. s = Inr x \<Longrightarrow> yields Q (k x)) \<Longrightarrow> yields Q (case s of Inl e \<Rightarrow> h e | Inr x \<Rightarrow> k x)"
  by (cases s) auto

lemma yields_prod: "(\<And>a b. p = (a, b) \<Longrightarrow> yields Q (k a b)) \<Longrightarrow> yields Q (case p of (a, b) \<Rightarrow> k a b)"
  by (cases p) auto

lemma yields_let: "(\<And>v. v = t \<Longrightarrow> yields Q (k v)) \<Longrightarrow> yields Q (let v = t in k v)"
  by simp

lemma yields_sql: "Q v \<Longrightarrow> yields Q (dr_sql E l v)"
  by (auto simp: yields_def dr_sql_def)

lemmas yields_rules = yields_Inl yields_sql yields_bind yields_uuid yields_uuid_opt yields_if yields_option yields_sum yields_prod yields_let yields_Inr

abbreviation keeps :: "drive_db \<Rightarrow> 'a + drive_db \<times> 'b \<Rightarrow> bool" where
  "keeps db \<equiv> yields (\<lambda>r. ledger (fst r) = ledger db)"

text \<open>Every transaction on folders, names, places and trash.\<close>

lemma insert_folder_ledger: "insert_folder E l f db = Inr db' \<Longrightarrow> ledger db' = ledger db"
  by (auto simp: insert_folder_def tx_simps split: if_splits)

lemmas step_ledger = insert_folder_ledger ledger_dr_authz ledger_dr_sql [THEN iffD1]

lemma ensure_root_ledger: "keeps db (ensure_root_tx E i w a db)"
  unfolding ensure_root_tx_def by (intro yields_rules) (auto simp: ledger_dr_sql dest!: step_ledger)

lemma create_folder_ledger: "keeps db (create_folder_tx E i w p n a db)"
  unfolding create_folder_tx_def by (intro yields_rules) (auto simp: ledger_dr_sql dest!: step_ledger)

lemma move_folder_ledger: "keeps db (move_folder_tx E a i p db)"
  unfolding move_folder_tx_def by (intro yields_rules) (auto simp: ledger_dr_sql)

lemma move_file_ledger: "keeps db (move_file_tx E i d a db)"
  unfolding move_file_tx_def by (intro yields_rules) (auto simp: ledger_set_file dest!: ledger_dr_authz)

lemma trash_folder_ledger: "keeps db (trash_folder_tx E t i a db)"
  unfolding trash_folder_tx_def by (intro yields_rules) (auto simp: ledger_set_file)

lemma restore_file_ledger: "keeps db (restore_file_tx E i a db)"
  unfolding restore_file_tx_def by (intro yields_rules) (auto simp: ledger_dr_sql ledger_set_file dest!: ledger_dr_authz)

lemma restore_subtree_ledger [simp]: "ledger (restore_subtree path a db) = ledger db"
  by (simp add: restore_subtree_def ledger_set_file)

lemma restore_folder_ledger: "keeps db (restore_folder_tx E i a db)"
  unfolding restore_folder_tx_def
  by (intro yields_rules) (auto simp: ledger_dr_sql split: if_splits dest!: ledger_dr_authz)

lemma restore_version_ledger: "keeps db (restore_version_tx E f n a db)"
  unfolding restore_version_tx_def by (intro yields_rules) (auto simp: ledger_dr_sql set_head_def ledger_set_file)

lemma unregister_all_ledger: "unregister_all E ids db = Inr db' \<Longrightarrow> ledger db' = ledger db"
  by (induction ids arbitrary: db) (auto simp: bindR_Inr_iff dest!: ledger_dr_authz)

lemma purge_folders_ledger: "keeps db (purge_folders_tx E opts db)"
  unfolding purge_folders_tx_def by (intro yields_rules) (auto simp: ledger_dr_sql dest!: unregister_all_ledger)

text \<open>A transaction that keeps the ledger, committed or not.\<close>

lemma WithTx_ledger: "keeps db (f db) \<Longrightarrow> WithTx E h db f = (r, db') \<Longrightarrow> ledger db' = ledger db"
  by (erule WithTx_cases) (auto dest: yieldsD)

lemma purge_rounds_ledger: "purge_rounds E opts n res db = (r, db') \<Longrightarrow> ledger db' = ledger db"
proof (induction n arbitrary: res db)
  case (Suc n)
  obtain s db1 where tx: "WithTx E DriveDb db (purge_folders_tx E opts) = (s, db1)" by fastforce
  then have "ledger db1 = ledger db" by (rule WithTx_ledger [where f = "purge_folders_tx E opts", OF purge_folders_ledger])
  then show ?case using Suc tx by (auto split: sum.splits if_splits)
qed simp

section \<open>Operations that store or remove bytes\<close>

lemma ledger_invI:
  "rows_ok db \<Longrightarrow> (\<And>w. bytes_used db w = workspace_bytes db w) \<Longrightarrow> ledger_inv db"
  by (simp add: ledger_inv_def ledger_exact_def)

text \<open>A file that is added holds no bytes until its first version is.\<close>

lemma add_file_inv:
  assumes "rows_ok db" "fi_id f \<notin> set (map fi_id (drive_files db))" "uuid_shape (fi_workspace f)"
  shows "rows_ok (db\<lparr>drive_files := drive_files db @ [f]\<rparr>)"
    "workspace_bytes (db\<lparr>drive_files := drive_files db @ [f]\<rparr>) w = workspace_bytes db w"
proof -
  have "file_bytes (file_versions db) (fi_id f) = 0"
    using assms(1,2) unfolding rows_ok_def by (intro file_bytes_none) metis
  then show "workspace_bytes (db\<lparr>drive_files := drive_files db @ [f]\<rparr>) w = workspace_bytes db w"
    by (simp add: workspace_bytes_def version_bytes_eq)
  show "rows_ok (db\<lparr>drive_files := drive_files db @ [f]\<rparr>)" using assms by (auto simp: rows_ok_def)
qed

lemma sum_unique:
  fixes c :: int
  shows "distinct (map k xs) \<Longrightarrow> sum_list (map (\<lambda>x. if k x = a then c else 0) xs) = (if a \<in> set (map k xs) then c else 0)"
  by (induction xs) auto

lemma add_version_inv:
  assumes "rows_ok db" "f \<in> set (drive_files db)" "fv_file v = fi_id f" "0 \<le> fv_size v"
  shows "rows_ok (db\<lparr>file_versions := file_versions db @ [v]\<rparr>)"
    "workspace_bytes (db\<lparr>file_versions := file_versions db @ [v]\<rparr>) w =
       workspace_bytes db w + (if fi_workspace f = w then fv_size v else 0)"
proof -
  have dist: "distinct (map fi_id (drive_files db))" using assms(1) by (simp add: rows_ok_def)
  have "x = f" if "x \<in> set (drive_files db)" "fi_id x = fi_id f" for x
    using dist assms(2) that by (auto simp: distinct_map inj_on_def)
  then have mem: "fi_id f \<in> set (map fi_id (filter (\<lambda>x. fi_workspace x = w) (drive_files db))) \<longleftrightarrow> fi_workspace f = w"
    using assms(2) by auto
  have "distinct (map fi_id (filter (\<lambda>x. fi_workspace x = w) (drive_files db)))" using dist by (rule distinct_map_filter)
  note sum_unique [OF this, of "fi_id f" "fv_size v"]
  then show "workspace_bytes (db\<lparr>file_versions := file_versions db @ [v]\<rparr>) w =
       workspace_bytes db w + (if fi_workspace f = w then fv_size v else 0)"
    unfolding mem using assms(3) by (simp add: workspace_bytes_def version_bytes_eq sum_list_addf eq_commute [of "fi_id f"])
  show "rows_ok (db\<lparr>file_versions := file_versions db @ [v]\<rparr>)" using assms by (auto simp: rows_ok_def)
qed

text \<open>What Postgres prints of a uuid is canonical.\<close>

definition pg_prints :: "env \<Rightarrow> bool" where
  "pg_prints E \<longleftrightarrow> (\<forall>s u. pg_uuid E s = Some u \<longrightarrow> uuid_shape u)"

lemma rows_storage [simp]: "rows_ok (db\<lparr>workspace_storage := m\<rparr>) = rows_ok db"
  "workspace_bytes (db\<lparr>workspace_storage := m\<rparr>) w = workspace_bytes db w"
  by (simp_all add: rows_ok_def workspace_bytes_def version_bytes_eq)

lemma bytes_used_files [simp]: "bytes_used (db\<lparr>drive_files := fs\<rparr>) w = bytes_used db w"
  "bytes_used (db\<lparr>file_versions := vs\<rparr>) w = bytes_used db w"
  by (simp_all add: bytes_used_def)

lemma ledger_bytes_used: "ledger db' = ledger db \<Longrightarrow> bytes_used db' w = bytes_used db w"
  by (simp add: ledger_def bytes_used_def)

lemma ledger_quota: "ledger db' = ledger db \<Longrightarrow> storage_quota db' = storage_quota db"
  by (simp add: ledger_def)

lemma find_file_None: "find_file db i = None \<longleftrightarrow> i \<notin> set (map fi_id (drive_files db))"
  by (auto simp: find_file_def find_None_iff)

lemma find_file_Some: "find_file db i = Some f \<Longrightarrow> f \<in> set (drive_files db) \<and> fi_id f = i"
  by (auto simp: find_file_def find_Some_iff)

lemma insert_file_Inr:
  "insert_file E l f db = Inr db' \<Longrightarrow> find_file db (fi_id f) = None \<and> 0 \<le> fi_size f \<and> db' = db\<lparr>drive_files := drive_files db @ [f]\<rparr>"
  by (auto simp: insert_file_def ledger_dr_sql split: if_splits)

lemma insert_version_Inr:
  "insert_version E l v db = Inr db' \<Longrightarrow>
     find_file db (fv_file v) \<noteq> None \<and> 0 \<le> fv_size v \<and> db' = db\<lparr>file_versions := file_versions db @ [v]\<rparr>"
  by (auto simp: insert_version_def ledger_dr_sql split: if_splits)

text \<open>A version stored after its charge: the ledger is exact again.\<close>

lemma charged_version:
  assumes "rows_ok db" "f \<in> set (drive_files db)" "fv_file v = fi_id f" "0 \<le> fv_size v"
    and "\<And>x. bytes_used db x = workspace_bytes db x + (if x = fi_workspace f then fv_size v else 0)"
  shows "ledger_inv (db\<lparr>file_versions := file_versions db @ [v]\<rparr>)"
  using add_version_inv [OF assms(1-4)] assms(5) by (intro ledger_invI) auto

definition charged :: "drive_db \<Rightarrow> string \<Rightarrow> int \<Rightarrow> drive_db \<Rightarrow> bool" where
  "charged db w sz db' \<longleftrightarrow> storage_quota db' = storage_quota db \<and>
     (\<forall>x. bytes_used db' x = bytes_used db x + (if x = w then sz else 0)) \<and>
     (0 < sz \<longrightarrow> quota_of db w = 0 \<or> bytes_used db' w \<le> quota_of db w)"

lemma upload_inv:
  assumes "ledger_inv db" "pg_prints E"
  shows "yields (\<lambda>r. ledger_inv (fst r) \<and> (\<exists>w. pg_uuid E workspaceID = Some w \<and> charged db w sz (fst r)))
    (upload_tx E i workspaceID folderID name ct actor sz key db)"
  unfolding yields_def
proof (intro allI impI)
  fix r
  assume "upload_tx E i workspaceID folderID name ct actor sz key db = Inr r"
  then obtain db1 t w u d db2 db3 db4 where steps: "ChargeTx E workspaceID sz db = Inr (db1, t)" "pg_uuid E workspaceID = Some w"
      "insert_file E ''insert file'' (new_file E i w u d name ''file'' ct sz key) db1 = Inr db2"
      "insert_version E ''insert version'' (new_version E i 1 key sz ct u) db2 = Inr db3"
      "dr_authz db3 (\<lambda>a. MaterializeTx E a (FileObject i)) = Inr db4" "fst r = db4"
    unfolding upload_tx_def by (auto simp: tx_simps split: prod.splits)
  let ?f = "new_file E i w u d name ''file'' ct sz key" and ?v = "new_version E i 1 key sz ct u"
  obtain m where ch: "db1 = db\<lparr>workspace_storage := m\<rparr>" "charged db w sz db1" "0 \<le> sz"
    using ChargeTx_charges [OF steps(1) ledger_inv_nonneg [OF assms(1)]] steps(2) by (auto simp: charged_def)
  note f = insert_file_Inr [OF steps(3)] and v = insert_version_Inr [OF steps(4)]
  have rows: "rows_ok db1" using assms(1) ch(1) by (simp add: ledger_inv_def)
  have "fi_id ?f \<notin> set (map fi_id (drive_files db1))" "uuid_shape (fi_workspace ?f)"
    using f assms(2) steps(2) by (auto simp: find_file_None pg_prints_def new_file_def)
  note add = add_file_inv [OF rows this]
  have "ledger_inv db3" unfolding v [THEN conjunct2, THEN conjunct2]
  proof (rule charged_version [where f = ?f])
    show "bytes_used db2 x = workspace_bytes db2 x + (if x = fi_workspace ?f then fv_size ?v else 0)" for x
      using assms(1) ch f add(2) [of x] by (simp add: ledger_inv_def ledger_exact_def charged_def new_file_def new_version_def)
  qed (use f add ch(3) in \<open>simp_all add: new_file_def new_version_def\<close>)
  moreover have "bytes_used db3 x = bytes_used db1 x" "storage_quota db3 = storage_quota db1" for x using f v by simp_all
  moreover note same = ledger_dr_authz [OF steps(5)]
  ultimately show "ledger_inv (fst r) \<and> (\<exists>w. pg_uuid E workspaceID = Some w \<and> charged db w sz (fst r))"
    using steps(2,6) ch(2) ledger_inv_cong [OF same] ledger_bytes_used [OF same] ledger_quota [OF same] by (auto simp: charged_def)
qed

lemma replace_inv:
  assumes "ledger_inv db" "env_ok E" "find_file db (fi_id f) = Some g" "fi_workspace g = fi_workspace f"
  shows "yields (\<lambda>r. ledger_inv (fst r) \<and> charged db (fi_workspace f) sz (fst r)) (replace_tx E f ct actor sz key db)"
  unfolding yields_def
proof (intro allI impI)
  fix r
  assume "replace_tx E f ct actor sz key db = Inr r"
  then obtain db1 t u db2 n where steps: "ChargeTx E (fi_workspace f) sz db = Inr (db1, t)"
      "insert_version E ''insert version'' (new_version E (fi_id f) n key sz ct u) db1 = Inr db2"
      "fst r = set_head (fi_id f) key sz ct n u db2"
    unfolding replace_tx_def by (auto simp: tx_simps Let_def split: prod.splits if_splits)
  let ?v = "new_version E (fi_id f) n key sz ct u"
  have g: "g \<in> set (drive_files db)" "fi_id g = fi_id f" using find_file_Some [OF assms(3)] by simp_all
  then have "uuid_shape (fi_workspace f)"
    using assms(1,4) by (auto simp: ledger_inv_def rows_ok_def list_all_iff)
  then have w: "pg_uuid E (fi_workspace f) = Some (fi_workspace f)" using assms(2) by simp
  obtain m where ch: "db1 = db\<lparr>workspace_storage := m\<rparr>" "charged db (fi_workspace f) sz db1" "0 \<le> sz"
    using ChargeTx_charges [OF steps(1) ledger_inv_nonneg [OF assms(1)]] w by (auto simp: charged_def)
  note v = insert_version_Inr [OF steps(2)]
  have "ledger_inv db2" unfolding v [THEN conjunct2, THEN conjunct2]
    by (rule charged_version [where f = g])
      (use assms(1,4) g ch in \<open>auto simp: ledger_inv_def ledger_exact_def charged_def new_version_def\<close>)
  moreover have same: "ledger (fst r) = ledger db2" using steps(3) by (simp add: set_head_def ledger_set_file)
  moreover have "bytes_used (fst r) x = bytes_used db1 x" "storage_quota (fst r) = storage_quota db1" for x
    using v ledger_bytes_used [OF same, of x] ledger_quota [OF same] by simp_all
  ultimately show "ledger_inv (fst r) \<and> charged db (fi_workspace f) sz (fst r)"
    using ch(2) ledger_inv_cong [OF same] by (auto simp: charged_def)
qed

text \<open>Creating an object of a registered kind stores no bytes: its constructor only writes the collaboration tables.\<close>

definition kind_keeps :: "Kind \<Rightarrow> bool" where
  "kind_keeps k \<longleftrightarrow> (\<forall>mk req db db'. ki_New k = Some mk \<longrightarrow> mk req db = Inr db' \<longrightarrow> ledger db' = ledger db)"

lemma collab_kind_keeps: "kind_keeps (collab_kind E newDoc t title)" "kind_keeps file_kind"
  by (auto simp: kind_keeps_def collab_kind_def file_kind_def Let_def split: sum.splits)

lemma create_file_inv:
  assumes "ledger_inv db" "pg_prints E" "kind_keeps k" "ki_New k = Some mk"
  shows "yields (\<lambda>r. ledger_inv (fst r) \<and> (\<forall>w. bytes_used (fst r) w = bytes_used db w) \<and> storage_quota (fst r) = storage_quota db) (create_file_tx E i k mk w d name a db)"
  unfolding yields_def
proof (intro allI impI)
  fix r
  assume "create_file_tx E i k mk w d name a db = Inr r"
  then obtain w' u d' db1 db2 db3 req where steps: "pg_uuid E w = Some w'"
      "insert_file E ''create drive file'' (new_file E i w' u d' name (ki_Type k) (contentTypeFor k) 0 '''') db = Inr db1"
      "mk req db1 = Inr db2" "dr_authz db2 (\<lambda>a. MaterializeTx E a (FileObject i)) = Inr db3" "fst r = db3"
    unfolding create_file_tx_def tx_simps by (elim exE conjE) (rule that, assumption+, auto)
  let ?f = "new_file E i w' u d' name (ki_Type k) (contentTypeFor k) 0 ''''"
  note f = insert_file_Inr [OF steps(2)]
  have "fi_id ?f \<notin> set (map fi_id (drive_files db))" "uuid_shape (fi_workspace ?f)"
    using f assms(2) steps(1) by (auto simp: find_file_None pg_prints_def new_file_def)
  then have "ledger_inv db1"
    using add_file_inv [of db ?f] assms(1) f by (auto simp: ledger_inv_def ledger_exact_def)
  moreover have "ledger (fst r) = ledger db1"
    using steps(3-5) assms(3,4) ledger_dr_authz by (auto simp: kind_keeps_def)
  ultimately show "ledger_inv (fst r) \<and> (\<forall>w. bytes_used (fst r) w = bytes_used db w) \<and> storage_quota (fst r) = storage_quota db"
    using ledger_inv_cong [of "fst r" db1] ledger_bytes_used [of "fst r" db1] ledger_quota [of "fst r" db1] f by simp
qed

lemma file_bytes_other: "i \<notin> S \<Longrightarrow> file_bytes (filter (\<lambda>v. fv_file v \<notin> S) vs) i = file_bytes vs i"
  unfolding file_bytes_def by (rule arg_cong [where f = "\<lambda>xs. sum_list (map fv_size xs)"]) (auto intro: filter_cong)

lemma delete_files_bytes:
  "workspace_bytes (delete_files ids db) w =
     workspace_bytes db w - version_bytes db (\<lambda>f. fi_workspace f = w \<and> fi_id f \<in> set ids)"
proof -
  have "sum_list (map (\<lambda>f. file_bytes (filter (\<lambda>v. fv_file v \<notin> set ids) vs) (fi_id f)) (filter (\<lambda>f. fi_workspace f = w \<and> fi_id f \<notin> set ids) fs)) =
      sum_list (map (\<lambda>f. file_bytes vs (fi_id f)) (filter (\<lambda>f. fi_workspace f = w) fs)) -
      sum_list (map (\<lambda>f. file_bytes vs (fi_id f)) (filter (\<lambda>f. fi_workspace f = w \<and> fi_id f \<in> set ids) fs))" for fs and vs
    by (induction fs) (auto simp: file_bytes_other)
  then show ?thesis by (simp add: workspace_bytes_def version_bytes_eq delete_files_def conj_commute)
qed

lemma delete_files_rows: "rows_ok db \<Longrightarrow> rows_ok (delete_files ids db)"
  by (auto simp: rows_ok_def delete_files_def distinct_map inj_on_def list_all_iff image_iff) metis

lemma version_bytes_mono:
  assumes "rows_ok db" "\<And>f. P f \<Longrightarrow> Q f"
  shows "0 \<le> version_bytes db P" "version_bytes db P \<le> version_bytes db Q"
proof -
  have nn: "0 \<le> file_bytes (file_versions db) i" for i using assms(1) by (intro file_bytes_nonneg) (simp add: rows_ok_def)
  then show "0 \<le> version_bytes db P" by (auto simp: version_bytes_eq intro!: sum_list_nonneg)
  have "sum_list (map (\<lambda>f. file_bytes (file_versions db) (fi_id f)) (filter P fs)) \<le>
      sum_list (map (\<lambda>f. file_bytes (file_versions db) (fi_id f)) (filter Q fs))" for fs
  proof (induction fs)
    case (Cons f fs)
    then show ?case using nn [of "fi_id f"] assms(2) [of f] by auto
  qed simp
  then show "version_bytes db P \<le> version_bytes db Q" by (simp add: version_bytes_eq)
qed

text \<open>A purge gives back exactly the bytes of the versions it removes.\<close>

lemma purge_files_inv:
  assumes "ledger_inv db"
  shows "yields (\<lambda>r. ledger_inv (fst r) \<and> (\<forall>w. bytes_used (fst r) w \<le> bytes_used db w) \<and> storage_quota (fst r) = storage_quota db)
    (purge_files_tx E opts db)"
  unfolding purge_files_tx_def
proof (intro yields_rules)
  fix v res ids freed db1 db2
  assume refund: "RefundForFilesTx E ids db = Inr db1" and del: "dr_sql E ''purge files'' (delete_files ids db1) = Inr db2"
  define owed where "owed = (\<lambda>w. version_bytes db (\<lambda>f. fi_workspace f = w \<and> fi_id f \<in> set ids))"
  have ok: "rows_ok db" "\<And>w. bytes_used db w = workspace_bytes db w" using assms by (auto simp: ledger_inv_def ledger_exact_def)
  have bounds: "0 \<le> owed w" "owed w \<le> bytes_used db w" for w
    unfolding owed_def ok(2) workspace_bytes_def by (rule version_bytes_mono [OF ok(1)], simp)+
  have db1: "\<exists>m. db1 = db\<lparr>workspace_storage := m\<rparr> \<and> (\<forall>w. bytes_used db1 w = bytes_used db w - owed w)"
  proof (cases "ids = []")
    case True
    then have "owed w = 0" for w by (simp add: owed_def version_bytes_eq)
    moreover have "db1 = db\<lparr>workspace_storage := workspace_storage db\<rparr>" using refund True by (simp add: RefundForFilesTx_def)
    ultimately show ?thesis by (intro exI [of _ "workspace_storage db"]) simp
  next
    case False
    then have "db1 = db\<lparr>workspace_storage := refund owed (workspace_storage db)\<rparr>"
      using refund by (simp add: RefundForFilesTx_def ledger_dr_sql owed_def)
    moreover have "bytes_used (db\<lparr>workspace_storage := refund owed (workspace_storage db)\<rparr>) w = bytes_used db w - owed w" for w
      using bounds by (rule bytes_used_refund_exact)
    ultimately show ?thesis by blast
  qed
  have db2: "db2 = delete_files ids db1" using del by (simp add: ledger_dr_sql)
  have "rows_ok db2" using db1 ok(1) delete_files_rows by (auto simp: db2)
  moreover have "bytes_used db2 w = workspace_bytes db2 w" for w
  proof -
    have "bytes_used db2 w = bytes_used db1 w" by (simp add: db2 delete_files_def bytes_used_def)
    moreover have "version_bytes db1 (\<lambda>f. fi_workspace f = w \<and> fi_id f \<in> set ids) = owed w"
      using db1 by (auto simp: owed_def version_bytes_eq)
    moreover have "workspace_bytes db1 w = workspace_bytes db w" using db1 by auto
    ultimately show ?thesis using db1 ok(2) by (simp add: db2 delete_files_bytes)
  qed
  ultimately have "ledger_inv db2" by (rule ledger_invI)
  moreover have "bytes_used db2 w \<le> bytes_used db w" for w
    using db1 bounds(1) [of w] by (auto simp: db2 delete_files_def bytes_used_def)
  moreover have "storage_quota db2 = storage_quota db" using db1 by (auto simp: db2 delete_files_def)
  ultimately show "ledger_inv (fst (db2, x)) \<and> (\<forall>w. bytes_used (fst (db2, x)) w \<le> bytes_used db w) \<and>
    storage_quota (fst (db2, x)) = storage_quota db" for x :: "PurgeResult \<times> string list list" by simp
qed (use assms in simp_all)

end
