(* ===== verification/Drive_Properties.thy ===== *)
theory Drive_Properties
  imports Drive_Invariant
begin

text \<open>
  What Drive promises about storage: the ledger over any history of operations and the quota as a bound. A history is a list of operations, each with the environment it ran in; the registered kinds are those the server boots with.
\<close>

section \<open>Histories\<close>

datatype drive_op =
    Op_EnsureRoot env string string string
  | Op_CreateFolder env string string string string string
  | Op_CreateFile env string string string string string string string
  | Op_Upload env string string string string string string int string
  | Op_Replace env string string string int string
  | Op_RestoreVersion env string int string
  | Op_RenameFolder env string string
  | Op_RenameFile env string string string
  | Op_MoveFolder env string string string
  | Op_MoveFile env string string string
  | Op_TrashFolder env int string string
  | Op_TrashFile env int string string
  | Op_Restore env string string string
  | Op_Purge env "string \<Rightarrow> bool" PurgeOptions "string list option"
  | Op_SetQuota env string int
  | Op_Recompute env string

definition deployed :: "env \<Rightarrow> string \<Rightarrow> Registry" where
  "deployed E newDoc = (case driveKinds E newDoc of Inl _ \<Rightarrow> \<lparr>rg_kinds = [], rg_order = []\<rparr> | Inr r \<Rightarrow> r)"

text \<open>A handler that writes bytes reads the file first and then runs the transaction with the row it read.\<close>

definition with_file ::
  "env \<Rightarrow> string \<Rightarrow> (File \<Rightarrow> drive_db \<Rightarrow> drive_error + drive_db \<times> 'a) \<Rightarrow> drive_db \<Rightarrow> (drive_error + 'a) \<times> drive_db" where
  "with_file E i tx db =
     (case Repo_File E db i of
        Inl e \<Rightarrow> (Inl e, db)
      | Inr None \<Rightarrow> (Inl ErrNotFound, db)
      | Inr (Some f) \<Rightarrow> WithTx E DriveDb db (tx f))"

fun drive_step :: "drive_op \<Rightarrow> drive_db \<Rightarrow> drive_db" where
  "drive_step (Op_EnsureRoot E newID w a) db = snd (EnsureRoot E newID w a db)"
| "drive_step (Op_CreateFolder E newID w p n a) db = snd (CreateFolder E newID w p n a db)"
| "drive_step (Op_CreateFile E newDoc newID w d n t a) db = snd (CreateFile E (deployed E newDoc) newID w d n t a db)"
| "drive_step (Op_Upload E i w d n ct a sz key) db = snd (WithTx E DriveDb db (upload_tx E i w d n ct a sz key))"
| "drive_step (Op_Replace E i ct a sz key) db = snd (with_file E i (\<lambda>f. replace_tx E f ct a sz key) db)"
| "drive_step (Op_RestoreVersion E i n a) db = snd (with_file E i (\<lambda>f. restore_version_tx E f n a) db)"
| "drive_step (Op_RenameFolder E i n) db = snd (RenameFolder E i n db)"
| "drive_step (Op_RenameFile E i n a) db = snd (RenameFile E i n a db)"
| "drive_step (Op_MoveFolder E a i p) db = snd (MoveFolder E a i p db)"
| "drive_step (Op_MoveFile E i d a) db = snd (MoveFile E i d a db)"
| "drive_step (Op_TrashFolder E t i a) db = snd (TrashFolder E t i a db)"
| "drive_step (Op_TrashFile E t i a) db = snd (TrashFile E t i a db)"
| "drive_step (Op_Restore E t i a) db = snd (Restore E t i a db)"
| "drive_step (Op_Purge E broken opts store) db = fst (snd (Purge E broken opts db store))"
| "drive_step (Op_SetQuota E w n) db = snd (SetQuota E w n db)"
| "drive_step (Op_Recompute E w) db = snd (Recompute E w db)"

fun op_env :: "drive_op \<Rightarrow> env" where
  "op_env (Op_EnsureRoot E _ _ _) = E"
| "op_env (Op_CreateFolder E _ _ _ _ _) = E"
| "op_env (Op_CreateFile E _ _ _ _ _ _ _) = E"
| "op_env (Op_Upload E _ _ _ _ _ _ _ _) = E"
| "op_env (Op_Replace E _ _ _ _ _) = E"
| "op_env (Op_RestoreVersion E _ _ _) = E"
| "op_env (Op_RenameFolder E _ _) = E"
| "op_env (Op_RenameFile E _ _ _) = E"
| "op_env (Op_MoveFolder E _ _ _) = E"
| "op_env (Op_MoveFile E _ _ _) = E"
| "op_env (Op_TrashFolder E _ _ _) = E"
| "op_env (Op_TrashFile E _ _ _) = E"
| "op_env (Op_Restore E _ _ _) = E"
| "op_env (Op_Purge E _ _ _) = E"
| "op_env (Op_SetQuota E _ _) = E"
| "op_env (Op_Recompute E _) = E"

section \<open>The ledger over one operation\<close>

text \<open>One operation leaves the ledger exact, the quotas alone, and no workspace with more bytes than before unless its quota allows them.\<close>

definition good_step :: "drive_db \<Rightarrow> drive_db \<Rightarrow> bool" where
  "good_step db db' \<longleftrightarrow>
     ledger_inv db' \<and> storage_quota db' = storage_quota db \<and>
     (\<forall>w. bytes_used db' w \<le> bytes_used db w \<or> quota_of db w = 0 \<or> bytes_used db' w \<le> quota_of db w)"

lemma good_same: "ledger_inv db \<Longrightarrow> ledger db' = ledger db \<Longrightarrow> good_step db db'"
  using ledger_inv_cong [of db' db] ledger_bytes_used [of db' db] ledger_quota [of db' db] by (simp add: good_step_def)

lemma good_WithTx:
  assumes "ledger_inv db" "yields (\<lambda>r. good_step db (fst r)) (f db)"
  shows "good_step db (snd (WithTx E h db f))"
proof (cases "WithTx E h db f")
  case (Pair r db')
  then show ?thesis using good_same [OF assms(1) refl] assms(2) by (auto elim!: WithTx_cases dest: yieldsD)
qed

lemma keeps_good: "ledger_inv db \<Longrightarrow> keeps db r \<Longrightarrow> yields (\<lambda>r. good_step db (fst r)) r"
  by (auto simp: yields_def intro: good_same)

lemma yields_mono: "yields P r \<Longrightarrow> (\<And>x. P x \<Longrightarrow> Q x) \<Longrightarrow> yields Q r"
  by (auto simp: yields_def)

lemma charged_good: "ledger_inv db' \<Longrightarrow> charged db w sz db' \<Longrightarrow> good_step db db'"
  by (auto simp: good_step_def charged_def)

lemma register_all_keeps:
  assumes "register_all ks r0 = Inr r" "Lookup r t = Some k" "\<forall>k \<in> set ks. kind_keeps k" "\<forall>t k. Lookup r0 t = Some k \<longrightarrow> kind_keeps k"
  shows "kind_keeps k"
  using assms
  by (induction ks arbitrary: r0) (auto simp: bindR_Inr_iff Register_kind_def Lookup_def split: option.splits if_splits)

lemma deployed_kinds: "Lookup (deployed E newDoc) t = Some k \<Longrightarrow> kind_keeps k"
proof -
  assume k: "Lookup (deployed E newDoc) t = Some k"
  then obtain r where r: "driveKinds E newDoc = Inr r" "Lookup r t = Some k"
    by (auto simp: deployed_def Lookup_def split: sum.splits)
  then have "register_all [file_kind, DocumentKind E newDoc, SpreadsheetKind E newDoc, DesignKind E newDoc] \<lparr>rg_kinds = [], rg_order = []\<rparr> = Inr r"
    by (simp only: driveKinds_def New_registry_def register_all.simps)
  from register_all_keeps [OF this r(2)] show ?thesis
    by (auto simp: DocumentKind_def SpreadsheetKind_def DesignKind_def collab_kind_keeps Lookup_def)
qed

lemma CreateFile_good:
  assumes "ledger_inv db" "pg_prints E"
  shows "good_step db (snd (CreateFile E (deployed E newDoc) i w d n t a db))"
proof -
  have "good_step db (snd (WithTx E DriveDb db (create_file_tx E i k mk w d name a)))"
    if "Lookup (deployed E newDoc) t = Some k" "ki_New k = Some mk" for k mk name
    by (rule good_WithTx [OF assms(1)], rule yields_mono [OF create_file_inv [OF assms deployed_kinds [OF that(1)] that(2)]])
      (simp add: good_step_def)
  then show ?thesis
    using good_same [OF assms(1) refl] by (auto simp: CreateFile_def Let_def split: option.splits sum.splits)
qed

lemma with_file_good:
  assumes "ledger_inv db" "\<And>f. find_file db (fi_id f) = Some f \<Longrightarrow> yields (\<lambda>r. good_step db (fst r)) (tx f db)"
  shows "good_step db (snd (with_file E i tx db))"
proof -
  have "good_step db (snd (WithTx E DriveDb db (tx f)))" if "Repo_File E db i = Inr (Some f)" for f
  proof (rule good_WithTx [OF assms(1)], rule assms(2))
    show "find_file db (fi_id f) = Some f"
      using that find_file_Some [of db] by (auto simp: Repo_File_def tx_simps)
  qed
  then show ?thesis using good_same [OF assms(1) refl] by (auto simp: with_file_def split: sum.splits option.splits)
qed

lemma Purge_good:
  assumes "ledger_inv db"
  shows "good_step db (fst (snd (Purge E broken opts0 db store)))"
proof -
  define opts where "opts = purge_defaults E opts0"
  obtain r db1 where tx: "WithTx E DriveDb db (purge_files_tx E opts) = (r, db1)" by fastforce
  have "good_step db (snd (WithTx E DriveDb db (purge_files_tx E opts)))"
    by (rule good_WithTx [OF assms], rule yields_mono [OF purge_files_inv [OF assms]]) (simp add: good_step_def)
  then have g: "good_step db db1" using tx by simp
  have "good_step db db2" if "purge_rounds E opts n res db1 = (s, db2)" for n res s db2
    using g ledger_inv_cong [OF purge_rounds_ledger [OF that]] ledger_bytes_used [OF purge_rounds_ledger [OF that]]
      ledger_quota [OF purge_rounds_ledger [OF that]] by (simp add: good_step_def)
  then show ?thesis using g tx by (auto simp: Purge_def Let_def opts_def split: sum.splits prod.splits)
qed

lemma Recompute_good: "ledger_inv db \<Longrightarrow> good_step db (snd (Recompute E w db))"
proof -
  assume inv: "ledger_inv db"
  show ?thesis
  proof (cases "dr_uuid E ''recompute storage usage'' w (\<lambda>w. dr_sql E ''recompute storage usage'' w)")
    case (Inl e)
    then show ?thesis using good_same [OF inv refl] by (simp add: Recompute_def)
  next
    case (Inr v)
    define db' where "db' = db\<lparr>workspace_storage := alist_put v (workspace_bytes db v) (workspace_storage db)\<rparr>"
    have "bytes_used db' x = bytes_used db x" for x
      using inv by (simp add: db'_def bytes_used_put ledger_inv_def ledger_exact_def)
    then have "good_step db db'" using inv by (simp add: good_step_def ledger_inv_def ledger_exact_def) (simp add: db'_def)
    then show ?thesis
      using Inr good_same [OF inv refl] by (simp add: Recompute_def Let_def db'_def workspace_bytes_def)
  qed
qed

lemma kept_good:
  fixes f :: "drive_db \<Rightarrow> drive_error + drive_db \<times> 'a"
  assumes "ledger_inv db" "\<And>x. keeps x (f x)"
  shows "good_step db (snd (WithTx E h db f))"
  by (rule good_WithTx [OF assms(1)], rule keeps_good [OF assms])

lemma EnsureRoot_state:
  "snd (EnsureRoot E i w a db) = db \<or> snd (EnsureRoot E i w a db) = snd (WithTx E DriveDb db (ensure_root_tx E i w a))"
  by (cases "WithTx E DriveDb db (ensure_root_tx E i w a)") (auto simp: EnsureRoot_def split: sum.splits option.splits)

lemma drive_step_good:
  assumes "ledger_inv db" "env_ok (op_env op)" "pg_prints (op_env op)" "\<And>E w n. op \<noteq> Op_SetQuota E w n"
  shows "good_step db (drive_step op db)"
proof -
  note same = good_same [OF assms(1) refl] and kept = kept_good [OF assms(1)]
  have renamed: "good_step db (set_folder P g db)" for P g using assms(1) by (intro good_same) simp_all
  have changed: "good_step db (set_file P g db)" if "\<And>f. fi_id (g f) = fi_id f" "\<And>f. fi_workspace (g f) = fi_workspace f" for P g
    using assms(1) that by (intro good_same) (simp_all add: ledger_set_file)
  show ?thesis
  proof (cases op)
    case (Op_EnsureRoot E i w a)
    show ?thesis unfolding Op_EnsureRoot drive_step.simps
      by (rule disjE [OF EnsureRoot_state [of E i w a db]]) (simp_all add: same kept [OF ensure_root_ledger])
  next
    case (Op_CreateFolder E i w p n a)
    show ?thesis using kept [OF create_folder_ledger] same unfolding Op_CreateFolder
      by (auto simp: CreateFolder_def Let_def split: sum.splits)
  next
    case (Op_CreateFile E newDoc i w d n t a)
    then show ?thesis using CreateFile_good [OF assms(1)] assms(3) by simp
  next
    case (Op_Upload E i w d n ct a sz key)
    show ?thesis unfolding Op_Upload drive_step.simps
      by (rule good_WithTx [OF assms(1)], rule yields_mono [OF upload_inv [OF assms(1)]])
        (use assms(3) Op_Upload in \<open>auto intro: charged_good\<close>)
  next
    case (Op_Replace E i ct a sz key)
    show ?thesis unfolding Op_Replace drive_step.simps
      by (rule with_file_good [OF assms(1)], rule yields_mono [OF replace_inv [OF assms(1)]])
        (use assms(2) Op_Replace in \<open>auto intro: charged_good\<close>)
  next
    case (Op_RestoreVersion E i n a)
    show ?thesis unfolding Op_RestoreVersion drive_step.simps
      by (rule with_file_good [OF assms(1)], rule keeps_good [OF assms(1) restore_version_ledger])
  next
    case (Op_RenameFolder E i n)
    show ?thesis using renamed same unfolding Op_RenameFolder by (auto simp: RenameFolder_def Let_def split: sum.splits option.splits)
  next
    case (Op_RenameFile E i n a)
    show ?thesis using changed same unfolding Op_RenameFile by (auto simp: RenameFile_def Let_def split: sum.splits option.splits prod.splits)
  next
    case (Op_MoveFolder E a i p)
    show ?thesis using kept [OF move_folder_ledger] same unfolding Op_MoveFolder by (auto simp: MoveFolder_def)
  next
    case (Op_MoveFile E i d a)
    show ?thesis using kept [OF move_file_ledger] same unfolding Op_MoveFile by (auto simp: MoveFile_def split: sum.splits)
  next
    case (Op_TrashFolder E t i a)
    show ?thesis using kept [OF trash_folder_ledger] same unfolding Op_TrashFolder
      by (auto simp: TrashFolder_def split: sum.splits option.splits)
  next
    case (Op_TrashFile E t i a)
    show ?thesis using changed same unfolding Op_TrashFile by (auto simp: TrashFile_def split: sum.splits prod.splits)
  next
    case (Op_Restore E t i a)
    show ?thesis using kept [OF restore_folder_ledger] kept [OF restore_file_ledger] unfolding Op_Restore by (simp add: Restore_def)
  next
    case (Op_Purge E broken opts store)
    then show ?thesis using Purge_good [OF assms(1)] by simp
  next
    case (Op_SetQuota E w n)
    then show ?thesis using assms(4) by blast
  next
    case (Op_Recompute E w)
    then show ?thesis using Recompute_good [OF assms(1)] by simp
  qed
qed

section \<open>The ledger over a history\<close>

lemma version_sum_split:
  assumes "\<And>f v. R f v \<longleftrightarrow> P f v \<or> Q f v" "\<And>f v. \<not> (P f v \<and> Q f v)"
  shows "version_sum db w R = version_sum db w P + version_sum db w Q"
proof -
  have "sum_list [fv_size v. v \<leftarrow> vs, fv_file v = fi_id f \<and> R f v] =
      sum_list [fv_size v. v \<leftarrow> vs, fv_file v = fi_id f \<and> P f v] + sum_list [fv_size v. v \<leftarrow> vs, fv_file v = fi_id f \<and> Q f v]" for f vs
    using assms by (induction vs) auto
  then have "sum_list [fv_size v. f \<leftarrow> fs, fi_workspace f = w, v \<leftarrow> file_versions db, fv_file v = fi_id f \<and> R f v] =
      sum_list [fv_size v. f \<leftarrow> fs, fi_workspace f = w, v \<leftarrow> file_versions db, fv_file v = fi_id f \<and> P f v] +
      sum_list [fv_size v. f \<leftarrow> fs, fi_workspace f = w, v \<leftarrow> file_versions db, fv_file v = fi_id f \<and> Q f v]" for fs
    by (induction fs) auto
  then show ?thesis by (simp add: version_sum_def)
qed

lemma version_sum_all: "version_sum db w (\<lambda>_ _. True) = workspace_bytes db w"
  by (simp add: version_sum_def workspace_bytes_def version_bytes_def cong: if_cong)

lemma version_sum_parts:
  "version_sum db w (\<lambda>f v. fi_trashed_at f = None \<and> fv_version v = fi_version f) + version_sum db w (\<lambda>f v. fi_trashed_at f \<noteq> None) +
     version_sum db w (\<lambda>f v. fi_trashed_at f = None \<and> fv_version v \<noteq> fi_version f) = version_sum db w (\<lambda>_ _. True)"
proof -
  have "version_sum db w (\<lambda>_ _. True) = version_sum db w (\<lambda>f v. fi_trashed_at f \<noteq> None) + version_sum db w (\<lambda>f v. fi_trashed_at f = None)"
    by (rule version_sum_split) auto
  moreover have "version_sum db w (\<lambda>f v. fi_trashed_at f = None) =
      version_sum db w (\<lambda>f v. fi_trashed_at f = None \<and> fv_version v = fi_version f) +
      version_sum db w (\<lambda>f v. fi_trashed_at f = None \<and> fv_version v \<noteq> fi_version f)"
    by (rule version_sum_split) auto
  ultimately show ?thesis by simp
qed

lemma breakdown_adds_up: "ReadBreakdown E db s = Inr b \<Longrightarrow> bd_Live b + bd_Trashed b + bd_Versions b = bd_Recomputed b"
  using version_sum_parts unfolding ReadBreakdown_def tx_simps Let_def by (elim exE conjE) (simp only: sum.inject(2) Breakdown.select_convs, auto)

lemma breakdown_drift: "ledger_inv db \<Longrightarrow> ReadBreakdown E db s = Inr b \<Longrightarrow> bd_Drift b = 0"
  by (auto simp: ReadBreakdown_def Read_usage_def tx_simps Let_def version_sum_all ledger_inv_def ledger_exact_def split: if_splits)

lemma SetQuota_ledger: "ledger_inv db \<Longrightarrow> ledger_inv (snd (SetQuota E w n db))"
  by (auto simp: SetQuota_def ledger_inv_def rows_ok_def ledger_exact_def bytes_used_def workspace_bytes_def version_bytes_eq split: sum.splits)

lemma drive_step_inv:
  assumes "ledger_inv db" "env_ok (op_env op)" "pg_prints (op_env op)"
  shows "ledger_inv (drive_step op db)"
proof (cases "\<exists>E w n. op = Op_SetQuota E w n")
  case True
  then show ?thesis using SetQuota_ledger [OF assms(1)] by auto
next
  case False
  then show ?thesis using drive_step_good [OF assms] by (auto simp: good_step_def)
qed

lemma drive_run_inv:
  "ledger_inv db \<Longrightarrow> \<forall>op \<in> set ops. env_ok (op_env op) \<and> pg_prints (op_env op) \<Longrightarrow> ledger_inv (fold drive_step ops db)"
  by (induction ops arbitrary: db) (auto intro: drive_step_inv)

text \<open>
  C34. The storage ledger is exact. From tables in which every workspace's charged bytes are the sum of the sizes of its stored versions,
  any history of creating, uploading, replacing, restoring, renaming, moving, trashing, purging and setting quotas, with every failure of a
  statement or a commit included, ends in tables with that property: each workspace is charged exactly for the versions it stores, the
  usage breakdown reports no drift, and its live, trashed and old-version parts add up to the total.
\<close>

theorem storage_ledger_exact:
  assumes "ledger_inv db" "\<forall>op \<in> set ops. env_ok (op_env op) \<and> pg_prints (op_env op)" "fold drive_step ops db = db'"
  shows "(\<forall>w. bytes_used db' w = version_bytes db' (\<lambda>f. fi_workspace f = w)) \<and>
    (\<forall>E s b. ReadBreakdown E db' s = Inr b \<longrightarrow> bd_Drift b = 0 \<and> bd_Live b + bd_Trashed b + bd_Versions b = bd_Recomputed b)"
proof -
  have inv: "ledger_inv db'" using drive_run_inv [OF assms(1,2)] assms(3) by simp
  then have "\<forall>w. bytes_used db' w = version_bytes db' (\<lambda>f. fi_workspace f = w)"
    by (simp add: ledger_inv_def ledger_exact_def workspace_bytes_def)
  with breakdown_drift [OF inv] breakdown_adds_up show ?thesis by blast
qed

definition within_quota :: "drive_db \<Rightarrow> bool" where
  "within_quota db \<longleftrightarrow> (\<forall>w. quota_of db w = 0 \<or> bytes_used db w \<le> quota_of db w)"

fun sets_quota :: "drive_op \<Rightarrow> bool" where
  "sets_quota (Op_SetQuota _ _ _) = True"
| "sets_quota _ = False"

lemma good_step_within: "good_step db db' \<Longrightarrow> within_quota db \<Longrightarrow> within_quota db'"
  unfolding good_step_def within_quota_def quota_of_def by (metis order_trans)

lemma drive_run_within:
  "ledger_inv db \<Longrightarrow> within_quota db \<Longrightarrow> \<forall>op \<in> set ops. env_ok (op_env op) \<and> pg_prints (op_env op) \<and> \<not> sets_quota op \<Longrightarrow>
     within_quota (fold drive_step ops db)"
proof (induction ops arbitrary: db)
  case (Cons op ops)
  then have "\<And>E w n. op \<noteq> Op_SetQuota E w n" by auto
  then have "good_step db (drive_step op db)" using Cons.prems by (intro drive_step_good) auto
  then have "ledger_inv (drive_step op db)" "within_quota (drive_step op db)"
    using good_step_within [of db] Cons.prems(2) by (auto simp: good_step_def)
  then show ?case using Cons by simp
qed simp

text \<open>
  C35. A quota is a bound. In any history in which nobody changes a quota, a workspace that starts within its quota stays within it:
  no sequence of uploads, new versions, restores and purges, failed or not, leaves a workspace charged above the quota set for it. An
  upload that is refused leaves the tables as they were.
\<close>

theorem quota_respected:
  assumes "ledger_inv db" "within_quota db" "\<forall>op \<in> set ops. env_ok (op_env op) \<and> pg_prints (op_env op) \<and> \<not> sets_quota op"
    and "0 < quota_of db w"
  shows "bytes_used (fold drive_step ops db) w \<le> quota_of db w"
proof -
  have "storage_quota (fold drive_step ops db) = storage_quota db"
    using assms(1,3)
  proof (induction ops arbitrary: db)
    case (Cons op ops)
    then have "\<And>E w n. op \<noteq> Op_SetQuota E w n" by auto
    then have "good_step db (drive_step op db)" using Cons.prems by (intro drive_step_good) auto
    then show ?case using Cons by (auto simp: good_step_def)
  qed simp
  then have "quota_of (fold drive_step ops db) w = quota_of db w" by (simp add: quota_of_def)
  moreover have "quota_of (fold drive_step ops db) w = 0 \<or> bytes_used (fold drive_step ops db) w \<le> quota_of (fold drive_step ops db) w"
    using drive_run_within [OF assms(1-3)] by (simp add: within_quota_def)
  ultimately show ?thesis using assms(4) by simp
qed

section \<open>A history on the concrete Drive\<close>

lemma sample_prints: "pg_prints sample_env"
  by (simp add: pg_prints_def sample_env_def)

lemma sample_ledger: "ledger_inv sample_drive"
proof (rule ledger_invI)
  show "rows_ok sample_drive" by code_simp
  fix w
  have fs: "drive_files sample_drive = [drive_file CHR ''f'' (uid CHR ''9'') 10, drive_file CHR ''7'' (uid CHR ''b'') 5]"
    "file_versions sample_drive = [drive_version CHR ''f'' 1 10, drive_version CHR ''7'' 1 5]"
    "workspace_storage sample_drive = [(uid CHR ''a'', 15)]"
    by (simp_all add: sample_drive_def Let_def)
  have ids: "uid CHR ''f'' \<noteq> uid CHR ''7''" by code_simp
  show "bytes_used sample_drive w = workspace_bytes sample_drive w"
    using ids by (simp add: bytes_used_def workspace_bytes_def version_bytes_eq file_bytes_def fs drive_file_def drive_version_def)
qed

text \<open>An upload that fits the quota, one that does not, a file trashed and purged.\<close>

definition sample_ops :: "drive_op list" where
  "sample_ops =
     [Op_Upload sample_env (uid CHR ''6'') (uid CHR ''a'') (uid CHR ''9'') ''n'' ''text/plain'' (uid CHR ''1'') 5 ''61'',
      Op_Upload sample_env (uid CHR ''8'') (uid CHR ''a'') (uid CHR ''9'') ''m'' ''text/plain'' (uid CHR ''1'') 7 ''81'',
      Op_TrashFile sample_env 0 (uid CHR ''f'') (uid CHR ''1''),
      Op_Purge sample_env (\<lambda>_. False) \<lparr>po_WorkspaceID = uid CHR ''a'', po_Now = 1, po_IgnoreSchedule = True, po_Batch = 0\<rparr> (Some [])]"

lemma sample_ops_env: "\<forall>op \<in> set sample_ops. env_ok (op_env op) \<and> pg_prints (op_env op) \<and> \<not> sets_quota op"
  by (simp add: sample_ops_def sample_prints)

theorem storage_ledger_exact_witness:
  "\<exists>db'. fold drive_step sample_ops sample_drive = db' \<and> bytes_used db' (uid CHR ''a'') = 10 \<and>
     version_bytes db' (\<lambda>f. fi_workspace f = uid CHR ''a'') = 10"
proof -
  have "bytes_used (fold drive_step sample_ops sample_drive) (uid CHR ''a'') = 10" by code_simp
  then show ?thesis using storage_ledger_exact [OF sample_ledger _ refl, of sample_ops] sample_ops_env by auto
qed

theorem quota_respected_witness:
  "bytes_used (fold drive_step sample_ops sample_drive) (uid CHR ''a'') \<le> 20"
proof -
  have q: "quota_of sample_drive (uid CHR ''a'') = 20" by code_simp
  have "within_quota sample_drive"
    using sample_ledger by (auto simp: within_quota_def bytes_used_def quota_of_def sample_drive_def Let_def)
  from quota_respected [OF sample_ledger this sample_ops_env, of "uid CHR ''a''"] show ?thesis by (simp add: q)
qed

end
