(* ===== verification/Go_Hmac.thy ===== *)
theory Go_Hmac
  imports Go_Hash Go_Base64
begin

text \<open>
  Go's \<open>crypto/hmac\<close> over SHA-256 and the encoding \<open>base64.RawURLEncoding\<close>, without padding: what the tokens of share-link sessions are
  made of.
\<close>

section \<open>HMAC\<close>

definition xor_byte :: "nat \<Rightarrow> char \<Rightarrow> char" where
  "xor_byte n c = char_of (unat ((word_of_nat n :: 8 word) XOR word_of_nat (byte c)))"

definition hmac_key :: "string \<Rightarrow> string" where
  "hmac_key k = (let k' = (if length k > 64 then sha256 k else k) in k' @ replicate (64 - length k') CHR 0x00)"

definition hmac_sha256 :: "string \<Rightarrow> string \<Rightarrow> string" where
  "hmac_sha256 k m = sha256 (map (xor_byte 0x5C) (hmac_key k) @ sha256 (map (xor_byte 0x36) (hmac_key k) @ m))"

lemma length_hmac_key [simp]: "length (hmac_key k) = 64"
  by (simp add: hmac_key_def Let_def)

lemma length_hmac [simp]: "length (hmac_sha256 k m) = 32"
  by (simp add: hmac_sha256_def)

lemma hmac_nonempty [simp]: "hmac_sha256 k m \<noteq> []"
  by (simp add: hmac_sha256_def)

section \<open>Base64 without padding\<close>

definition base64_raw_url_encode :: "string \<Rightarrow> string" where
  "base64_raw_url_encode s = map to_url (filter (\<lambda>c. c \<noteq> CHR ''='') (b64_encode s))"

fun b64_decode_raw :: "string \<Rightarrow> string option" where
  "b64_decode_raw [] = Some []"
| "b64_decode_raw [a] = None"
| "b64_decode_raw [a, b] = b64_chunk [a, b]"
| "b64_decode_raw [a, b, c] = b64_chunk [a, b, c]"
| "b64_decode_raw (a # b # c # d # s) =
     (case b64_chunk [a, b, c, d] of None \<Rightarrow> None | Some x \<Rightarrow> map_option ((@) x) (b64_decode_raw s))"

definition base64_raw_url :: "string \<Rightarrow> string option" where
  "base64_raw_url s = b64_decode_raw (map of_url (filter (\<lambda>c. c \<noteq> CHR 0x0A \<and> c \<noteq> CHR 0x0D) s))"

lemma b64_decode_raw_examples:
  "base64_raw_url_encode ''M'' = ''TQ''" "base64_raw_url ''TQ'' = Some ''M''" "base64_raw_url ''TQ=='' = None"
  "base64_raw_url_encode [CHR 0xFB, CHR 0xFF] = ''-_8''" "base64_raw_url ''-_8'' = Some [CHR 0xFB, CHR 0xFF]" "base64_raw_url ''T'' = None"
  by code_simp+

lemma b64_raw_round_trip: "b64_decode_raw (filter (\<lambda>c. c \<noteq> CHR ''='') (b64_encode s)) = Some s"
  by (induction s rule: b64_encode.induct) (simp_all add: b64_char_facts b64_chunk_encode)

lemma raw_char:
  assumes "c \<in> set (base64_raw_url_encode s)"
  obtains n where "n < 64" "c = to_url (b64_char n)"
  using assms b64_encode_chars [of _ s] by (auto simp: base64_raw_url_encode_def)

lemma to_url_plain:
  assumes "n < 64"
  shows "to_url (b64_char n) \<noteq> CHR 0x0A" "to_url (b64_char n) \<noteq> CHR 0x0D" "to_url (b64_char n) \<noteq> CHR ''.''"
proof -
  have "b64_char n \<noteq> CHR ''.''" using b64_char_facts(1) [OF assms] by (auto simp: b64_value_def is_upper_def is_lower_def is_digit_def less_eq_char_def)
  then show "to_url (b64_char n) \<noteq> CHR 0x0A" "to_url (b64_char n) \<noteq> CHR 0x0D" "to_url (b64_char n) \<noteq> CHR ''.''"
    using b64_char_facts(3,4) [OF assms] by (auto simp: to_url_def)
qed

lemma raw_no_dot: "CHR ''.'' \<notin> set (base64_raw_url_encode s)"
  using to_url_plain(3) by (metis raw_char)

lemma base64_raw_url_round_trip [simp]: "base64_raw_url (base64_raw_url_encode s) = Some s"
proof -
  have "filter (\<lambda>c. c \<noteq> CHR 0x0A \<and> c \<noteq> CHR 0x0D) (base64_raw_url_encode s) = base64_raw_url_encode s"
    using to_url_plain(1,2) by (subst filter_id_conv) (metis raw_char)
  moreover have "map of_url (base64_raw_url_encode s) = filter (\<lambda>c. c \<noteq> CHR ''='') (b64_encode s)"
  proof -
    have "of_url (to_url c) = c" if "c \<in> set (b64_encode s)" "c \<noteq> CHR ''=''" for c
      using b64_encode_chars [OF that(1)] b64_char_facts(5) that(2) by blast
    then show ?thesis by (auto simp: base64_raw_url_encode_def comp_def intro!: map_idI)
  qed
  ultimately show ?thesis by (simp add: base64_raw_url_def b64_raw_round_trip)
qed

lemma raw_url_nonempty: "s \<noteq> [] \<Longrightarrow> base64_raw_url_encode s \<noteq> []"
  using base64_raw_url_round_trip [of s] by (auto simp: base64_raw_url_def)

end
