(* ===== verification/Drive_Share.thy ===== *)
theory Drive_Share
  imports Go_Hmac Drive_List
begin

text \<open>
  Sharing: \<open>backend/internal/drive/sharing.go\<close> over the table of \<open>migrations/028\<close>, with \<open>authorize\<close>, \<open>fail\<close> and \<open>record\<close> of
  \<open>handler.go\<close>. The routes read and write the permission tables through the checker and the table of share links. A handler returns its
  response, the new tables and what it does besides (audit entries, live revocations) in order. The password hash
  (\<open>golang.org/x/crypto/bcrypt\<close>) and the text of a JSON value are fields of the handler; generated ids and random bytes are arguments.
  Times are in nanoseconds; a \<open>timestamptz\<close> column keeps whole microseconds.
\<close>

section \<open>State\<close>

record share_link =
  sl_id :: string
  sl_workspace :: string
  sl_otype :: string
  sl_oid :: string
  sl_token_hash :: string
  sl_capability :: string
  sl_password :: string
  sl_expires :: "int option"
  sl_max_uses :: "int option"
  sl_use_count :: int
  sl_created_by :: "string option"
  sl_revoked :: "int option"
  sl_created_at :: int

record share_db =
  sd_acl :: database
  share_links :: "share_link list"

record share_handler =
  sc_audit :: bool
  sc_revoker :: bool
  linkSecret :: string
  bcrypt_generate :: "string \<Rightarrow> string option"
  bcrypt_compare :: "string \<Rightarrow> string \<Rightarrow> bool"
  sc_marshal :: "json \<Rightarrow> string"
  sc_text :: "string \<Rightarrow> json option"

definition SetLinkSecret :: "string \<Rightarrow> share_handler \<Rightarrow> share_handler" where
  "SetLinkSecret secret H = (if secret \<noteq> '''' then H\<lparr>linkSecret := secret\<rparr> else H)"

text \<open>Who asks: the user of the session, if any, and the link of a link session, if any.\<close>

record caller =
  ca_user :: string
  ca_link :: string

datatype share_effect =
    Authz_effect effect
  | Recorded string string string string string "(string \<times> json) list"
  | RevokeFileAccess_call string string
  | Warned string

datatype share_error =
    ShareDrive drive_error
  | ErrLinkInvalid
  | ErrLinkPassword
  | ErrEscalation string
  | ErrNotAMember

definition tokenBytes :: nat where "tokenBytes = 32"

definition linkSessionTTL :: int where "linkSessionTTL = 30 * 60 * 1000000000"

definition EntryMailbox :: string where "EntryMailbox = ''mailbox''"
definition EntryConversation :: string where "EntryConversation = ''conversation''"

definition GroupSubject :: "string \<Rightarrow> SubjectRef" where
  "GroupSubject i = \<lparr>sub_type = SubjectGroup, sub_id = i\<rparr>"

definition Capability_String :: "capability \<Rightarrow> string" where
  "Capability_String c = (case capabilityNames c of Some s \<Rightarrow> s | None \<Rightarrow> ''capability('' @ FormatInt (uint c) @ '')'')"

section \<open>What the handlers share\<close>

definition checked :: "authz_error + 'a \<Rightarrow> 'r response + 'a" where
  "checked m = (case m of Inl _ \<Rightarrow> Inl (HandleError (Some NewInternal)) | Inr x \<Rightarrow> Inr x)"

definition authorize :: "env \<Rightarrow> database \<Rightarrow> caller \<Rightarrow> ObjectRef \<Rightarrow> capability \<Rightarrow> 'r response + capability" where
  "authorize E a ca obj want =
     bindR (if ca_user ca \<noteq> '''' then checked (Capability E a (UserSubject (ca_user ca)) obj) else Inr CapNone) (\<lambda>got0.
     bindR (if ca_link ca \<noteq> ''''
            then bindR (checked (Capability E a (LinkSubject (ca_link ca)) obj)) (\<lambda>capLink. Inr (if capLink > got0 then capLink else got0))
            else Inr got0) (\<lambda>got.
       if \<not> Implies got CapRead then Inl (JSONError 404 ''NOT_FOUND'' ''object not found'')
       else if \<not> Implies got want then Inl (JSONError 403 ''FORBIDDEN'' ''insufficient capability for this action'')
       else Inr got))"

fun fail :: "share_error \<Rightarrow> 'r response" where
  "fail (ShareDrive ErrNotFound) = JSONError 404 ''NOT_FOUND'' ''object not found''"
| "fail (ShareDrive ErrNoRoot) = JSONError 404 ''NOT_FOUND'' ''object not found''"
| "fail (ShareDrive ErrCycle) = JSONError 409 ''MOVE_CYCLE'' ''a folder cannot be moved into its own subtree''"
| "fail (ShareDrive ErrTooDeep) = JSONError 409 ''TREE_TOO_DEEP'' ''the folder tree would exceed the maximum depth''"
| "fail (ShareDrive ErrTrashed) = JSONError 409 ''OBJECT_TRASHED'' ''the object is in the trash; restore it first''"
| "fail (ShareDrive ErrCrossWorkspace) = JSONError 400 ''CROSS_WORKSPACE'' ''objects cannot move between workspaces''"
| "fail (ShareDrive ErrNotVersioned) = JSONError 409 ''NOT_VERSIONED''
     ''this object's content is edited collaboratively; uploaded bytes would be discarded by the next merge''"
| "fail (ShareDrive ErrUnknownType) = JSONError 400 ''UNKNOWN_FILE_TYPE'' ''no editor is registered for that file type on this deployment''"
| "fail (ShareDrive (BadInput m)) = JSONError 400 ''BAD_REQUEST'' m"
| "fail (ShareDrive _) = HandleError (Some NewInternal)"
| "fail ErrLinkInvalid = JSONError 404 ''LINK_INVALID'' ''this link is not valid''"
| "fail ErrLinkPassword = JSONError 401 ''LINK_PASSWORD_REQUIRED'' ''this link requires a password''"
| "fail (ErrEscalation held) = JSONError 403 ''ESCALATION'' (''drive: you cannot grant more than you hold: you hold '' @ held)"
| "fail ErrNotAMember = JSONError 400 ''NOT_A_MEMBER'' ''drive: the person you are sharing with is not in this workspace''"

definition record_entry ::
  "share_handler \<Rightarrow> caller \<Rightarrow> string \<Rightarrow> string \<Rightarrow> string \<Rightarrow> string \<Rightarrow> (string \<times> json) list \<Rightarrow> share_effect list" where
  "record_entry H ca workspaceID action resourceType resourceID meta =
     (if \<not> sc_audit H then [] else [Recorded workspaceID (ca_user ca) action resourceType resourceID meta])"

definition refWorkspace :: "env \<Rightarrow> database \<Rightarrow> ObjectRef \<Rightarrow> string" where
  "refWorkspace E a ref =
     (case pg_uuid E (obj_id ref) of
        None \<Rightarrow> ''''
      | Some i \<Rightarrow>
          if db_fault E ''ref workspace'' then ''''
          else case find (\<lambda>r. ao_type r = obj_type ref \<and> ao_id r = i) (acl_object a) of None \<Rightarrow> '''' | Some r \<Rightarrow> ao_workspace r)"

definition share_ref :: "string \<Rightarrow> string \<Rightarrow> ObjectRef option" where
  "share_ref objectType i =
     (if objectType = EntryFolder then Some (FolderObject i)
      else if objectType = EntryFile then Some (FileObject i)
      else if objectType = EntryMailbox \<or> objectType = EntryConversation then Some \<lparr>obj_type = objectType, obj_id = i\<rparr>
      else None)"

definition shareTarget :: "env \<Rightarrow> database \<Rightarrow> caller \<Rightarrow> string \<Rightarrow> string \<Rightarrow> capability \<Rightarrow> 'r response + ObjectRef \<times> capability" where
  "shareTarget E a ca objectType i want =
     (if i = '''' then Inl (HandleError None)
      else case share_ref objectType i of
        None \<Rightarrow> Inl (JSONError 400 ''BAD_REQUEST'' ''object_type must be \"folder\", \"file\", \"mailbox\" or \"conversation\"'')
      | Some ref \<Rightarrow> bindR (authorize E a ca ref want) (\<lambda>got. Inr (ref, got)))"

section \<open>Grants to people\<close>

record Share =
  sh_SubjectType :: string
  sh_SubjectID :: string
  sh_Capability :: string
  sh_GrantedBy :: string
  sh_CreatedAt :: int

definition ListShares :: "env \<Rightarrow> caller \<Rightarrow> string \<Rightarrow> string \<Rightarrow> share_db \<Rightarrow> Share list response" where
  "ListShares E ca objectType i db =
     (case shareTarget E (sd_acl db) ca objectType i CapShare of
        Inl r \<Rightarrow> r
      | Inr (ref, _) \<Rightarrow>
          (case SubjectsOf E (sd_acl db) ref of
             Inl e \<Rightarrow> fail (ShareDrive (DriveAuthz e))
           | Inr grants \<Rightarrow> JSON 200 (map (\<lambda>g. \<lparr>sh_SubjectType = sub_type (gr_subject g), sh_SubjectID = sub_id (gr_subject g),
               sh_Capability = Capability_String (gr_capability g), sh_GrantedBy = gr_granted_by g, sh_CreatedAt = gr_created_at g\<rparr>) grants)))"

record put_share_input =
  ps_SubjectID :: string
  ps_Capability :: string

definition decode_put_share :: "body \<Rightarrow> AppError + put_share_input" where
  "decode_put_share b =
     decodeJSON b [(''subject_id'', into_string (\<lambda>s x. x\<lparr>ps_SubjectID := s\<rparr>)),
                   (''capability'', into_string (\<lambda>s x. x\<lparr>ps_Capability := s\<rparr>))]
       \<lparr>ps_SubjectID = '''', ps_Capability = ''''\<rparr>
       (\<lambda>x. \<lparr>ps_SubjectID = removeNUL (ps_SubjectID x), ps_Capability = removeNUL (ps_Capability x)\<rparr>) MaxRequestBodyBytes"

type_synonym 'r share_outcome = "'r response \<times> share_db \<times> share_effect list"

definition PutShare :: "env \<Rightarrow> share_handler \<Rightarrow> caller \<Rightarrow> string \<Rightarrow> string \<Rightarrow> body \<Rightarrow> share_db \<Rightarrow> Share share_outcome" where
  "PutShare E H ca objectType i b db =
     (case decode_put_share b of
        Inl e \<Rightarrow> (HandleError (Some e), db, [])
      | Inr req \<Rightarrow>
          (case ParseCapability (ps_Capability req) of
             None \<Rightarrow> (JSONError 400 ''BAD_REQUEST'' ''capability must be one of read, comment, write, share, admin'', db, [])
           | Some capability \<Rightarrow>
               (case shareTarget E (sd_acl db) ca objectType i CapShare of
                  Inl r \<Rightarrow> (r, db, [])
                | Inr (ref, actorCap) \<Rightarrow>
                    if \<not> Implies actorCap capability then (fail (ErrEscalation (Capability_String actorCap)), db, [])
                    else (case isWorkspaceMember E (sd_acl db) (refWorkspace E (sd_acl db) ref) (ps_SubjectID req) of
                       Inl e \<Rightarrow> (fail (ShareDrive (DriveAuthz e)), db, [])
                     | Inr member \<Rightarrow>
                         if \<not> member then (fail ErrNotAMember, db, [])
                         else (case Grant_op E (sd_acl db) (UserSubject (ca_user ca)) (UserSubject (ps_SubjectID req)) ref capability of
                            (Inl e, a, fx) \<Rightarrow> (fail (ShareDrive (DriveAuthz e)), db\<lparr>sd_acl := a\<rparr>, map Authz_effect fx)
                          | (Inr _, a, fx) \<Rightarrow>
                              (JSON 200 \<lparr>sh_SubjectType = SubjectUser, sh_SubjectID = ps_SubjectID req,
                                 sh_Capability = Capability_String capability, sh_GrantedBy = ca_user ca, sh_CreatedAt = now E div 1000000000\<rparr>,
                               db\<lparr>sd_acl := a\<rparr>,
                               map Authz_effect fx @ record_entry H ca (refWorkspace E a ref) ''drive.shared'' (obj_type ref) (obj_id ref)
                                 [(''subject'', JStr (ps_SubjectID req)), (''capability'', JStr (Capability_String capability))]))))))"

definition revokeLiveEditors :: "env \<Rightarrow> share_handler \<Rightarrow> database \<Rightarrow> string \<Rightarrow> ObjectRef \<Rightarrow> share_effect list" where
  "revokeLiveEditors E H a userID ref =
     (if \<not> sc_revoker H then []
      else let unresolved = [Warned ''could not resolve the ACL path to revoke live editor sessions''] in
        case pg_uuid E (obj_id ref) of
          None \<Rightarrow> unresolved
        | Some i \<Rightarrow>
            if db_fault E ''acl path'' then unresolved
            else case find (\<lambda>r. ao_type r = obj_type ref \<and> ao_id r = i) (acl_object a) of
              None \<Rightarrow> unresolved
            | Some r \<Rightarrow> if ao_path r = '''' then unresolved else [RevokeFileAccess_call userID (ao_path r)])"

definition DeleteShare ::
  "env \<Rightarrow> share_handler \<Rightarrow> caller \<Rightarrow> string \<Rightarrow> string \<Rightarrow> string \<Rightarrow> string \<Rightarrow> share_db \<Rightarrow> unit share_outcome" where
  "DeleteShare E H ca objectType i subjectType subjectID db =
     (case shareTarget E (sd_acl db) ca objectType i CapShare of
        Inl r \<Rightarrow> (r, db, [])
      | Inr (ref, _) \<Rightarrow>
          (case (if subjectType = SubjectUser then Some (UserSubject subjectID)
                 else if subjectType = SubjectGroup then Some (GroupSubject subjectID) else None) of
             None \<Rightarrow> (JSONError 400 ''BAD_REQUEST'' ''subject_type must be user or group; revoke a link through /drive/links/{id}'', db, [])
           | Some subject \<Rightarrow>
               (case Revoke E (sd_acl db) (UserSubject (ca_user ca)) subject ref of
                  (Inl e, a, fx) \<Rightarrow> (fail (ShareDrive (DriveAuthz e)), db\<lparr>sd_acl := a\<rparr>, map Authz_effect fx)
                | (Inr _, a, fx) \<Rightarrow>
                    (JSON 204 (), db\<lparr>sd_acl := a\<rparr>,
                     map Authz_effect fx @
                     (if sub_type subject = SubjectUser then revokeLiveEditors E H a (sub_id subject) ref else []) @
                     record_entry H ca (refWorkspace E a ref) ''drive.unshared'' (obj_type ref) (obj_id ref) [(''subject'', JStr subjectID)]))))"

section \<open>Links\<close>

record Link =
  li_ID :: string
  li_ObjectType :: string
  li_ObjectID :: string
  li_Capability :: string
  li_HasPassword :: bool
  li_ExpiresAt :: "int option"
  li_MaxUses :: "int option"
  li_UseCount :: int
  li_CreatedBy :: "string option"
  li_CreatedAt :: int

definition link_view :: "share_link \<Rightarrow> Link" where
  "link_view l = \<lparr>li_ID = sl_id l, li_ObjectType = sl_otype l, li_ObjectID = sl_oid l, li_Capability = sl_capability l,
     li_HasPassword = (sl_password l \<noteq> ''''), li_ExpiresAt = sl_expires l, li_MaxUses = sl_max_uses l, li_UseCount = sl_use_count l,
     li_CreatedBy = sl_created_by l, li_CreatedAt = sl_created_at l\<rparr>"

definition linkableType :: "string \<Rightarrow> 'r response option" where
  "linkableType objectType =
     (if objectType = EntryFolder \<or> objectType = EntryFile then None
      else Some (JSONError 400 ''BAD_REQUEST'' ''share links are for a folder or a file; grant a person or a group instead''))"

record create_link_input =
  cl_Capability :: string
  cl_Password :: string
  cl_ExpiresAt :: "int option"
  cl_MaxUses :: "int option"

definition into_time_ptr :: "(int option \<Rightarrow> 'a \<Rightarrow> 'a) \<Rightarrow> 'a field_decoder" where
  "into_time_ptr put v x =
     (case v of JNull \<Rightarrow> Some (put None x)
      | JStr s \<Rightarrow> (case Parse_RFC3339Nano s of None \<Rightarrow> None | Some t \<Rightarrow> Some (put (Some t) x))
      | _ \<Rightarrow> None)"

definition into_int_ptr :: "(int option \<Rightarrow> 'a \<Rightarrow> 'a) \<Rightarrow> 'a field_decoder" where
  "into_int_ptr put v x = (if v = JNull then Some (put None x) else into_int64 (\<lambda>n. put (Some n)) v x)"

definition decode_create_link :: "body \<Rightarrow> AppError + create_link_input" where
  "decode_create_link b =
     decodeJSON b [(''capability'', into_string (\<lambda>s x. x\<lparr>cl_Capability := s\<rparr>)), (''password'', into_string (\<lambda>s x. x\<lparr>cl_Password := s\<rparr>)),
                   (''expires_at'', into_time_ptr (\<lambda>t x. x\<lparr>cl_ExpiresAt := t\<rparr>)), (''max_uses'', into_int_ptr (\<lambda>n x. x\<lparr>cl_MaxUses := n\<rparr>))]
       \<lparr>cl_Capability = '''', cl_Password = '''', cl_ExpiresAt = None, cl_MaxUses = None\<rparr>
       (\<lambda>x. x\<lparr>cl_Capability := removeNUL (cl_Capability x), cl_Password := removeNUL (cl_Password x)\<rparr>) MaxRequestBodyBytes"

definition link_capability :: "string \<Rightarrow> capability option" where
  "link_capability s =
     (if s = '''' then Some CapRead
      else case ParseCapability s of
        None \<Rightarrow> None
      | Some parsed \<Rightarrow> if parsed \<noteq> CapRead \<and> parsed \<noteq> CapComment then None else Some parsed)"

definition link_row_ok :: "share_db \<Rightarrow> share_link \<Rightarrow> bool" where
  "link_row_ok db l \<longleftrightarrow>
     (sl_otype l = ''file'' \<or> sl_otype l = ''folder'') \<and> (sl_capability l = ''read'' \<or> sl_capability l = ''comment'') \<and>
     (case sl_max_uses l of None \<Rightarrow> True | Some n \<Rightarrow> 0 < n \<and> n < 2 ^ 31) \<and>
     list_all (\<lambda>k. sl_id k \<noteq> sl_id l \<and> sl_token_hash k \<noteq> sl_token_hash l) (share_links db) \<and>
     sl_workspace l \<in> set (workspaces (sd_acl db)) \<and> (case sl_created_by l of None \<Rightarrow> True | Some u \<Rightarrow> u \<in> set (users (sd_acl db))) \<and>
     list_ex (\<lambda>r. ao_type r = sl_otype l \<and> ao_id r = sl_oid l) (acl_object (sd_acl db))"

definition micros :: "int \<Rightarrow> int" where
  "micros t = t div 1000 * 1000"

definition insert_link ::
  "env \<Rightarrow> share_handler \<Rightarrow> string \<Rightarrow> string \<Rightarrow> ObjectRef \<Rightarrow> string \<Rightarrow> capability \<Rightarrow> string \<Rightarrow> create_link_input \<Rightarrow> string \<Rightarrow> share_db \<Rightarrow>
     drive_error + share_db \<times> share_link" where
  "insert_link E H newID workspaceID ref token_hash capability passwordHash req actor db =
     dr_uuid E ''create share link'' workspaceID (\<lambda>w. dr_uuid E ''create share link'' (obj_id ref) (\<lambda>o1.
     dr_uuid_opt E ''create share link'' (nullable_str actor) (\<lambda>u.
       let l = \<lparr>sl_id = newID, sl_workspace = w, sl_otype = obj_type ref, sl_oid = o1, sl_token_hash = token_hash,
                sl_capability = Capability_String capability, sl_password = passwordHash, sl_expires = map_option micros (cl_ExpiresAt req),
                sl_max_uses = cl_MaxUses req, sl_use_count = 0, sl_created_by = u, sl_revoked = None, sl_created_at = micros (now E)\<rparr>
       in if \<not> link_row_ok db l then Inl (DriveDb ''create share link'')
          else bindR (dr_sql E ''create share link'' (db\<lparr>share_links := share_links db @ [l]\<rparr>)) (\<lambda>db1. Inr (db1, l)))))"

definition share_authz :: "share_db \<Rightarrow> (database \<Rightarrow> authz_error + database) \<Rightarrow> drive_error + share_db" where
  "share_authz db f = (case f (sd_acl db) of Inl e \<Rightarrow> Inl (DriveAuthz e) | Inr a \<Rightarrow> Inr (db\<lparr>sd_acl := a\<rparr>))"

definition create_link_tx ::
  "env \<Rightarrow> share_handler \<Rightarrow> string \<Rightarrow> string \<Rightarrow> ObjectRef \<Rightarrow> string \<Rightarrow> capability \<Rightarrow> string \<Rightarrow> create_link_input \<Rightarrow> string \<Rightarrow> share_db \<Rightarrow>
     drive_error + share_db \<times> share_link" where
  "create_link_tx E H newID workspaceID ref token_hash capability passwordHash req actor t =
     bindR (insert_link E H newID workspaceID ref token_hash capability passwordHash req actor t) (\<lambda>(t1, l).
     bindR (share_authz t1 (\<lambda>a. GrantTx E a (UserSubject actor) (LinkSubject (sl_id l)) ref capability)) (\<lambda>t2. Inr (t2, l)))"

definition CreateLink ::
  "env \<Rightarrow> share_handler \<Rightarrow> string \<Rightarrow> string option \<Rightarrow> caller \<Rightarrow> string \<Rightarrow> string \<Rightarrow> body \<Rightarrow> share_db \<Rightarrow> (Link \<times> string) share_outcome" where
  "CreateLink E H newID raw ca objectType i b db =
     (case decode_create_link b of
        Inl e \<Rightarrow> (HandleError (Some e), db, [])
      | Inr req \<Rightarrow>
          (case link_capability (cl_Capability req) of
             None \<Rightarrow> (JSONError 400 ''BAD_REQUEST'' ''a link may grant read or comment; anonymous write is not available'', db, [])
           | Some capability \<Rightarrow>
               (case linkableType objectType of
                  Some r \<Rightarrow> (r, db, [])
                | None \<Rightarrow>
                    (case shareTarget E (sd_acl db) ca objectType i CapShare of
                       Inl r \<Rightarrow> (r, db, [])
                     | Inr (ref, _) \<Rightarrow>
                         (case raw of
                            None \<Rightarrow> (HandleError (Some NewInternal), db, [])
                          | Some bytes \<Rightarrow>
                              let token = base64_raw_url_encode bytes in
                              (case (if cl_Password req \<noteq> '''' then bcrypt_generate H (cl_Password req) else Some '''') of
                                 None \<Rightarrow> (HandleError (Some NewInternal), db, [])
                               | Some passwordHash \<Rightarrow>
                                   let workspaceID = refWorkspace E (sd_acl db) ref in
                                   (case WithTx E DriveDb db (create_link_tx E H newID workspaceID ref (sha256 token) capability passwordHash req (ca_user ca)) of
                                      (Inl e, db1) \<Rightarrow> (fail (ShareDrive e), db1, [])
                                    | (Inr l, db1) \<Rightarrow>
                                        (JSON 201 (link_view l, token), db1,
                                         record_entry H ca workspaceID ''drive.link_created'' (obj_type ref) (obj_id ref)
                                           [(''link_id'', JStr (sl_id l)), (''capability'', JStr (Capability_String capability)),
                                            (''has_password'', JBool (sl_password l \<noteq> ''''))]))))))))"

definition ListLinks :: "env \<Rightarrow> caller \<Rightarrow> string \<Rightarrow> string \<Rightarrow> share_db \<Rightarrow> Link list response" where
  "ListLinks E ca objectType i db =
     (case linkableType objectType of
        Some r \<Rightarrow> r
      | None \<Rightarrow>
          (case shareTarget E (sd_acl db) ca objectType i CapShare of
             Inl r \<Rightarrow> r
           | Inr (ref, _) \<Rightarrow>
               (case dr_uuid E ''list links'' (obj_id ref) (\<lambda>o1. dr_sql E ''list links''
                   (filter (\<lambda>l. sl_otype l = obj_type ref \<and> sl_oid l = o1 \<and> sl_revoked l = None) (share_links db))) of
                  Inl e \<Rightarrow> fail (ShareDrive e)
                | Inr ls \<Rightarrow> JSON 200 (map link_view (sort_key (\<lambda>l. - sl_created_at l) ls)))))"

definition find_link :: "share_db \<Rightarrow> string \<Rightarrow> share_link option" where
  "find_link db i = find (\<lambda>l. sl_id l = i) (share_links db)"

definition revoke_row :: "env \<Rightarrow> string \<Rightarrow> share_link \<Rightarrow> share_link" where
  "revoke_row E i l = (if sl_id l = i \<and> sl_revoked l = None then l\<lparr>sl_revoked := Some (micros (now E))\<rparr> else l)"

definition revoke_link_tx :: "env \<Rightarrow> string \<Rightarrow> ObjectRef \<Rightarrow> share_db \<Rightarrow> drive_error + share_db \<times> unit" where
  "revoke_link_tx E linkID ref t =
     dr_uuid E ''revoke share link'' linkID (\<lambda>u.
     bindR (dr_sql E ''revoke share link'' (t\<lparr>share_links := map (revoke_row E u) (share_links t)\<rparr>)) (\<lambda>t1.
     bindR (share_authz t1 (\<lambda>a. RevokeTx E a (LinkSubject linkID) ref)) (\<lambda>t2. Inr (t2, ()))))"

definition RevokeLink :: "env \<Rightarrow> share_handler \<Rightarrow> caller \<Rightarrow> string \<Rightarrow> share_db \<Rightarrow> unit share_outcome" where
  "RevokeLink E H ca linkID db =
     (if linkID = '''' then (HandleError None, db, [])
      else (case dr_uuid E ''read share link'' linkID (\<lambda>u. dr_sql E ''read share link'' (find_link db u)) of
         Inl e \<Rightarrow> (fail (ShareDrive ErrNotFound), db, [])
       | Inr None \<Rightarrow> (fail (ShareDrive ErrNotFound), db, [])
       | Inr (Some l) \<Rightarrow>
           (case (if sl_otype l = EntryFolder then Some (FolderObject (sl_oid l))
                  else if sl_otype l = EntryFile then Some (FileObject (sl_oid l)) else None) of
              None \<Rightarrow> (JSONError 400 ''BAD_REQUEST'' ''that link is for an object type this route cannot authorize'', db, [])
            | Some ref \<Rightarrow>
                (case authorize E (sd_acl db) ca ref CapShare of
                   Inl r \<Rightarrow> (r, db, [])
                 | Inr _ \<Rightarrow>
                     (case WithTx E DriveDb db (revoke_link_tx E linkID ref) of
                        (Inl e, db1) \<Rightarrow> (fail (ShareDrive e), db1, [])
                      | (Inr _, db1) \<Rightarrow>
                          (JSON 204 (), db1,
                           record_entry H ca (sl_workspace l) ''drive.link_revoked'' (sl_otype l) (sl_oid l) [(''link_id'', JStr linkID)]))))))"

section \<open>Link sessions\<close>

record linkSessionClaims =
  lc_LinkID :: string
  lc_ObjectType :: string
  lc_ObjectID :: string
  lc_WorkspaceID :: string
  lc_Capability :: string
  lc_Exp :: int

definition linkSessionPrefix :: string where "linkSessionPrefix = ''sl1.''"

definition claims_json :: "linkSessionClaims \<Rightarrow> json" where
  "claims_json c = JObj [(''link_id'', JStr (lc_LinkID c)), (''object_type'', JStr (lc_ObjectType c)), (''object_id'', JStr (lc_ObjectID c)),
     (''workspace_id'', JStr (lc_WorkspaceID c)), (''capability'', JStr (lc_Capability c)), (''exp'', JInt (lc_Exp c))]"

definition no_claims :: linkSessionClaims where
  "no_claims = \<lparr>lc_LinkID = '''', lc_ObjectType = '''', lc_ObjectID = '''', lc_WorkspaceID = '''', lc_Capability = '''', lc_Exp = 0\<rparr>"

definition claims_fields :: "(string \<times> linkSessionClaims field_decoder) list" where
  "claims_fields =
     [(''link_id'', into_string (\<lambda>s x. x\<lparr>lc_LinkID := s\<rparr>)), (''object_type'', into_string (\<lambda>s x. x\<lparr>lc_ObjectType := s\<rparr>)),
      (''object_id'', into_string (\<lambda>s x. x\<lparr>lc_ObjectID := s\<rparr>)), (''workspace_id'', into_string (\<lambda>s x. x\<lparr>lc_WorkspaceID := s\<rparr>)),
      (''capability'', into_string (\<lambda>s x. x\<lparr>lc_Capability := s\<rparr>)), (''exp'', into_int64 (\<lambda>n x. x\<lparr>lc_Exp := n\<rparr>))]"

definition mintLinkSession :: "share_handler \<Rightarrow> linkSessionClaims \<Rightarrow> string" where
  "mintLinkSession H claims =
     (let signingInput = linkSessionPrefix @ base64_raw_url_encode (sc_marshal H (claims_json claims)) in
      signingInput @ ''.'' @ base64_raw_url_encode (hmac_sha256 (linkSecret H) signingInput))"

definition verifyLinkSession :: "env \<Rightarrow> share_handler \<Rightarrow> share_db \<Rightarrow> string \<Rightarrow> share_error + linkSessionClaims" where
  "verifyLinkSession E H db token =
     (if \<not> prefix linkSessionPrefix token then Inl ErrLinkInvalid
      else let rest = TrimPrefix token linkSessionPrefix; payloadB64 = takeWhile ((\<noteq>) CHR ''.'') rest; dot = length payloadB64 in
        if dot = length rest \<or> dot = 0 \<or> dot = length rest - 1 then Inl ErrLinkInvalid
        else case base64_raw_url (drop (dot + 1) rest) of
          None \<Rightarrow> Inl ErrLinkInvalid
        | Some gotSig \<Rightarrow>
            if gotSig \<noteq> hmac_sha256 (linkSecret H) (linkSessionPrefix @ payloadB64) then Inl ErrLinkInvalid
            else (case base64_raw_url payloadB64 of
               None \<Rightarrow> Inl ErrLinkInvalid
             | Some payloadJSON \<Rightarrow>
                 (case Unmarshal claims_fields no_claims (sc_text H payloadJSON) of
                    None \<Rightarrow> Inl ErrLinkInvalid
                  | Some claims \<Rightarrow>
                      if lc_LinkID claims = '''' \<or> lc_Exp claims \<le> now E div 1000000000 then Inl ErrLinkInvalid
                      else (case dr_uuid E ''read link state'' (lc_LinkID claims) (\<lambda>u. dr_sql E ''read link state'' (find_link db u)) of
                         Inl _ \<Rightarrow> Inl ErrLinkInvalid
                       | Inr None \<Rightarrow> Inl ErrLinkInvalid
                       | Inr (Some l) \<Rightarrow>
                           if sl_revoked l \<noteq> None \<or> (case sl_expires l of None \<Rightarrow> False | Some t \<Rightarrow> t < now E) then Inl ErrLinkInvalid
                           else Inr claims))))"

section \<open>Resolving a link\<close>

text \<open>The statement that reads the row, and what is decided from it; the statement that counts the use runs later, on the tables of then.\<close>

definition resolve_read :: "env \<Rightarrow> share_db \<Rightarrow> string \<Rightarrow> drive_error + share_link option" where
  "resolve_read E db token = dr_sql E ''resolve link'' (find (\<lambda>l. sl_token_hash l = sha256 token) (share_links db))"

definition resolve_decide :: "env \<Rightarrow> share_handler \<Rightarrow> string \<Rightarrow> drive_error + share_link option \<Rightarrow> 'r response + share_link" where
  "resolve_decide E H password row =
     (case row of
        Inl _ \<Rightarrow> Inl (HandleError (Some NewInternal))
      | Inr None \<Rightarrow> Inl (fail ErrLinkInvalid)
      | Inr (Some l) \<Rightarrow>
          if sl_revoked l \<noteq> None \<or> (case sl_expires l of None \<Rightarrow> False | Some t \<Rightarrow> t < now E) \<or>
             (case sl_max_uses l of None \<Rightarrow> False | Some n \<Rightarrow> n \<le> sl_use_count l)
          then Inl (fail ErrLinkInvalid)
          else if sl_password l \<noteq> '''' \<and> (password = '''' \<or> \<not> bcrypt_compare H (sl_password l) password)
          then Inl (fail ErrLinkPassword)
          else Inr l)"

definition resolve_count :: "env \<Rightarrow> string \<Rightarrow> share_db \<Rightarrow> drive_error + share_db" where
  "resolve_count E i db =
     (if list_ex (\<lambda>l. sl_id l = i \<and> sl_use_count l + 1 \<ge> 2 ^ 31) (share_links db) then Inl (DriveDb ''count link use'')
      else dr_sql E ''count link use''
        (db\<lparr>share_links := map (\<lambda>l. if sl_id l = i then l\<lparr>sl_use_count := sl_use_count l + 1\<rparr> else l) (share_links db)\<rparr>))"

record resolved_link =
  rl_link_id :: string
  rl_object_type :: string
  rl_object_id :: string
  rl_capability :: string
  rl_session_token :: string
  rl_access_keys :: "string list"
  rl_expires_in :: int

text \<open>
  The body is optional and its error ignored: a body that is refused (an unknown member, a value of another kind) has still filled in what
  it could, without the removal of U+0000.
\<close>

fun decode_lenient :: "(string \<times> 'a field_decoder) list \<Rightarrow> (string \<times> json) list \<Rightarrow> 'a \<Rightarrow> 'a" where
  "decode_lenient fs [] x = x"
| "decode_lenient fs ((k, v) # kvs) x =
     decode_lenient fs kvs (case field_for fs k of None \<Rightarrow> x | Some d \<Rightarrow> (case d v x of None \<Rightarrow> x | Some x' \<Rightarrow> x'))"

definition decode_password :: "body \<Rightarrow> string" where
  "decode_password b =
     (let fs = [(''password'', into_string (\<lambda>s _. s))] in
      case decodeJSON b fs '''' removeNUL MaxRequestBodyBytes of
        Inr p \<Rightarrow> p
      | Inl _ \<Rightarrow>
          if bd_read b > MaxRequestBodyBytes then ''''
          else case bd_json b of Some (JObj kvs) \<Rightarrow> decode_lenient fs kvs '''' | _ \<Rightarrow> '''')"

definition session_of :: "env \<Rightarrow> share_link \<Rightarrow> linkSessionClaims" where
  "session_of E l = \<lparr>lc_LinkID = sl_id l, lc_ObjectType = sl_otype l, lc_ObjectID = sl_oid l, lc_WorkspaceID = sl_workspace l,
     lc_Capability = sl_capability l, lc_Exp = (now E + linkSessionTTL) div 1000000000\<rparr>"

definition ResolveLink :: "env \<Rightarrow> share_handler \<Rightarrow> caller \<Rightarrow> string \<Rightarrow> body \<Rightarrow> share_db \<Rightarrow> resolved_link share_outcome" where
  "ResolveLink E H ca token b db =
     (if token = '''' then (JSONError 400 ''BAD_REQUEST'' ''missing token'', db, [])
      else (case resolve_decide E H (decode_password b) (resolve_read E db token) of
         Inl r \<Rightarrow> (r, db, [])
       | Inr l \<Rightarrow>
           (case resolve_count E (sl_id l) db of
              Inl _ \<Rightarrow> (HandleError (Some NewInternal), db, [])
            | Inr db1 \<Rightarrow>
                (JSON 200 \<lparr>rl_link_id = sl_id l, rl_object_type = sl_otype l, rl_object_id = sl_oid l, rl_capability = sl_capability l,
                   rl_session_token = mintLinkSession H (session_of E l), rl_access_keys = [SubjectKey E (LinkSubject (sl_id l))],
                   rl_expires_in = linkSessionTTL div 1000000000\<rparr>,
                 db1, record_entry H ca (sl_workspace l) ''drive.link_resolved'' (sl_otype l) (sl_oid l) [(''link_id'', JStr (sl_id l))]))))"

section \<open>The middleware\<close>

text \<open>\<open>hdr\<close> and \<open>auth\<close> are the values of the two headers. What follows is the wrapped handler, behind the user's session or not, and with the link of the session.\<close>

datatype admission = Rejected | ThroughAuth string | Direct string

definition extractShareLinkToken :: "string \<Rightarrow> string \<Rightarrow> string \<times> bool" where
  "extractShareLinkToken hdr auth =
     (let h = TrimSpace hdr in
      if h \<noteq> '''' then (h, False)
      else if length auth > length ''Bearer '' \<and> to_lower (take (length ''Bearer '') auth) = to_lower ''Bearer ''
      then (let cand = TrimSpace (drop (length ''Bearer '') auth) in
            if prefix linkSessionPrefix cand then (cand, True) else ('''', False))
      else ('''', False))"

definition linkOrAuthMw :: "env \<Rightarrow> share_handler \<Rightarrow> share_db \<Rightarrow> string \<Rightarrow> string \<Rightarrow> admission" where
  "linkOrAuthMw E H db hdr auth =
     (let (rawLinkToken, fromBearer) = extractShareLinkToken hdr auth in
      if rawLinkToken = '''' then ThroughAuth ''''
      else case verifyLinkSession E H db rawLinkToken of
        Inl _ \<Rightarrow> if fromBearer \<or> auth = '''' then Rejected else ThroughAuth ''''
      | Inr claims \<Rightarrow> if \<not> fromBearer \<and> auth \<noteq> '''' then ThroughAuth (lc_LinkID claims) else Direct (lc_LinkID claims))"

end
