(* ===== verification/Drive_Sharing.thy ===== *)
theory Drive_Sharing
  imports Drive_Share Authz_Properties
begin

text \<open>
  What sharing promises: a share never gives more than the sharer holds, a link is confined to its object and to reading and commenting,
  a revoked link is dead for good, and a session token is accepted exactly as it was minted.
\<close>

section \<open>A grant and the decisions\<close>

lemma file_place_frame:
  "file_channel (db\<lparr>acl_grant := gs, acl_key := ks\<rparr>) f = file_channel db f"
  "file_folder (db\<lparr>acl_grant := gs, acl_key := ks\<rparr>) f = file_folder db f"
  "file_conversation (db\<lparr>acl_grant := gs, acl_key := ks\<rparr>) f = file_conversation db f"
  by (simp_all add: file_channel_def file_folder_def file_conversation_def)

lemma resolve_file_frame: "resolve_file (db\<lparr>acl_grant := gs, acl_key := ks\<rparr>) = resolve_file db"
  unfolding resolve_file_def file_place_frame ..

lemma lookup_frame:
  "WorkspaceRole E (db\<lparr>acl_grant := gs, acl_key := ks\<rparr>) w u = WorkspaceRole E db w u"
  "ChannelRole E (db\<lparr>acl_grant := gs, acl_key := ks\<rparr>) c u = ChannelRole E db c u"
  "resolve E (db\<lparr>acl_grant := gs, acl_key := ks\<rparr>) obj = resolve E db obj"
  by (simp_all add: WorkspaceRole_def ChannelRole_def resolve_def resolve_file_frame)

lemma derived_frame: "derivedCapability E (db\<lparr>acl_grant := gs, acl_key := ks\<rparr>) sub st = derivedCapability E db sub st"
  by (simp add: derivedCapability_def workspaceCapability_def channelCapability_def isWorkspaceMember_def lookup_frame cong: if_cong)

lemma grantIn_upsert:
  assumes "grantIn E db ref sub stored by1 = Inr db'"
  obtains ks where "db' = db\<lparr>acl_grant := upsert_grant \<lparr>ag_otype = obj_type ref, ag_oid = obj_id ref, ag_stype = sub_type sub, ag_sid = sub_id sub,
    ag_capability = stored, ag_granted_by = by1, ag_created_at = now E\<rparr> (acl_grant db), acl_key := ks\<rparr>"
proof -
  let ?db = "db\<lparr>acl_grant := upsert_grant \<lparr>ag_otype = obj_type ref, ag_oid = obj_id ref, ag_stype = sub_type sub, ag_sid = sub_id sub,
    ag_capability = stored, ag_granted_by = by1, ag_created_at = now E\<rparr> (acl_grant db)\<rparr>"
  obtain st where "lockObject E db ref = Inr (Some st)" and st: "rewriteSubtreeKeys E ?db (os_path st) = Inr db'"
    using assms by (auto simp: grantIn_def db_query_def result_simps split: option.splits if_splits)
  then show thesis using rewriteSubtreeKeys_result [OF st] that by auto
qed

definition same_grant :: "acl_grant_row \<Rightarrow> acl_grant_row \<Rightarrow> bool" where
  "same_grant x g \<longleftrightarrow> ag_otype g = ag_otype x \<and> ag_oid g = ag_oid x \<and> ag_stype g = ag_stype x \<and> ag_sid g = ag_sid x"

lemma upsert_grant_mem:
  "g \<in> set (upsert_grant x gs) \<Longrightarrow> g \<in> set gs \<and> \<not> same_grant x g \<or> same_grant x g \<and> ag_capability g = ag_capability x"
  "g \<in> set gs \<Longrightarrow> \<not> same_grant x g \<Longrightarrow> g \<in> set (upsert_grant x gs)"
  by (auto simp: upsert_grant_def same_grant_def Let_def split: if_splits)

lemma mem_effective:
  "(t, raw) \<in> set (effective_grants (db\<lparr>acl_grant := gs, acl_key := ks\<rparr>) sub ps b) \<longleftrightarrow>
     (\<exists>g \<in> set gs. \<exists>a \<in> set (acl_object db). t = ag_stype g \<and> raw = ag_capability g \<and>
        ao_type a = ag_otype g \<and> ao_id a = ag_oid g \<and> ao_path a \<in> set ps \<and>
        (ag_stype g = sub_type sub \<and> ag_sid g = sub_id sub \<or>
         b \<and> ag_stype g = ''workspace'' \<and> ag_sid g = ao_workspace a \<and> is_member db (ao_workspace a) (sub_id sub)))"
  by (auto simp: effective_grants_def is_member_def)

lemmas mem_effective_id = mem_effective [where gs = "acl_grant db" and ks = "acl_key db" and db = db for db, simplified]

text \<open>The rows a decision scans, after a grant \<open>x\<close> to somebody who is not a whole workspace.\<close>

lemma upsert_effective:
  assumes x: "ag_stype x \<noteq> SubjectWorkspace" "ParseCapability (ag_capability x) = Some c"
  assumes db'_def: "db' = db\<lparr>acl_grant := upsert_grant x (acl_grant db), acl_key := ks\<rparr>"
  shows "set (workspace_caps (effective_grants db' sub ps b)) = set (workspace_caps (effective_grants db sub ps b))"
    "set (direct_caps (effective_grants db' sub ps b)) \<subseteq> insert c (set (direct_caps (effective_grants db sub ps b)))"
    "ag_stype x \<noteq> sub_type sub \<or> ag_sid x \<noteq> sub_id sub \<Longrightarrow> set (effective_grants db' sub ps b) = set (effective_grants db sub ps b)"
proof -
  have W: "SubjectWorkspace = ''workspace''" by (simp add: subject_defs)
  let ?here = "\<lambda>g a. ao_type a = ag_otype g \<and> ao_id a = ag_oid g \<and> ao_path a \<in> set ps \<and>
    (ag_stype g = sub_type sub \<and> ag_sid g = sub_id sub \<or>
     b \<and> ag_stype g = ''workspace'' \<and> ag_sid g = ao_workspace a \<and> is_member db (ao_workspace a) (sub_id sub))"
  have old: "e \<in> set (effective_grants db sub ps b) \<or> ag_stype x = sub_type sub \<and> ag_sid x = sub_id sub \<and> e = (ag_stype x, ag_capability x)"
    if e: "e \<in> set (effective_grants db' sub ps b)" for e
  proof -
    obtain g a where g: "g \<in> set (upsert_grant x (acl_grant db))" "a \<in> set (acl_object db)" "e = (ag_stype g, ag_capability g)" "?here g a"
      using e unfolding db'_def by (subst (asm) prod.collapse [symmetric]) (auto simp only: mem_effective prod_eq_iff fst_conv snd_conv)
    from upsert_grant_mem(1) [OF g(1)] show ?thesis
    proof (elim disjE conjE)
      assume "g \<in> set (acl_grant db)"
      then show ?thesis using g by (auto simp: mem_effective_id)
    next
      assume "same_grant x g" "ag_capability g = ag_capability x"
      then show ?thesis using g(3,4) x(1) W by (auto simp: same_grant_def)
    qed
  qed
  have new: "e \<in> set (effective_grants db' sub ps b) \<or> ag_stype x = sub_type sub \<and> ag_sid x = sub_id sub \<and> fst e = ag_stype x"
    if e: "e \<in> set (effective_grants db sub ps b)" for e
  proof -
    obtain g a where g: "g \<in> set (acl_grant db)" "a \<in> set (acl_object db)" "e = (ag_stype g, ag_capability g)" "?here g a"
      using e by (subst (asm) prod.collapse [symmetric]) (auto simp only: mem_effective_id prod_eq_iff fst_conv snd_conv)
    show ?thesis
    proof (cases "same_grant x g")
      case True
      then show ?thesis using g(3,4) x(1) W by (auto simp: same_grant_def)
    next
      case False
      then show ?thesis using g upsert_grant_mem(2) [OF g(1) False] by (auto simp: db'_def mem_effective)
    qed
  qed
  show "set (workspace_caps (effective_grants db' sub ps b)) = set (workspace_caps (effective_grants db sub ps b))"
    using old new x(1) by (force simp: mem_workspace_caps)
  show "set (direct_caps (effective_grants db' sub ps b)) \<subseteq> insert c (set (direct_caps (effective_grants db sub ps b)))"
    using old x(2) by (force simp: mem_direct_caps)
  show "set (effective_grants db' sub ps b) = set (effective_grants db sub ps b)" if "ag_stype x \<noteq> sub_type sub \<or> ag_sid x \<noteq> sub_id sub"
    using old new that by blast
qed

lemma Max_insert_mono: "S \<subseteq> insert c T \<Longrightarrow> Max (insert (b :: capability) S) \<le> max (Max (insert b T)) c"
  using Max_mono [of "insert b S" "insert c (insert b T)"] by (auto simp: max.commute)

lemma max_le_max: "(a :: capability) \<le> max b c \<Longrightarrow> max a d \<le> max (max b d) c"
  by (auto simp: le_max_iff_disj)

lemma granted_after:
  assumes x: "ag_stype x \<noteq> SubjectWorkspace" "ParseCapability (ag_capability x) = Some c"
    and db': "db' = db\<lparr>acl_grant := upsert_grant x (acl_grant db), acl_key := ks\<rparr>"
    and g: "grantedCapability E db' sub st = Inr v'"
  obtains v where "grantedCapability E db sub st = Inr v" "v' \<le> max v c"
    "ag_stype x \<noteq> sub_type sub \<or> ag_sid x \<noteq> sub_id sub \<Longrightarrow> v' = v"
proof -
  let ?ps = "ancestorPaths (os_path st)" and ?b = "sub_type sub = SubjectUser"
  let ?rows = "effective_grants db sub ?ps ?b" and ?rows' = "effective_grants db' sub ?ps ?b"
  let ?W = "Max (insert CapNone (set (workspace_caps ?rows)))"
  let ?D = "Max (insert CapNone (set (direct_caps ?rows)))" and ?D' = "Max (insert CapNone (set (direct_caps ?rows')))"
  note u = upsert_effective [OF x db', of sub ?ps ?b]
  have D: "?D' \<le> max ?D c" by (rule Max_insert_mono [OF u(2)])
  have same: "?D' = ?D" if "ag_stype x \<noteq> sub_type sub \<or> ag_sid x \<noteq> sub_id sub"
  proof -
    have "set (direct_caps ?rows') = set (direct_caps ?rows)" using u(3) [OF that] by (auto simp: mem_direct_caps)
    then show ?thesis by simp
  qed
  have role: "workspaceCapability E db' w i = workspaceCapability E db w i" for w i
    by (simp add: workspaceCapability_def db' lookup_frame)
  have scan: "scan_grants ?rows' CapNone CapNone = (?D', ?W)" "scan_grants ?rows CapNone CapNone = (?D, ?W)"
    by (simp_all add: scan_grants_Max u(1))
  show thesis
  proof (cases "length ?ps = 0")
    case True
    then show thesis using g that [of CapNone] by (simp add: grantedCapability_def)
  next
    case False
    show thesis
    proof (cases "?W \<noteq> CapNone \<and> os_workspace st \<noteq> ''''")
      case True
      then obtain r where r: "workspaceCapability E db (os_workspace st) (sub_id sub) = Inr r" "v' = max ?D' (min ?W r)"
        and q: "\<not> db_fault E ''list effective grants''"
        using g False by (auto simp: grantedCapability_def Let_def scan role db_query_def result_simps split: if_splits)
      then have "grantedCapability E db sub st = Inr (max ?D (min ?W r))"
        using True False by (simp add: grantedCapability_def Let_def scan db_query_def)
      then show thesis by (rule that) (use r(2) D same max_le_max in auto)
    next
      case no: False
      then have v: "v' = ?D'" and q: "\<not> db_fault E ''list effective grants''"
        using g False by (auto simp: grantedCapability_def Let_def scan db_query_def result_simps split: if_splits)
      then have "grantedCapability E db sub st = Inr ?D"
        using no False by (auto simp: grantedCapability_def Let_def scan db_query_def)
      then show thesis by (rule that) (use v D same in auto)
    qed
  qed
qed

text \<open>A grant to one person or link moves nobody's capability above what was granted, and only that subject's at all.\<close>

lemma Capability_after_grant:
  assumes x: "ag_stype x \<noteq> SubjectWorkspace" "ParseCapability (ag_capability x) = Some c"
    and db': "db' = db\<lparr>acl_grant := upsert_grant x (acl_grant db), acl_key := ks\<rparr>"
    and g: "Capability E db' subject obj = Inr v'"
  obtains v where "Capability E db subject obj = Inr v" "v' \<le> max v c"
    "normalize_subject E subject \<noteq> Inr (Some \<lparr>sub_type = ag_stype x, sub_id = ag_sid x\<rparr>) \<Longrightarrow> v' = v"
proof (cases "normalize_subject E subject")
  case (Inr s0)
  then obtain r0 where r0: "normalize_object E obj = Inr r0" using g by (auto simp: Capability_def result_simps)
  show thesis
  proof (cases "s0 = None \<or> r0 = None")
    case True
    then have "v' = CapNone" "Capability E db subject obj = Inr CapNone" using g Inr r0 by (auto simp: Capability_def split: option.splits)
    then show thesis using that [of CapNone] by simp
  next
    case False
    then obtain sub ref where sr: "s0 = Some sub" "r0 = Some ref" by (cases s0; cases r0) auto
    note n = Inr [unfolded sr] r0 [unfolded sr]
    obtain st where st: "resolve E db ref = Inr st" using g n by (auto simp: Capability_def db' lookup_frame result_simps)
    show thesis
    proof (cases st)
      case None
      then have "v' = CapNone" "Capability E db subject obj = Inr CapNone" using g n st by (auto simp: Capability_def db' lookup_frame)
      then show thesis using that [of CapNone] by simp
    next
      case (Some o1)
      then obtain d where d: "derivedCapability E db sub o1 = Inr d"
        using g n st by (auto simp: Capability_def db' lookup_frame derived_frame result_simps)
      show thesis
      proof (cases "d = CapAdmin")
        case True
        then have "v' = CapAdmin" "Capability E db subject obj = Inr CapAdmin"
          using g n st Some d by (auto simp: Capability_def db' lookup_frame derived_frame)
        then show thesis using that [of CapAdmin] by simp
      next
        case False
        then obtain w' where w': "grantedCapability E db' sub o1 = Inr w'" "v' = (if d < w' then w' else d)"
          using g n st Some d by (auto simp: Capability_def db' lookup_frame derived_frame result_simps)
        obtain w where w: "grantedCapability E db sub o1 = Inr w" "w' \<le> max w c"
          "ag_stype x \<noteq> sub_type sub \<or> ag_sid x \<noteq> sub_id sub \<Longrightarrow> w' = w"
          by (rule granted_after [OF x db' w'(1)]) blast
        have "Capability E db subject obj = Inr (if d < w then w else d)"
          using n st Some d False w(1) by (simp add: Capability_def)
        then show thesis
        proof (rule that)
          show "v' \<le> max (if d < w then w else d) c" using w(2) by (auto simp: w'(2) le_max_iff_disj)
          assume "normalize_subject E subject \<noteq> Inr (Some \<lparr>sub_type = ag_stype x, sub_id = ag_sid x\<rparr>)"
          then have "w' = w" using n w(3) by (cases sub) auto
          then show "v' = (if d < w then w else d)" using w'(2) by simp
        qed
      qed
    qed
  qed
qed (use g in \<open>simp add: Capability_def\<close>)

section \<open>Sharing with people\<close>

lemma authorize_holds:
  assumes "authorize E a ca obj want = Inr got"
  shows "Implies got want" "Implies got CapRead"
    "Capability E a (UserSubject (ca_user ca)) obj = Inr got \<or> Capability E a (LinkSubject (ca_link ca)) obj = Inr got"
  using assms by (auto simp: authorize_def checked_def Implies_def result_simps split: if_splits sum.splits)

lemma Implies_le: "Implies c want \<Longrightarrow> want \<le> c"
  by (auto simp: Implies_def split: if_splits)

lemma PutShare_cases:
  assumes "PutShare E H ca objectType i b db = (resp, db', fx)"
  obtains (refused) "db' = db"
  | (granted) req c ref got a gfx where "decode_put_share b = Inr req" "ParseCapability (ps_Capability req) = Some c"
      "share_ref objectType i = Some ref" "(authorize E (sd_acl db) ca ref CapShare :: Share response + capability) = Inr got" "Implies got c"
      "isWorkspaceMember E (sd_acl db) (refWorkspace E (sd_acl db) ref) (ps_SubjectID req) = Inr True"
      "Grant_op E (sd_acl db) (UserSubject (ca_user ca)) (UserSubject (ps_SubjectID req)) ref c = (Inr (), a, gfx)" "db' = db\<lparr>sd_acl := a\<rparr>"
proof -
  note d = assms [unfolded PutShare_def]
  show thesis
  proof (cases "decode_put_share b")
    case req: (Inr req)
    show thesis
    proof (cases "ParseCapability (ps_Capability req)")
      case c: (Some c)
      show thesis
      proof (cases "shareTarget E (sd_acl db) ca objectType i CapShare :: Share response + ObjectRef \<times> capability")
        case (Inr t)
        obtain ref got where t: "t = (ref, got)" by fastforce
        note ref = Inr [unfolded t]
        show thesis
        proof (cases "Implies got c \<and> isWorkspaceMember E (sd_acl db) (refWorkspace E (sd_acl db) ref) (ps_SubjectID req) = Inr True")
          case True
          obtain r a gfx where g: "Grant_op E (sd_acl db) (UserSubject (ca_user ca)) (UserSubject (ps_SubjectID req)) ref c = (r, a, gfx)"
            by (rule prod_cases3)
          show thesis
          proof (cases r)
            case (Inl e)
            have "acl_exec (E, OpGrant (UserSubject (ca_user ca)) (UserSubject (ps_SubjectID req)) ref c) (sd_acl db) = (Inl e, a, gfx)"
              using g Inl by simp
            then have "a = sd_acl db" using acl_exec_error by blast
            then show thesis using d req c ref True g Inl refused by simp
          next
            case (Inr u)
            have "db' = db\<lparr>sd_acl := a\<rparr>" using d req c ref True g Inr by simp
            moreover have "share_ref objectType i = Some ref" "(authorize E (sd_acl db) ca ref CapShare :: Share response + capability) = Inr got"
              using ref by (auto simp: shareTarget_def result_simps split: if_splits option.splits)
            ultimately show thesis using granted req c True g Inr by (simp add: unit_eq)
          qed
        next
          case False
          then show thesis using d req c ref refused by (auto split: if_splits sum.splits)
        qed
      qed (use d req c refused in simp)
    qed (use d req refused in simp)
  qed (use d refused in simp)
qed

lemma Grant_user_upsert:
  assumes "Grant_op E db actor (UserSubject s) obj c = (Inr (), db', fx)"
  obtains x u ks where "db' = db\<lparr>acl_grant := upsert_grant x (acl_grant db), acl_key := ks\<rparr>" "ag_stype x = SubjectUser" "ag_sid x = u"
    "canonicalUUID E s = Some u" "ParseCapability (ag_capability x) = Some c"
proof -
  obtain sub ref stored by1 where n: "normalizeGrant E actor (UserSubject s) obj c = Inr (sub, ref, stored, by1)"
    and g: "grantIn E db ref sub stored by1 = Inr db'"
    by (rule Grant_op_Inr [OF assms])
  from n obtain u where u: "canonicalUUID E s = Some u" "sub = UserSubject u" "storable c = Inr stored"
    by (auto simp: normalizeGrant_def normalize_subject_def UserSubject_def result_simps split: option.splits)
  show thesis by (rule grantIn_upsert [OF g]) (rule that, assumption, use u storable_parse in \<open>auto simp: UserSubject_def\<close>)
qed

text \<open>
  C37. Sharing never escalates. When \<open>PutShare\<close> changes anything, the caller holds at least share on the object and at least the
  capability that is granted, the person it is granted to is a member of the object's workspace, and in every later decision, about any
  subject and any object, nobody has more than before or than what the caller held; only the decisions about that person change.
\<close>

theorem sharing_never_escalates:
  assumes "PutShare E H ca objectType i b db = (resp, db', fx)" "db' \<noteq> db"
  shows "\<exists>ref got u subjectID.
    share_ref objectType i = Some ref \<and> CapShare \<le> got \<and>
    (Capability E (sd_acl db) (UserSubject (ca_user ca)) ref = Inr got \<or> Capability E (sd_acl db) (LinkSubject (ca_link ca)) ref = Inr got) \<and>
    isWorkspaceMember E (sd_acl db) (refWorkspace E (sd_acl db) ref) subjectID = Inr True \<and> canonicalUUID E subjectID = Some u \<and>
    share_links db' = share_links db \<and>
    (\<forall>E2 subject obj v'. Capability E2 (sd_acl db') subject obj = Inr v' \<longrightarrow>
       (\<exists>v. Capability E2 (sd_acl db) subject obj = Inr v \<and> v' \<le> max v got \<and>
          (v' \<noteq> v \<longrightarrow> normalize_subject E2 subject = Inr (Some (UserSubject u)))))"
  using assms(1)
proof (cases rule: PutShare_cases)
  case refused
  then show ?thesis using assms(2) by simp
next
  case (granted req c ref got a gfx)
  obtain x u ks where x: "a = (sd_acl db)\<lparr>acl_grant := upsert_grant x (acl_grant (sd_acl db)), acl_key := ks\<rparr>" "ag_stype x = SubjectUser"
    "ag_sid x = u" "canonicalUUID E (ps_SubjectID req) = Some u" "ParseCapability (ag_capability x) = Some c"
    by (rule Grant_user_upsert [OF granted(7)])
  have ns: "ag_stype x \<noteq> SubjectWorkspace" "\<lparr>sub_type = ag_stype x, sub_id = ag_sid x\<rparr> = UserSubject u"
    using x(2,3) by (simp_all add: subject_defs UserSubject_def)
  have "\<exists>v. Capability E2 (sd_acl db) subject obj = Inr v \<and> v' \<le> max v got \<and>
      (v' \<noteq> v \<longrightarrow> normalize_subject E2 subject = Inr (Some (UserSubject u)))"
    if "Capability E2 (sd_acl db') subject obj = Inr v'" for E2 subject obj v'
  proof -
    have cap: "Capability E2 a subject obj = Inr v'" using that granted(8) by simp
    obtain v where "Capability E2 (sd_acl db) subject obj = Inr v" "v' \<le> max v c"
      "normalize_subject E2 subject \<noteq> Inr (Some (UserSubject u)) \<Longrightarrow> v' = v"
      by (rule Capability_after_grant [OF ns(1) x(5,1) cap, unfolded ns(2)]) blast
    then show ?thesis using Implies_le [OF granted(5)] by (auto simp: le_max_iff_disj)
  qed
  then show ?thesis
    using granted(3,6,8) x(4) authorize_holds [OF granted(4)] Implies_le [of got CapShare] by (intro exI conjI) auto
qed

definition sample_handler :: share_handler where
  "sample_handler = \<lparr>sc_audit = True, sc_revoker = True, linkSecret = ''secret'', bcrypt_generate = (\<lambda>p. Some (''#'' @ p)),
     bcrypt_compare = (\<lambda>h p. h = ''#'' @ p), sc_marshal = (\<lambda>_. ''{}''), sc_text = (\<lambda>_. Some (JObj []))\<rparr>"

definition sample_shares :: share_db where
  "sample_shares = \<lparr>sd_acl = sample_db\<lparr>acl_grant :=
     [\<lparr>ag_otype = ''folder'', ag_oid = uid CHR ''b'', ag_stype = ''user'', ag_sid = uid CHR ''2'',
       ag_capability = ''share'', ag_granted_by = None, ag_created_at = 0\<rparr>]\<rparr>, share_links = []\<rparr>"

definition share_body :: "string \<Rightarrow> string \<Rightarrow> body" where
  "share_body s c = \<lparr>bd_json = Some (JObj [(''subject_id'', JStr s), (''capability'', JStr c)]), bd_read = 100\<rparr>"

definition sample_share :: "Share share_outcome" where
  "sample_share = PutShare sample_env sample_handler \<lparr>ca_user = uid CHR ''2'', ca_link = ''''\<rparr> ''folder'' (uid CHR ''b'')
     (share_body (uid CHR ''1'') ''write'') sample_shares"

theorem sharing_never_escalates_witness:
  "fst (snd sample_share) \<noteq> sample_shares \<and>
   Capability sample_env (sd_acl (fst (snd sample_share))) (UserSubject (uid CHR ''1'')) (FolderObject (uid CHR ''b'')) = Inr CapWrite \<and>
   (\<exists>v got. Capability sample_env (sd_acl sample_shares) (UserSubject (uid CHR ''1'')) (FolderObject (uid CHR ''b'')) = Inr v \<and>
      CapShare \<le> got \<and> CapWrite \<le> max v got)"
proof -
  have p: "sample_share = (fst sample_share, fst (snd sample_share), snd (snd sample_share))" by simp
  have "length (acl_grant (sd_acl (fst (snd sample_share)))) \<noteq> length (acl_grant (sd_acl sample_shares))" by code_simp
  then have ne: "fst (snd sample_share) \<noteq> sample_shares" by metis
  have c: "Capability sample_env (sd_acl (fst (snd sample_share))) (UserSubject (uid CHR ''1'')) (FolderObject (uid CHR ''b'')) = Inr CapWrite"
    by code_simp
  show ?thesis using sharing_never_escalates [OF p [unfolded sample_share_def] ne [unfolded sample_share_def]] c ne
    unfolding sample_share_def by blast
qed

end
