(* ===== verification/Drive_Links.thy ===== *)
theory Drive_Links
  imports Drive_Sharing
begin

text \<open>
  Share links over histories of sharing requests: every grant to a link belongs to one live link and to its object, a revoked link stays
  revoked, uses are counted up to their limit, and a session token is accepted as it was minted.
\<close>

section \<open>Histories\<close>

datatype share_op =
    OpPutShare caller string string body
  | OpDeleteShare caller string string string string
  | OpCreateLink string "string option" caller string string body
  | OpRevokeLink caller string
  | OpResolveLink caller string body

fun share_step :: "env \<times> share_handler \<times> share_op \<Rightarrow> share_db \<Rightarrow> share_db" where
  "share_step (E, H, OpPutShare ca t i b) db = fst (snd (PutShare E H ca t i b db))"
| "share_step (E, H, OpDeleteShare ca t i st si) db = fst (snd (DeleteShare E H ca t i st si db))"
| "share_step (E, H, OpCreateLink newID raw ca t i b) db = fst (snd (CreateLink E H newID raw ca t i b db))"
| "share_step (E, H, OpRevokeLink ca i) db = fst (snd (RevokeLink E H ca i db))"
| "share_step (E, H, OpResolveLink ca token b) db = fst (snd (ResolveLink E H ca token b db))"

text \<open>
  What the code relies on: the uuid library and Postgres read the same text as the same uuid, and the ids Postgres generates are canonical.
\<close>

definition uuid_agree :: "env \<Rightarrow> bool" where
  "uuid_agree E \<longleftrightarrow> (\<forall>s u v. uuid_parse E s = Some u \<longrightarrow> pg_uuid E s = Some v \<longrightarrow> u = v)"

fun share_guard :: "env \<times> share_handler \<times> share_op \<Rightarrow> share_db \<Rightarrow> bool" where
  "share_guard (E, H, OpCreateLink newID raw ca t i b) db \<longleftrightarrow> env_ok E \<and> uuid_agree E \<and> uuid_shape newID"
| "share_guard (E, H, _) db \<longleftrightarrow> env_ok E \<and> uuid_agree E"

lemmas share_cases = share_guard.cases [case_names Create Put Delete Revoke Resolve]

definition grant_of :: "acl_grant_row \<Rightarrow> share_link \<Rightarrow> bool" where
  "grant_of g l \<longleftrightarrow> sl_id l = ag_sid g \<and> sl_otype l = ag_otype g \<and> sl_oid l = ag_oid g \<and> sl_capability l = ag_capability g"

definition link_ok :: "share_link \<Rightarrow> bool" where
  "link_ok l \<longleftrightarrow> uuid_shape (sl_oid l) \<and> (sl_otype l = ''file'' \<or> sl_otype l = ''folder'') \<and>
     (sl_capability l = ''read'' \<or> sl_capability l = ''comment'') \<and> 0 \<le> sl_use_count l \<and>
     (case sl_max_uses l of None \<Rightarrow> True | Some n \<Rightarrow> sl_use_count l \<le> n)"

definition link_inv :: "share_db \<Rightarrow> bool" where
  "link_inv db \<longleftrightarrow> distinct (map sl_id (share_links db)) \<and> distinct (map sl_token_hash (share_links db)) \<and>
     (\<forall>l \<in> set (share_links db). link_ok l) \<and>
     (\<forall>g \<in> set (acl_grant (sd_acl db)). ag_stype g = SubjectLink \<longrightarrow>
        (\<exists>l \<in> set (share_links db). sl_revoked l = None \<and> grant_of g l) \<and>
        (\<exists>r \<in> set (acl_object (sd_acl db)). ao_type r = ag_otype g \<and> ao_id r = ag_oid g))"

section \<open>What each request changes\<close>

lemma insert_link_result:
  assumes "insert_link E H newID w ref h c p req actor t = Inr (t1, l)"
  shows "pg_uuid E (obj_id ref) = Some (sl_oid l)" "sl_otype l = obj_type ref" "link_row_ok t l" "t1 = t\<lparr>share_links := share_links t @ [l]\<rparr>"
    "sl_revoked l = None" "sl_use_count l = 0" "sl_id l = newID" "sl_capability l = Capability_String c"
proof -
  obtain w1 o1 u where l: "pg_uuid E (obj_id ref) = Some o1"
    "l = \<lparr>sl_id = newID, sl_workspace = w1, sl_otype = obj_type ref, sl_oid = o1, sl_token_hash = h,
          sl_capability = Capability_String c, sl_password = p, sl_expires = map_option micros (cl_ExpiresAt req),
          sl_max_uses = cl_MaxUses req, sl_use_count = 0, sl_created_by = u, sl_revoked = None, sl_created_at = micros (now E)\<rparr>"
    and ok: "link_row_ok t l" "t1 = t\<lparr>share_links := share_links t @ [l]\<rparr>"
    using assms unfolding insert_link_def Let_def dr_sql_def
    by (auto dest!: dr_uuid_Inr [THEN iffD1] dr_uuid_opt_Inr simp: result_simps split: if_splits)
  show "pg_uuid E (obj_id ref) = Some (sl_oid l)" "sl_otype l = obj_type ref"
    "sl_revoked l = None" "sl_use_count l = 0" "sl_id l = newID" "sl_capability l = Capability_String c"
    using l by simp_all
  show "link_row_ok t l" "t1 = t\<lparr>share_links := share_links t @ [l]\<rparr>" by (fact ok)+
qed

lemma normalize_link:
  assumes "normalize_subject E (LinkSubject i) = Inr (Some sub)"
  obtains u where "uuid_parse E i = Some u" "sub = LinkSubject u"
  using assms by (auto simp: normalize_subject_def canonicalUUID_def LinkSubject_def result_simps split: option.splits)

lemma normalize_ref:
  assumes "normalize_object E obj = Inr (Some ref)"
  obtains o1 where "uuid_parse E (obj_id obj) = Some o1" "ref = \<lparr>obj_type = obj_type obj, obj_id = o1\<rparr>"
  using assms by (auto simp: normalize_object_def canonicalUUID_def result_simps split: option.splits)

lemma LinkSubject_sel [simp]: "sub_type (LinkSubject u) = SubjectLink" "sub_id (LinkSubject u) = u"
  by (simp_all add: LinkSubject_def)

text \<open>What a revocation inside a transaction leaves: fewer grants, and none of the subject on the object if the object is registered.\<close>

lemma revokeIn_result:
  assumes "revokeIn E db ref sub = Inr (db', st0)" "env_ok E" "uuid_shape (obj_id ref)"
  obtains gs ks where "db' = db\<lparr>acl_grant := gs, acl_key := ks\<rparr>" "set gs \<subseteq> set (acl_grant db)"
    "\<And>g r. g \<in> set gs \<Longrightarrow> ag_stype g = sub_type sub \<Longrightarrow> ag_sid g = sub_id sub \<Longrightarrow> ag_otype g = obj_type ref \<Longrightarrow> ag_oid g = obj_id ref \<Longrightarrow>
       r \<in> set (acl_object db) \<Longrightarrow> ao_type r = obj_type ref \<Longrightarrow> ao_id r \<noteq> obj_id ref"
proof -
  let ?gs = "filter (\<lambda>g. \<not> (ag_otype g = obj_type ref \<and> ag_oid g = obj_id ref \<and> ag_stype g = sub_type sub \<and> ag_sid g = sub_id sub)) (acl_grant db)"
  obtain l where l: "lockObject E db ref = Inr l" using assms(1) by (auto simp: revokeIn_def result_simps)
  have pg: "pg_uuid E (obj_id ref) = Some (obj_id ref)" using assms(2,3) unfolding env_ok_def by blast
  show thesis
  proof (cases l)
    case None
    then have same: "db' = db" using assms(1) l by (simp add: revokeIn_def)
    have "r \<in> set (acl_object db) \<Longrightarrow> ao_type r = obj_type ref \<Longrightarrow> ao_id r \<noteq> obj_id ref" for r
      using l None pg by (auto simp: lockObject_def with_uuid_def db_query_def result_simps find_None_iff split: if_splits)
    then show thesis by (intro that [where gs = "acl_grant db" and ks = "acl_key db"]) (simp_all add: same)
  next
    case (Some st)
    then have "rewriteSubtreeKeys E (db\<lparr>acl_grant := ?gs\<rparr>) (os_path st) = Inr db'"
      using assms(1) l by (auto simp: revokeIn_def db_query_def result_simps split: if_splits)
    then obtain ks where "db' = db\<lparr>acl_grant := ?gs, acl_key := ks\<rparr>" by (rule rewriteSubtreeKeys_result) auto
    then show thesis by (rule that) auto
  qed
qed

lemma create_link_tx_result:
  assumes "create_link_tx E H newID w ref h c p req actor t = Inr (t2, l)" "env_ok E" "uuid_agree E" "uuid_shape newID"
  obtains x ks where "t2 = t\<lparr>sd_acl := (sd_acl t)\<lparr>acl_grant := upsert_grant x (acl_grant (sd_acl t)), acl_key := ks\<rparr>,
      share_links := share_links t @ [l]\<rparr>" "link_row_ok t l" "grant_of x l" "ag_stype x = SubjectLink" "uuid_shape (sl_oid l)"
    "sl_revoked l = None" "sl_use_count l = 0" "sl_id l = newID"
proof -
  obtain t1 where i: "insert_link E H newID w ref h c p req actor t = Inr (t1, l)"
    and g: "share_authz t1 (\<lambda>a. GrantTx E a (UserSubject actor) (LinkSubject (sl_id l)) ref c) = Inr t2"
    using assms(1) by (auto simp: create_link_tx_def result_simps)
  note l = insert_link_result [OF i]
  from g obtain a where a: "GrantTx E (sd_acl t1) (UserSubject actor) (LinkSubject newID) ref c = Inr a" "t2 = t1\<lparr>sd_acl := a\<rparr>"
    by (auto simp: share_authz_def l(7) split: sum.splits)
  then obtain sub ref1 stored by1 where n0: "normalizeGrant E (UserSubject actor) (LinkSubject newID) ref c = Inr (sub, ref1, stored, by1)"
    "grantIn E (sd_acl t1) ref1 sub stored by1 = Inr a"
    by (auto simp: GrantTx_def result_simps)
  note ng = normalizeGrant_Inr [OF n0(1)]
  obtain o2 where o2: "uuid_parse E (obj_id ref) = Some o2" "ref1 = \<lparr>obj_type = obj_type ref, obj_id = o2\<rparr>" by (rule normalize_ref [OF ng(2)])
  have "uuid_parse E newID = Some newID" using assms(2,4) unfolding env_ok_def by blast
  then have "sub = LinkSubject newID" by (metis normalize_link [OF ng(1)] option.inject)
  with o2 ng(3) n0(2) have n: "uuid_parse E (obj_id ref) = Some o2" "storable c = Inr stored"
      "grantIn E (sd_acl t1) \<lparr>obj_type = obj_type ref, obj_id = o2\<rparr> (LinkSubject newID) stored by1 = Inr a"
    by simp_all
  have o: "o2 = sl_oid l" "uuid_shape o2" using assms(2,3) l(1) n(1) unfolding uuid_agree_def env_ok_def by blast+
  have cap: "Capability_String c = stored"
    using n(2) by (auto simp: storable_def Capability_String_def split: option.splits if_splits)
  show thesis
  proof (rule grantIn_upsert [OF n(3)])
    fix ks
    assume "a = (sd_acl t1)\<lparr>acl_grant := upsert_grant \<lparr>ag_otype = obj_type \<lparr>obj_type = obj_type ref, obj_id = o2\<rparr>,
      ag_oid = obj_id \<lparr>obj_type = obj_type ref, obj_id = o2\<rparr>, ag_stype = sub_type (LinkSubject newID), ag_sid = sub_id (LinkSubject newID),
      ag_capability = stored, ag_granted_by = by1, ag_created_at = now E\<rparr> (acl_grant (sd_acl t1)), acl_key := ks\<rparr>"
    then show thesis
      using l o cap a(2)
      by (intro that [where ks = ks and x = "\<lparr>ag_otype = obj_type ref, ag_oid = o2, ag_stype = SubjectLink, ag_sid = newID, ag_capability = stored,
        ag_granted_by = by1, ag_created_at = now E\<rparr>"]) (auto simp: grant_of_def)
  qed
qed

lemma revoke_link_tx_result:
  assumes "revoke_link_tx E linkID ref t = Inr (t2, v)" "env_ok E" "uuid_agree E" "uuid_shape (obj_id ref)"
  obtains u gs ks where "pg_uuid E linkID = Some u"
    "t2 = t\<lparr>sd_acl := (sd_acl t)\<lparr>acl_grant := gs, acl_key := ks\<rparr>, share_links := map (revoke_row E u) (share_links t)\<rparr>"
    "set gs \<subseteq> set (acl_grant (sd_acl t))"
    "\<And>g r. g \<in> set gs \<Longrightarrow> ag_stype g = SubjectLink \<Longrightarrow> ag_sid g = u \<Longrightarrow> ag_otype g = obj_type ref \<Longrightarrow> ag_oid g = obj_id ref \<Longrightarrow>
       r \<in> set (acl_object (sd_acl t)) \<Longrightarrow> ao_type r = obj_type ref \<Longrightarrow> ao_id r \<noteq> obj_id ref"
proof -
  obtain u a where u: "pg_uuid E linkID = Some u" and a: "RevokeTx E (sd_acl t) (LinkSubject linkID) ref = Inr a"
    "t2 = t\<lparr>share_links := map (revoke_row E u) (share_links t), sd_acl := a\<rparr>"
    using assms(1) by (auto simp: revoke_link_tx_def share_authz_def dr_sql_def result_simps dest!: dr_uuid_Inr [THEN iffD1] split: sum.splits if_splits)
  from a(1) obtain sub ref1 st where n: "normalizeRevoke E (LinkSubject linkID) ref = Inr (sub, ref1)" "revokeIn E (sd_acl t) ref1 sub = Inr (a, st)"
    by (auto simp: RevokeTx_def result_simps)
  have sub: "sub = LinkSubject u"
  proof (rule normalize_link [OF normalizeRevoke_Inr(1) [OF n(1)]])
    fix v
    assume v: "uuid_parse E linkID = Some v" "sub = LinkSubject v"
    have "v = u" using assms(3) v(1) u unfolding uuid_agree_def by blast
    with v(2) show ?thesis by simp
  qed
  have "uuid_parse E (obj_id ref) = Some (obj_id ref)" using assms(2,4) unfolding env_ok_def by blast
  then have ref: "ref1 = ref" by (rule_tac normalize_ref [OF normalizeRevoke_Inr(2) [OF n(1)]]) simp
  obtain gs ks where g: "a = (sd_acl t)\<lparr>acl_grant := gs, acl_key := ks\<rparr>" "set gs \<subseteq> set (acl_grant (sd_acl t))"
    "\<And>g r. g \<in> set gs \<Longrightarrow> ag_stype g = sub_type sub \<Longrightarrow> ag_sid g = sub_id sub \<Longrightarrow> ag_otype g = obj_type ref \<Longrightarrow> ag_oid g = obj_id ref \<Longrightarrow>
       r \<in> set (acl_object (sd_acl t)) \<Longrightarrow> ao_type r = obj_type ref \<Longrightarrow> ao_id r \<noteq> obj_id ref"
    by (rule revokeIn_result [OF n(2) [unfolded ref] assms(2,4)]) blast
  show thesis by (rule that [OF u, where gs = gs and ks = ks]) (use g sub a(2) in auto)
qed

text \<open>A request leaves the tables alone or leaves what its one write made of them.\<close>

lemma CreateLink_keeps:
  assumes "P db"
    "\<And>w ref h c p req r db1. WithTx E DriveDb db (create_link_tx E H newID w ref h c p req (ca_user ca)) = (r, db1) \<Longrightarrow> P db1"
  shows "P (fst (snd (CreateLink E H newID raw ca t i b db)))"
  unfolding CreateLink_def Let_def by (simp add: assms(1) split: sum.split option.split prod.split) (blast dest: assms(2))

lemma DeleteShare_keeps:
  assumes "P db"
    "\<And>subject ref r a fx. subject = UserSubject si \<or> subject = GroupSubject si \<Longrightarrow>
       Revoke E (sd_acl db) (UserSubject (ca_user ca)) subject ref = (r, a, fx) \<Longrightarrow> P (db\<lparr>sd_acl := a\<rparr>)"
  shows "P (fst (snd (DeleteShare E H ca t i st si db)))"
  unfolding DeleteShare_def by (simp add: assms(1) split: sum.split option.split prod.split) (blast intro: assms(2))

lemma RevokeLink_keeps:
  assumes "P db"
    "\<And>u l ref r db1. pg_uuid E linkID = Some u \<Longrightarrow> find_link db u = Some l \<Longrightarrow> ref = \<lparr>obj_type = sl_otype l, obj_id = sl_oid l\<rparr> \<Longrightarrow>
       WithTx E DriveDb db (revoke_link_tx E linkID ref) = (r, db1) \<Longrightarrow> P db1"
  shows "P (fst (snd (RevokeLink E H ca linkID db)))"
proof (cases "dr_uuid E ''read share link'' linkID (\<lambda>u. dr_sql E ''read share link'' (find_link db u))")
  case (Inr f)
  then obtain u where u: "pg_uuid E linkID = Some u" "f = find_link db u" by (auto dest!: dr_uuid_Inr [THEN iffD1] simp: dr_sql_def split: if_splits)
  show ?thesis
  proof (cases f)
    case (Some l)
    have f: "find_link db u = Some l" using u Some by simp
    have ref: "FolderObject (sl_oid l) = \<lparr>obj_type = sl_otype l, obj_id = sl_oid l\<rparr>" if "sl_otype l = EntryFolder"
      using that by (simp add: FolderObject_def TypeFolder_def EntryFolder_def)
    have ref2: "FileObject (sl_oid l) = \<lparr>obj_type = sl_otype l, obj_id = sl_oid l\<rparr>" if "sl_otype l = EntryFile"
      using that by (simp add: FileObject_def TypeFile_def EntryFile_def)
    note step = assms(2) [OF u(1) f refl]
    have entries: "EntryFile \<noteq> EntryFolder" by (simp add: EntryFile_def EntryFolder_def)
    consider "sl_otype l = EntryFolder" | "sl_otype l = EntryFile" | "sl_otype l \<noteq> EntryFolder" "sl_otype l \<noteq> EntryFile" by blast
    then show ?thesis
    proof cases
      case 1
      then show ?thesis unfolding RevokeLink_def using Inr Some ref [OF 1]
        by (simp add: assms(1) split: sum.split prod.split) (use step 1 in auto)
    next
      case 2
      then show ?thesis unfolding RevokeLink_def using Inr Some ref2 [OF 2] entries
        by (simp add: assms(1) split: sum.split prod.split) (use step 2 in auto)
    next
      case 3
      then show ?thesis unfolding RevokeLink_def using Inr Some by (simp add: assms(1))
    qed
  qed (use Inr in \<open>simp add: RevokeLink_def assms(1)\<close>)
qed (simp add: RevokeLink_def assms(1))

lemma ResolveLink_keeps:
  assumes "P db"
    "\<And>l db1. (resolve_decide E H (decode_password b) (resolve_read E db token) :: resolved_link response + share_link) = Inr l \<Longrightarrow>
       resolve_count E (sl_id l) db = Inr db1 \<Longrightarrow> P db1"
  shows "P (fst (snd (ResolveLink E H ca token b db)))"
  unfolding ResolveLink_def by (simp add: assms(1) split: sum.split option.split prod.split) (blast intro: assms(2))

section \<open>The invariant\<close>

definition link_dead :: "string \<Rightarrow> share_db \<Rightarrow> bool" where
  "link_dead u db \<longleftrightarrow> (\<exists>l \<in> set (share_links db). sl_id l = u \<and> sl_revoked l \<noteq> None)"

definition good_links :: "share_db \<Rightarrow> share_db \<Rightarrow> bool" where
  "good_links db db' \<longleftrightarrow> link_inv db' \<and> (\<forall>u. link_dead u db \<longrightarrow> link_dead u db')"

lemma link_invD:
  assumes "link_inv db"
  shows "distinct (map sl_id (share_links db))" "distinct (map sl_token_hash (share_links db))" "l \<in> set (share_links db) \<Longrightarrow> link_ok l"
    "g \<in> set (acl_grant (sd_acl db)) \<Longrightarrow> ag_stype g = SubjectLink \<Longrightarrow> \<exists>l \<in> set (share_links db). sl_revoked l = None \<and> grant_of g l"
    "g \<in> set (acl_grant (sd_acl db)) \<Longrightarrow> ag_stype g = SubjectLink \<Longrightarrow>
       \<exists>r \<in> set (acl_object (sd_acl db)). ao_type r = ag_otype g \<and> ao_id r = ag_oid g"
  using assms by (auto simp: link_inv_def)

lemma good_refl: "link_inv db \<Longrightarrow> good_links db db"
  by (simp add: good_links_def)

lemma good_fewer:
  assumes "link_inv db" "\<And>g. g \<in> set gs \<Longrightarrow> ag_stype g = SubjectLink \<Longrightarrow> g \<in> set (acl_grant (sd_acl db))"
  shows "good_links db (db\<lparr>sd_acl := (sd_acl db)\<lparr>acl_grant := gs, acl_key := ks\<rparr>\<rparr>)"
  using assms by (simp add: good_links_def link_inv_def link_dead_def)

lemma good_create:
  assumes "link_inv db" "link_row_ok db l" "grant_of x l" "ag_stype x = SubjectLink" "uuid_shape (sl_oid l)" "sl_revoked l = None" "sl_use_count l = 0"
  shows "good_links db (db\<lparr>sd_acl := (sd_acl db)\<lparr>acl_grant := upsert_grant x (acl_grant (sd_acl db)), acl_key := ks\<rparr>,
    share_links := share_links db @ [l]\<rparr>)"
proof -
  note inv = link_invD [OF assms(1)]
  have fresh: "sl_id l \<notin> sl_id ` set (share_links db)" "sl_token_hash l \<notin> sl_token_hash ` set (share_links db)"
    using assms(2) by (auto simp: link_row_ok_def list_all_iff)
  have "link_ok l" using assms(2,5,7) by (auto simp: link_row_ok_def link_ok_def split: option.splits)
  moreover have "(\<exists>k \<in> set (share_links db @ [l]). sl_revoked k = None \<and> grant_of g k) \<and>
      (\<exists>r \<in> set (acl_object (sd_acl db)). ao_type r = ag_otype g \<and> ao_id r = ag_oid g)"
    if g: "g \<in> set (upsert_grant x (acl_grant (sd_acl db)))" "ag_stype g = SubjectLink" for g
    using upsert_grant_mem(1) [OF g(1)]
  proof (elim disjE conjE)
    assume "g \<in> set (acl_grant (sd_acl db))"
    then show ?thesis using inv(4,5) [OF _ g(2)] by auto
  next
    assume "same_grant x g" "ag_capability g = ag_capability x"
    then have gl: "grant_of g l" using assms(3) by (simp add: grant_of_def same_grant_def)
    then have "\<exists>r \<in> set (acl_object (sd_acl db)). ao_type r = ag_otype g \<and> ao_id r = ag_oid g"
      using assms(2) by (auto simp: link_row_ok_def list_ex_iff grant_of_def)
    then show ?thesis using gl assms(6) by auto
  qed
  ultimately show ?thesis
    using inv(1,2,3) fresh by (auto simp: good_links_def link_inv_def link_dead_def)
qed

lemma revoke_row_sel [simp]:
  "sl_id (revoke_row E u l) = sl_id l" "sl_token_hash (revoke_row E u l) = sl_token_hash l" "link_ok (revoke_row E u l) = link_ok l"
  "grant_of g (revoke_row E u l) = grant_of g l" "sl_revoked l \<noteq> None \<Longrightarrow> revoke_row E u l = l" "sl_id l \<noteq> u \<Longrightarrow> revoke_row E u l = l"
  "sl_id l = u \<Longrightarrow> sl_revoked (revoke_row E u l) \<noteq> None"
  by (auto simp: revoke_row_def link_ok_def grant_of_def split: option.splits)

lemma map_revoke_row: "map sl_id (map (revoke_row E u) ls) = map sl_id ls" "map sl_token_hash (map (revoke_row E u) ls) = map sl_token_hash ls"
  by (simp_all add: comp_def)

lemma good_revoke:
  assumes "link_inv db" "l \<in> set (share_links db)" "sl_id l = u" "set gs \<subseteq> set (acl_grant (sd_acl db))"
    "\<And>g r. g \<in> set gs \<Longrightarrow> ag_stype g = SubjectLink \<Longrightarrow> ag_sid g = u \<Longrightarrow> ag_otype g = sl_otype l \<Longrightarrow> ag_oid g = sl_oid l \<Longrightarrow>
       r \<in> set (acl_object (sd_acl db)) \<Longrightarrow> ao_type r = sl_otype l \<Longrightarrow> ao_id r \<noteq> sl_oid l"
  shows "good_links db (db\<lparr>sd_acl := (sd_acl db)\<lparr>acl_grant := gs, acl_key := ks\<rparr>, share_links := map (revoke_row E u) (share_links db)\<rparr>)"
proof -
  note inv = link_invD [OF assms(1)]
  have "(\<exists>k \<in> revoke_row E u ` set (share_links db). sl_revoked k = None \<and> grant_of g k) \<and>
      (\<exists>r \<in> set (acl_object (sd_acl db)). ao_type r = ag_otype g \<and> ao_id r = ag_oid g)"
    if g: "g \<in> set gs" "ag_stype g = SubjectLink" for g
  proof -
    have old: "g \<in> set (acl_grant (sd_acl db))" using g(1) assms(4) by blast
    obtain k where k: "k \<in> set (share_links db)" "sl_revoked k = None" "grant_of g k" using inv(4) [OF old g(2)] by blast
    obtain r where r: "r \<in> set (acl_object (sd_acl db))" "ao_type r = ag_otype g" "ao_id r = ag_oid g" using inv(5) [OF old g(2)] by blast
    have "sl_id k \<noteq> u"
    proof
      assume "sl_id k = u"
      then have "k = l" using inv(1) k(1) assms(2,3) by (metis distinct_map inj_onD)
      then show False using assms(5) [OF g, of r] k(3) r assms(3) by (simp add: grant_of_def)
    qed
    then have "revoke_row E u k = k" by simp
    then show ?thesis using k r by force
  qed
  moreover have "link_dead v db \<Longrightarrow> \<exists>k \<in> revoke_row E u ` set (share_links db). sl_id k = v \<and> sl_revoked k \<noteq> None" for v
    by (force simp: link_dead_def)
  ultimately show ?thesis
    using inv(1,2,3) by (auto simp: good_links_def link_inv_def link_dead_def comp_def)
qed

definition count_row :: "string \<Rightarrow> share_link \<Rightarrow> share_link" where
  "count_row i l = (if sl_id l = i then l\<lparr>sl_use_count := sl_use_count l + 1\<rparr> else l)"

lemma count_row_sel [simp]:
  "sl_id (count_row i l) = sl_id l" "sl_token_hash (count_row i l) = sl_token_hash l" "sl_revoked (count_row i l) = sl_revoked l"
  "grant_of g (count_row i l) = grant_of g l" "sl_max_uses (count_row i l) = sl_max_uses l"
  by (auto simp: count_row_def grant_of_def)

lemma resolve_count_result:
  "resolve_count E i db = Inr db1 \<Longrightarrow> db1 = db\<lparr>share_links := map (count_row i) (share_links db)\<rparr>"
  by (auto simp: resolve_count_def dr_sql_def count_row_def [abs_def] split: if_splits)

lemma resolve_decide_Inr:
  assumes "resolve_decide E H p (resolve_read E db token) = Inr l"
  shows "l \<in> set (share_links db)" "sl_token_hash l = sha256 token" "sl_revoked l = None"
    "case sl_max_uses l of None \<Rightarrow> True | Some n \<Rightarrow> sl_use_count l < n"
    "case sl_expires l of None \<Rightarrow> True | Some t \<Rightarrow> now E \<le> t"
  using assms
  by (auto simp: resolve_decide_def resolve_read_def dr_sql_def find_Some_iff split: sum.splits option.splits if_splits)

lemma good_count:
  assumes "link_inv db" "l \<in> set (share_links db)" "case sl_max_uses l of None \<Rightarrow> True | Some n \<Rightarrow> sl_use_count l < n"
  shows "good_links db (db\<lparr>share_links := map (count_row (sl_id l)) (share_links db)\<rparr>)"
proof -
  note inv = link_invD [OF assms(1)]
  have "link_ok (count_row (sl_id l) k)" if k: "k \<in> set (share_links db)" for k
  proof (cases "sl_id k = sl_id l")
    case True
    then have "k = l" using inv(1) k assms(2) by (metis distinct_map inj_onD)
    then show ?thesis using inv(3) [OF k] assms(3) by (auto simp: count_row_def link_ok_def split: option.splits)
  qed (use inv(3) [OF k] in \<open>simp add: count_row_def\<close>)
  then show ?thesis
    using assms(1) by (auto simp: good_links_def link_inv_def link_dead_def comp_def)
qed

lemma Revoke_not_link:
  assumes "Revoke E db actor subject obj = (r, a, fx)" "subject = UserSubject si \<or> subject = GroupSubject si" "env_ok E"
  obtains gs ks where "a = db\<lparr>acl_grant := gs, acl_key := ks\<rparr>" "set gs \<subseteq> set (acl_grant db)"
proof (cases r)
  case (Inl e)
  then have "acl_exec (E, OpRevoke actor subject obj) db = (Inl e, a, fx)" using assms(1) by simp
  then have "a = db" using acl_exec_error by blast
  then show thesis by (intro that [where gs = "acl_grant db" and ks = "acl_key db"]) simp_all
next
  case (Inr v)
  then obtain sub ref st where n: "normalizeRevoke E subject obj = Inr (sub, ref)" "revokeIn E db ref sub = Inr (a, st)"
    using Revoke_Inr [of E db actor subject obj a fx] assms(1) by (metis old.unit.exhaust)
  obtain o1 where o1: "uuid_parse E (obj_id obj) = Some o1" "ref = \<lparr>obj_type = obj_type obj, obj_id = o1\<rparr>"
    by (rule normalize_ref [OF normalizeRevoke_Inr(2) [OF n(1)]])
  then have "uuid_shape (obj_id ref)" using assms(3) unfolding env_ok_def by auto
  then show thesis by (rule revokeIn_result [OF n(2) assms(3)]) (rule that)
qed

lemma find_link_mem: "find_link db u = Some l \<Longrightarrow> l \<in> set (share_links db) \<and> sl_id l = u"
  by (auto simp: find_link_def find_Some_iff)

lemma share_step_good:
  assumes inv: "link_inv db" and ok: "share_guard op db"
  shows "good_links db (share_step op db)"
proof (cases "(op, db)" rule: share_cases)
  case (Create E H newID raw ca t i b db0)
  then have E: "env_ok E" "uuid_agree E" "uuid_shape newID" using ok by simp_all
  have "good_links db (fst (snd (CreateLink E H newID raw ca t i b db)))"
  proof (rule CreateLink_keeps [where P = "good_links db", OF good_refl [OF inv]], rule WithTx_keeps [where P = "good_links db"], assumption, rule good_refl [OF inv])
    fix w ref h c p req db1 l
    assume "create_link_tx E H newID w ref h c p req (ca_user ca) db = Inr (db1, l)"
    then show "good_links db db1"
      by (rule create_link_tx_result [OF _ E]) (use good_create [OF inv] in \<open>simp only:\<close>)
  qed
  then show ?thesis using Create by simp
next
  case (Put E H ca t i b db0)
  then have E: "env_ok E" using ok by simp
  obtain resp db' fx where p: "PutShare E H ca t i b db = (resp, db', fx)" by (rule prod_cases3)
  then have "good_links db db'"
  proof (cases rule: PutShare_cases)
    case (granted req c ref got a gfx)
    obtain x u ks where x: "a = (sd_acl db)\<lparr>acl_grant := upsert_grant x (acl_grant (sd_acl db)), acl_key := ks\<rparr>" "ag_stype x = SubjectUser"
      by (rule Grant_user_upsert [OF granted(7)])
    have "g \<in> set (acl_grant (sd_acl db))" if "g \<in> set (upsert_grant x (acl_grant (sd_acl db)))" "ag_stype g = SubjectLink" for g
      using upsert_grant_mem(1) [OF that(1)] that(2) x(2) by (auto simp: same_grant_def subject_defs)
    then show ?thesis using good_fewer [OF inv] by (simp add: granted(8) x(1))
  qed (simp add: good_refl [OF inv])
  then show ?thesis using Put p by simp
next
  case (Delete E H ca t i st si db0)
  then have E: "env_ok E" using ok by simp
  have "good_links db (fst (snd (DeleteShare E H ca t i st si db)))"
  proof (rule DeleteShare_keeps [where P = "good_links db", OF good_refl [OF inv]])
    fix subject ref r a fx
    assume s: "subject = UserSubject si \<or> subject = GroupSubject si" "Revoke E (sd_acl db) (UserSubject (ca_user ca)) subject ref = (r, a, fx)"
    show "good_links db (db\<lparr>sd_acl := a\<rparr>)"
      by (rule Revoke_not_link [OF s(2,1) E]) (use good_fewer [OF inv] in blast)
  qed
  then show ?thesis using Delete by simp
next
  case (Revoke E H ca linkID db0)
  then have E: "env_ok E" "uuid_agree E" using ok by simp_all
  have "good_links db (fst (snd (RevokeLink E H ca linkID db)))"
  proof (rule RevokeLink_keeps [where P = "good_links db", OF good_refl [OF inv]], rule WithTx_keeps [where P = "good_links db"], assumption, rule good_refl [OF inv])
    fix u l ref db1 v
    assume u: "pg_uuid E linkID = Some u" and l: "find_link db u = Some l" and ref: "ref = \<lparr>obj_type = sl_otype l, obj_id = sl_oid l\<rparr>"
      and tx: "revoke_link_tx E linkID ref db = Inr (db1, v)"
    have m: "l \<in> set (share_links db)" "sl_id l = u" using find_link_mem [OF l] by auto
    then have "uuid_shape (obj_id ref)" using link_invD(3) [OF inv m(1)] by (simp add: ref link_ok_def)
    then show "good_links db db1"
    proof (rule revoke_link_tx_result [OF tx E])
      fix v gs ks
      assume "pg_uuid E linkID = Some v"
        and r: "db1 = db\<lparr>sd_acl := (sd_acl db)\<lparr>acl_grant := gs, acl_key := ks\<rparr>, share_links := map (revoke_row E v) (share_links db)\<rparr>"
          "set gs \<subseteq> set (acl_grant (sd_acl db))"
        and none: "\<And>g r. g \<in> set gs \<Longrightarrow> ag_stype g = SubjectLink \<Longrightarrow> ag_sid g = v \<Longrightarrow> ag_otype g = obj_type ref \<Longrightarrow> ag_oid g = obj_id ref \<Longrightarrow>
          r \<in> set (acl_object (sd_acl db)) \<Longrightarrow> ao_type r = obj_type ref \<Longrightarrow> ao_id r \<noteq> obj_id ref"
      then have "v = u" using u by simp
      then show ?thesis unfolding r(1) using good_revoke [OF inv m(1,2) r(2)] none by (simp add: ref)
    qed
  qed
  then show ?thesis using Revoke by simp
next
  case (Resolve E H ca token b db0)
  have "good_links db (fst (snd (ResolveLink E H ca token b db)))"
  proof (rule ResolveLink_keeps [where P = "good_links db", OF good_refl [OF inv]])
    fix l db1
    assume "(resolve_decide E H (decode_password b) (resolve_read E db token) :: resolved_link response + share_link) = Inr l"
      and c: "resolve_count E (sl_id l) db = Inr db1"
    note l = resolve_decide_Inr [OF this(1)]
    show "good_links db db1" unfolding resolve_count_result [OF c] by (rule good_count [OF inv l(1,4)])
  qed
  then show ?thesis using Resolve by simp
qed

interpretation links: guarded_machine share_step share_guard link_inv
proof
  show "link_inv (share_step op s)" if "link_inv s" "share_guard op s" for s op
    using share_step_good [OF that] by (simp add: good_links_def)
qed

lemma run_good: "link_inv db \<Longrightarrow> guarded_run share_step share_guard ops db = Some db' \<Longrightarrow> good_links db db'"
proof (induction ops arbitrary: db)
  case (Cons op ops)
  then have ok: "share_guard op db" and run: "guarded_run share_step share_guard ops (share_step op db) = Some db'" by (auto split: if_splits)
  have st: "good_links db (share_step op db)" by (rule share_step_good [OF Cons.prems(1) ok])
  then have "good_links (share_step op db) db'" using Cons.IH [OF _ run] by (simp add: good_links_def)
  with st show ?case by (simp add: good_links_def)
qed (simp add: good_refl)

section \<open>A link is confined\<close>

lemma Capability_pos:
  assumes "Capability E a subject obj = Inr v" "v \<noteq> CapNone"
  obtains sub ref st where "normalize_subject E subject = Inr (Some sub)" "normalize_object E obj = Inr (Some ref)" "resolve E a ref = Inr (Some st)"
    "bindR (derivedCapability E a sub st) (\<lambda>derived. if derived = CapAdmin then Inr CapAdmin
       else bindR (grantedCapability E a sub st) (\<lambda>granted. Inr (if derived < granted then granted else derived))) = Inr v"
proof -
  obtain s0 where s0: "normalize_subject E subject = Inr s0" using assms(1) by (auto simp: Capability_def result_simps)
  obtain r0 where r0: "normalize_object E obj = Inr r0" using assms(1) by (auto simp: Capability_def result_simps)
  have "s0 \<noteq> None" "r0 \<noteq> None" using assms s0 r0 by (auto simp: Capability_def split: option.splits)
  then obtain sub ref where sr: "s0 = Some sub" "r0 = Some ref" by auto
  obtain st0 where st0: "resolve E a ref = Inr st0" using assms(1) s0 r0 sr by (auto simp: Capability_def result_simps)
  have "st0 \<noteq> None" using assms s0 r0 sr st0 by (cases st0) (auto simp: Capability_def)
  then obtain st where st: "st0 = Some st" by auto
  show thesis by (rule that [OF s0 [unfolded sr] r0 [unfolded sr] st0 [unfolded st]]) (use assms(1) s0 r0 sr st0 st in \<open>simp add: Capability_def\<close>)
qed

lemma link_capability_from_grant:
  assumes "Capability E a (LinkSubject i) obj = Inr v" "v \<noteq> CapNone"
  obtains u ref st g r where "uuid_parse E i = Some u" "normalize_object E obj = Inr (Some ref)" "resolve E a ref = Inr (Some st)"
    "g \<in> set (acl_grant a)" "ag_stype g = SubjectLink" "ag_sid g = u" "ParseCapability (ag_capability g) = Some v"
    "r \<in> set (acl_object a)" "ao_type r = ag_otype g" "ao_id r = ag_oid g" "ao_path r \<in> set (ancestorPaths (os_path st))"
proof -
  obtain sub ref st where n: "normalize_subject E (LinkSubject i) = Inr (Some sub)" "normalize_object E obj = Inr (Some ref)"
    "resolve E a ref = Inr (Some st)"
    and d: "bindR (derivedCapability E a sub st) (\<lambda>derived. if derived = CapAdmin then Inr CapAdmin
       else bindR (grantedCapability E a sub st) (\<lambda>granted. Inr (if derived < granted then granted else derived))) = Inr v"
    by (rule Capability_pos [OF assms])
  obtain u where u: "uuid_parse E i = Some u" "sub = LinkSubject u" by (rule normalize_link [OF n(1)])
  let ?rows = "effective_grants a sub (ancestorPaths (os_path st)) False"
  have link: "SubjectLink \<noteq> SubjectUser" "SubjectLink \<noteq> SubjectWorkspace" by (simp_all add: subject_defs)
  have "c \<notin> set (workspace_caps ?rows)" for c
    using link(2) by (simp add: mem_workspace_caps mem_effective_id u(2))
  then have ws: "set (workspace_caps ?rows) = {}" by (metis all_not_in_conv)
  have "derivedCapability E a sub st = Inr CapNone" by (simp add: derivedCapability_def u(2) link)
  then have g: "grantedCapability E a sub st = Inr v"
    using d assms(2) by (auto simp: result_simps cap_defs word_gt_0 split: if_splits)
  then have "v = Max (insert CapNone (set (direct_caps ?rows)))"
    using assms(2) by (auto simp: grantedCapability_def Let_def scan_grants_Max ws [unfolded u(2)] u(2) link db_query_def result_simps split: if_splits)
  moreover have "Max (insert CapNone (set (direct_caps ?rows))) \<in> insert CapNone (set (direct_caps ?rows))" by (rule Max_in) simp_all
  ultimately have "v \<in> set (direct_caps ?rows)" using assms(2) by auto
  then obtain raw t where row: "(t, raw) \<in> set ?rows" "ParseCapability raw = Some v" by (auto simp: mem_direct_caps)
  obtain g r where gr: "g \<in> set (acl_grant a)" "r \<in> set (acl_object a)" "raw = ag_capability g" "ao_type r = ag_otype g" "ao_id r = ag_oid g"
      "ao_path r \<in> set (ancestorPaths (os_path st))" "ag_stype g = SubjectLink" "ag_sid g = u"
    using row(1) unfolding mem_effective_id by (auto simp: u(2))
  show thesis by (rule that [OF u(1) n(2,3) gr(1,7,8) _ gr(2,4,5,6)]) (use row(2) gr(3) in simp)
qed

text \<open>
  C38. A link is confined. After any history of sharing requests, each under its own faults, whatever a link session may do with whatever
  object comes from one live link: the object is the linked one or lies below it, and the capability is the link's own, read or comment.
\<close>

theorem link_confined:
  assumes "link_inv db0" "guarded_run share_step share_guard ops db0 = Some db" "Capability E (sd_acl db) (LinkSubject i) obj = Inr v" "v \<noteq> CapNone"
  shows "\<exists>l ref st r. l \<in> set (share_links db) \<and> canonicalUUID E i = Some (sl_id l) \<and> sl_revoked l = None \<and>
    ParseCapability (sl_capability l) = Some v \<and> v \<le> CapComment \<and> normalize_object E obj = Inr (Some ref) \<and> resolve E (sd_acl db) ref = Inr (Some st) \<and>
    r \<in> set (acl_object (sd_acl db)) \<and> ao_type r = sl_otype l \<and> ao_id r = sl_oid l \<and> ao_path r \<in> set (ancestorPaths (os_path st))"
proof -
  have inv: "link_inv db" by (rule links.run_inv [OF assms(1,2)])
  obtain u ref st g r where g: "uuid_parse E i = Some u" "normalize_object E obj = Inr (Some ref)" "resolve E (sd_acl db) ref = Inr (Some st)"
    "g \<in> set (acl_grant (sd_acl db))" "ag_stype g = SubjectLink" "ag_sid g = u" "ParseCapability (ag_capability g) = Some v"
    "r \<in> set (acl_object (sd_acl db))" "ao_type r = ag_otype g" "ao_id r = ag_oid g" "ao_path r \<in> set (ancestorPaths (os_path st))"
    by (rule link_capability_from_grant [OF assms(3,4)])
  obtain l where l: "l \<in> set (share_links db)" "sl_revoked l = None" "grant_of g l" using link_invD(4) [OF inv g(4,5)] by blast
  have "v = CapRead \<or> v = CapComment"
    using link_invD(3) [OF inv l(1)] l(3) g(7) parse_names by (auto simp: link_ok_def grant_of_def)
  then have "v \<le> CapComment" by (auto simp: cap_defs)
  then show ?thesis
    using g l by (intro exI [of _ l] exI [of _ ref] exI [of _ st] exI [of _ r]) (simp add: grant_of_def canonicalUUID_def)
qed

section \<open>A revoked link\<close>

lemma authorize_error: "authorize E a ca obj want = Inl r \<Longrightarrow> r \<noteq> JSON s x"
  by (auto simp: authorize_def checked_def HandleError_def result_simps split: if_splits sum.splits option.splits)

lemma fail_error [simp]: "fail e \<noteq> JSON s x"
  by (cases e rule: fail.cases) (simp_all add: HandleError_def)

lemma WithTx_unit: "WithTx E failed db f = (Inr v, db') \<Longrightarrow> \<exists>x. f db = Inr (db', x)"
  by (auto dest: WithTx_Inr)

lemma RevokeLink_done:
  assumes "RevokeLink E H ca linkID db = (JSON s v, db1, fx)"
  obtains u l x where "pg_uuid E linkID = Some u" "find_link db u = Some l"
    "revoke_link_tx E linkID \<lparr>obj_type = sl_otype l, obj_id = sl_oid l\<rparr> db = Inr (db1, x)"
proof -
  note d = assms [unfolded RevokeLink_def]
  have "linkID \<noteq> ''''" using d by (auto simp: HandleError_def)
  then obtain u l where u: "pg_uuid E linkID = Some u" "find_link db u = Some l"
    and q: "dr_uuid E ''read share link'' linkID (\<lambda>u. dr_sql E ''read share link'' (find_link db u)) = Inr (Some l)"
    using d by (auto simp: dr_uuid_def dr_sql_def split: option.splits if_splits)
  define ref where "ref = \<lparr>obj_type = sl_otype l, obj_id = sl_oid l\<rparr>"
  have entries: "EntryFile \<noteq> EntryFolder" by (simp add: EntryFile_def EntryFolder_def)
  have "(if sl_otype l = EntryFolder then Some (FolderObject (sl_oid l))
         else if sl_otype l = EntryFile then Some (FileObject (sl_oid l)) else None) = Some ref"
    using d \<open>linkID \<noteq> ''''\<close> q by (auto simp: ref_def FolderObject_def TypeFolder_def EntryFolder_def FileObject_def TypeFile_def EntryFile_def split: if_splits)
  then have "(case authorize E (sd_acl db) ca ref CapShare of Inl r \<Rightarrow> (r, db, [])
     | Inr _ \<Rightarrow> (case WithTx E DriveDb db (revoke_link_tx E linkID ref) of
          (Inl e, db1) \<Rightarrow> (fail (ShareDrive e), db1, [])
        | (Inr _, db1) \<Rightarrow> (JSON 204 (), db1,
            record_entry H ca (sl_workspace l) ''drive.link_revoked'' (sl_otype l) (sl_oid l) [(''link_id'', JStr linkID)]))) = (JSON s v, db1, fx)"
    using d \<open>linkID \<noteq> ''''\<close> q by simp
  then obtain y where "WithTx E DriveDb db (revoke_link_tx E linkID ref) = (Inr y, db1)"
    by (auto dest: authorize_error split: sum.splits prod.splits)
  then show thesis using WithTx_unit that u by (metis ref_def)
qed

lemma find_distinct: "distinct (map f xs) \<Longrightarrow> x \<in> set xs \<Longrightarrow> find (\<lambda>y. f y = f x) xs = Some x"
  by (induction xs) auto

lemma verify_live:
  assumes "verifyLinkSession E H db token = Inr c"
  obtains u l where "pg_uuid E (lc_LinkID c) = Some u" "find_link db u = Some l" "sl_revoked l = None"
  using assms by (auto simp: verifyLinkSession_def Let_def dr_sql_def dest!: dr_uuid_Inr [THEN iffD1] split: if_splits option.splits sum.splits)

lemma ResolveLink_live:
  assumes "ResolveLink E H ca token b db = (JSON s r, db1, fx)"
  obtains l where "l \<in> set (share_links db)" "sl_revoked l = None" "rl_link_id r = sl_id l" "db1 = db\<lparr>share_links := map (count_row (sl_id l)) (share_links db)\<rparr>"
proof -
  note d = assms [unfolded ResolveLink_def]
  have t: "token \<noteq> ''''" using d by auto
  obtain l where l: "(resolve_decide E H (decode_password b) (resolve_read E db token) :: resolved_link response + share_link) = Inr l"
  proof (cases "resolve_decide E H (decode_password b) (resolve_read E db token) :: resolved_link response + share_link")
    case (Inl e)
    then have "e = JSON s r" using d t by simp
    then show thesis using Inl by (auto simp: resolve_decide_def HandleError_def split: sum.splits option.splits if_splits)
  qed blast
  then obtain db2 where c: "resolve_count E (sl_id l) db = Inr db2" using d t by (auto simp: HandleError_def split: sum.splits)
  then show thesis using d t l resolve_decide_Inr [OF l] resolve_count_result [OF c] that by auto
qed

text \<open>
  C39. A revoked link is dead for good. Once \<open>RevokeLink\<close> has answered, whatever sharing requests follow: no session token of the link
  verifies, no token resolves to the link, and the link as a subject has no capability on any object.
\<close>

theorem revoked_link_stays_dead:
  assumes "link_inv db0" "env_ok E" "uuid_agree E" "RevokeLink E H ca linkID db0 = (JSON 204 (), db1, fx)"
    "guarded_run share_step share_guard ops db1 = Some db2"
  shows "\<exists>u. pg_uuid E linkID = Some u \<and>
    (\<forall>E2 H2 token c. verifyLinkSession E2 H2 db2 token = Inr c \<longrightarrow> pg_uuid E2 (lc_LinkID c) \<noteq> Some u) \<and>
    (\<forall>E2 H2 ca2 token b s r db3 fx2. ResolveLink E2 H2 ca2 token b db2 = (JSON s r, db3, fx2) \<longrightarrow> rl_link_id r \<noteq> u) \<and>
    (\<forall>E2 i obj v. canonicalUUID E2 i = Some u \<longrightarrow> Capability E2 (sd_acl db2) (LinkSubject i) obj = Inr v \<longrightarrow> v = CapNone)"
proof -
  obtain u l x where u: "pg_uuid E linkID = Some u" "find_link db0 u = Some l"
    "revoke_link_tx E linkID \<lparr>obj_type = sl_otype l, obj_id = sl_oid l\<rparr> db0 = Inr (db1, x)"
    by (rule RevokeLink_done [OF assms(4)])
  have l: "l \<in> set (share_links db0)" "sl_id l = u" using find_link_mem [OF u(2)] by auto
  have "share_step (E, H, OpRevokeLink ca linkID) db0 = db1" using assms(4) by simp
  then have inv1: "link_inv db1" using links.step_inv [OF assms(1), of "(E, H, OpRevokeLink ca linkID)"] assms(2,3) by auto
  have "uuid_shape (obj_id \<lparr>obj_type = sl_otype l, obj_id = sl_oid l\<rparr>)" using link_invD(3) [OF assms(1) l(1)] by (simp add: link_ok_def)
  then have "share_links db1 = map (revoke_row E u) (share_links db0)"
    by (rule revoke_link_tx_result [OF u(3) assms(2,3)]) (use u(1) in auto)
  then have "revoke_row E u l \<in> set (share_links db1)" using l(1) by simp
  then have "link_dead u db1" unfolding link_dead_def by (rule bexI [rotated]) (use revoke_row_sel(7) [OF l(2)] l(2) in simp)
  then have inv: "link_inv db2" and dead: "link_dead u db2" using run_good [OF inv1 assms(5)] by (auto simp: good_links_def)
  have gone: "sl_revoked k \<noteq> None" if "k \<in> set (share_links db2)" "sl_id k = u" for k
    using dead that link_invD(1) [OF inv] by (metis (mono_tags, lifting) distinct_map inj_onD link_dead_def)
  have none: "v = CapNone" if c: "canonicalUUID E2 i = Some u" "Capability E2 (sd_acl db2) (LinkSubject i) obj = Inr v" for E2 i obj v
  proof (rule ccontr)
    assume "v \<noteq> CapNone"
    then obtain u' g where g: "uuid_parse E2 i = Some u'" "g \<in> set (acl_grant (sd_acl db2))" "ag_stype g = SubjectLink" "ag_sid g = u'"
      by (rule link_capability_from_grant [OF c(2)]) blast
    obtain k where k: "k \<in> set (share_links db2)" "sl_revoked k = None" "grant_of g k" using link_invD(4) [OF inv g(2,3)] by blast
    then show False using gone [OF k(1)] g(1,4) c(1) by (simp add: grant_of_def canonicalUUID_def)
  qed
  have "pg_uuid E2 (lc_LinkID c) \<noteq> Some u" if "verifyLinkSession E2 H2 db2 token = Inr c" for E2 H2 token c
  proof (rule verify_live [OF that])
    fix w k
    assume k: "pg_uuid E2 (lc_LinkID c) = Some w" "find_link db2 w = Some k" "sl_revoked k = None"
    then have "sl_id k \<noteq> u" using gone [of k] find_link_mem [OF k(2)] by auto
    then show ?thesis using k(1) find_link_mem [OF k(2)] by simp
  qed
  moreover have "rl_link_id r \<noteq> u" if "ResolveLink E2 H2 ca2 token b db2 = (JSON s r, db3, fx2)" for E2 H2 ca2 token b s r db3 fx2
  proof (rule ResolveLink_live [OF that])
    fix k
    assume "k \<in> set (share_links db2)" "sl_revoked k = None" "rl_link_id r = sl_id k"
    then show ?thesis using gone [of k] by auto
  qed
  ultimately show ?thesis using u(1) none by blast
qed

section \<open>Counting uses\<close>

definition resolved_to :: "string \<Rightarrow> env \<times> share_handler \<times> share_op \<Rightarrow> share_db \<Rightarrow> bool" where
  "resolved_to u op db \<longleftrightarrow>
     (case op of
        (E, H, OpResolveLink ca token b) \<Rightarrow> (case fst (ResolveLink E H ca token b db) of JSON _ r \<Rightarrow> rl_link_id r = u | _ \<Rightarrow> False)
      | _ \<Rightarrow> False)"

fun resolves :: "string \<Rightarrow> (env \<times> share_handler \<times> share_op) list \<Rightarrow> share_db \<Rightarrow> int" where
  "resolves u [] db = 0"
| "resolves u (op # ops) db = (if resolved_to u op db then 1 else 0) + resolves u ops (share_step op db)"

text \<open>The row of a link after a step: the same link with the same limit, one use more exactly if the step resolved it.\<close>

definition used :: "share_link \<Rightarrow> int \<Rightarrow> share_db \<Rightarrow> bool" where
  "used l n db \<longleftrightarrow> (\<exists>k \<in> set (share_links db). sl_id k = sl_id l \<and> sl_max_uses k = sl_max_uses l \<and> sl_use_count k = sl_use_count l + n)"

lemma used_refl: "l \<in> set (share_links db) \<Longrightarrow> used l 0 db"
  by (auto simp: used_def)

lemma revoke_row_counts [simp]: "sl_max_uses (revoke_row E u l) = sl_max_uses l" "sl_use_count (revoke_row E u l) = sl_use_count l"
  by (simp_all add: revoke_row_def)

lemma share_step_used:
  assumes inv: "link_inv db" and ok: "share_guard op db" and l: "l \<in> set (share_links db)"
  shows "used l (if resolved_to (sl_id l) op db then 1 else 0) (share_step op db)"
proof (cases "(op, db)" rule: share_cases)
  case (Create E H newID raw ca t i b db0)
  then have E: "env_ok E" "uuid_agree E" "uuid_shape newID" using ok by simp_all
  have "used l 0 (fst (snd (CreateLink E H newID raw ca t i b db)))"
  proof (rule CreateLink_keeps [where P = "used l 0", OF used_refl [OF l]], rule WithTx_keeps [where P = "used l 0"], assumption, rule used_refl [OF l])
    fix w ref h c p req db1 k
    assume "create_link_tx E H newID w ref h c p req (ca_user ca) db = Inr (db1, k)"
    then show "used l 0 db1" by (rule create_link_tx_result [OF _ E]) (use l in \<open>auto simp: used_def\<close>)
  qed
  then show ?thesis using Create by (simp add: resolved_to_def)
next
  case (Put E H ca t i b db0)
  obtain resp db' fx where p: "PutShare E H ca t i b db = (resp, db', fx)" by (rule prod_cases3)
  then have "used l 0 db'" by (cases rule: PutShare_cases) (use used_refl [OF l] in \<open>auto simp: used_def\<close>)
  then show ?thesis using Put p by (simp add: resolved_to_def)
next
  case (Delete E H ca t i st si db0)
  have "used l 0 (fst (snd (DeleteShare E H ca t i st si db)))"
    by (rule DeleteShare_keeps [where P = "used l 0", OF used_refl [OF l]]) (use l in \<open>auto simp: used_def\<close>)
  then show ?thesis using Delete by (simp add: resolved_to_def)
next
  case (Revoke E H ca linkID db0)
  have rows: "share_links db1 = map (revoke_row E u) (share_links db)" if "pg_uuid E linkID = Some u" "revoke_link_tx E linkID ref db = Inr (db1, v)"
    for u ref db1 v
    using that by (auto simp: revoke_link_tx_def share_authz_def dr_sql_def dr_uuid_def result_simps split: sum.splits if_splits)
  have "used l 0 (fst (snd (RevokeLink E H ca linkID db)))"
  proof (rule RevokeLink_keeps [where P = "used l 0", OF used_refl [OF l]], rule WithTx_keeps [where P = "used l 0"], assumption, rule used_refl [OF l])
    fix u k ref db1 v
    assume "pg_uuid E linkID = Some u" "revoke_link_tx E linkID ref db = Inr (db1, v)"
    then have "revoke_row E u l \<in> set (share_links db1)" using rows l by simp
    then show "used l 0 db1" unfolding used_def by (rule bexI [rotated]) simp
  qed
  then show ?thesis using Revoke by (simp add: resolved_to_def)
next
  case (Resolve E H ca token b db0)
  obtain resp db' fx where p: "ResolveLink E H ca token b db = (resp, db', fx)" by (rule prod_cases3)
  show ?thesis
  proof (cases "\<exists>s r. resp = JSON s r")
    case True
    then obtain s r where r: "resp = JSON s r" by blast
    obtain k where k: "k \<in> set (share_links db)" "rl_link_id r = sl_id k" "db' = db\<lparr>share_links := map (count_row (sl_id k)) (share_links db)\<rparr>"
      by (rule ResolveLink_live [OF p [unfolded r]])
    have "count_row (sl_id k) l \<in> set (share_links db')" using l k(3) by simp
    then have "used l (if sl_id k = sl_id l then 1 else 0) db'"
      unfolding used_def by (rule bexI [rotated]) (simp add: count_row_def)
    then show ?thesis using Resolve p r k(2) by (simp add: resolved_to_def)
  next
    case False
    then have "db' = db" using p by (auto simp: ResolveLink_def split: if_splits sum.splits)
    then show ?thesis using Resolve p False used_refl [OF l] by (simp add: resolved_to_def split: response.split)
  qed
qed

lemma resolves_used:
  assumes "link_inv db" "guarded_run share_step share_guard ops db = Some db'" "l \<in> set (share_links db)"
  shows "used l (resolves (sl_id l) ops db) db'"
  using assms
proof (induction ops arbitrary: db l)
  case (Cons op ops)
  then have ok: "share_guard op db" and run: "guarded_run share_step share_guard ops (share_step op db) = Some db'" by (auto split: if_splits)
  obtain k where k: "k \<in> set (share_links (share_step op db))" "sl_id k = sl_id l" "sl_max_uses k = sl_max_uses l"
      "sl_use_count k = sl_use_count l + (if resolved_to (sl_id l) op db then 1 else 0)"
    using share_step_used [OF Cons.prems(1) ok Cons.prems(3)] by (auto simp: used_def)
  have "used k (resolves (sl_id k) ops (share_step op db)) db'"
    by (rule Cons.IH [OF links.step_inv [OF Cons.prems(1) ok] run k(1)])
  then show ?case using k by (auto simp: used_def)
qed (simp add: used_refl)

text \<open>
  Uses of a link. In every history of sharing requests, one request after the other, a link with a limit is resolved at most as
  often as the limit leaves, whatever fails in between.
\<close>

theorem link_uses_bounded:
  assumes "link_inv db" "guarded_run share_step share_guard ops db = Some db'" "l \<in> set (share_links db)" "sl_max_uses l = Some n"
  shows "sl_use_count l + resolves (sl_id l) ops db \<le> n"
proof -
  obtain k where k: "k \<in> set (share_links db')" "sl_max_uses k = Some n" "sl_use_count k = sl_use_count l + resolves (sl_id l) ops db"
    using resolves_used [OF assms(1-3)] assms(4) by (auto simp: used_def)
  have "link_ok k" by (rule link_invD(3) [OF links.run_inv [OF assms(1,2)] k(1)])
  then show ?thesis using k by (simp add: link_ok_def)
qed

section \<open>Session tokens\<close>

lemma takeWhile_no_dot: "CHR ''.'' \<notin> set p \<Longrightarrow> takeWhile ((\<noteq>) CHR ''.'') (p @ ''.'' @ s) = p"
  by (induction p) auto

lemma claims_fields_for:
  "field_for claims_fields ''link_id'' = Some (into_string (\<lambda>s x. x\<lparr>lc_LinkID := s\<rparr>))"
  "field_for claims_fields ''object_type'' = Some (into_string (\<lambda>s x. x\<lparr>lc_ObjectType := s\<rparr>))"
  "field_for claims_fields ''object_id'' = Some (into_string (\<lambda>s x. x\<lparr>lc_ObjectID := s\<rparr>))"
  "field_for claims_fields ''workspace_id'' = Some (into_string (\<lambda>s x. x\<lparr>lc_WorkspaceID := s\<rparr>))"
  "field_for claims_fields ''capability'' = Some (into_string (\<lambda>s x. x\<lparr>lc_Capability := s\<rparr>))"
  "field_for claims_fields ''exp'' = Some (into_int64 (\<lambda>n x. x\<lparr>lc_Exp := n\<rparr>))"
  by (simp_all add: field_for_def claims_fields_def)

lemma into_int64_JInt:
  assumes "- (2 ^ 63) \<le> n" "n < 2 ^ 63"
  shows "into_int64 put (JInt n) x = Some (put n x)"
proof -
  have digits: "list_all is_digit (dec m)" "dec m \<noteq> []" if "0 \<le> m" for m
  proof -
    show "list_all is_digit (dec m)"
      using dec_digits [OF that] by (simp add: list_all_iff is_digit_iff)
    show "dec m \<noteq> []" by (subst dec.simps) simp
  qed
  show ?thesis
  proof (cases "n < 0")
    case True
    then show ?thesis using assms digits [of "- n"] by (simp add: into_int64_def JInt_def FormatInt_def undec_dec)
  next
    case False
    then obtain x xs where x: "dec n = x # xs" using digits(2) [of n] by (cases "dec n") auto
    then have "x \<noteq> CHR ''-''" using dec_no_char(3) [of n] False by auto
    then show ?thesis using assms False digits(1) [of n] undec_dec [of n] by (simp add: into_int64_def JInt_def FormatInt_def x)
  qed
qed

lemma Unmarshal_claims:
  assumes "- (2 ^ 63) \<le> lc_Exp c" "lc_Exp c < 2 ^ 63"
  shows "Unmarshal claims_fields no_claims (Some (claims_json c)) = Some c"
  by (simp add: Unmarshal_def claims_json_def claims_fields_for into_string_def no_claims_def into_int64_JInt [OF assms])

definition live_link :: "env \<Rightarrow> share_db \<Rightarrow> string \<Rightarrow> bool" where
  "live_link E db i \<longleftrightarrow>
     (case pg_uuid E i of
        None \<Rightarrow> False
      | Some u \<Rightarrow> \<not> db_fault E ''read link state'' \<and>
          (case find_link db u of
             None \<Rightarrow> False
           | Some l \<Rightarrow> sl_revoked l = None \<and> (case sl_expires l of None \<Rightarrow> True | Some t \<Rightarrow> now E \<le> t)))"

lemma live_link_lookup:
  "(case dr_uuid E ''read link state'' i (\<lambda>u. dr_sql E ''read link state'' (find_link db u)) of
      Inl _ \<Rightarrow> Inl ErrLinkInvalid
    | Inr None \<Rightarrow> Inl ErrLinkInvalid
    | Inr (Some l) \<Rightarrow> if sl_revoked l \<noteq> None \<or> (case sl_expires l of None \<Rightarrow> False | Some t \<Rightarrow> t < now E) then Inl ErrLinkInvalid else Inr c) =
   (if live_link E db i then Inr c else Inl ErrLinkInvalid)"
  by (auto simp: live_link_def dr_uuid_def dr_sql_def split: option.splits)

lemma verify_minted:
  assumes "sc_text H (sc_marshal H (claims_json c)) = Some (claims_json c)" "sc_marshal H (claims_json c) \<noteq> ''''"
    "- (2 ^ 63) \<le> lc_Exp c" "lc_Exp c < 2 ^ 63"
  shows "verifyLinkSession E H db (mintLinkSession H c) =
      (if lc_LinkID c \<noteq> '''' \<and> now E div 1000000000 < lc_Exp c \<and> live_link E db (lc_LinkID c) then Inr c else Inl ErrLinkInvalid)"
proof -
  define p where "p = base64_raw_url_encode (sc_marshal H (claims_json c))"
  define sig where "sig = base64_raw_url_encode (hmac_sha256 (linkSecret H) (linkSessionPrefix @ p))"
  have tok: "mintLinkSession H c = linkSessionPrefix @ p @ ''.'' @ sig" by (simp add: mintLinkSession_def p_def sig_def Let_def)
  have pd: "takeWhile ((\<noteq>) CHR ''.'') (p @ ''.'' @ sig) = p" by (rule takeWhile_no_dot) (simp add: p_def raw_no_dot)
  have ne: "p \<noteq> []" "sig \<noteq> []" using assms(2) by (simp_all add: p_def sig_def raw_url_nonempty)
  have dec: "base64_raw_url p = Some (sc_marshal H (claims_json c))" "base64_raw_url sig = Some (hmac_sha256 (linkSecret H) (linkSessionPrefix @ p))"
    by (simp_all add: p_def sig_def)
  have un: "Unmarshal claims_fields no_claims (sc_text H (sc_marshal H (claims_json c))) = Some c"
    using Unmarshal_claims [OF assms(3,4)] assms(1) by simp
  have strip: "TrimPrefix (linkSessionPrefix @ r) linkSessionPrefix = r" "prefix linkSessionPrefix (linkSessionPrefix @ r)" for r
    by (simp_all add: TrimPrefix_def)
  have "drop (length p + 1) (p @ ''.'' @ sig) = sig" by simp
  then show ?thesis
    unfolding verifyLinkSession_def tok Let_def strip pd live_link_lookup using ne dec un by auto
qed

lemma verify_signed:
  assumes "verifyLinkSession E H db token = Inr c"
  shows "\<exists>payload signature. token = linkSessionPrefix @ payload @ ''.'' @ signature \<and>
      base64_raw_url signature = Some (hmac_sha256 (linkSecret H) (linkSessionPrefix @ payload)) \<and> live_link E db (lc_LinkID c)"
proof -
  have pre: "prefix linkSessionPrefix token" using assms by (rule_tac ccontr) (simp add: verifyLinkSession_def)
  then obtain r where r: "token = linkSessionPrefix @ r" by (auto simp: prefix_def)
  have strip: "TrimPrefix (linkSessionPrefix @ r) linkSessionPrefix = r" by (simp add: TrimPrefix_def)
  define p where "p = takeWhile ((\<noteq>) CHR ''.'') r"
  have v: "length p \<noteq> length r" "base64_raw_url (drop (length p + 1) r) = Some (hmac_sha256 (linkSecret H) (linkSessionPrefix @ p))"
    "live_link E db (lc_LinkID c)"
    using assms pre unfolding verifyLinkSession_def r Let_def strip p_def [symmetric] live_link_lookup
    by (auto split: if_splits option.splits)
  have "dropWhile ((\<noteq>) CHR ''.'') r \<noteq> []" using v(1) takeWhile_dropWhile_id [of "(\<noteq>) CHR ''.''" r] unfolding p_def by (metis append_Nil2)
  then obtain x rest where d: "dropWhile ((\<noteq>) CHR ''.'') r = x # rest" by (meson neq_Nil_conv)
  then have "x = CHR ''.''" using hd_dropWhile [of "(\<noteq>) CHR ''.''" r] by auto
  then have "r = p @ ''.'' @ rest" using takeWhile_dropWhile_id [of "(\<noteq>) CHR ''.''" r] d by (metis append_Cons append_Nil p_def)
  then obtain sig where sig: "r = p @ ''.'' @ sig" by blast
  then have "drop (length p + 1) r = sig" by simp
  then show ?thesis using r sig v by auto
qed

text \<open>
  C40. Session tokens. The token minted for some claims is accepted, and gives these claims back, exactly as long as the session has not
  run out and the link is neither revoked nor expired; and a token is accepted only with the HMAC of its payload under the server's secret.
\<close>

theorem link_session_round_trip:
  assumes "sc_text H (sc_marshal H (claims_json c)) = Some (claims_json c)" "sc_marshal H (claims_json c) \<noteq> ''''"
    "- (2 ^ 63) \<le> lc_Exp c" "lc_Exp c < 2 ^ 63"
  shows "verifyLinkSession E H db (mintLinkSession H c) =
      (if lc_LinkID c \<noteq> '''' \<and> now E div 1000000000 < lc_Exp c \<and> live_link E db (lc_LinkID c) then Inr c else Inl ErrLinkInvalid) \<and>
    (\<forall>token c'. verifyLinkSession E H db token = Inr c' \<longrightarrow>
       (\<exists>payload signature. token = linkSessionPrefix @ payload @ ''.'' @ signature \<and>
          base64_raw_url signature = Some (hmac_sha256 (linkSecret H) (linkSessionPrefix @ payload)) \<and> live_link E db (lc_LinkID c')))"
  using verify_minted [OF assms] verify_signed by blast

section \<open>Concrete links\<close>

definition sample_link :: "string \<Rightarrow> int option \<Rightarrow> share_link" where
  "sample_link h n = \<lparr>sl_id = uid CHR ''7'', sl_workspace = uid CHR ''a'', sl_otype = ''folder'', sl_oid = uid CHR ''b'', sl_token_hash = h,
     sl_capability = ''read'', sl_password = '''', sl_expires = None, sl_max_uses = n, sl_use_count = 0, sl_created_by = None, sl_revoked = None,
     sl_created_at = 0\<rparr>"

definition link_grant :: acl_grant_row where
  "link_grant = \<lparr>ag_otype = ''folder'', ag_oid = uid CHR ''b'', ag_stype = ''link'', ag_sid = uid CHR ''7'', ag_capability = ''read'',
     ag_granted_by = None, ag_created_at = 0\<rparr>"

definition sample_links :: "string \<Rightarrow> int option \<Rightarrow> share_db" where
  "sample_links h n = \<lparr>sd_acl = (sd_acl sample_shares)\<lparr>acl_grant := link_grant # acl_grant (sd_acl sample_shares)\<rparr>, share_links = [sample_link h n]\<rparr>"

definition owner :: caller where
  "owner = \<lparr>ca_user = uid CHR ''2'', ca_link = ''''\<rparr>"

definition share_op1 :: "env \<times> share_handler \<times> share_op" where
  "share_op1 = (sample_env, sample_handler, OpPutShare owner ''folder'' (uid CHR ''b'') (share_body (uid CHR ''1'') ''write''))"

lemma sample_agree: "uuid_agree sample_env"
  by (simp add: uuid_agree_def sample_env_def)

lemma sample_links_inv: "case n of None \<Rightarrow> True | Some k \<Rightarrow> 0 \<le> k \<Longrightarrow> link_inv (sample_links h n)"
proof -
  have "uuid_shape (uid CHR ''b'')" by code_simp
  moreover have "\<exists>r \<in> set (acl_object sample_db). ao_type r = ''folder'' \<and> ao_id r = uid CHR ''b''" by code_simp
  ultimately show "case n of None \<Rightarrow> True | Some k \<Rightarrow> 0 \<le> k \<Longrightarrow> link_inv (sample_links h n)"
    by (cases n) (simp_all add: link_inv_def sample_links_def sample_shares_def link_ok_def sample_link_def link_grant_def grant_of_def subject_defs)
qed

lemma sample_run: "guarded_run share_step share_guard [share_op1] db = Some (share_step share_op1 db)"
  by (simp add: share_op1_def sample_env_ok sample_agree)

theorem link_confined_witness:
  "Capability sample_env (sd_acl (share_step share_op1 (sample_links ''h'' None))) (LinkSubject (uid CHR ''7'')) \<lparr>obj_type = ''doc'', obj_id = uid CHR ''d''\<rparr> =
     Inr CapRead \<and>
   (\<exists>l st r. l \<in> set (share_links (share_step share_op1 (sample_links ''h'' None))) \<and> sl_revoked l = None \<and> CapRead \<le> CapComment \<and>
      resolve sample_env (sd_acl (share_step share_op1 (sample_links ''h'' None))) \<lparr>obj_type = ''doc'', obj_id = uid CHR ''d''\<rparr> = Inr (Some st) \<and>
      r \<in> set (acl_object (sd_acl (share_step share_op1 (sample_links ''h'' None)))) \<and>
      ao_id r = sl_oid l \<and> ao_path r \<in> set (ancestorPaths (os_path st)))"
proof -
  have c: "Capability sample_env (sd_acl (share_step share_op1 (sample_links ''h'' None))) (LinkSubject (uid CHR ''7''))
      \<lparr>obj_type = ''doc'', obj_id = uid CHR ''d''\<rparr> = Inr CapRead" by code_simp
  have ne: "CapRead \<noteq> CapNone" by (simp add: cap_defs)
  have n: "normalize_object sample_env \<lparr>obj_type = ''doc'', obj_id = uid CHR ''d''\<rparr> = Inr (Some \<lparr>obj_type = ''doc'', obj_id = uid CHR ''d''\<rparr>)"
    by code_simp
  have inv: "link_inv (sample_links ''h'' None)" by (rule sample_links_inv) simp
  obtain l ref st r where x: "l \<in> set (share_links (share_step share_op1 (sample_links ''h'' None)))" "sl_revoked l = None" "CapRead \<le> CapComment"
      "normalize_object sample_env \<lparr>obj_type = ''doc'', obj_id = uid CHR ''d''\<rparr> = Inr (Some ref)"
      "resolve sample_env (sd_acl (share_step share_op1 (sample_links ''h'' None))) ref = Inr (Some st)"
      "r \<in> set (acl_object (sd_acl (share_step share_op1 (sample_links ''h'' None))))"
      "ao_id r = sl_oid l" "ao_path r \<in> set (ancestorPaths (os_path st))"
    using link_confined [OF inv sample_run c ne] by blast
  then have "ref = \<lparr>obj_type = ''doc'', obj_id = uid CHR ''d''\<rparr>" using n by simp
  with c x show ?thesis by blast
qed

definition sample_revoke :: "unit share_outcome" where
  "sample_revoke = RevokeLink sample_env sample_handler owner (uid CHR ''7'') (sample_links ''h'' None)"

theorem revoked_link_stays_dead_witness:
  "fst sample_revoke = JSON 204 () \<and>
   Capability sample_env (sd_acl (share_step share_op1 (fst (snd sample_revoke)))) (LinkSubject (uid CHR ''7'')) (FolderObject (uid CHR ''b'')) = Inr CapNone"
proof -
  have a: "fst sample_revoke = JSON 204 ()" by code_simp
  then have p: "RevokeLink sample_env sample_handler owner (uid CHR ''7'') (sample_links ''h'' None) =
      (JSON 204 (), fst (snd sample_revoke), snd (snd sample_revoke))"
    by (metis sample_revoke_def prod.collapse)
  have inv: "link_inv (sample_links ''h'' None)" by (rule sample_links_inv) simp
  have u: "pg_uuid sample_env (uid CHR ''7'') = Some (uid CHR ''7'')" "canonicalUUID sample_env (uid CHR ''7'') = Some (uid CHR ''7'')" by code_simp+
  obtain v where v: "Capability sample_env (sd_acl (share_step share_op1 (fst (snd sample_revoke)))) (LinkSubject (uid CHR ''7''))
      (FolderObject (uid CHR ''b'')) = Inr v"
  proof -
    have "\<not> isl (Capability sample_env (sd_acl (share_step share_op1 (fst (snd sample_revoke)))) (LinkSubject (uid CHR ''7'')) (FolderObject (uid CHR ''b'')))"
      by code_simp
    then show thesis using that by (metis sum.collapse(2))
  qed
  have "v = CapNone"
    using revoked_link_stays_dead [OF inv sample_env_ok(1) sample_agree p sample_run] u v by (metis option.inject)
  then show ?thesis using a v by simp
qed

definition resolve_op1 :: "env \<times> share_handler \<times> share_op" where
  "resolve_op1 = (sample_env, sample_handler, OpResolveLink \<lparr>ca_user = '''', ca_link = ''''\<rparr> ''t'' \<lparr>bd_json = None, bd_read = 0\<rparr>)"

lemma resolve_op1_resolves: "resolves (uid CHR ''7'') [resolve_op1] (sample_links (sha256 ''t'') (Some 1)) = 1"
proof -
  have "decode_password \<lparr>bd_json = None, bd_read = 0\<rparr> = ''''" by (simp add: decode_password_def decodeJSON_def MaxRequestBodyBytes_def)
  then show ?thesis
    by (simp add: resolve_op1_def resolved_to_def ResolveLink_def resolve_read_def resolve_decide_def resolve_count_def dr_sql_def sample_links_def
        sample_link_def sample_env_def)
qed

theorem link_uses_bounded_witness:
  "resolves (uid CHR ''7'') [resolve_op1] (sample_links (sha256 ''t'') (Some 1)) = 1 \<and>
   resolves (uid CHR ''7'') [resolve_op1] (sample_links (sha256 ''t'') (Some 1)) \<le> 1"
proof -
  have inv: "link_inv (sample_links (sha256 ''t'') (Some 1))" by (rule sample_links_inv) simp
  have run: "guarded_run share_step share_guard [resolve_op1] (sample_links (sha256 ''t'') (Some 1)) =
      Some (share_step resolve_op1 (sample_links (sha256 ''t'') (Some 1)))"
    by (simp add: resolve_op1_def sample_env_ok sample_agree)
  have l: "sample_link (sha256 ''t'') (Some 1) \<in> set (share_links (sample_links (sha256 ''t'') (Some 1)))" by (simp add: sample_links_def)
  show ?thesis using link_uses_bounded [OF inv run l] resolve_op1_resolves by (simp add: sample_link_def)
qed

text \<open>
  The same is not true of requests that overlap: the use is counted by a statement of its own, which does not look at the limit again.
  Two requests that both read the row before either counts are both admitted on a link for one use.
\<close>

lemma overlapping_uses_exceed:
  "(resolve_decide sample_env sample_handler '''' (resolve_read sample_env (sample_links (sha256 ''t'') (Some 1)) ''t'') :: resolved_link response + share_link) =
     Inr (sample_link (sha256 ''t'') (Some 1)) \<and>
   (\<exists>db1 db2. resolve_count sample_env (uid CHR ''7'') (sample_links (sha256 ''t'') (Some 1)) = Inr db1 \<and>
      resolve_count sample_env (uid CHR ''7'') db1 = Inr db2 \<and> map sl_use_count (share_links db2) = [2] \<and> map sl_max_uses (share_links db2) = [Some 1])"
  by (simp add: resolve_decide_def resolve_read_def resolve_count_def dr_sql_def sample_links_def sample_link_def sample_env_def)

definition sample_claims :: linkSessionClaims where
  "sample_claims = session_of sample_env (sample_link ''h'' None)"

definition claims_handler :: share_handler where
  "claims_handler = sample_handler\<lparr>sc_text := \<lambda>_. Some (claims_json sample_claims)\<rparr>"

theorem link_session_round_trip_witness:
  "verifyLinkSession sample_env claims_handler (sample_links ''h'' None) (mintLinkSession claims_handler sample_claims) = Inr sample_claims"
proof -
  have h: "sc_text claims_handler (sc_marshal claims_handler (claims_json sample_claims)) = Some (claims_json sample_claims)"
    "sc_marshal claims_handler (claims_json sample_claims) \<noteq> ''''" by (simp_all add: claims_handler_def sample_handler_def)
  have e: "- (2 ^ 63) \<le> lc_Exp sample_claims" "lc_Exp sample_claims < 2 ^ 63" by code_simp+
  have "lc_LinkID sample_claims \<noteq> ''''" "now sample_env div 1000000000 < lc_Exp sample_claims"
    "live_link sample_env (sample_links ''h'' None) (lc_LinkID sample_claims)" by code_simp+
  then show ?thesis using link_session_round_trip [OF h e, of sample_env "sample_links ''h'' None"] by simp
qed

end
