(* ===== verification/Spec2Isabelle.thy ===== *)
theory Spec2Isabelle
  imports SO_Prelude Authz_Object Authz_Schema Authz_Lookup Authz_Checker Authz_ListPath Authz_Mutation Authz_Invariant
    Authz_Move Authz_Machine Authz_Effects Authz_Properties Authz_Hierarchy Authz_Rebuild Issue_Rank Issue_Board Issue_Order
    Go_Text Go_Hash Audit_Chain Audit_Service Audit_Verify Audit_Invariant Audit_Properties Audit_Buffer
    Go_Json Ws_Client Ws_Hub Ws_Inbound Ws_Invariant Ws_Properties Collab_Log Collab_Invariant Collab_Properties
    Go_Base64 Go_Time Http_Util Http_Page Collab_Service Collab_Session Drive_Quota Drive_Tree Drive_Registry Drive_Trash Drive_List
    Drive_Invariant Drive_Properties Go_Hmac Drive_Share Drive_Sharing Drive_Links
begin

text \<open>
  SuperOps, the Go backend of a team workspace (chat, issues, Drive, collaborative documents): a shallow embedding of the packages that
  carry its own logic, and the theorems that make them correct. Paths below are relative to \<open>backend/\<close>.

  \<^bold>\<open>The parts and how they interact.\<close> Every request ends in the authorization checker (\<open>internal/authz\<close>): it decides what a user may do
  with an object from membership tables, grants and materialized paths. Issues (\<open>internal/issue\<close>) and Drive (\<open>internal/drive\<close>) register
  their objects there inside their own transactions. Drive also charges the storage ledger (\<open>internal/quota\<close>). Documents
  (\<open>internal/collab\<close>) are append-only logs; their updates arrive over WebSocket rooms (\<open>internal/ws\<close>), are authorized by the checker,
  committed to the log and sent to the room on every replica. A revocation travels from the checker through the hub to the sockets.
  Sensitive operations write the hash-chained audit log (\<open>internal/audit\<close>). Handlers share errors, bodies and cursors
  (\<open>pkg/httputil\<close>).

  \<^bold>\<open>Conventions.\<close> A Go pair (value, error) is a value of a sum type, \<open>Inl\<close> the error (\<open>bindR\<close> in \<open>SO_Prelude\<close>); a transaction is a function
  on the tables that \<open>WithTx\<close> commits or discards. A table is a list of rows (a \<open>record\<close> per row), a query is a filter or a lookup on it;
  constraints the code relies on are checked by the insert that they guard. Each statement that can fail has a label, and the field
  \<open>db_fault\<close> of \<open>env\<close> says which labels fail in a run, so that a theorem about every \<open>env\<close> is a theorem about every pattern of failures.
  Histories are lists of operations, each with its own \<open>env\<close>; the locale \<open>guarded_machine\<close> (\<open>SO_Prelude\<close>) turns step-wise preservation
  into an invariant of all histories and is interpreted on the permission tables, the audit log, the hub, the collaboration log and the share links.

  \<^bold>\<open>Theories and sources.\<close>
  \<^item> Standard library: \<open>Go_Text\<close> (decimal, hexadecimal, quoting), \<open>Go_Hash\<close> (SHA-256 itself), \<open>Go_Hmac\<close>, \<open>Go_Base64\<close>, \<open>Go_Time\<close>
    (RFC 3339 rendering and parsing), \<open>Go_Json\<close> (decoding into structs at the level of JSON values).
  \<^item> \<open>Http_Util\<close>, \<open>Http_Page\<close>: \<open>pkg/httputil\<close>, errors, bounded bodies, path identifiers, cursors.
  \<^item> \<open>Authz_Object\<close>: \<open>authz/object.go\<close>; \<open>Authz_Schema\<close>: the tables and views of migrations 002 to 055; \<open>Authz_Lookup\<close>:
    \<open>authz/authz.go\<close>; \<open>Authz_Checker\<close>, \<open>Authz_Mutation\<close>: \<open>authz/checker.go\<close>; \<open>Authz_Rebuild\<close>: \<open>authz/rebuild.go\<close>.
    \<open>Authz_Invariant\<close>, \<open>Authz_Move\<close>, \<open>Authz_Machine\<close>: the keys are exact and paths consistent after every history in which \<open>Register\<close>
    is used for new objects and for ones without descendants, under parents that need no materialization.
    \<open>Authz_ListPath\<close>: the list path agrees with the decision path. \<open>Authz_Effects\<close>, \<open>Authz_Properties\<close>, \<open>Authz_Hierarchy\<close>: what each
    mutation does to decisions, errors leave no trace, faults never become answers, moves.
  \<^item> \<open>Issue_Rank\<close>: \<open>issue/rank.go\<close>, the order of a board by strings over 62 digits; \<open>Issue_Board\<close>: \<open>issue/repository.go\<close>;
    \<open>Issue_Order\<close>: drops, renormalisation and pages.
  \<^item> \<open>Audit_Chain\<close>, \<open>Audit_Service\<close>, \<open>Audit_Verify\<close>, \<open>Audit_Buffer\<close>: \<open>audit/chain.go\<close>, \<open>service.go\<close>, \<open>verify.go\<close>, \<open>buffer.go\<close>;
    \<open>Audit_Invariant\<close>, \<open>Audit_Properties\<close>: an honest log verifies, damage is reported where it is, anchors move only for clean chains
    and do move for those that one walk covers.
  \<^item> \<open>Ws_Client\<close>, \<open>Ws_Inbound\<close>, \<open>Ws_Hub\<close>: \<open>ws/client.go\<close>, \<open>protocol.go\<close>, \<open>ratelimit.go\<close>, \<open>hub.go\<close>, \<open>bridge.go\<close>, \<open>relay.go\<close>,
    \<open>room.go\<close>; \<open>Ws_Invariant\<close>, \<open>Ws_Properties\<close>: buffers, budgets and registry over every history, delivery and revocation
    across replicas.
  \<^item> \<open>Collab_Log\<close>: \<open>collab/repository.go\<close>, \<open>repair.go\<close>; \<open>Collab_Service\<close>: \<open>authorizer.go\<close>, \<open>service.go\<close>, \<open>handler.go\<close>;
    \<open>Collab_Invariant\<close>, \<open>Collab_Properties\<close>, \<open>Collab_Session\<close>: the log is gap-free, acknowledged updates survive, a client catches up,
    and no request has an effect the checker did not allow.
  \<^item> \<open>Drive_Quota\<close>: \<open>quota/quota.go\<close> and Drive's tables; \<open>Drive_Tree\<close>, \<open>Drive_Trash\<close>, \<open>Drive_List\<close>, \<open>Drive_Registry\<close>:
    \<open>drive/repository.go\<close>, \<open>mutations.go\<close>, \<open>upload.go\<close>, \<open>versions.go\<close>, \<open>trash.go\<close>, \<open>registry/registry.go\<close>, \<open>kinds.go\<close>;
    \<open>Drive_Invariant\<close>, \<open>Drive_Properties\<close>: the ledger is exact after every history and the quota is a bound; \<open>Drive_List\<close> also shows
    that the pages of a folder are its contents. \<open>Drive_Share\<close>: \<open>drive/sharing.go\<close> with \<open>authorize\<close>, \<open>fail\<close> and \<open>record\<close> of
    \<open>handler.go\<close>; \<open>Drive_Sharing\<close>, \<open>Drive_Links\<close>: a share never gives more than the sharer holds, a link is confined to its object
    and dead once revoked, a session token is accepted as it was minted.

  \<^bold>\<open>Abstract specifications.\<close> The capability of a native object and of a channel is given by closed formulas over the grants
  (\<open>native_capability\<close>, \<open>channel_capability\<close>) which the loops of the checker refine; the permission keys are specified by the views of the
  schema; the storage ledger by the sum of the sizes of the stored versions; a listing by its sorted contents; the buffer by a
  conservation law; hashing by the contract \<open>hash_function\<close>, interpreted on SHA-256.

  \<^bold>\<open>Loops and fuel.\<close> Recursion that is not structural has a termination proof (\<open>between_loop\<close>, \<open>renorm_width\<close>, \<open>sha_blocks\<close>, \<open>dec\<close>,
  \<open>bad_loop\<close>, \<open>TrimLeft\<close>, \<open>TrimRight\<close>). The rounds of a purge are the bound of the source, \<open>MaxFolderDepth\<close> + 2. The clients that page
  (\<open>catch_up\<close>, \<open>follow_pages\<close>, and the pages of a board) are given fuel, and their theorems say how much is enough: one request per
  missing update or per item. The workers of the buffer are an interleaving step relation, and \<open>close_drains\<close> shows that they can finish.

  \<^bold>\<open>Parameters.\<close> Parsing of uuids (\<open>github.com/google/uuid\<close>) and the text Postgres gives back for a uuid, jsonb or inet value, with their
  laws as named hypotheses (\<open>env_ok\<close>, and the ones of the audit environment); marshalling of audit metadata; the answer of a
  sink; password hashing (\<open>golang.org/x/crypto/bcrypt\<close>) and the text of a JSON value in the payload of a link session. Generated ids and clocks are arguments of the operations. Iteration over a Go map happens in the
  order of the list that represents it; the statements that matter hold for every such list.

  \<^bold>\<open>Widths.\<close> Capabilities are 8-bit words, the state of SHA-256 32-bit words. Sizes, sequence numbers and times are \<open>int\<close>: they come from
  \<open>bigint\<close> columns whose overflow is a database error the code never gets near. Times of the audit log are stored at the microseconds of
  \<open>timestamptz\<close>. The tokens of the limiter are rationals where Go has
  \<open>float64\<close>.

  \<^bold>\<open>Concurrency.\<close> A step of the hub is atomic, as its mutex makes it, and a transaction is atomic, as its row locks make it. Where the
  source runs several statements outside a transaction (a load of the collaboration log, a run of \<open>Anchor\<close>), each statement of the model
  sees its own state; in a history of the audit log what an anchor run read may be any earlier state. A hub may start its bridges at any
  point of a history. What NATS does with a published message is a parameter (\<open>network\<close> in \<open>Ws_Properties\<close>): each replica gets it at most
  once, after whatever it did in the meantime, or never. The interleaving of the buffer's goroutines is explicit, and so is that of two resolutions of a share link, whose
  check and count are separate statements (\<open>overlapping_uses_exceed\<close>).

  \<^bold>\<open>Not modelled.\<close> Socket and object-storage I/O, multipart decoding, HTTP routing, logging and metrics; content sniffing and thumbnails;
  the packages that are thin handlers over one table or over third-party services (login, single sign-on, media, push, search, mail
  transport), the worker's schedule and the process wiring; \<open>updated_at\<close> columns, which no modelled code reads. The TypeScript client is
  outside the development.
\<close>

end
